(* ===== verification/Prelude.thy ===== *)
theory Prelude
  imports Main "HOL-Library.Word" "HOL-Library.Monad_Syntax"
begin

text \<open>
  Shared vocabulary of the development: the machine integers of the IOP (a 32-bit
  little-endian MIPS), its byte-addressed memory with the two block operations the code
  uses on it (reading a run of bytes, storing a run of bytes), the laws that say how
  stores compose and what they leave alone, and runs of 2048-byte disc sectors.
  Addresses are 32-bit words, so every law holds for buffers that wrap around the
  address space as well.
\<close>

unbundle bit_operations_syntax

type_synonym u8 = "8 word"
type_synonym u16 = "16 word"
type_synonym u32 = "32 word"
type_synonym mem = "u32 \<Rightarrow> u8"

named_theorems mem_simps \<open>laws of the byte-addressed memory\<close>
named_theorems word_arith \<open>unsigned readings of bounded word arithmetic\<close>

section \<open>Bounded word arithmetic\<close>

text \<open>
  Most of the code's counters stay far below their width. These laws read a word
  operation as the operation on naturals when its result fits.
\<close>

lemma unat_of_nat_u32 [word_arith]: "n < 2 ^ 32 \<Longrightarrow> unat (of_nat n :: u32) = n"
  by (simp add: unat_of_nat take_bit_nat_eq_self)

lemma unat_of_nat_u16 [word_arith]: "n < 2 ^ 16 \<Longrightarrow> unat (of_nat n :: u16) = n"
  by (simp add: unat_of_nat take_bit_nat_eq_self)

lemma unat_add_le [word_arith]:
  fixes x y :: "'a::len word"
  shows "unat x + unat y < 2 ^ LENGTH('a) \<Longrightarrow> unat (x + y) = unat x + unat y"
  by (simp add: unat_word_ariths)

lemma unat_mult_le [word_arith]:
  fixes x y :: "'a::len word"
  shows "unat x * unat y < 2 ^ LENGTH('a) \<Longrightarrow> unat (x * y) = unat x * unat y"
  by (simp add: unat_word_ariths)

lemma unat_sub_le [word_arith]:
  fixes x y :: "'a::len word"
  shows "y \<le> x \<Longrightarrow> unat (x - y) = unat x - unat y"
  by (rule unat_sub)

lemma unat_sub_wrap:
  fixes d e :: u32
  shows "unat (d - e) = (if unat e \<le> unat d then unat d - unat e else unat d + 2 ^ 32 - unat e)"
  by (simp add: unat_sub_if_size word_size)

lemma of_nat_unat_add:
  fixes x :: "'a::len word"
  shows "x + of_nat (unat y) = x + y"
  by simp

lemma unat_ucast_u16 [word_arith]: "unat (x :: u32) < 2 ^ 16 \<Longrightarrow> unat (ucast x :: u16) = unat x"
  by (simp add: unsigned_ucast_eq take_bit_nat_eq_self)

lemma unat_ucast_up [simp]:
  "unat (ucast (x :: u16) :: u32) = unat x" "unat (ucast (y :: u8) :: u32) = unat y"
  "unat (ucast (y :: u8) :: u16) = unat y"
proof -
  have "unat x < 2 ^ LENGTH(16)" "unat y < 2 ^ LENGTH(8)" by (rule unsigned_less)+
  then have "unat x < 4294967296" "unat y < 4294967296" "unat y < 65536" by simp_all
  then show "unat (ucast x :: u32) = unat x" "unat (ucast y :: u32) = unat y"
    "unat (ucast y :: u16) = unat y"
    by (simp_all add: unsigned_ucast_eq take_bit_nat_eq_self)
qed

lemma push_bit_11_eq: "push_bit 11 (x :: u32) = x * 2048"
  by (simp add: push_bit_eq_mult)

lemma unat_push_bit_11 [word_arith]:
  fixes n :: u32
  shows "unat n * 2048 < 2 ^ 32 \<Longrightarrow> unat (push_bit 11 n) = unat n * 2048"
  by (simp add: push_bit_11_eq unat_word_ariths)

lemma unat_add_bound: "unat (x + y) \<le> unat x + unat (y :: 'a::len word)"
  by (simp add: unat_word_ariths)

lemma u32_bound: "unat (x :: u32) < 4294967296"
  using unsigned_less [of x] by simp

lemma sint_small: "unat (x :: u32) < 2 ^ 31 \<Longrightarrow> sint x = int (unat x)"
proof -
  assume "unat x < 2 ^ 31"
  then have "uint x < 2 ^ 31" by (simp flip: nat_uint_eq)
  moreover have "0 \<le> uint x" by simp
  ultimately have "signed_take_bit 31 (uint x) = uint x"
    by (intro signed_take_bit_int_eq_self) linarith+
  then show ?thesis by (simp add: sint_uint)
qed

lemma sless_small:
  "unat (x :: u32) < 2 ^ 31 \<Longrightarrow> unat y < 2 ^ 31 \<Longrightarrow> x <s y \<longleftrightarrow> unat x < unat y"
  by (simp only: word_sless_alt sint_small of_nat_less_iff)

lemma u16_bound: "unat (x :: u16) < 65536"
  using unsigned_less [of x] by simp

lemma u8_bound: "unat (x :: u8) < 256"
  using unsigned_less [of x] by simp

section \<open>Memory\<close>

definition write_bytes :: "u32 \<Rightarrow> u8 list \<Rightarrow> mem \<Rightarrow> mem" where
  "write_bytes a bs m = (\<lambda>x. if unat (x - a) < length bs then bs ! unat (x - a) else m x)"

definition read_bytes :: "mem \<Rightarrow> u32 \<Rightarrow> nat \<Rightarrow> u8 list" where
  "read_bytes m a n = map (\<lambda>i. m (a + of_nat i)) [0..<n]"

text \<open>\<open>mips_memcpy(dst, src, n)\<close> and \<open>mips_memset(dst, c, n)\<close> of smsutils.s.\<close>

definition mips_memcpy :: "u32 \<Rightarrow> u32 \<Rightarrow> nat \<Rightarrow> mem \<Rightarrow> mem" where
  "mips_memcpy dst src n m = write_bytes dst (read_bytes m src n) m"

definition mips_memset :: "u32 \<Rightarrow> u8 \<Rightarrow> nat \<Rightarrow> mem \<Rightarrow> mem" where
  "mips_memset dst c n m = write_bytes dst (replicate n c) m"

text \<open>The addresses of a run of \<open>n\<close> bytes at \<open>a\<close>, and two runs that do not meet.\<close>

definition in_run :: "u32 \<Rightarrow> nat \<Rightarrow> u32 \<Rightarrow> bool" where
  "in_run a n x \<longleftrightarrow> unat (x - a) < n"

definition disjoint_runs :: "u32 \<Rightarrow> nat \<Rightarrow> u32 \<Rightarrow> nat \<Rightarrow> bool" where
  "disjoint_runs a n b k \<longleftrightarrow> (\<forall>x. \<not> (in_run a n x \<and> in_run b k x))"

lemma length_read_bytes [simp]: "length (read_bytes m a n) = n"
  by (simp add: read_bytes_def)

lemma nth_read_bytes [simp]: "i < n \<Longrightarrow> read_bytes m a n ! i = m (a + of_nat i)"
  by (simp add: read_bytes_def)

lemma read_bytes_0 [simp]: "read_bytes m a 0 = []"
  by (simp add: read_bytes_def)

lemma write_bytes_Nil [simp]: "write_bytes a [] m = m"
  by (simp add: write_bytes_def)

lemma write_bytes_outside [mem_simps]:
  "\<not> in_run a (length bs) x \<Longrightarrow> write_bytes a bs m x = m x"
  by (simp add: write_bytes_def in_run_def)

lemma in_run_nth [mem_simps]: "i < n \<Longrightarrow> n \<le> 2 ^ 32 \<Longrightarrow> in_run a n (a + of_nat i)"
  by (simp add: in_run_def unat_of_nat_u32)

lemma write_bytes_inside [mem_simps]:
  "i < length bs \<Longrightarrow> length bs \<le> 2 ^ 32 \<Longrightarrow> write_bytes a bs m (a + of_nat i) = bs ! i"
  by (simp add: write_bytes_def unat_of_nat_u32)

lemma read_write_same [mem_simps]:
  assumes "length bs \<le> 2 ^ 32"
  shows "read_bytes (write_bytes a bs m) a (length bs) = bs"
  using assms by (intro nth_equalityI) (simp_all add: write_bytes_inside)

lemma read_write_sameI:
  "length bs = n \<Longrightarrow> n \<le> 2 ^ 32 \<Longrightarrow> read_bytes (write_bytes a bs m) a n = bs"
  using read_write_same by blast

lemma read_bytes_add:
  "read_bytes m a (j + k) = read_bytes m a j @ read_bytes m (a + of_nat j) k"
  by (intro nth_equalityI) (auto simp: nth_append algebra_simps)

lemma read_bytes_cong:
  assumes "\<And>x. in_run a n x \<Longrightarrow> m x = m' x" and "n \<le> 2 ^ 32"
  shows "read_bytes m a n = read_bytes m' a n"
  using assms by (intro nth_equalityI) (auto simp: in_run_nth)

lemma read_write_disjoint [mem_simps]:
  assumes "disjoint_runs a (length bs) b n" and "n \<le> 2 ^ 32"
  shows "read_bytes (write_bytes a bs m) b n = read_bytes m b n"
proof (rule read_bytes_cong [OF _ assms(2)])
  fix x assume "in_run b n x"
  with assms(1) have "\<not> in_run a (length bs) x" by (auto simp: disjoint_runs_def)
  then show "write_bytes a bs m x = m x" by (rule write_bytes_outside)
qed

lemma disjoint_runs_sym: "disjoint_runs a n b k = disjoint_runs b k a n"
  by (auto simp: disjoint_runs_def)

lemma disjoint_runs_mono:
  "disjoint_runs a n b k \<Longrightarrow> n' \<le> n \<Longrightarrow> k' \<le> k \<Longrightarrow> disjoint_runs a n' b k'"
  unfolding disjoint_runs_def in_run_def by (meson less_le_trans)

lemma in_run_shift:
  assumes "j + k \<le> 2 ^ 32"
  shows "in_run (a + of_nat j) k x \<longleftrightarrow> j \<le> unat (x - a) \<and> unat (x - a) < j + k"
proof (cases "k = 0")
  case True
  then show ?thesis by (simp add: in_run_def)
next
  case False
  with assms have j: "unat (of_nat j :: u32) = j" by (simp add: unat_of_nat_u32)
  have "x - (a + of_nat j) = (x - a) - of_nat j" by simp
  then have "unat (x - (a + of_nat j))
      = (if j \<le> unat (x - a) then unat (x - a) - j else unat (x - a) + 2 ^ 32 - j)"
    using unat_sub_wrap [of "x - a" "of_nat j"] j by (simp only:)
  then show ?thesis
    using assms by (auto simp: in_run_def)
qed

lemma in_run_offset:
  "in_run (a + of_nat j) k x \<Longrightarrow> j + k \<le> 2 ^ 32 \<Longrightarrow> in_run a (j + k) x"
  by (simp add: in_run_shift) (simp add: in_run_def)

lemma disjoint_runs_apart:
  assumes "i + n \<le> j \<or> j + k \<le> i" and "i + n \<le> 2 ^ 32" and "j + k \<le> 2 ^ 32"
  shows "disjoint_runs (a + of_nat i) n (a + of_nat j) k"
  using assms by (auto simp: disjoint_runs_def in_run_shift)

lemma disjoint_runs_offset:
  assumes "disjoint_runs a n b k" and "j + i \<le> n" and "n \<le> 2 ^ 32"
  shows "disjoint_runs (a + of_nat j) i b k"
  unfolding disjoint_runs_def
proof (intro allI notI)
  fix x assume x: "in_run (a + of_nat j) i x \<and> in_run b k x"
  with assms(2,3) have "in_run a (j + i) x" by (intro in_run_offset) auto
  with assms(2) have "in_run a n x" by (simp add: in_run_def)
  with x assms(1) show False by (auto simp: disjoint_runs_def)
qed

lemma disjoint_runsI:
  "unat a + n \<le> unat b \<or> unat b + k \<le> unat a \<Longrightarrow> unat a + n \<le> 2 ^ 32 \<Longrightarrow>
   unat b + k \<le> 2 ^ 32 \<Longrightarrow> disjoint_runs a n b k"
  using disjoint_runs_apart [of "unat a" n "unat b" k 0] by simp

text \<open>Storing two adjacent runs is storing their concatenation.\<close>

lemma write_bytes_append [mem_simps]:
  assumes "length bs + length cs \<le> 2 ^ 32" and "b = a + of_nat (length bs)"
  shows "write_bytes b cs (write_bytes a bs m) = write_bytes a (bs @ cs) m"
proof
  fix x :: u32
  let ?n = "length bs"
  show "write_bytes b cs (write_bytes a bs m) x = write_bytes a (bs @ cs) m x"
  proof (cases "cs = []")
    case True
    then show ?thesis by simp
  next
    case False
    with assms(1) have n: "?n < 2 ^ 32" by (cases cs) auto
    have shift: "unat (x - b) = (if ?n \<le> unat (x - a) then unat (x - a) - ?n
        else unat (x - a) + 2 ^ 32 - ?n)"
    proof -
      have "x - b = (x - a) - of_nat ?n" using assms(2) by simp
      moreover have "unat (of_nat ?n :: u32) = ?n" using n by (rule unat_of_nat_u32)
      ultimately show ?thesis
        using unat_sub_wrap [of "x - a" "of_nat ?n"] by (simp only:)
    qed
    show ?thesis
      using assms(1) by (auto simp: write_bytes_def shift nth_append)
  qed
qed

lemma write_bytes_again [mem_simps]:
  "length cs = length bs \<Longrightarrow> write_bytes a cs (write_bytes a bs m) = write_bytes a cs m"
  by (auto simp: write_bytes_def)

lemma write_bytes_commute:
  "disjoint_runs a (length bs) b (length cs) \<Longrightarrow>
   write_bytes a bs (write_bytes b cs m) = write_bytes b cs (write_bytes a bs m)"
  by (auto simp: write_bytes_def disjoint_runs_def in_run_def fun_eq_iff)

section \<open>Little-endian words in memory\<close>

definition get_u32 :: "mem \<Rightarrow> u32 \<Rightarrow> u32" where
  "get_u32 m a = ucast (m a) OR push_bit 8 (ucast (m (a + 1)))
     OR push_bit 16 (ucast (m (a + 2))) OR push_bit 24 (ucast (m (a + 3)))"

definition bytes_u32 :: "u32 \<Rightarrow> u8 list" where
  "bytes_u32 w = [ucast w, ucast (drop_bit 8 w), ucast (drop_bit 16 w), ucast (drop_bit 24 w)]"

definition put_u32 :: "u32 \<Rightarrow> u32 \<Rightarrow> mem \<Rightarrow> mem" where
  "put_u32 a w = write_bytes a (bytes_u32 w)"

lemma length_bytes_u32 [simp]: "length (bytes_u32 w) = 4"
  by (simp add: bytes_u32_def)

lemma get_put_u32 [mem_simps]: "get_u32 (put_u32 a w m) a = w"
proof -
  have "put_u32 a w m (a + of_nat i) = bytes_u32 w ! i" if "i < 4" for i
    using that unfolding put_u32_def by (intro write_bytes_inside) simp_all
  from this [of 0] this [of 1] this [of 2] this [of 3]
  have "put_u32 a w m a = ucast w" "put_u32 a w m (a + 1) = ucast (drop_bit 8 w)"
    "put_u32 a w m (a + 2) = ucast (drop_bit 16 w)" "put_u32 a w m (a + 3) = ucast (drop_bit 24 w)"
    by (simp_all add: bytes_u32_def numeral_2_eq_2 numeral_3_eq_3)
  then have eq: "get_u32 (put_u32 a w m) a = ucast (ucast w :: u8)
      OR push_bit 8 (ucast (ucast (drop_bit 8 w) :: u8))
      OR push_bit 16 (ucast (ucast (drop_bit 16 w) :: u8))
      OR push_bit 24 (ucast (ucast (drop_bit 24 w) :: u8))"
    by (simp add: get_u32_def)
  show ?thesis
  proof (rule bit_word_eqI)
    fix n assume "n < LENGTH(32)"
    then consider "n < 8" | "8 \<le> n \<and> n < 16" | "16 \<le> n \<and> n < 24" | "24 \<le> n \<and> n < 32"
      by fastforce
    then show "bit (get_u32 (put_u32 a w m) a) n = bit w n"
      by cases (auto simp: eq bit_simps)
  qed
qed

text \<open>Half words.\<close>

definition bytes_u16 :: "u16 \<Rightarrow> u8 list" where
  "bytes_u16 w = [ucast w, ucast (drop_bit 8 w)]"

definition get_u16 :: "mem \<Rightarrow> u32 \<Rightarrow> u16" where
  "get_u16 m a = ucast (m a) OR push_bit 8 (ucast (m (a + 1)))"

lemma length_bytes_u16 [simp]: "length (bytes_u16 w) = 2"
  by (simp add: bytes_u16_def)

lemma join_bytes: "ucast (ucast v :: u8) OR push_bit 8 (ucast (ucast (drop_bit 8 v) :: u8)) = (v :: u16)"
proof (rule bit_word_eqI)
  fix n assume "n < LENGTH(16)"
  then consider "n < 8" | "8 \<le> n \<and> n < 16" by fastforce
  then show "bit (ucast (ucast v :: u8) OR push_bit 8 (ucast (ucast (drop_bit 8 v) :: u8)) :: u16) n = bit v n"
    by cases (auto simp: bit_simps)
qed

section \<open>Runs of disc sectors\<close>

text \<open>The contents of \<open>n\<close> consecutive sectors of a disc, as one byte string.\<close>

definition sector_run :: "(u32 \<Rightarrow> u8 list) \<Rightarrow> u32 \<Rightarrow> nat \<Rightarrow> u8 list" where
  "sector_run disc lsn n = concat (map (\<lambda>i. disc (lsn + of_nat i)) [0..<n])"

lemma sector_run_0 [simp]: "sector_run disc lsn 0 = []"
  by (simp add: sector_run_def)

lemma length_sector_run:
  assumes "\<And>l. length (disc l) = k"
  shows "length (sector_run disc lsn n) = n * k"
  using assms by (induction n) (simp_all add: sector_run_def)

lemma map_upt_add: "map f [0..<j + k] = map f [0..<j] @ map (\<lambda>i. f (j + i)) [0..<k]"
  by (intro nth_equalityI) (auto simp: nth_append)

lemma sector_run_add:
  "sector_run disc lsn (j + k) = sector_run disc lsn j @ sector_run disc (lsn + of_nat j) k"
  by (simp add: sector_run_def map_upt_add o_def add.assoc)

lemma sector_run_1 [simp]: "sector_run disc lsn (Suc 0) = disc lsn"
  by (simp add: sector_run_def)

text \<open>Disc sectors made of \<open>k\<close> device sectors each: a run of the one is a run of the other.\<close>

lemma sector_run_group:
  "sector_run (\<lambda>l. sector_run store (b + l * of_nat k) k) lsn n
    = sector_run store (b + lsn * of_nat k) (n * k)"
proof (induction n)
  case 0
  then show ?case by simp
next
  case (Suc n)
  have "sector_run (\<lambda>l. sector_run store (b + l * of_nat k) k) lsn (n + Suc 0)
      = sector_run store (b + lsn * of_nat k) (n * k)
        @ sector_run store (b + (lsn + of_nat n) * of_nat k) k"
    by (simp only: sector_run_add Suc.IH sector_run_1)
  also have "\<dots> = sector_run store (b + lsn * of_nat k) (n * k + k)"
    by (simp add: sector_run_add [of store _ "n * k" k] distrib_right add.assoc)
  finally show ?case by (simp add: add.commute)
qed

end
