(* ===== verification/Cdvd_State.thy ===== *)
theory Cdvd_State
  imports Prelude
begin

text \<open>
  The data of CDVDMAN: the constants of common/cdvdman.h and common/cdvd_config.h, the
  settings block the loader patches, the status block \<open>cdvdman_stat\<close> of
  cdvdman/internal.h, the module's static variables (cdvdman/cdvdman.c) and the part of
  the IOP kernel they use: counting semaphores, the event flag \<open>intr_ef\<close>, armed alarms and
  the time spent in \<open>DelayThread\<close>. A kernel call that can block returns an option, with
  None for a thread that never gets to run again.
  \<open>CpuSuspendIntr\<close> and \<open>CpuResumeIntr\<close> bracket straight-line code and have no other
  effect, so a bracketed region is one atomic piece of a definition.
\<close>

section \<open>Constants\<close>

definition CDVD_ERR_NO :: u32 where [simp]: "CDVD_ERR_NO = 0"
definition CDVD_ERR_ABRT :: u32 where [simp]: "CDVD_ERR_ABRT = 0x01"
definition CDVD_ERR_OPENS :: u32 where [simp]: "CDVD_ERR_OPENS = 0x11"
definition CDVD_ERR_READ :: u32 where [simp]: "CDVD_ERR_READ = 0x30"
definition CDVD_ERR_READCF :: u32 where [simp]: "CDVD_ERR_READCF = 0xFD"
definition CDVD_ERR_READCFR :: u32 where [simp]: "CDVD_ERR_READCFR = 0xFE"

definition CDVD_STAT_STOP :: u32 where [simp]: "CDVD_STAT_STOP = 0x00"
definition CDVD_STAT_OPEN :: u32 where [simp]: "CDVD_STAT_OPEN = 0x01"
definition CDVD_STAT_READ :: u32 where [simp]: "CDVD_STAT_READ = 0x06"
definition CDVD_STAT_PAUSE :: u32 where [simp]: "CDVD_STAT_PAUSE = 0x0A"

definition CDVD_TRAY_OPEN :: u32 where [simp]: "CDVD_TRAY_OPEN = 0"
definition CDVD_TRAY_CLOSE :: u32 where [simp]: "CDVD_TRAY_CLOSE = 1"
definition CDVD_TRAY_CHECK :: u32 where [simp]: "CDVD_TRAY_CHECK = 2"

definition CDVD_READY_READY :: u32 where [simp]: "CDVD_READY_READY = 0x02"
definition CDVD_READY_NOTREADY :: u32 where [simp]: "CDVD_READY_NOTREADY = 0x06"

definition SCECdFuncRead :: u32 where [simp]: "SCECdFuncRead = 1"
definition SCECdFuncSeek :: u32 where [simp]: "SCECdFuncSeek = 4"
definition SCECdFuncStandby :: u32 where [simp]: "SCECdFuncStandby = 5"
definition SCECdFuncStop :: u32 where [simp]: "SCECdFuncStop = 6"
definition SCECdFuncPause :: u32 where [simp]: "SCECdFuncPause = 7"
definition SCECdFuncBreak :: u32 where [simp]: "SCECdFuncBreak = 8"

definition IOPCORE_COMPAT_ALT_READ :: u16 where [simp]: "IOPCORE_COMPAT_ALT_READ = 0x0001"
definition IOPCORE_COMPAT_0_SKIP_VIDEOS :: u16 where
  [simp]: "IOPCORE_COMPAT_0_SKIP_VIDEOS = 0x0002"
definition IOPCORE_COMPAT_EMU_DVDDL :: u16 where [simp]: "IOPCORE_COMPAT_EMU_DVDDL = 0x0004"
definition IOPCORE_COMPAT_ACCU_READS :: u16 where [simp]: "IOPCORE_COMPAT_ACCU_READS = 0x0008"
definition IOPCORE_ENABLE_POFF :: u16 where [simp]: "IOPCORE_ENABLE_POFF = 0x0100"
definition IOPCORE_SMB_FORMAT_USBLD :: u16 where [simp]: "IOPCORE_SMB_FORMAT_USBLD = 0x0200"

definition CDVDMAN_FS_SECTORS :: nat where [simp]: "CDVDMAN_FS_SECTORS = 15"
definition CDVDMAN_BUF_SECTORS :: u32 where [simp]: "CDVDMAN_BUF_SECTORS = 2"
definition MAX_FDHANDLES :: nat where [simp]: "MAX_FDHANDLES = 64"
definition ISO_MAX_PARTS :: nat where [simp]: "ISO_MAX_PARTS = 10"

section \<open>Settings\<close>

text \<open>
  The block common to every driver; the driver-specific tail (partition start, part
  addresses, share and file names) belongs to the state of the driver.
\<close>

record cdvdman_settings_common =
  NumParts :: u8
  media :: u8
  flags :: u16
  layer1_start :: u32
  DiscID :: "u8 list"

definition has_flag :: "u16 \<Rightarrow> cdvdman_settings_common \<Rightarrow> bool" where
  "has_flag f stg \<longleftrightarrow> flags stg AND f \<noteq> 0"

section \<open>Status block and module state\<close>

record SteamingData =
  StBufmax :: u16
  StBankmax :: u16
  StBanksize :: u16
  StWritePtr :: u16
  StReadPtr :: u16
  StStreamed :: u16
  StStat :: u16
  StIsReading :: u16
  StIOP_bufaddr :: u32
  Stlsn :: u32

text \<open>An open file: \<open>f\<close> is the address of the kernel's file object, 0 when the slot is free.\<close>

record FHANDLE =
  fh_f :: u32
  fh_lsn :: u32
  filesize :: u32
  position :: u32

record layer_info_t =
  rootDirtocLBA :: u32
  rootDirtocLength :: u32

datatype sema = cdrom_io_sema | cdrom_rthread_sema | cdvdman_scmdsema | cdvdman_searchfilesema

record 'd cdvdman =
  err :: u32
  status :: u32
  StreamingData :: SteamingData
  disc_type_reg :: u32
  cdread_lba :: u32
  cdread_sectors :: u32
  cdread_buf :: u32
  settings :: cdvdman_settings_common
  sync_flag :: bool
  user_cb :: u32
  Stm0Callback :: bool
  cdvdman_media_changed :: bool
  cdvdman_cdinited :: bool
  fs_inited :: bool
  ReadPos :: u32
  cdvdman_fdhandles :: "FHANDLE list"
  layer_info :: "layer_info_t \<times> layer_info_t"
  cdvdman_buf :: u32
  cdvdman_fs_buf :: u32
  semas :: "sema \<Rightarrow> nat"
  intr_ef :: u32
  intr_ef_id :: u32
  read_end_alarm :: "u32 option"
  event_alarm :: "(u32 \<times> u32) option"
  stm_alarm :: "u32 option"
  slept :: nat
  in_intr :: bool
  dev :: 'd
  memory :: mem

text \<open>
  \<open>Stm0Callback\<close> holds whether the callback pointer is set: the only function the module
  ever stores there is \<open>StmCallback\<close>. \<open>cdvdman_buf\<close> and \<open>cdvdman_fs_buf\<close> are the addresses
  the linker gives the two static buffers. \<open>intr_ef_id\<close> is the kernel's id of the event flag
  (\<open>cdvdman_stat.intr_ef\<close>), \<open>intr_ef\<close> are its bits. \<open>read_end_alarm\<close>, \<open>event_alarm\<close> and \<open>stm_alarm\<close>
  are the armed alarms of \<open>cdvdemu_read_end_cb\<close> (ticks), \<open>event_alarm_cb\<close> (callback and
  reason) and \<open>StmScheduleCb\<close> (ticks).
\<close>

section \<open>Kernel calls\<close>

definition WaitSema :: "sema \<Rightarrow> 'd cdvdman \<Rightarrow> 'd cdvdman option" where
  "WaitSema x s =
     (if semas s x = 0 then None else Some (s\<lparr>semas := (semas s)(x := semas s x - 1)\<rparr>))"

text \<open>Every semaphore is created with a maximum of 1; a signal at the maximum is refused.\<close>

definition SignalSema :: "sema \<Rightarrow> 'd cdvdman \<Rightarrow> 'd cdvdman" where
  "SignalSema x s = s\<lparr>semas := (semas s)(x := 1)\<rparr>"

definition SetEventFlag :: "u32 \<Rightarrow> 'd cdvdman \<Rightarrow> 'd cdvdman" where
  "SetEventFlag bits s = s\<lparr>intr_ef := intr_ef s OR bits\<rparr>"

definition ClearEventFlag :: "u32 \<Rightarrow> 'd cdvdman \<Rightarrow> 'd cdvdman" where
  "ClearEventFlag keep s = s\<lparr>intr_ef := intr_ef s AND keep\<rparr>"

definition DelayThread :: "nat \<Rightarrow> 'd cdvdman \<Rightarrow> 'd cdvdman" where
  "DelayThread us s = s\<lparr>slept := slept s + us\<rparr>"

text \<open>
  Waiting for the end of the emulated drive's transfer time (bit 0x1000): the wait ends at
  once when the bit is set, and otherwise when the armed alarm's callback
  \<open>cdvdemu_read_end_cb\<close> sets it; with no alarm armed it never ends.
\<close>

definition cdvdemu_read_end_cb :: "'d cdvdman \<Rightarrow> 'd cdvdman" where
  "cdvdemu_read_end_cb s = (SetEventFlag 0x1000 s)\<lparr>read_end_alarm := None\<rparr>"

definition wait_read_end :: "'d cdvdman \<Rightarrow> 'd cdvdman option" where
  "wait_read_end s =
     (if intr_ef s AND 0x1000 = 0x1000 then Some s
      else if read_end_alarm s \<noteq> None then Some (cdvdemu_read_end_cb s)
      else None)"

text \<open>\<open>cdvdman_cb_event\<close>: with a user callback registered, its alarm is armed.\<close>

definition cdvdman_cb_event :: "u32 \<Rightarrow> 'd cdvdman \<Rightarrow> u32 \<times> 'd cdvdman" where
  "cdvdman_cb_event reason s =
     (1, if user_cb s \<noteq> 0 then s\<lparr>event_alarm := Some (user_cb s, reason)\<rparr> else s)"

text \<open>
  \<open>event_alarm_cb\<close>: the alarm calls the registered function with the reason and is not
  re-armed. The call made is the result.
\<close>

definition event_alarm_cb :: "'d cdvdman \<Rightarrow> (u32 \<times> u32) option \<times> 'd cdvdman" where
  "event_alarm_cb s = (event_alarm s, s\<lparr>event_alarm := None\<rparr>)"

end
