(* ===== verification/Disc_Read.thy ===== *)
theory Disc_Read
  imports Cdvd_State
begin

text \<open>
  Reading sectors from the emulated disc (cdvdman/cdvdman.c: \<open>cdvdman_read_sectors\<close>,
  \<open>cdvdman_read\<close>) on top of the driver chosen at link time (cdvdman/device.h:
  \<open>DeviceReadSectors\<close>). The driver is an argument; what the layer expects of a driver that
  works is the locale \<open>disc_device\<close>, which the theories of the drivers interpret.
\<close>

section \<open>The driver interface\<close>

text \<open>
  \<open>DeviceReadSectors(lsn, buffer, sectors)\<close>: the result, the driver's state and memory, or
  None when the driver does not return (it waits for ever, or faults).
\<close>

type_synonym 'd devread = "u32 \<Rightarrow> u32 \<Rightarrow> u32 \<Rightarrow> 'd \<Rightarrow> mem \<Rightarrow> (u32 \<times> 'd \<times> mem) option"

section \<open>The PS2LOGO decryptor\<close>

text \<open>One byte: exclusive or with the key, then a rotation left by three bits.\<close>

definition logo_byte :: "u8 \<Rightarrow> u8 \<Rightarrow> u8" where
  "logo_byte key b = (let x = b XOR key in push_bit 3 x OR drop_bit 5 x)"

text \<open>
  The first byte of the transfer is the key; a key of 0 leaves the data alone. The byte
  count \<open>SectorsToRead * 2048\<close> is computed in 32 bits.
\<close>

definition logo_bytes :: "u8 list \<Rightarrow> u8 list" where
  "logo_bytes bs = (case bs of [] \<Rightarrow> [] | key # _ \<Rightarrow> if key \<noteq> 0 then map (logo_byte key) bs else bs)"

definition decrypt_logo :: "u32 \<Rightarrow> u32 \<Rightarrow> mem \<Rightarrow> mem" where
  "decrypt_logo ptr n m =
     (let len = unat (n * 2048); key = m ptr in
      if key \<noteq> 0 then write_bytes ptr (map (logo_byte key) (read_bytes m ptr len)) m else m)"

section \<open>\<open>cdvdman_read_sectors\<close>\<close>

definition accu_reads :: "'d cdvdman \<Rightarrow> bool" where
  "accu_reads s = has_flag IOPCORE_COMPAT_ACCU_READS (settings s)"

definition transfer_size :: "'d cdvdman \<Rightarrow> u32 \<Rightarrow> u32" where
  "transfer_size s remaining = (if accu_reads s \<and> remaining > 8 then 8 else remaining)"

text \<open>
  One turn of the loop. Inl: the driver failed, the error is recorded, the alarm cancelled
  and the loop left; Inr: the transfer is done, and with emulated access times its time
  has passed.
\<close>

definition read_chunk ::
  "'d devread \<Rightarrow> u32 \<Rightarrow> u32 \<Rightarrow> u32 \<Rightarrow> 'd cdvdman \<Rightarrow> ('d cdvdman + 'd cdvdman) option" where
  "read_chunk rd lsn n ptr s =
     (let s1 = (if accu_reads s
                then (ClearEventFlag (NOT 0x1000) s)\<lparr>read_end_alarm := Some (26321 * n)\<rparr> else s)
      in case rd lsn ptr n (dev s1) (memory s1) of
           None \<Rightarrow> None
         | Some (r, d, m) \<Rightarrow>
             let s2 = s1\<lparr>dev := d, memory := m\<rparr>
             in if r \<noteq> 0
                then Some (Inl (let s3 = s2\<lparr>err := CDVD_ERR_READ\<rparr>
                                in if accu_reads s then s3\<lparr>read_end_alarm := None\<rparr> else s3))
                else let s3 = (if lsn < 13 then s2\<lparr>memory := decrypt_logo ptr n (memory s2)\<rparr>
                               else s2);
                         s4 = s3\<lparr>ReadPos := ReadPos s3 + push_bit 11 n\<rparr>
                     in map_option Inr (if accu_reads s then wait_read_end s4 else Some s4))"

function read_loop ::
  "'d devread \<Rightarrow> u32 \<Rightarrow> u32 \<Rightarrow> u32 \<Rightarrow> 'd cdvdman \<Rightarrow> 'd cdvdman option" where
  "read_loop rd lsn remaining ptr s =
     (if remaining = 0 \<or> err s \<noteq> CDVD_ERR_NO then Some s
      else let n = transfer_size s remaining
           in case read_chunk rd lsn n ptr s of
                None \<Rightarrow> None
              | Some (Inl s') \<Rightarrow> Some s'
              | Some (Inr s') \<Rightarrow> read_loop rd (lsn + n) (remaining - n) (ptr + push_bit 11 n) s')"
  by pat_completeness auto

lemma transfer_size_bounds:
  "remaining \<noteq> 0 \<Longrightarrow> 0 < unat (transfer_size s remaining) \<and>
     unat (transfer_size s remaining) \<le> unat remaining"
  by (auto simp: transfer_size_def unat_gt_0 word_le_nat_alt word_less_nat_alt)

lemma transfer_size_rest [word_arith]:
  "unat (remaining - transfer_size s remaining) = unat remaining - unat (transfer_size s remaining)"
  by (rule unat_sub) (auto simp: transfer_size_def)

lemma transfer_size_decreases:
  "remaining \<noteq> 0 \<Longrightarrow> unat (remaining - transfer_size s remaining) < unat remaining"
  using transfer_size_bounds [of remaining s] by (simp add: transfer_size_rest)

termination read_loop
  by (relation "measure (\<lambda>(rd, lsn, remaining, ptr, s). unat remaining)")
    (auto simp: transfer_size_decreases)

declare read_loop.simps [simp del]

definition cdvdman_read_sectors ::
  "'d devread \<Rightarrow> u32 \<Rightarrow> u32 \<Rightarrow> u32 \<Rightarrow> 'd cdvdman \<Rightarrow> (u32 \<times> 'd cdvdman) option" where
  "cdvdman_read_sectors rd lsn sectors buf s =
     map_option (\<lambda>s'. (if err s' = CDVD_ERR_NO then 0 else 1, s'))
       (read_loop rd lsn sectors buf (s\<lparr>err := CDVD_ERR_NO\<rparr>))"

section \<open>\<open>cdvdman_read\<close>\<close>

text \<open>
  Transfers to an unaligned buffer go through \<open>cdvdman_buf\<close>, two sectors at a time
  (\<open>UNALIGNED_BUFFER_PATCH\<close> is 1). The result of the inner read is not looked at.
\<close>

definition bounce_size :: "u32 \<Rightarrow> u32" where
  "bounce_size sectors = (if sectors > CDVDMAN_BUF_SECTORS then CDVDMAN_BUF_SECTORS else sectors)"

lemma bounce_size_bounds:
  "sectors \<noteq> 0 \<Longrightarrow> 0 < unat (bounce_size sectors)"
  "unat (bounce_size sectors) \<le> unat sectors" "unat (bounce_size sectors) \<le> 2"
  by (auto simp: bounce_size_def unat_gt_0 word_le_nat_alt word_less_nat_alt)

lemma bounce_size_rest:
  "unat (sectors - bounce_size sectors) = unat sectors - unat (bounce_size sectors)"
  by (rule unat_sub) (simp add: word_le_nat_alt bounce_size_bounds)

lemma bounce_size_decreases: "sectors \<noteq> 0 \<Longrightarrow> unat (sectors - bounce_size sectors) < unat sectors"
  using bounce_size_bounds [of sectors] by (simp add: bounce_size_rest)

function unaligned_loop ::
  "'d devread \<Rightarrow> u32 \<Rightarrow> u32 \<Rightarrow> u32 \<Rightarrow> 'd cdvdman \<Rightarrow> 'd cdvdman option" where
  "unaligned_loop rd rpos sectors buf s =
     (if sectors = 0 then Some s
      else let nsectors = bounce_size sectors
           in case cdvdman_read_sectors rd rpos nsectors (cdvdman_buf s) s of
                None \<Rightarrow> None
              | Some (_, s') \<Rightarrow>
                  let nbytes = push_bit 11 nsectors;
                      s'' = s'\<lparr>memory := mips_memcpy buf (cdvdman_buf s) (unat nbytes) (memory s')\<rparr>
                  in unaligned_loop rd (rpos + nsectors) (sectors - nsectors) (buf + nbytes) s'')"
  by pat_completeness auto
termination
  by (relation "measure (\<lambda>(rd, rpos, sectors, buf, s). unat sectors)")
    (auto simp: bounce_size_decreases)

declare unaligned_loop.simps [simp del]

definition cdvdman_read ::
  "'d devread \<Rightarrow> u32 \<Rightarrow> u32 \<Rightarrow> u32 \<Rightarrow> 'd cdvdman \<Rightarrow> (u32 \<times> 'd cdvdman) option" where
  "cdvdman_read rd lsn sectors buf s =
     (let s1 = s\<lparr>status := CDVD_STAT_READ\<rparr>
      in map_option (\<lambda>s'. (1, s'\<lparr>ReadPos := 0, status := CDVD_STAT_PAUSE\<rparr>))
           (if buf AND 3 \<noteq> 0
            then do {
              s2 \<leftarrow> WaitSema cdvdman_searchfilesema s1;
              s3 \<leftarrow> unaligned_loop rd lsn sectors buf s2;
              Some (SignalSema cdvdman_searchfilesema s3) }
            else map_option snd (cdvdman_read_sectors rd lsn sectors buf s1)))"

section \<open>What a read leaves alone\<close>

text \<open>
  Reading changes memory, the driver's state, the read position, the event flag and the
  transfer alarm; \<open>io_frame s s'\<close> says that the rest of the state is as before.
\<close>

definition io_frame :: "'d cdvdman \<Rightarrow> 'd cdvdman \<Rightarrow> bool" where
  "io_frame s s' \<longleftrightarrow> s' = s\<lparr>dev := dev s', memory := memory s', ReadPos := ReadPos s',
     intr_ef := intr_ef s', read_end_alarm := read_end_alarm s'\<rparr>"

lemma io_frame_refl [simp, intro]: "io_frame s s"
  by (simp add: io_frame_def)

lemma io_frame_trans [trans]: "io_frame a b \<Longrightarrow> io_frame b c \<Longrightarrow> io_frame a c"
  by (cases a; cases b; cases c) (simp add: io_frame_def)

lemma io_frame_upd [intro]:
  "io_frame s s' \<Longrightarrow> io_frame s (s'\<lparr>memory := m\<rparr>)"
  "io_frame s s' \<Longrightarrow> io_frame s (s'\<lparr>dev := d\<rparr>)"
  "io_frame s s' \<Longrightarrow> io_frame s (s'\<lparr>ReadPos := p\<rparr>)"
  "io_frame s s' \<Longrightarrow> io_frame s (s'\<lparr>intr_ef := e\<rparr>)"
  "io_frame s s' \<Longrightarrow> io_frame s (s'\<lparr>read_end_alarm := al\<rparr>)"
  by (cases s; cases s'; simp add: io_frame_def)+

lemma io_frame_fields:
  assumes "io_frame s s'"
  shows "err s' = err s" and "status s' = status s" and "settings s' = settings s"
    and "cdvdman_buf s' = cdvdman_buf s" and "cdvdman_fs_buf s' = cdvdman_fs_buf s"
    and "semas s' = semas s" and "sync_flag s' = sync_flag s" and "accu_reads s' = accu_reads s"
    and "StreamingData s' = StreamingData s" and "Stm0Callback s' = Stm0Callback s"
  using assms by (cases s; cases s'; simp add: io_frame_def accu_reads_def)+

lemma wait_read_end_armed:
  assumes "read_end_alarm s \<noteq> None"
  shows "\<exists>s'. wait_read_end s = Some s' \<and> io_frame s s' \<and> dev s' = dev s \<and>
    memory s' = memory s \<and> ReadPos s' = ReadPos s"
  using assms
  by (auto simp: wait_read_end_def cdvdemu_read_end_cb_def SetEventFlag_def)

section \<open>What a working driver promises\<close>

text \<open>
  \<open>disc\<close> gives the contents of every sector and \<open>readable lsn k\<close> says which runs the driver
  can deliver. A read of such a run returns 0, stores exactly the run at the buffer and
  keeps the driver's invariant.
\<close>

locale disc_device =
  fixes rd :: "'d devread"
    and inv :: "'d \<Rightarrow> bool"
    and disc :: "u32 \<Rightarrow> u8 list"
    and readable :: "u32 \<Rightarrow> nat \<Rightarrow> bool"
  assumes disc_sector: "\<And>l. length (disc l) = 2048"
    and readable_split:
      "\<And>lsn j k. readable lsn (j + k) \<Longrightarrow> readable lsn j \<and> readable (lsn + of_nat j) k"
    and rd_delivers:
      "\<And>d lsn n a m. inv d \<Longrightarrow> readable lsn (unat n) \<Longrightarrow> unat n * 2048 \<le> 2 ^ 32 \<Longrightarrow>
         \<exists>d'. inv d' \<and> rd lsn a n d m = Some (0, d', write_bytes a (sector_run disc lsn (unat n)) m)"
begin

lemma length_run [simp]: "length (sector_run disc lsn n) = n * 2048"
  by (rule length_sector_run) (rule disc_sector)

lemma write_run_again:
  assumes "unat n \<le> unat r" and "unat r * 2048 \<le> 2 ^ 32"
  shows "write_bytes (a + push_bit 11 n) (sector_run disc (lsn + n) (unat (r - n)))
      (write_bytes a (sector_run disc lsn (unat n)) m)
    = write_bytes a (sector_run disc lsn (unat r)) m"
proof -
  have rest: "unat r = unat n + unat (r - n)"
    using assms(1) by (simp add: unat_sub word_le_nat_alt)
  have split: "sector_run disc lsn (unat r)
      = sector_run disc lsn (unat n) @ sector_run disc (lsn + n) (unat (r - n))"
    using sector_run_add [of disc lsn "unat n" "unat (r - n)"] rest by simp
  have len: "length (sector_run disc lsn (unat n))
      + length (sector_run disc (lsn + n) (unat (r - n))) \<le> 2 ^ 32"
    using assms(2) rest by simp
  have at: "a + push_bit 11 n = a + of_nat (length (sector_run disc lsn (unat n)))"
    by (simp add: push_bit_11_eq)
  show ?thesis
    unfolding split by (rule write_bytes_append [OF len at])
qed

lemma read_chunk_delivers:
  assumes "inv (dev s)" and "readable lsn (unat n)" and "unat n * 2048 \<le> 2 ^ 32" and "13 \<le> lsn"
  shows "\<exists>s'. read_chunk rd lsn n ptr s = Some (Inr s') \<and> io_frame s s' \<and> inv (dev s') \<and>
      memory s' = write_bytes ptr (sector_run disc lsn (unat n)) (memory s)"
proof -
  from rd_delivers [OF assms(1-3)] obtain d' where d': "inv d'"
    "rd lsn ptr n (dev s) (memory s)
       = Some (0, d', write_bytes ptr (sector_run disc lsn (unat n)) (memory s))"
    by blast
  from assms(4) have nl: "\<not> lsn < 13" by simp
  show ?thesis
  proof (cases "accu_reads s")
    case False
    with d' nl show ?thesis
      by (simp add: read_chunk_def io_frame_upd)
  next
    case True
    let ?s4 = "s\<lparr>intr_ef := intr_ef s AND NOT 0x1000, read_end_alarm := Some (26321 * n),
      dev := d', memory := write_bytes ptr (sector_run disc lsn (unat n)) (memory s),
      ReadPos := ReadPos s + push_bit 11 n\<rparr>"
    obtain s' where s': "wait_read_end ?s4 = Some s'" "io_frame ?s4 s'" "dev s' = d'"
      "memory s' = write_bytes ptr (sector_run disc lsn (unat n)) (memory s)"
      using wait_read_end_armed [of ?s4] by auto
    moreover have "read_chunk rd lsn n ptr s = map_option Inr (wait_read_end ?s4)"
      using True d'(2) nl by (simp add: read_chunk_def ClearEventFlag_def)
    moreover have "io_frame s ?s4" by (simp add: io_frame_upd)
    ultimately show ?thesis
      using d'(1) io_frame_trans [of s ?s4 s'] by auto
  qed
qed

lemma read_loop_delivers:
  assumes "inv (dev s)" and "readable lsn (unat remaining)" and "unat remaining * 2048 \<le> 2 ^ 32"
    and "13 \<le> lsn" and "unat lsn + unat remaining < 2 ^ 32" and "err s = CDVD_ERR_NO"
  shows "\<exists>s'. read_loop rd lsn remaining ptr s = Some s' \<and> io_frame s s' \<and> inv (dev s') \<and>
      memory s' = write_bytes ptr (sector_run disc lsn (unat remaining)) (memory s)"
  using assms
proof (induction "unat remaining" arbitrary: lsn remaining ptr s rule: less_induct)
  case less
  show ?case
  proof (cases "remaining = 0")
    case True
    with less.prems show ?thesis
      by (simp add: read_loop.simps)
  next
    case False
    define n where "n = transfer_size s remaining"
    have n: "0 < unat n" "unat n \<le> unat remaining"
      using transfer_size_bounds [OF False, of s] by (simp_all add: n_def)
    have rest: "unat (remaining - n) = unat remaining - unat n"
      using transfer_size_rest [of remaining s] by (simp add: n_def)
    have next_lsn: "unat (lsn + n) = unat lsn + unat n"
      using n less.prems(5) by (intro unat_add_le) simp
    have rn: "readable lsn (unat n)" and rrest: "readable (lsn + n) (unat (remaining - n))"
      using readable_split [of lsn "unat n" "unat remaining - unat n"] less.prems(2) n rest
      by simp_all
    from less.prems(3) n have sz: "unat n * 2048 \<le> 2 ^ 32" by simp
    from read_chunk_delivers [OF less.prems(1) rn sz less.prems(4), of ptr] obtain s1
      where s1: "read_chunk rd lsn n ptr s = Some (Inr s1)" "io_frame s s1" "inv (dev s1)"
        "memory s1 = write_bytes ptr (sector_run disc lsn (unat n)) (memory s)"
      by blast
    have smaller: "unat (remaining - n) < unat remaining" using n rest by simp
    have l13: "13 \<le> lsn + n"
      using less.prems(4) next_lsn by (simp add: word_le_nat_alt)
    have bound: "unat (lsn + n) + unat (remaining - n) < 2 ^ 32"
      using less.prems(5) next_lsn rest n by simp
    have sz': "unat (remaining - n) * 2048 \<le> 2 ^ 32" using less.prems(3) rest by simp
    have err1: "err s1 = CDVD_ERR_NO" using s1(2) less.prems(6) by (simp add: io_frame_fields)
    obtain s2 where s2: "read_loop rd (lsn + n) (remaining - n) (ptr + push_bit 11 n) s1 = Some s2"
      "io_frame s1 s2" "inv (dev s2)"
      "memory s2 = write_bytes (ptr + push_bit 11 n)
          (sector_run disc (lsn + n) (unat (remaining - n))) (memory s1)"
      using less.hyps [OF smaller s1(3) rrest sz' l13 bound err1, of "ptr + push_bit 11 n"]
      by blast
    have step: "read_loop rd lsn remaining ptr s
        = read_loop rd (lsn + n) (remaining - n) (ptr + push_bit 11 n) s1"
      using False less.prems(6) s1(1)
      by (subst read_loop.simps) (simp add: Let_def n_def [symmetric])
    have "memory s2 = write_bytes ptr (sector_run disc lsn (unat remaining)) (memory s)"
      unfolding s2(4) s1(4) by (rule write_run_again [OF n(2) less.prems(3)])
    with s2 show ?thesis
      unfolding step using io_frame_trans [OF s1(2) s2(2)] by blast
  qed
qed

text \<open>The copy of one chunk from the alignment buffer to the caller's buffer.\<close>

lemma copy_chunk:
  fixes n :: u32
  assumes "unat n \<le> 2" and "m = write_bytes b (sector_run disc lsn (unat n)) m0"
  shows "mips_memcpy buf b (unat (push_bit 11 n)) m
      = write_bytes buf (sector_run disc lsn (unat n)) m"
proof -
  have "unat (push_bit 11 n) = unat n * 2048"
    using assms(1) by (intro unat_push_bit_11) simp
  moreover have "read_bytes m b (unat n * 2048) = sector_run disc lsn (unat n)"
    unfolding assms(2) by (rule read_write_sameI) (use assms(1) in simp_all)
  ultimately show ?thesis by (simp add: mips_memcpy_def)
qed

lemma read_sectors_delivers:
  assumes "inv (dev s)" and "readable lsn (unat sectors)" and "unat sectors * 2048 \<le> 2 ^ 32"
    and "13 \<le> lsn" and "unat lsn + unat sectors < 2 ^ 32"
  shows "\<exists>s'. cdvdman_read_sectors rd lsn sectors buf s = Some (0, s') \<and>
      io_frame (s\<lparr>err := CDVD_ERR_NO\<rparr>) s' \<and> inv (dev s') \<and>
      memory s' = write_bytes buf (sector_run disc lsn (unat sectors)) (memory s)"
proof -
  let ?s = "s\<lparr>err := CDVD_ERR_NO\<rparr>"
  obtain s' where s': "read_loop rd lsn sectors buf ?s = Some s'" "io_frame ?s s'" "inv (dev s')"
    "memory s' = write_bytes buf (sector_run disc lsn (unat sectors)) (memory s)"
    using read_loop_delivers [of ?s lsn sectors buf] assms by auto
  moreover from s'(2) have "err s' = CDVD_ERR_NO" by (simp add: io_frame_fields)
  ultimately show ?thesis by (simp add: cdvdman_read_sectors_def)
qed

text \<open>One turn of it: a chunk goes to the alignment buffer and from there to its place.\<close>

lemma unaligned_turn:
  assumes "inv (dev s)" and "readable rpos (unat sectors)" and "unat sectors * 2048 \<le> 2 ^ 32"
    and "13 \<le> rpos" and "unat rpos + unat sectors < 2 ^ 32" and "sectors \<noteq> 0"
    and n: "n = bounce_size sectors"
  obtains s2 where "unaligned_loop rd rpos sectors buf s
      = unaligned_loop rd (rpos + n) (sectors - n) (buf + push_bit 11 n) s2"
    and "io_frame (s\<lparr>err := CDVD_ERR_NO\<rparr>) s2" and "inv (dev s2)"
    and "readable (rpos + n) (unat (sectors - n))"
    and "memory s2 = write_bytes buf (sector_run disc rpos (unat n))
      (write_bytes (cdvdman_buf s) (sector_run disc rpos (unat n)) (memory s))"
proof -
  let ?b = "cdvdman_buf s" and ?s = "s\<lparr>err := CDVD_ERR_NO\<rparr>"
  have bd: "unat n \<le> unat sectors" "unat n \<le> 2" "unat (sectors - n) = unat sectors - unat n"
    using assms(6) by (simp_all add: n bounce_size_bounds bounce_size_rest)
  have rn: "readable rpos (unat n)" and rrest: "readable (rpos + n) (unat (sectors - n))"
    using readable_split [of rpos "unat n" "unat sectors - unat n"] assms(2) bd by simp_all
  have "unat n * 2048 \<le> 2 ^ 32" "unat rpos + unat n < 2 ^ 32" using assms(3,5) bd by simp_all
  from read_sectors_delivers [OF assms(1) rn this(1) assms(4) this(2), of ?b] obtain s1
    where s1: "cdvdman_read_sectors rd rpos n ?b s = Some (0, s1)" "io_frame ?s s1" "inv (dev s1)"
      "memory s1 = write_bytes ?b (sector_run disc rpos (unat n)) (memory s)"
    by blast
  define s2 where "s2 = s1\<lparr>memory := write_bytes buf (sector_run disc rpos (unat n)) (memory s1)\<rparr>"
  have "io_frame ?s s2" unfolding s2_def by (rule io_frame_upd) (rule s1(2))
  moreover have "unaligned_loop rd rpos sectors buf s
      = unaligned_loop rd (rpos + n) (sectors - n) (buf + push_bit 11 n) s2"
    using assms(6) s1(1) copy_chunk [OF bd(2) s1(4), of buf]
    by (subst unaligned_loop.simps) (simp add: Let_def n s2_def)
  ultimately show ?thesis using that [of s2] s1(3,4) rrest by (simp add: s2_def)
qed

text \<open>
  Through the alignment buffer: outside that buffer, memory ends up as after a direct
  transfer.
\<close>

lemma unaligned_loop_delivers:
  assumes "inv (dev s)" and "readable rpos (unat sectors)" and "unat sectors * 2048 \<le> 2 ^ 32"
    and "13 \<le> rpos" and "unat rpos + unat sectors < 2 ^ 32"
    and "sectors \<noteq> 0 \<or> err s = CDVD_ERR_NO"
    and "disjoint_runs (cdvdman_buf s) 4096 buf (unat sectors * 2048)"
  shows "\<exists>s'. unaligned_loop rd rpos sectors buf s = Some s' \<and>
      io_frame (s\<lparr>err := CDVD_ERR_NO\<rparr>) s' \<and> inv (dev s') \<and>
      (\<forall>x. \<not> in_run (cdvdman_buf s) 4096 x \<longrightarrow>
        memory s' x = write_bytes buf (sector_run disc rpos (unat sectors)) (memory s) x)"
  using assms
proof (induction "unat sectors" arbitrary: rpos sectors buf s rule: less_induct)
  case less
  show ?case
  proof (cases "sectors = 0")
    case True
    with less.prems(6) have "s\<lparr>err := CDVD_ERR_NO\<rparr> = s" by simp
    with True show ?thesis using less.prems(1) by (simp add: unaligned_loop.simps)
  next
    case False
    define n where "n = bounce_size sectors"
    let ?b = "cdvdman_buf s" and ?s = "s\<lparr>err := CDVD_ERR_NO\<rparr>"
    let ?m1 = "write_bytes ?b (sector_run disc rpos (unat n)) (memory s)"
    have n: "0 < unat n" "unat n \<le> unat sectors" "unat n \<le> 2"
      using False by (simp_all add: n_def bounce_size_bounds)
    have rest: "unat (sectors - n) = unat sectors - unat n" by (simp add: n_def bounce_size_rest)
    have lsn': "unat (rpos + n) = unat rpos + unat n"
      using n less.prems(5) by (intro unat_add_le) simp
    obtain s2 where step: "unaligned_loop rd rpos sectors buf s
        = unaligned_loop rd (rpos + n) (sectors - n) (buf + push_bit 11 n) s2"
      and f2: "io_frame ?s s2" and i2: "inv (dev s2)" and rrest: "readable (rpos + n) (unat (sectors - n))"
      and m2: "memory s2 = write_bytes buf (sector_run disc rpos (unat n)) ?m1"
      using unaligned_turn [OF less.prems(1-5) False n_def] by blast
    have b2: "cdvdman_buf s2 = ?b" and e2: "err s2 = CDVD_ERR_NO"
      using io_frame_fields [OF f2] by simp_all
    have smaller: "unat (sectors - n) < unat sectors" using n rest by simp
    have l13: "13 \<le> rpos + n" using less.prems(4) lsn' by (simp add: word_le_nat_alt)
    have bound: "unat (rpos + n) + unat (sectors - n) < 2 ^ 32"
      using less.prems(5) lsn' rest n by simp
    have sz': "unat (sectors - n) * 2048 \<le> 2 ^ 32" using less.prems(3) rest by simp
    have off: "buf + push_bit 11 n = buf + of_nat (unat n * 2048)"
      by (simp add: push_bit_11_eq)
    have dj: "disjoint_runs (cdvdman_buf s2) 4096 (buf + push_bit 11 n) (unat (sectors - n) * 2048)"
    proof -
      have "disjoint_runs (buf + of_nat (unat n * 2048)) (unat (sectors - n) * 2048) ?b 4096"
        using less.prems(3,7) n rest
        by (intro disjoint_runs_offset [where n = "unat sectors * 2048"])
          (simp_all add: disjoint_runs_sym diff_mult_distrib)
      then show ?thesis unfolding off b2 by (simp only: disjoint_runs_sym)
    qed
    obtain s3 where s3: "unaligned_loop rd (rpos + n) (sectors - n) (buf + push_bit 11 n) s2 = Some s3"
      "io_frame (s2\<lparr>err := CDVD_ERR_NO\<rparr>) s3" "inv (dev s3)"
      "\<And>x. \<not> in_run ?b 4096 x \<Longrightarrow> memory s3 x = write_bytes (buf + push_bit 11 n)
          (sector_run disc (rpos + n) (unat (sectors - n))) (memory s2) x"
      using less.hyps [OF smaller i2 rrest sz' l13 bound disjI2 [OF e2] dj] unfolding b2 by blast
    have f3: "io_frame ?s s3"
    proof -
      have "s2\<lparr>err := CDVD_ERR_NO\<rparr> = s2" using e2 by simp
      with s3(2) show ?thesis using io_frame_trans [OF f2] by simp
    qed
    have "memory s3 x = write_bytes buf (sector_run disc rpos (unat sectors)) (memory s) x"
      if x: "\<not> in_run ?b 4096 x" for x
    proof -
      have "memory s3 x = write_bytes buf (sector_run disc rpos (unat sectors)) ?m1 x"
        using s3(4) [OF x] write_run_again [OF n(2) less.prems(3), of buf rpos ?m1] by (simp add: m2)
      moreover have "?m1 x = memory s x"
        using x n(3) by (intro write_bytes_outside) (auto simp: in_run_def)
      ultimately show ?thesis by (simp add: write_bytes_def)
    qed
    with s3(1,3) f3 show ?thesis unfolding step by blast
  qed
qed

text \<open>The whole operation, on any buffer.\<close>

lemma read_delivers:
  assumes "inv (dev s)" and "readable lsn (unat sectors)" and "unat sectors * 2048 \<le> 2 ^ 32"
    and "13 \<le> lsn" and "unat lsn + unat sectors < 2 ^ 32"
    and unaligned: "buf AND 3 \<noteq> 0 \<Longrightarrow>
      disjoint_runs (cdvdman_buf s) 4096 buf (unat sectors * 2048) \<and>
      semas s cdvdman_searchfilesema = 1 \<and> sectors \<noteq> 0"
  shows "\<exists>s'. cdvdman_read rd lsn sectors buf s = Some (1, s') \<and>
      io_frame (s\<lparr>err := CDVD_ERR_NO, status := CDVD_STAT_PAUSE\<rparr>) s' \<and> inv (dev s') \<and>
      ReadPos s' = 0 \<and>
      (\<forall>x. (buf AND 3 \<noteq> 0 \<longrightarrow> \<not> in_run (cdvdman_buf s) 4096 x) \<longrightarrow>
        memory s' x = write_bytes buf (sector_run disc lsn (unat sectors)) (memory s) x)"
proof (cases "buf AND 3 = 0")
  case True
  let ?s1 = "s\<lparr>status := CDVD_STAT_READ\<rparr>"
  obtain s2 where s2: "cdvdman_read_sectors rd lsn sectors buf ?s1 = Some (0, s2)"
    "io_frame (?s1\<lparr>err := CDVD_ERR_NO\<rparr>) s2" "inv (dev s2)"
    "memory s2 = write_bytes buf (sector_run disc lsn (unat sectors)) (memory s)"
    using read_sectors_delivers [of ?s1 lsn sectors buf] assms by auto
  have "io_frame (s\<lparr>err := CDVD_ERR_NO, status := CDVD_STAT_PAUSE\<rparr>)
      (s2\<lparr>ReadPos := 0, status := CDVD_STAT_PAUSE\<rparr>)"
    using s2(2) by (cases s; cases s2; simp add: io_frame_def)
  then show ?thesis
    using s2 True by (simp add: cdvdman_read_def)
next
  case False
  let ?s1 = "s\<lparr>status := CDVD_STAT_READ\<rparr>" and ?x = cdvdman_searchfilesema
  let ?s2 = "?s1\<lparr>semas := (semas s)(?x := 0)\<rparr>"
  from unaligned [OF False] have u: "disjoint_runs (cdvdman_buf s) 4096 buf (unat sectors * 2048)"
    "semas s ?x = 1" "sectors \<noteq> 0" by simp_all
  have wait: "WaitSema ?x ?s1 = Some ?s2" using u(2) by (simp add: WaitSema_def)
  obtain s3 where s3: "unaligned_loop rd lsn sectors buf ?s2 = Some s3"
    "io_frame (?s2\<lparr>err := CDVD_ERR_NO\<rparr>) s3" "inv (dev s3)"
    "\<And>x. \<not> in_run (cdvdman_buf s) 4096 x \<Longrightarrow>
        memory s3 x = write_bytes buf (sector_run disc lsn (unat sectors)) (memory s) x"
    using unaligned_loop_delivers [of ?s2 lsn sectors buf] assms(1-5) u by auto
  let ?s4 = "(SignalSema ?x s3)\<lparr>ReadPos := 0, status := CDVD_STAT_PAUSE\<rparr>"
  have "(semas s)(?x := 1) = semas s" using u(2) by (auto simp: fun_eq_iff)
  then have "io_frame (s\<lparr>err := CDVD_ERR_NO, status := CDVD_STAT_PAUSE\<rparr>) ?s4"
    using s3(2) by (cases s; cases s3; simp add: io_frame_def SignalSema_def)
  moreover have "cdvdman_read rd lsn sectors buf s = Some (1, ?s4)"
    using False wait s3(1) by (simp add: cdvdman_read_def)
  ultimately show ?thesis
    using s3(3,4) False by (auto simp: SignalSema_def)
qed

end

section \<open>Errors\<close>

lemma read_loop_fails:
  assumes "rd lsn ptr n (dev s) (memory s) = Some (r, d, m)" and "r \<noteq> 0" and "n \<noteq> 0"
    and "err s = CDVD_ERR_NO" and "\<not> accu_reads s"
  shows "read_loop rd lsn n ptr s = Some (s\<lparr>dev := d, memory := m, err := CDVD_ERR_READ\<rparr>)"
  using assms by (subst read_loop.simps) (simp add: transfer_size_def read_chunk_def)

lemma read_loop_succeeds:
  assumes "rd lsn ptr n (dev s) (memory s) = Some (0, d, m)" and "n \<noteq> 0"
    and "err s = CDVD_ERR_NO" and "\<not> accu_reads s" and "13 \<le> lsn"
  shows "read_loop rd lsn n ptr s = Some (s\<lparr>dev := d, memory := m, ReadPos := ReadPos s + push_bit 11 n\<rparr>)"
  using assms
  by (subst read_loop.simps) (simp add: transfer_size_def read_chunk_def Let_def read_loop.simps [of _ _ 0])

text \<open>
  A failure of the driver is reported: a transfer to an aligned buffer that the driver
  refuses leaves \<open>CDVD_ERR_READ\<close> as the drive's error, and the drive goes back to its pause
  state with the read position reset.
\<close>

theorem read_error_reported:
  assumes "rd lsn buf n (dev s) (memory s) = Some (r, d, m)" and "r \<noteq> 0" and "n \<noteq> 0"
    and "\<not> accu_reads s" and "buf AND 3 = 0"
  shows "cdvdman_read rd lsn n buf s = Some (1, s\<lparr>dev := d, memory := m, err := CDVD_ERR_READ,
    ReadPos := 0, status := CDVD_STAT_PAUSE\<rparr>)"
proof -
  let ?s = "s\<lparr>status := CDVD_STAT_READ, err := CDVD_ERR_NO\<rparr>"
  have "read_loop rd lsn n buf ?s = Some (?s\<lparr>dev := d, memory := m, err := CDVD_ERR_READ\<rparr>)"
    using assms(1-4) by (intro read_loop_fails) (simp_all add: accu_reads_def)
  then show ?thesis using assms(5) by (simp add: cdvdman_read_def cdvdman_read_sectors_def)
qed

text \<open>
  C37. A transfer to an unaligned buffer can lose an error: it is cut into pieces, each piece
  starts by clearing the error, and the result of a piece is not looked at. A failure of
  the first piece followed by a success of the second leaves "no error".
\<close>

theorem unaligned_error_masked:
  assumes "buf AND 3 \<noteq> 0" and "semas s cdvdman_searchfilesema = 1" and "\<not> accu_reads s"
    and "13 \<le> lsn + 2"
    and first: "rd lsn (cdvdman_buf s) 2 (dev s) (memory s) = Some (r, d, m)" "r \<noteq> 0"
    and second: "rd (lsn + 2) (cdvdman_buf s) 2 d (mips_memcpy buf (cdvdman_buf s) 4096 m) = Some (0, d', m')"
  shows "\<exists>s'. cdvdman_read rd lsn 4 buf s = Some (1, s') \<and> err s' = CDVD_ERR_NO"
proof -
  let ?s1 = "s\<lparr>status := CDVD_STAT_READ, semas := (semas s)(cdvdman_searchfilesema := 0), err := CDVD_ERR_NO\<rparr>"
  have b: "bounce_size 4 = 2" "bounce_size 2 = 2" by (simp_all add: bounce_size_def)
  have one: "read_loop rd lsn 2 (cdvdman_buf s) ?s1 = Some (?s1\<lparr>dev := d, memory := m, err := CDVD_ERR_READ\<rparr>)"
    using first assms(3) by (intro read_loop_fails) (simp_all add: accu_reads_def)
  let ?s2 = "s\<lparr>status := CDVD_STAT_READ, semas := (semas s)(cdvdman_searchfilesema := 0),
    dev := d, memory := mips_memcpy buf (cdvdman_buf s) 4096 m, err := CDVD_ERR_NO\<rparr>"
  have two: "read_loop rd (lsn + 2) 2 (cdvdman_buf s) ?s2 = Some (?s2\<lparr>dev := d', memory := m',
      ReadPos := ReadPos ?s2 + push_bit 11 2\<rparr>)"
    using second assms(3,4) by (intro read_loop_succeeds) (simp_all add: accu_reads_def)
  show ?thesis
    using assms(1,2) one two
    by (simp add: cdvdman_read_def WaitSema_def unaligned_loop.simps [of rd lsn 4]
        unaligned_loop.simps [of rd "lsn + 2" 2] unaligned_loop.simps [of _ _ 0] b
        cdvdman_read_sectors_def SignalSema_def Let_def)
qed

end
