(* ===== verification/Read_Request.thy ===== *)
theory Read_Request
  imports Disc_Read
begin

text \<open>
  Handing a read to the reading thread (cdvdman/cdvdman.c: \<open>cdvdman_common_lock\<close>,
  \<open>cdvdman_AsyncRead\<close>, \<open>cdvdman_SyncRead\<close>, \<open>sceCdRead\<close>). \<open>sync_flag\<close> is the lock of the
  drive: it is taken by a request and released when the data is there.
\<close>

definition cdvdman_common_lock :: "'d cdvdman \<Rightarrow> bool \<times> 'd cdvdman" where
  "cdvdman_common_lock s =
     (if sync_flag s then (False, s)
      else (True, (ClearEventFlag (NOT 1) s)\<lparr>sync_flag := True\<rparr>))"

definition cdvdman_AsyncRead :: "u32 \<Rightarrow> u32 \<Rightarrow> u32 \<Rightarrow> 'd cdvdman \<Rightarrow> u32 \<times> 'd cdvdman" where
  "cdvdman_AsyncRead lsn sectors buf s =
     (case cdvdman_common_lock s of
        (False, s') \<Rightarrow> (0, s')
      | (True, s') \<Rightarrow>
          (1, SignalSema cdrom_rthread_sema
                (s'\<lparr>cdread_lba := lsn, cdread_sectors := sectors, cdread_buf := buf\<rparr>)))"

definition cdvdman_SyncRead ::
  "'d devread \<Rightarrow> u32 \<Rightarrow> u32 \<Rightarrow> u32 \<Rightarrow> 'd cdvdman \<Rightarrow> (u32 \<times> 'd cdvdman) option" where
  "cdvdman_SyncRead rd lsn sectors buf s =
     (case cdvdman_common_lock s of
        (False, s') \<Rightarrow> Some (0, s')
      | (True, s') \<Rightarrow> do {
          (_, s1) \<leftarrow> cdvdman_read rd lsn sectors buf s';
          let s2 = snd (cdvdman_cb_event SCECdFuncRead s1);
          Some (1, SetEventFlag 9 (s2\<lparr>sync_flag := False\<rparr>)) })"

definition sceCdRead ::
  "'d devread \<Rightarrow> u32 \<Rightarrow> u32 \<Rightarrow> u32 \<Rightarrow> 'd cdvdman \<Rightarrow> (u32 \<times> 'd cdvdman) option" where
  "sceCdRead rd lsn sectors buf s =
     (if \<not> has_flag IOPCORE_COMPAT_ALT_READ (settings s) \<or> in_intr s
      then Some (cdvdman_AsyncRead lsn sectors buf s)
      else cdvdman_SyncRead rd lsn sectors buf s)"

definition sceCdReadCdda ::
  "'d devread \<Rightarrow> u32 \<Rightarrow> u32 \<Rightarrow> u32 \<Rightarrow> 'd cdvdman \<Rightarrow> (u32 \<times> 'd cdvdman) option" where
  "sceCdReadCdda rd lsn sectors buf s = sceCdRead rd lsn sectors buf s"

text \<open>A request never overtakes another: while one is under way, a second is refused.\<close>

lemma AsyncRead_busy: "sync_flag s \<Longrightarrow> cdvdman_AsyncRead lsn n buf s = (0, s)"
  by (simp add: cdvdman_AsyncRead_def cdvdman_common_lock_def)

lemma AsyncRead_free:
  "\<not> sync_flag s \<Longrightarrow> cdvdman_AsyncRead lsn n buf s = (1, s\<lparr>intr_ef := intr_ef s AND NOT 1,
     sync_flag := True, cdread_lba := lsn, cdread_sectors := n, cdread_buf := buf,
     semas := (semas s)(cdrom_rthread_sema := 1)\<rparr>)"
  by (simp add: cdvdman_AsyncRead_def cdvdman_common_lock_def ClearEventFlag_def SignalSema_def)

end
