(* ===== verification/Stream_Ring.thy ===== *)
theory Stream_Ring
  imports Read_Request
begin

text \<open>
  The streaming ring buffer (cdvdman/streaming.c). The buffer has \<open>StBufmax\<close> sectors and is
  filled a bank of \<open>StBanksize\<close> sectors at a time by the reading thread, at \<open>StWritePtr\<close>;
  readers take sectors at \<open>StReadPtr\<close>; \<open>StStreamed\<close> counts the sectors held. The counters are
  16 bits wide; C promotes them to \<open>int\<close> in arithmetic and comparisons, so differences are
  read as integers here and truncated where the code assigns them.
\<close>

abbreviation SD :: "'d cdvdman \<Rightarrow> SteamingData" where
  "SD s \<equiv> StreamingData s"

definition upd_sd :: "(SteamingData \<Rightarrow> SteamingData) \<Rightarrow> 'd cdvdman \<Rightarrow> 'd cdvdman" where
  "upd_sd f s = s\<lparr>StreamingData := f (StreamingData s)\<rparr>"

section \<open>Filling\<close>

definition StReset :: "SteamingData \<Rightarrow> SteamingData" where
  "StReset sd = sd\<lparr>StWritePtr := 0, StReadPtr := 0, StStreamed := 0, StIsReading := 0\<rparr>"

text \<open>\<open>AllocBank\<close>: the address of the next bank, or None (\<open>-ENOMEM\<close>) when it does not fit.\<close>

definition AllocBank :: "SteamingData \<Rightarrow> u32 option" where
  "AllocBank sd =
     (if uint (StBufmax sd) - uint (StStreamed sd) \<ge> uint (StBanksize sd)
      then Some (StIOP_bufaddr sd + ucast (StWritePtr sd) * 2048) else None)"

text \<open>\<open>StFillStreamBuffer\<close>: 0 = OK, negative = the read was refused, positive = full.\<close>

definition StFillStreamBuffer :: "'d cdvdman \<Rightarrow> int \<times> 'd cdvdman" where
  "StFillStreamBuffer s =
     (if StIsReading (SD s) \<noteq> 0 then (0, s)
      else let s1 = upd_sd (StIsReading_update (\<lambda>_. 1)) (s\<lparr>stm_alarm := None\<rparr>)
           in case AllocBank (SD s1) of
                Some ptr \<Rightarrow>
                  (let (r, s2) = cdvdman_AsyncRead (Stlsn (SD s1)) (ucast (StBanksize (SD s1))) ptr s1
                   in if r = 0 then (-1, upd_sd (StIsReading_update (\<lambda>_. 0)) s2) else (0, s2))
              | None \<Rightarrow> (1, upd_sd (StIsReading_update (\<lambda>_. 0)) s1))"

definition StStartFillStreamBuffer :: "'d cdvdman \<Rightarrow> 'd cdvdman" where
  "StStartFillStreamBuffer s =
     (let (r, s') = StFillStreamBuffer s in if r < 0 then s'\<lparr>stm_alarm := Some 0x00704000\<rparr> else s')"

text \<open>The alarm callback returns the time to the next call, 0 to stop.\<close>

definition StmScheduleCb :: "'d cdvdman \<Rightarrow> u32 \<times> 'd cdvdman" where
  "StmScheduleCb s =
     (let (r, s') = StFillStreamBuffer s in (if r \<ge> 0 then 0 else 0x00704000, s'))"

text \<open>A bank has arrived: the counters move on, and the next bank is requested.\<close>

definition bank_arrived :: "SteamingData \<Rightarrow> SteamingData" where
  "bank_arrived sd =
     (let w = StWritePtr sd + StBanksize sd
      in sd\<lparr>Stlsn := Stlsn sd + ucast (StBanksize sd), StStreamed := StStreamed sd + StBanksize sd,
            StWritePtr := (if w \<ge> StBufmax sd then 0 else w), StIsReading := 0\<rparr>)"

definition StmCallback :: "'d cdvdman \<Rightarrow> 'd cdvdman" where
  "StmCallback s =
     StStartFillStreamBuffer
       (if StIsReading (SD s) \<noteq> 0 then upd_sd bank_arrived s else s)"

section \<open>Taking sectors out\<close>

text \<open>\<open>SectorsToCopy = avail; if (SectorsToCopy > maxcount) SectorsToCopy = maxcount\<close>\<close>

definition clip_count :: "int \<Rightarrow> int \<Rightarrow> u16" where
  "clip_count avail maxcount =
     (let n = (word_of_int avail :: u16) in if uint n > maxcount then word_of_int maxcount else n)"

definition advance_rd :: "SteamingData \<Rightarrow> u16 \<Rightarrow> u16 \<Rightarrow> u16" where
  "advance_rd sd rdptr n = (let r = rdptr + n in if r \<ge> StBufmax sd then 0 else r)"

definition ring_addr :: "SteamingData \<Rightarrow> u16 \<Rightarrow> u32" where
  "ring_addr sd p = StIOP_bufaddr sd + ucast p * 2048"

text \<open>The body shared by both copies of \<open>ReadSectors\<close>: \<open>n\<close> sectors from the read pointer.\<close>

definition copy_out :: "u16 \<Rightarrow> u32 \<Rightarrow> SteamingData \<times> mem \<Rightarrow> SteamingData \<times> mem" where
  "copy_out n dst = (\<lambda>(sd, m).
     if n > 0
     then (sd\<lparr>StReadPtr := advance_rd sd (StReadPtr sd) n, StStreamed := StStreamed sd - n\<rparr>,
           mips_memcpy dst (ring_addr sd (StReadPtr sd)) (unat n * 2048) m)
     else (sd, m))"

definition ReadSectors :: "int \<Rightarrow> u32 \<Rightarrow> SteamingData \<times> mem \<Rightarrow> int \<times> SteamingData \<times> mem" where
  "ReadSectors maxcount buffer = (\<lambda>(sd, m).
     let n1 = (if StWritePtr sd \<le> StReadPtr sd \<and> StStreamed sd > 0
               then clip_count (uint (StBufmax sd) - uint (StReadPtr sd)) maxcount else 0);
         (sd1, m1) = copy_out n1 buffer (sd, m);
         ptr = buffer + ucast n1 * 2048;
         n2 = (if uint n1 < maxcount \<and> StReadPtr sd1 < StWritePtr sd1
               then clip_count (uint (StWritePtr sd1) - uint (StReadPtr sd1)) (maxcount - uint n1)
               else 0);
         (sd2, m2) = copy_out n2 ptr (sd1, m1)
     in (uint n1 + uint n2, sd2, m2))"

text \<open>
  \<open>ReadSectorsEE\<close> queues at most two DMA transfers (source, destination in EE memory, size)
  and moves the counters once, after the transfers have ended.
\<close>

type_synonym SifDmaTransfer_t = "u32 \<times> u32 \<times> nat"

definition ReadSectorsEE ::
  "int \<Rightarrow> u32 \<Rightarrow> SteamingData \<Rightarrow> int \<times> SifDmaTransfer_t list \<times> SteamingData" where
  "ReadSectorsEE maxcount buffer sd =
     (let rdptr = StReadPtr sd;
          n1 = (if StWritePtr sd \<le> rdptr \<and> StStreamed sd > 0
                then clip_count (uint (StBufmax sd) - uint rdptr) maxcount else 0);
          d1 = (if n1 > 0 then [(ring_addr sd rdptr, buffer, unat n1 * 2048)] else []);
          rdptr1 = (if n1 > 0 then advance_rd sd rdptr n1 else rdptr);
          ptr = buffer + ucast n1 * 2048;
          n2 = (if uint n1 < maxcount \<and> rdptr1 < StWritePtr sd
                then clip_count (uint (StWritePtr sd) - uint rdptr1) (maxcount - uint n1) else 0);
          d2 = (if n2 > 0 then [(ring_addr sd rdptr1, ptr, unat n2 * 2048)] else []);
          rdptr2 = (if n2 > 0 then advance_rd sd rdptr1 n2 else rdptr1);
          result = uint n1 + uint n2
      in (result, d1 @ d2,
          if d1 @ d2 \<noteq> []
          then sd\<lparr>StReadPtr := rdptr2, StStreamed := StStreamed sd - word_of_int result\<rparr> else sd))"

text \<open>The transfers, carried out from IOP memory into EE memory.\<close>

definition run_dma :: "mem \<Rightarrow> SifDmaTransfer_t list \<Rightarrow> mem \<Rightarrow> mem" where
  "run_dma iop ds ee = fold (\<lambda>(src, dst, n) e. write_bytes dst (read_bytes iop src n) e) ds ee"

section \<open>The ring buffer is a queue of sectors\<close>

abbreviation N_of :: "SteamingData \<Rightarrow> nat" where "N_of sd \<equiv> unat (StBufmax sd)"
abbreviation B_of :: "SteamingData \<Rightarrow> nat" where "B_of sd \<equiv> unat (StBanksize sd)"
abbreviation W_of :: "SteamingData \<Rightarrow> nat" where "W_of sd \<equiv> unat (StWritePtr sd)"
abbreviation R_of :: "SteamingData \<Rightarrow> nat" where "R_of sd \<equiv> unat (StReadPtr sd)"
abbreviation S_of :: "SteamingData \<Rightarrow> nat" where "S_of sd \<equiv> unat (StStreamed sd)"

text \<open>
  The invariant between the pointers: whole banks, pointers inside the buffer, and the
  write pointer ahead of the read pointer by the sectors held. It decides the case
  \<open>StWritePtr = StReadPtr\<close>, where the buffer is either full or empty.
\<close>

definition ring_inv :: "SteamingData \<Rightarrow> bool" where
  "ring_inv sd \<longleftrightarrow> 0 < B_of sd \<and> B_of sd dvd N_of sd \<and> B_of sd dvd W_of sd \<and>
     W_of sd < N_of sd \<and> R_of sd < N_of sd \<and> S_of sd \<le> N_of sd \<and>
     W_of sd = (R_of sd + S_of sd) mod N_of sd"

definition ring_slot :: "SteamingData \<Rightarrow> mem \<Rightarrow> nat \<Rightarrow> u8 list" where
  "ring_slot sd m i = read_bytes m (StIOP_bufaddr sd + of_nat (i * 2048)) 2048"

text \<open>The abstraction: the sectors held, oldest first.\<close>

definition ring_contents :: "SteamingData \<Rightarrow> mem \<Rightarrow> u8 list list" where
  "ring_contents sd m = map (\<lambda>i. ring_slot sd m ((R_of sd + i) mod N_of sd)) [0..<S_of sd]"

definition ring_size :: "SteamingData \<Rightarrow> nat" where
  "ring_size sd = N_of sd * 2048"

lemma length_ring_contents [simp]: "length (ring_contents sd m) = S_of sd"
  by (simp add: ring_contents_def)

lemma length_ring_slot [simp]: "length (ring_slot sd m i) = 2048"
  by (simp add: ring_slot_def)

lemma ring_size_bound: "ring_size sd \<le> 2 ^ 32"
  using u16_bound [of "StBufmax sd"] by (simp add: ring_size_def)

lemma concat_slots:
  "concat (map (\<lambda>i. ring_slot sd m (r + i)) [0..<n])
     = read_bytes m (StIOP_bufaddr sd + of_nat (r * 2048)) (n * 2048)"
proof (induction n)
  case 0
  then show ?case by simp
next
  case (Suc n)
  have "read_bytes m (StIOP_bufaddr sd + of_nat (r * 2048)) (n * 2048 + 2048)
      = concat (map (\<lambda>i. ring_slot sd m (r + i)) [0..<n]) @ ring_slot sd m (r + n)"
    unfolding read_bytes_add Suc.IH [symmetric] ring_slot_def by (simp add: algebra_simps)
  then show ?case by (simp add: add.commute)
qed

lemma slot_in_ring:
  assumes "i < N_of sd" and "in_run (StIOP_bufaddr sd + of_nat (i * 2048)) 2048 x"
  shows "in_run (StIOP_bufaddr sd) (ring_size sd) x"
proof -
  have "i * 2048 + 2048 \<le> ring_size sd" using assms(1) by (simp add: ring_size_def)
  moreover from this have "in_run (StIOP_bufaddr sd) (i * 2048 + 2048) x"
    using assms(2) ring_size_bound [of sd] by (intro in_run_offset) linarith+
  ultimately show ?thesis by (simp add: in_run_def)
qed

lemma ring_slot_cong:
  assumes "\<And>x. in_run (StIOP_bufaddr sd) (ring_size sd) x \<Longrightarrow> m' x = m x" and "i < N_of sd"
  shows "ring_slot sd m' i = ring_slot sd m i"
  unfolding ring_slot_def
  by (rule read_bytes_cong) (use assms slot_in_ring in auto)

lemma ring_contents_cong:
  assumes "\<And>x. in_run (StIOP_bufaddr sd) (ring_size sd) x \<Longrightarrow> m' x = m x" and "0 < N_of sd"
  shows "ring_contents sd m' = ring_contents sd m"
  unfolding ring_contents_def using assms by (auto intro!: ring_slot_cong)

lemma ring_contents_outside:
  assumes "disjoint_runs (StIOP_bufaddr sd) (ring_size sd) dst (length bs)" and "0 < N_of sd"
  shows "ring_contents sd (write_bytes dst bs m) = ring_contents sd m"
  using assms by (intro ring_contents_cong) (auto simp: disjoint_runs_def write_bytes_outside)

text \<open>Dropping sectors moves the read pointer.\<close>

definition take_out :: "nat \<Rightarrow> SteamingData \<Rightarrow> SteamingData" where
  "take_out n sd = sd\<lparr>StReadPtr := of_nat ((R_of sd + n) mod N_of sd),
     StStreamed := of_nat (S_of sd - n)\<rparr>"

lemma take_out_fields:
  assumes "0 < N_of sd" and "n \<le> S_of sd"
  shows "R_of (take_out n sd) = (R_of sd + n) mod N_of sd" and "S_of (take_out n sd) = S_of sd - n"
    and "N_of (take_out n sd) = N_of sd" and "W_of (take_out n sd) = W_of sd"
    and "B_of (take_out n sd) = B_of sd" and "StIOP_bufaddr (take_out n sd) = StIOP_bufaddr sd"
proof -
  have "(R_of sd + n) mod N_of sd < 2 ^ 16"
    using mod_less_divisor [OF assms(1), of "R_of sd + n"] u16_bound [of "StBufmax sd"] by simp
  then show "R_of (take_out n sd) = (R_of sd + n) mod N_of sd"
    by (simp add: take_out_def unat_of_nat_u16)
  have "S_of sd - n < 2 ^ 16" using u16_bound [of "StStreamed sd"] by simp
  then show "S_of (take_out n sd) = S_of sd - n"
    by (simp add: take_out_def unat_of_nat_u16)
qed (simp_all add: take_out_def)

lemma take_out_contents:
  assumes "0 < N_of sd" and "n \<le> S_of sd"
  shows "ring_contents (take_out n sd) m = drop n (ring_contents sd m)"
proof (rule nth_equalityI)
  show "length (ring_contents (take_out n sd) m) = length (drop n (ring_contents sd m))"
    using assms by (simp add: take_out_fields)
next
  fix i assume "i < length (ring_contents (take_out n sd) m)"
  then have i: "i < S_of sd - n" using assms by (simp add: take_out_fields)
  then have "n + i < S_of sd" by simp
  with i assms show "ring_contents (take_out n sd) m ! i = drop n (ring_contents sd m) ! i"
    by (simp add: ring_contents_def take_out_fields ring_slot_def mod_add_left_eq add.assoc)
qed

lemma take_out_inv:
  assumes "ring_inv sd" and "n \<le> S_of sd"
  shows "ring_inv (take_out n sd)"
proof -
  have N: "0 < N_of sd" using assms(1) by (auto simp: ring_inv_def)
  have "((R_of sd + n) mod N_of sd + (S_of sd - n)) mod N_of sd = (R_of sd + S_of sd) mod N_of sd"
    using assms(2) by (metis mod_add_left_eq add.assoc le_add_diff_inverse)
  then show ?thesis
    using assms N by (auto simp: ring_inv_def take_out_fields)
qed

lemma take_out_0: "0 < N_of sd \<Longrightarrow> R_of sd < N_of sd \<Longrightarrow> take_out 0 sd = sd"
  by (simp add: take_out_def)

lemma take_out_take_out:
  assumes "0 < N_of sd" and "j + k \<le> S_of sd"
  shows "take_out k (take_out j sd) = take_out (j + k) sd"
proof -
  have "take_out k (take_out j sd) = take_out j sd\<lparr>StReadPtr := of_nat ((R_of sd + (j + k)) mod N_of sd),
      StStreamed := of_nat (S_of sd - (j + k))\<rparr>"
    using assms take_out_fields [of sd j] unfolding take_out_def [of k "take_out j sd"]
    by (simp add: mod_add_left_eq add.assoc)
  then show ?thesis by (simp add: take_out_def)
qed

text \<open>The counters the code computes, read on naturals.\<close>

lemma unat_clip_count:
  assumes "0 \<le> avail" and "avail < 65536" and "0 \<le> maxcount"
  shows "unat (clip_count avail maxcount) = min (nat avail) (nat maxcount)"
proof -
  have "uint (word_of_int avail :: u16) = avail"
    using assms by (simp add: uint_word_of_int_eq take_bit_int_eq_self)
  moreover have "uint (word_of_int maxcount :: u16) = maxcount" if "maxcount < avail"
    using assms that by (simp add: uint_word_of_int_eq take_bit_int_eq_self)
  ultimately show ?thesis
    using assms unfolding clip_count_def Let_def by (cases "maxcount < avail") (simp_all add: min_def flip: nat_uint_eq)
qed

lemma unat_clip_diff:
  fixes x y :: u16
  assumes "unat y \<le> unat x" and "0 \<le> maxcount"
  shows "unat (clip_count (uint x - uint y) maxcount) = min (unat x - unat y) (nat maxcount)"
proof -
  have xy: "uint x = int (unat x)" "uint y = int (unat y)" by simp_all
  have "nat (uint x - uint y) = unat x - unat y"
    by (simp only: xy nat_int flip: of_nat_diff [OF assms(1)])
  moreover have "0 \<le> uint x - uint y" and "uint x - uint y < 65536"
    unfolding xy using assms(1) u16_bound [of x] by linarith+
  ultimately show ?thesis using assms(2) by (simp add: unat_clip_count)
qed

lemma advance_rd_eq:
  assumes "unat p + unat n \<le> N_of sd" and "0 < N_of sd" and "unat p < N_of sd"
  shows "advance_rd sd p n = of_nat ((unat p + unat n) mod N_of sd)"
proof -
  have "unat p + unat n < 2 ^ LENGTH(16)"
    using assms(1) u16_bound [of "StBufmax sd"] by simp
  then have sum: "unat (p + n) = unat p + unat n" by (rule unat_add_le)
  show ?thesis
  proof (cases "unat p + unat n = N_of sd")
    case True
    then show ?thesis by (simp add: advance_rd_def word_le_nat_alt sum Let_def)
  next
    case False
    with assms(1) have "unat p + unat n < N_of sd" by simp
    moreover from this have "of_nat (unat p + unat n) = p + n" by simp
    ultimately show ?thesis by (simp add: advance_rd_def word_le_nat_alt sum Let_def)
  qed
qed

lemma copy_out_takes:
  assumes "unat n \<le> S_of sd" and "R_of sd + unat n \<le> N_of sd" and "R_of sd < N_of sd"
  shows "copy_out n dst (sd, m)
    = (take_out (unat n) sd, write_bytes dst (concat (take (unat n) (ring_contents sd m))) m)"
proof (cases "n = 0")
  case True
  then show ?thesis using assms(3) by (simp add: copy_out_def take_out_0)
next
  case False
  then have n: "n > 0" by (simp add: word_gt_0)
  have "take (unat n) (ring_contents sd m)
      = map (\<lambda>i. ring_slot sd m (R_of sd + i)) [0..<unat n]"
    using assms by (intro nth_equalityI) (auto simp: ring_contents_def)
  then have data: "concat (take (unat n) (ring_contents sd m))
      = read_bytes m (ring_addr sd (StReadPtr sd)) (unat n * 2048)"
    by (simp add: concat_slots ring_addr_def)
  have "StStreamed sd - n = of_nat (S_of sd - unat n)"
    using assms(1) by (simp add: of_nat_diff)
  then show ?thesis
    using n assms advance_rd_eq [of "StReadPtr sd" n sd]
    by (simp add: copy_out_def take_out_def mips_memcpy_def data)
qed

section \<open>\<open>ReadSectors\<close> takes from the front\<close>

text \<open>
  How much the two parts of \<open>ReadSectors\<close> take: up to the end of the buffer, then from its
  start. Together they take as much as is asked for and held.
\<close>

definition first_part :: "SteamingData \<Rightarrow> int \<Rightarrow> u16" where
  "first_part sd maxcount =
     (if StWritePtr sd \<le> StReadPtr sd \<and> StStreamed sd > 0
      then clip_count (uint (StBufmax sd) - uint (StReadPtr sd)) maxcount else 0)"

definition second_part :: "SteamingData \<Rightarrow> int \<Rightarrow> u16 \<Rightarrow> u16 \<Rightarrow> u16" where
  "second_part sd maxcount n1 rd =
     (if uint n1 < maxcount \<and> rd < StWritePtr sd
      then clip_count (uint (StWritePtr sd) - uint rd) (maxcount - uint n1) else 0)"

lemma ring_ahead:
  assumes "ring_inv sd"
  shows "W_of sd \<le> R_of sd \<Longrightarrow> 0 < S_of sd \<Longrightarrow> W_of sd + N_of sd = R_of sd + S_of sd"
    and "R_of sd < W_of sd \<Longrightarrow> W_of sd = R_of sd + S_of sd"
    and "S_of sd = 0 \<Longrightarrow> W_of sd = R_of sd"
proof -
  have inv: "R_of sd < N_of sd" "S_of sd \<le> N_of sd" "W_of sd = (R_of sd + S_of sd) mod N_of sd"
    using assms by (simp_all add: ring_inv_def)
  have w: "W_of sd = (if R_of sd + S_of sd < N_of sd then R_of sd + S_of sd
      else R_of sd + S_of sd - N_of sd)"
    using inv by (simp add: mod_if)
  show "W_of sd \<le> R_of sd \<Longrightarrow> 0 < S_of sd \<Longrightarrow> W_of sd + N_of sd = R_of sd + S_of sd"
    using w by (simp split: if_splits)
  show "R_of sd < W_of sd \<Longrightarrow> W_of sd = R_of sd + S_of sd"
    using w inv(1,2) by (simp split: if_splits)
  show "S_of sd = 0 \<Longrightarrow> W_of sd = R_of sd" using inv by simp
qed

lemma first_part_size:
  assumes "ring_inv sd" and "0 \<le> maxcount"
  shows "unat (first_part sd maxcount) = (if W_of sd \<le> R_of sd \<and> 0 < S_of sd
      then min (N_of sd - R_of sd) (nat maxcount) else 0)"
    and "unat (first_part sd maxcount) \<le> S_of sd"
    and "R_of sd + unat (first_part sd maxcount) \<le> N_of sd"
proof -
  have R: "R_of sd < N_of sd" using assms(1) by (simp add: ring_inv_def)
  show *: "unat (first_part sd maxcount) = (if W_of sd \<le> R_of sd \<and> 0 < S_of sd
      then min (N_of sd - R_of sd) (nat maxcount) else 0)"
    using assms(2) R unat_clip_diff [of "StReadPtr sd" "StBufmax sd" maxcount]
    by (simp add: first_part_def word_le_nat_alt word_less_nat_alt)
  show "unat (first_part sd maxcount) \<le> S_of sd"
    using ring_ahead(1) [OF assms(1)] R unfolding * by (auto simp: min_def)
  show "R_of sd + unat (first_part sd maxcount) \<le> N_of sd"
    using R unfolding * by (auto simp: min_def)
qed

lemma second_part_size:
  assumes "ring_inv sd" and "0 \<le> maxcount"
  defines "n1 \<equiv> first_part sd maxcount"
  defines "sd1 \<equiv> take_out (unat n1) sd"
  defines "n2 \<equiv> second_part sd maxcount n1 (StReadPtr sd1)"
  shows "unat n1 + unat n2 = min (nat maxcount) (S_of sd)"
    and "R_of sd1 + unat n2 \<le> N_of sd"
proof -
  have N: "0 < N_of sd" and inv: "R_of sd < N_of sd" "S_of sd \<le> N_of sd" "W_of sd < N_of sd"
    using assms(1) by (auto simp: ring_inv_def)
  note n1 = first_part_size [OF assms(1,2), folded n1_def]
  have R1: "R_of sd1 = (R_of sd + unat n1) mod N_of sd"
    using take_out_fields(1) [OF N n1(2)] by (simp add: sd1_def)
  have i1: "uint n1 = int (unat n1)" by simp
  have n2: "unat n2 = (if unat n1 < nat maxcount \<and> R_of sd1 < W_of sd
      then min (W_of sd - R_of sd1) (nat maxcount - unat n1) else 0)"
  proof (cases "unat n1 < nat maxcount \<and> R_of sd1 < W_of sd")
    case True
    then have "uint n1 < maxcount" "0 \<le> maxcount - uint n1"
      "nat (maxcount - uint n1) = nat maxcount - unat n1"
      unfolding i1 by linarith+
    with True show ?thesis
      using unat_clip_diff [of "StReadPtr sd1" "StWritePtr sd" "maxcount - uint n1"]
      by (simp add: n2_def second_part_def word_less_nat_alt)
  next
    case False
    then have "\<not> (int (unat n1) < maxcount \<and> R_of sd1 < W_of sd)"
      using assms(2) by linarith
    then have "\<not> (uint n1 < maxcount \<and> StReadPtr sd1 < StWritePtr sd)"
      unfolding i1 word_less_nat_alt .
    with False show ?thesis by (simp only: n2_def second_part_def if_False unsigned_0)
  qed
  show "R_of sd1 + unat n2 \<le> N_of sd"
    using n2 inv(3) mod_less_divisor [OF N, of "R_of sd + unat n1"] R1 by (auto split: if_splits)
  show "unat n1 + unat n2 = min (nat maxcount) (S_of sd)"
  proof (cases "W_of sd \<le> R_of sd \<and> 0 < S_of sd")
    case True
    then have W: "W_of sd + N_of sd = R_of sd + S_of sd" using ring_ahead(1) [OF assms(1)] by simp
    show ?thesis
    proof (cases "nat maxcount \<le> N_of sd - R_of sd")
      case True
      with n1(1) W inv \<open>W_of sd \<le> R_of sd \<and> 0 < S_of sd\<close> show ?thesis unfolding n2 by simp
    next
      case False
      with n1(1) \<open>W_of sd \<le> R_of sd \<and> 0 < S_of sd\<close> have m: "unat n1 = N_of sd - R_of sd" by simp
      with R1 inv have "R_of sd1 = 0" by simp
      with False m W inv show ?thesis unfolding n2 by (auto simp: min_def)
    qed
  next
    case False
    with n1(1) have n0: "unat n1 = 0" by simp
    with R1 inv have "R_of sd1 = R_of sd" by simp
    with n0 False ring_ahead(2,3) [OF assms(1)] show ?thesis
      unfolding n2 by (cases "S_of sd = 0") (auto simp: min_def)
  qed
qed

lemma length_concat_slots:
  "n \<le> S_of sd \<Longrightarrow> length (concat (take n (ring_contents sd m))) = n * 2048"
  by (simp add: ring_contents_def take_map length_concat o_def sum_list_triv)

text \<open>
  The functional behaviour of \<open>ReadSectors\<close> in one statement: a prefix of the contents
  is stored at the buffer and dropped from the ring.
\<close>

definition ring_takes :: "int \<Rightarrow> SteamingData \<Rightarrow> nat" where
  "ring_takes maxcount sd = min (nat maxcount) (S_of sd)"

text \<open>Two parts taken one after the other are the whole, stored in sequence.\<close>

lemma two_parts_stored:
  fixes n1 n2 :: u16
  assumes k: "unat n1 + unat n2 = k" and kS: "k \<le> S_of sd"
  shows "write_bytes (buffer + ucast n1 * 2048) (concat (take (unat n2) (drop (unat n1) (ring_contents sd iop))))
      (write_bytes buffer (concat (take (unat n1) (ring_contents sd iop))) m)
    = write_bytes buffer (concat (take k (ring_contents sd iop))) m"
proof -
  let ?d1 = "concat (take (unat n1) (ring_contents sd iop))"
  let ?d2 = "concat (take (unat n2) (drop (unat n1) (ring_contents sd iop)))"
  have split: "concat (take k (ring_contents sd iop)) = ?d1 @ ?d2" by (simp add: take_add flip: k)
  have "length ?d1 + length ?d2 = k * 2048" using split length_concat_slots [OF kS, of iop] by (metis length_append)
  then have len: "length ?d1 + length ?d2 \<le> 2 ^ 32" using kS u16_bound [of "StStreamed sd"] by simp
  have "unat n1 \<le> S_of sd" using k kS by simp
  then have at: "buffer + ucast n1 * 2048 = buffer + of_nat (length ?d1)" by (simp add: length_concat_slots)
  show ?thesis unfolding split by (rule write_bytes_append [OF len at])
qed

lemma ReadSectors_takes:
  assumes inv: "ring_inv sd" and max: "0 \<le> maxcount"
    and disj: "disjoint_runs (StIOP_bufaddr sd) (ring_size sd) buffer (ring_takes maxcount sd * 2048)"
  shows "ReadSectors maxcount buffer (sd, m)
    = (int (ring_takes maxcount sd), take_out (ring_takes maxcount sd) sd,
       write_bytes buffer (concat (take (ring_takes maxcount sd) (ring_contents sd m))) m)"
proof -
  let ?k = "ring_takes maxcount sd"
  define n1 where "n1 = first_part sd maxcount"
  define sd1 where "sd1 = take_out (unat n1) sd"
  define n2 where "n2 = second_part sd maxcount n1 (StReadPtr sd1)"
  let ?data1 = "concat (take (unat n1) (ring_contents sd m))"
  define m1 where "m1 = write_bytes buffer ?data1 m"
  have N: "0 < N_of sd" and R: "R_of sd < N_of sd" using inv by (auto simp: ring_inv_def)
  note s1 = first_part_size [OF inv max, folded n1_def]
  note s2 = second_part_size [OF inv max, folded n1_def, folded sd1_def, folded n2_def]
  have k: "unat n1 + unat n2 = ?k" using s2(1) by (simp add: ring_takes_def)
  have kS: "?k \<le> S_of sd" by (simp add: ring_takes_def)
  note f1 = take_out_fields [OF N s1(2), folded sd1_def]
  have c1: "copy_out n1 buffer (sd, m) = (sd1, m1)"
    using copy_out_takes [OF s1(2,3) R] by (simp add: sd1_def m1_def)
  have "disjoint_runs (StIOP_bufaddr sd) (ring_size sd) buffer (length ?data1)"
    using disjoint_runs_mono [OF disj order_refl] k length_concat_slots [OF s1(2)] by simp
  then have cont1: "ring_contents sd1 m1 = drop (unat n1) (ring_contents sd m)"
    unfolding sd1_def m1_def take_out_contents [OF N s1(2)]
    using ring_contents_outside N by metis
  have c2: "copy_out n2 (buffer + ucast n1 * 2048) (sd1, m1)
      = (take_out (unat n2) sd1, write_bytes (buffer + ucast n1 * 2048)
           (concat (take (unat n2) (ring_contents sd1 m1))) m1)"
    using s2(2) k kS f1 N mod_less_divisor [OF N] by (intro copy_out_takes) auto
  have mem: "write_bytes (buffer + ucast n1 * 2048) (concat (take (unat n2) (ring_contents sd1 m1))) m1
      = write_bytes buffer (concat (take ?k (ring_contents sd m))) m"
    unfolding cont1 unfolding m1_def by (rule two_parts_stored [OF k kS])
  have takes: "take_out (unat n2) sd1 = take_out ?k sd"
    unfolding sd1_def k [symmetric] using k kS N by (intro take_out_take_out) simp_all
  have "uint n1 + uint n2 = int ?k" by (simp flip: k)
  moreover have "second_part sd1 maxcount n1 (StReadPtr sd1) = n2"
    by (simp add: n2_def second_part_def sd1_def take_out_def)
  ultimately show ?thesis
    unfolding ReadSectors_def prod.case Let_def
      first_part_def [symmetric] n1_def [symmetric] c1 second_part_def [symmetric]
    by (simp add: c2 mem takes)
qed

section \<open>\<open>ReadSectorsEE\<close> computes the same\<close>

lemma run_dma_Cons: "run_dma iop ((src, dst, n) # ds) ee
    = run_dma iop ds (write_bytes dst (read_bytes iop src n) ee)"
  by (simp add: run_dma_def)

lemma run_dma_Nil [simp]: "run_dma iop [] ee = ee"
  by (simp add: run_dma_def)

text \<open>
  The result and the counters of the two copies of the routine agree on every input whose
  ring invariant holds; the transfers bring to EE memory what \<open>ReadSectors\<close> copies.
\<close>

lemma ReadSectorsEE_parts:
  "ReadSectorsEE maxcount buffer sd =
     (let n1 = first_part sd maxcount;
          rd1 = (if n1 > 0 then advance_rd sd (StReadPtr sd) n1 else StReadPtr sd);
          n2 = second_part sd maxcount n1 rd1;
          ds = (if n1 > 0 then [(ring_addr sd (StReadPtr sd), buffer, unat n1 * 2048)] else [])
            @ (if n2 > 0 then [(ring_addr sd rd1, buffer + ucast n1 * 2048, unat n2 * 2048)] else [])
      in (uint n1 + uint n2, ds,
          if ds \<noteq> []
          then sd\<lparr>StReadPtr := (if n2 > 0 then advance_rd sd rd1 n2 else rd1),
                 StStreamed := StStreamed sd - word_of_int (uint n1 + uint n2)\<rparr> else sd))"
  unfolding ReadSectorsEE_def first_part_def second_part_def Let_def ..

lemma read_slots_take:
  assumes "unat n \<le> S_of sd" and "R_of sd + unat n \<le> N_of sd"
  shows "read_bytes m (ring_addr sd (StReadPtr sd)) (unat n * 2048)
    = concat (take (unat n) (ring_contents sd m))"
proof -
  have "take (unat n) (ring_contents sd m) = map (\<lambda>i. ring_slot sd m (R_of sd + i)) [0..<unat n]"
    using assms by (intro nth_equalityI) (auto simp: ring_contents_def)
  then show ?thesis by (simp add: concat_slots ring_addr_def)
qed

lemma ReadSectorsEE_takes:
  assumes inv: "ring_inv sd" and max: "0 \<le> maxcount"
  shows "\<exists>ds. ReadSectorsEE maxcount buffer sd
      = (int (ring_takes maxcount sd), ds, take_out (ring_takes maxcount sd) sd) \<and>
    (\<forall>ee. run_dma iop ds ee
      = write_bytes buffer (concat (take (ring_takes maxcount sd) (ring_contents sd iop))) ee)"
proof -
  let ?k = "ring_takes maxcount sd"
  define n1 where "n1 = first_part sd maxcount"
  define sd1 where "sd1 = take_out (unat n1) sd"
  define n2 where "n2 = second_part sd maxcount n1 (StReadPtr sd1)"
  have N: "0 < N_of sd" and R: "R_of sd < N_of sd" using inv by (auto simp: ring_inv_def)
  note s1 = first_part_size [OF inv max, folded n1_def]
  note s2 = second_part_size [OF inv max, folded n1_def, folded sd1_def, folded n2_def]
  have k: "unat n1 + unat n2 = ?k" and kS: "?k \<le> S_of sd"
    using s2(1) by (simp_all add: ring_takes_def)
  note f1 = take_out_fields [OF N s1(2), folded sd1_def]
  have rd1: "(if n1 > 0 then advance_rd sd (StReadPtr sd) n1 else StReadPtr sd) = StReadPtr sd1"
    using advance_rd_eq [OF s1(3) N R] R by (auto simp: sd1_def take_out_def word_gt_0)
  have R1: "R_of sd1 < N_of sd" using f1(1) N by simp
  let ?sd2 = "take_out (unat n2) sd1"
  have sum: "take_out ?k sd = ?sd2"
    unfolding sd1_def k [symmetric] using k kS N by (intro take_out_take_out [symmetric]) simp_all
  have rd2: "(if n2 > 0 then advance_rd sd (StReadPtr sd1) n2 else StReadPtr sd1) = StReadPtr ?sd2"
    using advance_rd_eq [OF s2(2) N R1] R1 f1(3) by (auto simp: take_out_def word_gt_0)
  have u: "uint n1 + uint n2 = int ?k" by (simp flip: k)
  have st: "StStreamed sd - word_of_int (int ?k) = StStreamed (take_out ?k sd)"
    using kS by (simp add: take_out_def of_nat_diff)
  define ds where "ds = (if n1 > 0 then [(ring_addr sd (StReadPtr sd), buffer, unat n1 * 2048)] else [])
      @ (if n2 > 0 then [(ring_addr sd (StReadPtr sd1), buffer + ucast n1 * 2048, unat n2 * 2048)] else [])"
  have state: "(if ds \<noteq> [] then sd\<lparr>StReadPtr := StReadPtr (take_out ?k sd),
      StStreamed := StStreamed (take_out ?k sd)\<rparr> else sd) = take_out ?k sd"
  proof (cases "ds = []")
    case True
    then have "unat n1 = 0" "unat n2 = 0"
      by (simp_all add: ds_def word_gt_0 split: if_splits)
    then have "?k = 0" using k by simp
    with True R N show ?thesis by (simp add: take_out_0)
  next
    case False
    then show ?thesis by (simp add: take_out_def)
  qed
  have EE: "ReadSectorsEE maxcount buffer sd = (int ?k, ds, take_out ?k sd)"
    unfolding ReadSectorsEE_parts Let_def n1_def [symmetric] rd1 n2_def [symmetric] rd2 u st
    unfolding sum [symmetric] ds_def [symmetric] state ..
  have data1: "read_bytes iop (ring_addr sd (StReadPtr sd)) (unat n1 * 2048)
      = concat (take (unat n1) (ring_contents sd iop))"
    by (rule read_slots_take [OF s1(2,3)])
  have addr: "ring_addr sd (StReadPtr sd1) = ring_addr sd1 (StReadPtr sd1)"
    using f1(6) by (simp add: ring_addr_def)
  have data2: "read_bytes iop (ring_addr sd (StReadPtr sd1)) (unat n2 * 2048)
      = concat (take (unat n2) (drop (unat n1) (ring_contents sd iop)))"
    unfolding addr take_out_contents [OF N s1(2), folded sd1_def, symmetric]
    using s2(2) k kS f1 by (intro read_slots_take) simp_all
  have "run_dma iop ds ee = write_bytes (buffer + ucast n1 * 2048) (concat (take (unat n2) (drop (unat n1) (ring_contents sd iop))))
      (write_bytes buffer (concat (take (unat n1) (ring_contents sd iop))) ee)" for ee
    by (simp add: ds_def run_dma_Cons data1 data2 word_gt_0)
  then have "run_dma iop ds ee = write_bytes buffer (concat (take ?k (ring_contents sd iop))) ee" for ee
    unfolding two_parts_stored [OF k kS] .
  with EE show ?thesis by blast
qed

section \<open>A bank arrives\<close>

text \<open>The bank under way, as the sectors of its slots.\<close>

definition bank_slots :: "SteamingData \<Rightarrow> mem \<Rightarrow> u8 list list" where
  "bank_slots sd m = map (\<lambda>i. ring_slot sd m (W_of sd + i)) [0..<B_of sd]"

lemma bank_fits:
  assumes "ring_inv sd"
  shows "W_of sd + B_of sd \<le> N_of sd"
proof -
  have inv: "0 < B_of sd" "B_of sd dvd N_of sd" "B_of sd dvd W_of sd" "W_of sd < N_of sd"
    using assms unfolding ring_inv_def by blast+
  then obtain n w where nw: "N_of sd = B_of sd * n" "W_of sd = B_of sd * w" by (auto simp: dvd_def)
  with inv(1,4) have "w < n" by simp
  then have "B_of sd * (w + 1) \<le> B_of sd * n" by (intro mult_le_mono) simp_all
  with nw show ?thesis by simp
qed

lemma AllocBank_Some:
  assumes "AllocBank sd = Some ptr"
  shows "ptr = ring_addr sd (StWritePtr sd) \<and> (ring_inv sd \<longrightarrow> S_of sd + B_of sd \<le> N_of sd)"
proof -
  from assms have "uint (StBufmax sd) - uint (StStreamed sd) \<ge> uint (StBanksize sd)"
    and p: "ptr = ring_addr sd (StWritePtr sd)"
    by (simp_all add: AllocBank_def ring_addr_def split: if_splits)
  then have "int (N_of sd) - int (S_of sd) \<ge> int (B_of sd)" by simp
  with p show ?thesis by linarith
qed

lemma bank_arrived_fields:
  assumes inv: "ring_inv sd" and room: "S_of sd + B_of sd \<le> N_of sd"
  shows "W_of (bank_arrived sd) = (W_of sd + B_of sd) mod N_of sd"
    and "S_of (bank_arrived sd) = S_of sd + B_of sd"
    and "R_of (bank_arrived sd) = R_of sd" and "N_of (bank_arrived sd) = N_of sd"
    and "B_of (bank_arrived sd) = B_of sd"
    and "StIOP_bufaddr (bank_arrived sd) = StIOP_bufaddr sd"
proof -
  have "W_of sd + B_of sd < 2 ^ LENGTH(16)"
    using bank_fits [OF inv] u16_bound [of "StBufmax sd"] by simp
  then have w: "unat (StWritePtr sd + StBanksize sd) = W_of sd + B_of sd" by (rule unat_add_le)
  show "W_of (bank_arrived sd) = (W_of sd + B_of sd) mod N_of sd"
  proof (cases "W_of sd + B_of sd = N_of sd")
    case True
    then show ?thesis by (simp add: bank_arrived_def Let_def word_le_nat_alt w)
  next
    case False
    with bank_fits [OF inv] show ?thesis
      by (simp add: bank_arrived_def Let_def word_le_nat_alt w)
  qed
  have "S_of sd + B_of sd < 2 ^ LENGTH(16)"
    using room u16_bound [of "StBufmax sd"] by simp
  then show "S_of (bank_arrived sd) = S_of sd + B_of sd"
    using unat_add_le [of "StStreamed sd" "StBanksize sd"] by (simp add: bank_arrived_def Let_def)
qed (simp_all add: bank_arrived_def Let_def)

lemma bank_arrived_inv:
  assumes inv: "ring_inv sd" and room: "S_of sd + B_of sd \<le> N_of sd"
  shows "ring_inv (bank_arrived sd)"
proof -
  have i: "0 < B_of sd" "B_of sd dvd N_of sd" "B_of sd dvd W_of sd" "W_of sd < N_of sd"
    "R_of sd < N_of sd" "W_of sd = (R_of sd + S_of sd) mod N_of sd"
    using inv unfolding ring_inv_def by blast+
  note f = bank_arrived_fields [OF inv room]
  have "B_of sd dvd (W_of sd + B_of sd) mod N_of sd" using i by (simp add: dvd_mod)
  moreover have "(W_of sd + B_of sd) mod N_of sd < N_of sd" using i by simp
  moreover have "(W_of sd + B_of sd) mod N_of sd = (R_of sd + (S_of sd + B_of sd)) mod N_of sd"
    using i(6) by (simp add: mod_add_left_eq add.assoc)
  ultimately show ?thesis unfolding ring_inv_def f using i room by simp
qed

lemma bank_arrived_contents:
  assumes inv: "ring_inv sd" and room: "S_of sd + B_of sd \<le> N_of sd"
  shows "ring_contents (bank_arrived sd) m = ring_contents sd m @ bank_slots sd m"
proof -
  have i: "W_of sd = (R_of sd + S_of sd) mod N_of sd" "0 < N_of sd" "B_of sd > 0"
    using inv by (auto simp: ring_inv_def)
  note f = bank_arrived_fields [OF inv room]
  have slot: "ring_slot sd m ((R_of sd + (S_of sd + j)) mod N_of sd) = ring_slot sd m (W_of sd + j)"
    if "j < B_of sd" for j
  proof -
    have "(R_of sd + (S_of sd + j)) mod N_of sd = (W_of sd + j) mod N_of sd"
      using i(1) by (simp add: mod_add_left_eq add.assoc)
    moreover have "W_of sd + j < N_of sd" using bank_fits [OF inv] that by simp
    ultimately show ?thesis by simp
  qed
  have "ring_contents (bank_arrived sd) m
      = map (\<lambda>i. ring_slot sd m ((R_of sd + i) mod N_of sd)) [0..<S_of sd + B_of sd]"
    unfolding ring_contents_def f ring_slot_def by simp
  also have "\<dots> = ring_contents sd m @ bank_slots sd m"
    unfolding map_upt_add ring_contents_def bank_slots_def using slot by simp
  finally show ?thesis .
qed

section \<open>Properties\<close>

text \<open>
  C14. A read by the EE and a read by the IOP are the same read: the DMA descriptors that
  \<open>ReadSectorsEE\<close> builds and the copies that \<open>ReadSectors\<close> makes move the same bytes, return the
  same count and leave the same counters.
\<close>

theorem EE_and_IOP_agree:
  assumes "ring_inv sd" and "0 \<le> maxcount"
    and "disjoint_runs (StIOP_bufaddr sd) (ring_size sd) buffer (ring_takes maxcount sd * 2048)"
  shows "\<exists>k sd' ds bs. ReadSectorsEE maxcount ee_buffer sd = (k, ds, sd') \<and>
    ReadSectors maxcount buffer (sd, m) = (k, sd', write_bytes buffer bs m) \<and>
    (\<forall>ee. run_dma m ds ee = write_bytes ee_buffer bs ee)"
  using ReadSectors_takes [OF assms] ReadSectorsEE_takes [OF assms(1,2), of ee_buffer m] by blast

end
