(* ===== verification/Stream_Queue.thy ===== *)
theory Stream_Queue
  imports Stream_Ring
begin

text \<open>
  What the streaming system promises its readers, as an interface: a bounded queue of
  sectors. \<open>sector_queue\<close> states the laws of a queue whose elements live in shared memory,
  \<open>queue_run\<close> runs a history of operations, and the fact that every history delivers the
  sectors in the order they went in is proved once, from the laws. The ring buffer of
  cdvdman/streaming.c is an instance.
\<close>

section \<open>Histories\<close>

datatype ('a, 'x) queue_op = Put "'x list" | Take 'a nat

primrec queue_run ::
  "('x list \<Rightarrow> 'q \<Rightarrow> 'q) \<Rightarrow> ('a \<Rightarrow> nat \<Rightarrow> 'q \<Rightarrow> 'x list \<times> 'q) \<Rightarrow>
   ('a, 'x) queue_op list \<Rightarrow> 'q \<Rightarrow> 'x list \<times> 'q" where
  "queue_run put tk [] q = ([], q)"
| "queue_run put tk (op # ops) q =
     (case op of
        Put xs \<Rightarrow> queue_run put tk ops (put xs q)
      | Take a n \<Rightarrow> (let (out, q') = tk a n q; (outs, q'') = queue_run put tk ops q'
                     in (out @ outs, q'')))"

text \<open>Every operation of the history is allowed where it happens.\<close>

primrec queue_ok ::
  "('x list \<Rightarrow> 'q \<Rightarrow> bool) \<Rightarrow> ('a \<Rightarrow> nat \<Rightarrow> 'q \<Rightarrow> bool) \<Rightarrow> ('x list \<Rightarrow> 'q \<Rightarrow> 'q) \<Rightarrow>
   ('a \<Rightarrow> nat \<Rightarrow> 'q \<Rightarrow> 'x list \<times> 'q) \<Rightarrow> ('a, 'x) queue_op list \<Rightarrow> 'q \<Rightarrow> bool" where
  "queue_ok room safe put tk [] q \<longleftrightarrow> True"
| "queue_ok room safe put tk (op # ops) q \<longleftrightarrow>
     (case op of
        Put xs \<Rightarrow> room xs q \<and> queue_ok room safe put tk ops (put xs q)
      | Take a n \<Rightarrow> safe a n q \<and> queue_ok room safe put tk ops (snd (tk a n q)))"

primrec puts :: "('a, 'x) queue_op list \<Rightarrow> 'x list" where
  "puts [] = []"
| "puts (op # ops) = (case op of Put xs \<Rightarrow> xs | Take a n \<Rightarrow> []) @ puts ops"

locale sector_queue =
  fixes inv :: "'q \<Rightarrow> bool"
    and contents :: "'q \<Rightarrow> 'x list"
    and room :: "'x list \<Rightarrow> 'q \<Rightarrow> bool"
    and put :: "'x list \<Rightarrow> 'q \<Rightarrow> 'q"
    and safe :: "'a \<Rightarrow> nat \<Rightarrow> 'q \<Rightarrow> bool"
    and tk :: "'a \<Rightarrow> nat \<Rightarrow> 'q \<Rightarrow> 'x list \<times> 'q"
  assumes put_inv: "\<And>q xs. inv q \<Longrightarrow> room xs q \<Longrightarrow> inv (put xs q)"
    and put_contents: "\<And>q xs. inv q \<Longrightarrow> room xs q \<Longrightarrow> contents (put xs q) = contents q @ xs"
    and tk_inv: "\<And>q a n. inv q \<Longrightarrow> safe a n q \<Longrightarrow> inv (snd (tk a n q))"
    and tk_front: "\<And>q a n. inv q \<Longrightarrow> safe a n q \<Longrightarrow> fst (tk a n q) = take n (contents q)"
    and tk_rest: "\<And>q a n. inv q \<Longrightarrow> safe a n q \<Longrightarrow> contents (snd (tk a n q)) = drop n (contents q)"
begin

lemma tk_inv_eq: "inv q \<Longrightarrow> safe a n q \<Longrightarrow> tk a n q = (out, q') \<Longrightarrow> inv q'"
  using tk_inv [of q a n] by simp

lemma run_inv:
  "inv q \<Longrightarrow> queue_ok room safe put tk ops q \<Longrightarrow> inv (snd (queue_run put tk ops q))"
  by (induction ops arbitrary: q)
    (fastforce simp: put_inv dest: tk_inv_eq split: queue_op.splits prod.splits)+

lemma run_fifo:
  "inv q \<Longrightarrow> queue_ok room safe put tk ops q \<Longrightarrow>
   fst (queue_run put tk ops q) @ contents (snd (queue_run put tk ops q)) = contents q @ puts ops"
proof (induction ops arbitrary: q)
  case Nil
  then show ?case by simp
next
  case (Cons op ops)
  show ?case
  proof (cases op)
    case (Put xs)
    with Cons show ?thesis by (simp add: put_inv put_contents)
  next
    case (Take a n)
    with Cons.prems have ok: "safe a n q" "queue_ok room safe put tk ops (snd (tk a n q))" by simp_all
    have "fst (queue_run put tk ops (snd (tk a n q)))
        @ contents (snd (queue_run put tk ops (snd (tk a n q)))) = drop n (contents q) @ puts ops"
      using Cons.IH [OF tk_inv [OF Cons.prems(1) ok(1)] ok(2)] tk_rest [OF Cons.prems(1) ok(1)] by simp
    with Take tk_front [OF Cons.prems(1) ok(1)] show ?thesis
      by (simp add: case_prod_unfold Let_def)
  qed
qed

end

section \<open>The ring buffer is such a queue\<close>

text \<open>
  The state is the counters with memory. Putting a bank in is the reading thread's store at
  the write pointer followed by \<open>StmCallback\<close>'s update; taking sectors out is \<open>ReadSectors\<close>,
  and what the reader gets is what it then finds at its buffer.
\<close>

definition ring_put :: "u8 list list \<Rightarrow> SteamingData \<times> mem \<Rightarrow> SteamingData \<times> mem" where
  "ring_put bs = (\<lambda>(sd, m).
     (bank_arrived sd, write_bytes (ring_addr sd (StWritePtr sd)) (concat bs) m))"

definition ring_room :: "u8 list list \<Rightarrow> SteamingData \<times> mem \<Rightarrow> bool" where
  "ring_room bs = (\<lambda>(sd, m). length bs = B_of sd \<and> (\<forall>b \<in> set bs. length b = 2048) \<and>
     AllocBank sd \<noteq> None)"

definition ring_tk :: "u32 \<Rightarrow> nat \<Rightarrow> SteamingData \<times> mem \<Rightarrow> u8 list list \<times> SteamingData \<times> mem" where
  "ring_tk buf n q =
     (let (k, sd, m) = ReadSectors (int n) buf q
      in (map (\<lambda>i. read_bytes m (buf + of_nat (i * 2048)) 2048) [0..<nat k], sd, m))"

definition ring_safe :: "u32 \<Rightarrow> nat \<Rightarrow> SteamingData \<times> mem \<Rightarrow> bool" where
  "ring_safe buf n = (\<lambda>(sd, m). disjoint_runs (StIOP_bufaddr sd) (ring_size sd) buf
     (ring_takes (int n) sd * 2048))"

lemma slots_of_concat:
  assumes "\<And>b. b \<in> set bs \<Longrightarrow> length b = 2048" and "length bs * 2048 \<le> 2 ^ 32" and "i < length bs"
  shows "read_bytes (write_bytes a (concat bs) m) (a + of_nat (i * 2048)) 2048 = bs ! i"
proof -
  have len: "length (concat cs) = length cs * 2048" if "\<And>b. b \<in> set cs \<Longrightarrow> length b = 2048" for cs :: "u8 list list"
    using that by (induction cs) simp_all
  have split: "bs = take i bs @ bs ! i # drop (Suc i) bs"
    using assms(3) by (simp add: id_take_nth_drop)
  have pre: "length (concat (take i bs)) = i * 2048"
    using assms(1,3) in_set_takeD [of _ i bs] by (subst len) auto
  have tot: "length (concat bs) \<le> 2 ^ 32" using assms(1,2) by (subst len) auto
  have mid: "length (bs ! i) = 2048" using assms(1,3) by simp
  show ?thesis
  proof (rule nth_equalityI)
    show "length (read_bytes (write_bytes a (concat bs) m) (a + of_nat (i * 2048)) 2048) = length (bs ! i)"
      by (simp add: mid)
  next
    fix j assume "j < length (read_bytes (write_bytes a (concat bs) m) (a + of_nat (i * 2048)) 2048)"
    then have j: "j < 2048" by simp
    have cat: "concat bs = concat (take i bs) @ bs ! i @ concat (drop (Suc i) bs)"
      by (subst split) simp
    have lt: "i * 2048 + j < length (concat bs)" unfolding cat using pre mid j by simp
    have nth: "concat bs ! (i * 2048 + j) = bs ! i ! j"
      unfolding cat using pre mid j by (simp add: nth_append)
    have "write_bytes a (concat bs) m (a + of_nat (i * 2048 + j)) = concat bs ! (i * 2048 + j)"
      using lt tot by (rule write_bytes_inside)
    then show "read_bytes (write_bytes a (concat bs) m) (a + of_nat (i * 2048)) 2048 ! j = bs ! i ! j"
      using j nth by (simp add: add.assoc)
  qed
qed

lemma bank_slots_written:
  assumes "ring_inv sd" and "length bs = B_of sd" and "\<And>b. b \<in> set bs \<Longrightarrow> length b = 2048"
  shows "bank_slots sd (write_bytes (ring_addr sd (StWritePtr sd)) (concat bs) m) = bs"
proof (rule nth_equalityI)
  show "length (bank_slots sd (write_bytes (ring_addr sd (StWritePtr sd)) (concat bs) m)) = length bs"
    by (simp add: bank_slots_def assms(2))
next
  fix i assume "i < length (bank_slots sd (write_bytes (ring_addr sd (StWritePtr sd)) (concat bs) m))"
  then have i: "i < B_of sd" by (simp add: bank_slots_def)
  have size: "length bs * 2048 \<le> 2 ^ 32" using assms(2) u16_bound [of "StBanksize sd"] by simp
  have addr: "StIOP_bufaddr sd + of_nat ((W_of sd + i) * 2048)
      = ring_addr sd (StWritePtr sd) + of_nat (i * 2048)"
    by (simp add: ring_addr_def algebra_simps)
  show "bank_slots sd (write_bytes (ring_addr sd (StWritePtr sd)) (concat bs) m) ! i = bs ! i"
    using i assms(2)
      slots_of_concat [OF assms(3) size, of i "ring_addr sd (StWritePtr sd)" m, folded addr]
    by (simp add: bank_slots_def ring_slot_def)
qed

lemma held_not_in_bank:
  assumes inv: "ring_inv sd" and room: "S_of sd + B_of sd \<le> N_of sd" and i: "i < S_of sd"
  shows "(R_of sd + i) mod N_of sd < W_of sd \<or> W_of sd + B_of sd \<le> (R_of sd + i) mod N_of sd"
proof (rule ccontr)
  assume "\<not> ?thesis"
  then obtain j where j: "(R_of sd + i) mod N_of sd = W_of sd + j" "j < B_of sd"
    by (metis add_diff_cancel_left' add_less_cancel_left le_add_diff_inverse not_le)
  have N: "0 < N_of sd" and W: "W_of sd = (R_of sd + S_of sd) mod N_of sd"
    using inv unfolding ring_inv_def by auto
  have "(R_of sd + i) mod N_of sd = (W_of sd + j) mod N_of sd"
    using j(1) by (metis mod_mod_trivial)
  also have "\<dots> = (R_of sd + (S_of sd + j)) mod N_of sd"
    unfolding W by (simp add: mod_add_left_eq add.assoc)
  finally have "N_of sd dvd (R_of sd + (S_of sd + j)) - (R_of sd + i)"
    using mod_eq_dvd_iff_nat [of "R_of sd + i" "R_of sd + (S_of sd + j)" "N_of sd"] i by simp
  then have "N_of sd dvd S_of sd + j - i" by simp
  moreover have "0 < S_of sd + j - i" "S_of sd + j - i < N_of sd" using i room j(2) by simp_all
  ultimately show False by (simp add: nat_dvd_not_less)
qed

lemma held_slots_kept:
  assumes inv: "ring_inv sd" and room: "S_of sd + B_of sd \<le> N_of sd"
    and len: "length bs = B_of sd * 2048"
  shows "ring_contents sd (write_bytes (ring_addr sd (StWritePtr sd)) bs m) = ring_contents sd m"
  unfolding ring_contents_def
proof (rule map_cong [OF refl])
  fix i assume "i \<in> set [0..<S_of sd]"
  then have i: "i < S_of sd" by simp
  let ?s = "(R_of sd + i) mod N_of sd"
  have N: "0 < N_of sd" "N_of sd < 65536" using inv u16_bound unfolding ring_inv_def by auto
  have s: "?s < N_of sd" "?s < 65536" using N less_trans [of ?s "N_of sd"] by simp_all
  have dj: "disjoint_runs (StIOP_bufaddr sd + of_nat (W_of sd * 2048)) (length bs)
      (StIOP_bufaddr sd + of_nat (?s * 2048)) 2048"
    using held_not_in_bank [OF inv room i] bank_fits [OF inv] s N len
    by (intro disjoint_runs_apart) auto
  show "ring_slot sd (write_bytes (ring_addr sd (StWritePtr sd)) bs m) ?s = ring_slot sd m ?s"
    unfolding ring_slot_def using read_write_disjoint [OF dj] by (simp add: ring_addr_def)
qed

definition ring_holds :: "SteamingData \<times> mem \<Rightarrow> u8 list list" where
  "ring_holds = (\<lambda>(sd, m). ring_contents sd m)"

lemma ring_put_laws:
  assumes "ring_inv (fst q)" and "ring_room bs q"
  shows "ring_inv (fst (ring_put bs q))" and "ring_holds (ring_put bs q) = ring_holds q @ bs"
proof -
  obtain sd m where q: "q = (sd, m)" by force
  from assms q have inv: "ring_inv sd" and bs: "length bs = B_of sd"
    "\<And>b. b \<in> set bs \<Longrightarrow> length b = 2048" and "AllocBank sd \<noteq> None"
    by (auto simp: ring_room_def)
  then have room: "S_of sd + B_of sd \<le> N_of sd" using AllocBank_Some by blast
  show "ring_inv (fst (ring_put bs q))"
    using bank_arrived_inv [OF inv room] by (simp add: q ring_put_def)
  have "length (concat bs) = length bs * 2048"
    using bs(2) by (induction bs) simp_all
  then show "ring_holds (ring_put bs q) = ring_holds q @ bs"
    using bank_slots_written [OF inv bs] held_slots_kept [OF inv room] bs(1)
    by (simp add: q ring_put_def ring_holds_def bank_arrived_contents [OF inv room])
qed

lemma ring_tk_laws:
  assumes "ring_inv (fst q)" and "ring_safe buf n q"
  shows "ring_inv (fst (snd (ring_tk buf n q)))" and "fst (ring_tk buf n q) = take n (ring_holds q)"
    and "ring_holds (snd (ring_tk buf n q)) = drop n (ring_holds q)"
proof -
  obtain sd m where q: "q = (sd, m)" by force
  let ?k = "ring_takes (int n) sd"
  from assms q have inv: "ring_inv sd" and dj: "disjoint_runs (StIOP_bufaddr sd) (ring_size sd) buf (?k * 2048)"
    by (simp_all add: ring_safe_def)
  have N: "0 < N_of sd" using inv by (auto simp: ring_inv_def)
  let ?out = "take ?k (ring_contents sd m)"
  have k: "?k = min n (S_of sd)" and kS: "?k \<le> S_of sd" by (simp_all add: ring_takes_def)
  have R: "ReadSectors (int n) buf (sd, m)
      = (int ?k, take_out ?k sd, write_bytes buf (concat ?out) m)"
    by (rule ReadSectors_takes [OF inv _ dj]) simp
  have len: "length ?out = ?k" "\<And>b. b \<in> set ?out \<Longrightarrow> length b = 2048"
    using kS by (auto simp: ring_contents_def dest!: in_set_takeD)
  have size: "length ?out * 2048 \<le> 2 ^ 32" using kS u16_bound [of "StStreamed sd"] by simp
  have tn: "?out = take n (ring_contents sd m)" and dn: "drop ?k (ring_contents sd m) = drop n (ring_contents sd m)"
    unfolding k by (auto simp: min_def)
  show "ring_inv (fst (snd (ring_tk buf n q)))"
    using take_out_inv [OF inv kS] by (simp add: q ring_tk_def R)
  have "fst (ring_tk buf n q) = map (\<lambda>i. ?out ! i) [0..<?k]"
    using slots_of_concat [OF len(2) size] len(1) by (simp add: q ring_tk_def R)
  also have "\<dots> = ?out" using len(1) by (metis map_nth)
  finally show "fst (ring_tk buf n q) = take n (ring_holds q)"
    by (simp add: tn q ring_holds_def)
  have "ring_contents (take_out ?k sd) (write_bytes buf (concat ?out) m)
      = drop ?k (ring_contents sd (write_bytes buf (concat ?out) m))"
    by (rule take_out_contents [OF N kS])
  also have "\<dots> = drop ?k (ring_contents sd m)"
    using dj length_concat_slots [OF kS, of m] by (simp add: ring_contents_outside [OF _ N])
  finally show "ring_holds (snd (ring_tk buf n q)) = drop n (ring_holds q)"
    by (simp add: q ring_tk_def R ring_holds_def dn)
qed

interpretation ring: sector_queue "\<lambda>q. ring_inv (fst q)" ring_holds ring_room ring_put ring_safe ring_tk
  by unfold_locales (simp_all add: ring_put_laws ring_tk_laws)

section \<open>Properties\<close>

text \<open>
  C13. Every history of banks arriving and readers taking sectors hands out the sectors in the
  order they were put in: what the readers got, followed by what the ring still holds, is what
  the ring held at the start followed by everything put in.
\<close>

theorem ring_fifo:
  assumes "ring_inv (fst q)" and "queue_ok ring_room ring_safe ring_put ring_tk ops q"
  shows "fst (queue_run ring_put ring_tk ops q) @ ring_holds (snd (queue_run ring_put ring_tk ops q))
    = ring_holds q @ puts ops"
  using assms by (rule ring.run_fifo)

end
