(* ===== verification/Read_Thread.thy ===== *)
theory Read_Thread
  imports Stream_Queue
begin

text \<open>
  The reading thread of cdvdman/cdvdman.c (\<open>cdvdman_cdread_Thread\<close>) and the calls that wait
  for it (\<open>sceCdSync\<close>, \<open>sceCdDiskReady\<close>). A caller that waits gives the processor to the
  reading thread, which has a better priority than its callers and so runs until its next
  \<open>WaitSema\<close>: one turn of its loop is one step here. A wait that never ends is None.
\<close>

section \<open>The thread\<close>

definition cdvdman_cdread_Thread :: "'d devread \<Rightarrow> 'd cdvdman \<Rightarrow> 'd cdvdman option" where
  "cdvdman_cdread_Thread rd s = do {
     s1 \<leftarrow> WaitSema cdrom_rthread_sema s;
     (_, s2) \<leftarrow> cdvdman_read rd (cdread_lba s1) (cdread_sectors s1) (cdread_buf s1) s1;
     let s3 = SetEventFlag 9 (s2\<lparr>sync_flag := False\<rparr>);
     Some (if Stm0Callback s3 then StmCallback s3
           else snd (cdvdman_cb_event SCECdFuncRead s3)) }"

text \<open>What the thread does while the others sleep: nothing without a request.\<close>

definition thread_turn :: "'d devread \<Rightarrow> 'd cdvdman \<Rightarrow> 'd cdvdman option" where
  "thread_turn rd s =
     (if semas s cdrom_rthread_sema = 0 then Some s else cdvdman_cdread_Thread rd s)"

section \<open>Waiting for the drive\<close>

text \<open>
  \<open>while (sync_flag) WaitEventFlag(intr_ef, 1, WEF_AND)\<close>. With bit 1 set the wait returns at
  once; otherwise the caller sleeps and the reading thread runs.
\<close>

partial_function (option) sync_wait :: "'d devread \<Rightarrow> 'd cdvdman \<Rightarrow> 'd cdvdman option" where
  "sync_wait rd s =
     (if \<not> sync_flag s then Some s
      else if intr_ef s AND 1 = 1 then sync_wait rd s
      else Option.bind (cdvdman_cdread_Thread rd s) (sync_wait rd))"

definition sceCdSync :: "'d devread \<Rightarrow> int \<Rightarrow> 'd cdvdman \<Rightarrow> (int \<times> 'd cdvdman) option" where
  "sceCdSync rd mode s =
     (if \<not> sync_flag s then Some (0, s)
      else if mode = 1 \<or> mode = 17 then Some (1, s)
      else map_option (Pair 0) (sync_wait rd s))"

definition sceCdDiskReady :: "'d devread \<Rightarrow> int \<Rightarrow> 'd cdvdman \<Rightarrow> (u32 \<times> 'd cdvdman) option" where
  "sceCdDiskReady rd mode s =
     (let s1 = s\<lparr>err := CDVD_ERR_NO\<rparr>
      in if \<not> cdvdman_cdinited s1 then Some (CDVD_READY_NOTREADY, s1)
         else map_option
           (\<lambda>s2. (if sync_flag s2 then CDVD_READY_NOTREADY else CDVD_READY_READY, s2))
           (if mode = 0 then sync_wait rd s1 else Some s1))"

text \<open>
  \<open>while (sceCdRead(...) == 0) DelayThread(10000)\<close>: the reading thread has its turn during
  each delay.
\<close>

partial_function (option) sceCdRead_retry ::
  "'d devread \<Rightarrow> u32 \<Rightarrow> u32 \<Rightarrow> u32 \<Rightarrow> 'd cdvdman \<Rightarrow> 'd cdvdman option" where
  "sceCdRead_retry rd lsn sectors buf s =
     Option.bind (sceCdRead rd lsn sectors buf s) (\<lambda>(r, s').
       if r = 0
       then Option.bind (thread_turn rd (DelayThread 10000 s')) (sceCdRead_retry rd lsn sectors buf)
       else Some s')"

text \<open>A read that is waited for: \<open>sceCdRead\<close> followed by \<open>sceCdSync(0)\<close>.\<close>

definition read_and_sync ::
  "'d devread \<Rightarrow> u32 \<Rightarrow> u32 \<Rightarrow> u32 \<Rightarrow> 'd cdvdman \<Rightarrow> (u32 \<times> 'd cdvdman) option" where
  "read_and_sync rd lsn sectors buf s = do {
     (r, s1) \<leftarrow> sceCdRead rd lsn sectors buf s;
     (_, s2) \<leftarrow> sceCdSync rd 0 s1;
     Some (r, s2) }"

section \<open>What a finished read changes\<close>

definition read_frame :: "'d cdvdman \<Rightarrow> 'd cdvdman \<Rightarrow> bool" where
  "read_frame s s' \<longleftrightarrow> s' = s\<lparr>err := err s', status := status s', cdread_lba := cdread_lba s',
     cdread_sectors := cdread_sectors s', cdread_buf := cdread_buf s', ReadPos := ReadPos s',
     intr_ef := intr_ef s', read_end_alarm := read_end_alarm s', event_alarm := event_alarm s',
     dev := dev s', memory := memory s'\<rparr>"

lemma read_frame_refl [simp, intro]: "read_frame s s"
  by (simp add: read_frame_def)

lemma read_frame_trans [trans]: "read_frame a b \<Longrightarrow> read_frame b c \<Longrightarrow> read_frame a c"
  by (cases a; cases b; cases c) (simp add: read_frame_def)

lemma read_frame_fields:
  assumes "read_frame s s'"
  shows "settings s' = settings s" and "cdvdman_buf s' = cdvdman_buf s"
    and "cdvdman_fs_buf s' = cdvdman_fs_buf s" and "semas s' = semas s"
    and "sync_flag s' = sync_flag s" and "StreamingData s' = StreamingData s"
    and "Stm0Callback s' = Stm0Callback s" and "cdvdman_fdhandles s' = cdvdman_fdhandles s"
    and "layer_info s' = layer_info s" and "cdvdman_cdinited s' = cdvdman_cdinited s"
    and "fs_inited s' = fs_inited s" and "in_intr s' = in_intr s" and "user_cb s' = user_cb s"
    and "slept s' = slept s"
  using assms by (cases s; cases s'; simp add: read_frame_def)+

lemma read_frame_upd [intro]:
  "read_frame s s' \<Longrightarrow> read_frame s (s'\<lparr>memory := m\<rparr>)"
  "read_frame s s' \<Longrightarrow> read_frame s (s'\<lparr>err := e\<rparr>)"
  by (cases s; cases s'; simp add: read_frame_def)+

lemma flag_cleared: "((x :: u32) AND - 2) AND 1 = 0"
proof -
  have "(x AND NOT 1) AND 1 = 0" by (rule bit_word_eqI) (auto simp: bit_simps)
  then show ?thesis by simp
qed

lemma sync_wait_idle: "\<not> sync_flag s \<Longrightarrow> sync_wait rd s = Some s"
  by (simp add: sync_wait.simps)

lemma sceCdSync_idle: "\<not> sync_flag s \<Longrightarrow> sceCdSync rd mode s = Some (0, s)"
  by (simp add: sceCdSync_def)

lemma DiskReady_idle:
  "\<not> sync_flag s \<Longrightarrow> \<exists>r. sceCdDiskReady rd mode s = Some (r, s\<lparr>err := CDVD_ERR_NO\<rparr>)"
  by (auto simp: sceCdDiskReady_def sync_wait_idle Let_def)

text \<open>
  The drive is at rest: no request, no streaming. \<open>read_ready s lsn n buf\<close> collects what a
  read of \<open>n\<close> sectors to \<open>buf\<close> needs beside a working driver.
\<close>

definition drive_idle :: "'d cdvdman \<Rightarrow> bool" where
  "drive_idle s \<longleftrightarrow> \<not> sync_flag s \<and> \<not> Stm0Callback s \<and> semas s cdrom_rthread_sema = 0"

definition read_ready :: "'d cdvdman \<Rightarrow> u32 \<Rightarrow> u32 \<Rightarrow> u32 \<Rightarrow> bool" where
  "read_ready s lsn n buf \<longleftrightarrow> 13 \<le> lsn \<and> unat lsn + unat n < 2 ^ 32 \<and> unat n * 2048 \<le> 2 ^ 32 \<and>
     (buf AND 3 \<noteq> 0 \<longrightarrow> disjoint_runs (cdvdman_buf s) 4096 buf (unat n * 2048) \<and>
        semas s cdvdman_searchfilesema = 1 \<and> n \<noteq> 0)"

text \<open>The bounce buffer is scratch memory of an unaligned transfer.\<close>

definition scratch :: "'d cdvdman \<Rightarrow> u32 \<Rightarrow> u32 \<Rightarrow> bool" where
  "scratch s buf x \<longleftrightarrow> buf AND 3 \<noteq> 0 \<and> in_run (cdvdman_buf s) 4096 x"

context disc_device
begin

text \<open>One turn of the thread with a request pending and no streaming.\<close>

lemma thread_delivers:
  assumes "inv (dev s)" and "readable (cdread_lba s) (unat (cdread_sectors s))"
    and "read_ready s (cdread_lba s) (cdread_sectors s) (cdread_buf s)"
    and "semas s cdrom_rthread_sema = 1"
  shows "\<exists>s'. cdvdman_cdread_Thread rd s = Some (if Stm0Callback s then StmCallback s'
        else snd (cdvdman_cb_event SCECdFuncRead s')) \<and>
      inv (dev s') \<and> \<not> sync_flag s' \<and> user_cb s' = user_cb s \<and>
      read_frame (s\<lparr>sync_flag := False, semas := (semas s)(cdrom_rthread_sema := 0)\<rparr>) s' \<and>
      err s' = CDVD_ERR_NO \<and> status s' = CDVD_STAT_PAUSE \<and> ReadPos s' = 0 \<and> intr_ef s' AND 9 = 9 \<and>
      (\<forall>x. \<not> scratch s (cdread_buf s) x \<longrightarrow> memory s' x = write_bytes (cdread_buf s)
          (sector_run disc (cdread_lba s) (unat (cdread_sectors s))) (memory s) x)"
proof -
  let ?s1 = "s\<lparr>semas := (semas s)(cdrom_rthread_sema := 0)\<rparr>"
  have w: "WaitSema cdrom_rthread_sema s = Some ?s1" using assms(4) by (simp add: WaitSema_def)
  obtain s2 where s2: "cdvdman_read rd (cdread_lba s) (cdread_sectors s) (cdread_buf s) ?s1 = Some (1, s2)"
    "io_frame (?s1\<lparr>err := CDVD_ERR_NO, status := CDVD_STAT_PAUSE\<rparr>) s2" "inv (dev s2)" "ReadPos s2 = 0"
    "\<And>x. \<not> scratch s (cdread_buf s) x \<Longrightarrow> memory s2 x = write_bytes (cdread_buf s)
        (sector_run disc (cdread_lba s) (unat (cdread_sectors s))) (memory s) x"
    using read_delivers [of ?s1 "cdread_lba s" "cdread_sectors s" "cdread_buf s"] assms(1-3)
    by (auto simp: read_ready_def scratch_def)
  let ?s3 = "SetEventFlag 9 (s2\<lparr>sync_flag := False\<rparr>)"
  have f: "Stm0Callback s2 = Stm0Callback s" "err s2 = CDVD_ERR_NO" "status s2 = CDVD_STAT_PAUSE"
    "user_cb s2 = user_cb s"
    using s2(2) by (cases s; cases s2; simp add: io_frame_def)+
  have fr: "read_frame (s\<lparr>sync_flag := False, semas := (semas s)(cdrom_rthread_sema := 0)\<rparr>) ?s3"
    using s2(2) by (cases s; cases s2; simp add: io_frame_def read_frame_def SetEventFlag_def)
  have ef: "(intr_ef s2 OR 9) AND 9 = 9"
    by (simp add: bit.conj_disj_distrib2)
  have t: "cdvdman_cdread_Thread rd s = Some (if Stm0Callback s then StmCallback ?s3
        else snd (cdvdman_cb_event SCECdFuncRead ?s3))"
    using w s2(1) f(1) by (simp add: cdvdman_cdread_Thread_def SetEventFlag_def)
  show ?thesis
    using t s2(3,4,5) fr f ef
    by (intro exI [of _ ?s3]) (auto simp: SetEventFlag_def)
qed

text \<open>Waiting for a request to finish, streaming or not: the first turn of the wait.\<close>

lemma sync_wait_turn:
  assumes "sync_flag s" and "intr_ef s AND 1 = 0" and "cdvdman_cdread_Thread rd s = Some s'"
  shows "sync_wait rd s = sync_wait rd s'"
  using assms by (subst sync_wait.simps) simp

text \<open>
  A request and the wait for it. Between the two the caller may move the position of an open
  file (\<open>h\<close> is the table of open files then); the reading thread does not look at the table.
\<close>

text \<open>With \<open>IOPCORE_COMPAT_ALT_READ\<close> a read outside an interrupt is done at once; else by the thread.\<close>

lemma read_by_thread_delivers:
  assumes "inv (dev s)" and "readable lsn (unat n)" and ready: "read_ready s lsn n buf" and idle: "drive_idle s"
    and path: "\<not> has_flag IOPCORE_COMPAT_ALT_READ (settings s) \<or> in_intr s"
  shows "\<exists>s1. sceCdRead rd lsn n buf s = Some (1, s1) \<and> cdvdman_fdhandles s1 = cdvdman_fdhandles s \<and>
    (\<forall>h. \<exists>s'. sceCdSync rd 0 (s1\<lparr>cdvdman_fdhandles := h\<rparr>) = Some (0, s') \<and>
      read_frame (s\<lparr>cdvdman_fdhandles := h\<rparr>) s' \<and> inv (dev s') \<and>
      err s' = CDVD_ERR_NO \<and> status s' = CDVD_STAT_PAUSE \<and> ReadPos s' = 0 \<and>
      (\<forall>x. \<not> scratch s buf x \<longrightarrow>
        memory s' x = write_bytes buf (sector_run disc lsn (unat n)) (memory s) x))"
proof -
  let ?s0 = "s\<lparr>intr_ef := intr_ef s AND NOT 1, sync_flag := True, cdread_lba := lsn,
     cdread_sectors := n, cdread_buf := buf, semas := (semas s)(cdrom_rthread_sema := 1)\<rparr>"
  have start: "sceCdRead rd lsn n buf s = Some (1, ?s0)"
    using path idle by (simp add: sceCdRead_def AsyncRead_free drive_idle_def)
  have "\<exists>s'. sceCdSync rd 0 (?s0\<lparr>cdvdman_fdhandles := h\<rparr>) = Some (0, s') \<and>
      read_frame (s\<lparr>cdvdman_fdhandles := h\<rparr>) s' \<and> inv (dev s') \<and>
      err s' = CDVD_ERR_NO \<and> status s' = CDVD_STAT_PAUSE \<and> ReadPos s' = 0 \<and>
      (\<forall>x. \<not> scratch s buf x \<longrightarrow>
        memory s' x = write_bytes buf (sector_run disc lsn (unat n)) (memory s) x)" for h
  proof -
    let ?s1 = "?s0\<lparr>cdvdman_fdhandles := h\<rparr>"
    have ready1: "read_ready ?s1 lsn n buf" using ready by (simp add: read_ready_def)
    obtain s2 where s2: "cdvdman_cdread_Thread rd ?s1 = Some (snd (cdvdman_cb_event SCECdFuncRead s2))"
      "inv (dev s2)" "\<not> sync_flag s2"
      "read_frame (?s1\<lparr>sync_flag := False, semas := (semas ?s1)(cdrom_rthread_sema := 0)\<rparr>) s2"
      "err s2 = CDVD_ERR_NO" "status s2 = CDVD_STAT_PAUSE" "ReadPos s2 = 0"
      "\<And>x. \<not> scratch s buf x \<Longrightarrow>
          memory s2 x = write_bytes buf (sector_run disc lsn (unat n)) (memory s) x"
      using thread_delivers [of ?s1] assms(1,2) ready1 idle
      by (auto simp: scratch_def drive_idle_def)
    let ?s3 = "snd (cdvdman_cb_event SCECdFuncRead s2)"
    have "sync_wait rd ?s1 = sync_wait rd ?s3"
      by (rule sync_wait_turn) (use s2(1) in \<open>simp_all add: flag_cleared\<close>)
    moreover have "\<not> sync_flag ?s3" using s2(3) by (simp add: cdvdman_cb_event_def)
    ultimately have sync: "sceCdSync rd 0 ?s1 = Some (0, ?s3)"
      by (simp add: sceCdSync_def sync_wait_idle)
    have "(semas s)(cdrom_rthread_sema := 0) = semas s" using idle by (auto simp: drive_idle_def)
    moreover have "sync_flag s = False" using idle by (simp add: drive_idle_def)
    ultimately have "read_frame (s\<lparr>cdvdman_fdhandles := h\<rparr>) s2"
      using s2(4) by (cases s; cases s2; simp add: read_frame_def)
    then have "read_frame (s\<lparr>cdvdman_fdhandles := h\<rparr>) ?s3"
      by (cases s; cases s2; simp add: read_frame_def cdvdman_cb_event_def)
    with sync s2 show ?thesis by (auto simp: cdvdman_cb_event_def)
  qed
  with start show ?thesis by auto
qed

lemma read_at_once_delivers:
  assumes "inv (dev s)" and "readable lsn (unat n)" and ready: "read_ready s lsn n buf" and idle: "drive_idle s"
    and path: "\<not> (\<not> has_flag IOPCORE_COMPAT_ALT_READ (settings s) \<or> in_intr s)"
  shows "\<exists>s1. sceCdRead rd lsn n buf s = Some (1, s1) \<and> cdvdman_fdhandles s1 = cdvdman_fdhandles s \<and>
    (\<forall>h. \<exists>s'. sceCdSync rd 0 (s1\<lparr>cdvdman_fdhandles := h\<rparr>) = Some (0, s') \<and>
      read_frame (s\<lparr>cdvdman_fdhandles := h\<rparr>) s' \<and> inv (dev s') \<and>
      err s' = CDVD_ERR_NO \<and> status s' = CDVD_STAT_PAUSE \<and> ReadPos s' = 0 \<and>
      (\<forall>x. \<not> scratch s buf x \<longrightarrow>
        memory s' x = write_bytes buf (sector_run disc lsn (unat n)) (memory s) x))"
proof -
  let ?s1 = "s\<lparr>intr_ef := intr_ef s AND NOT 1, sync_flag := True\<rparr>"
  have lock: "cdvdman_common_lock s = (True, ?s1)"
    using idle by (simp add: cdvdman_common_lock_def ClearEventFlag_def drive_idle_def)
  obtain s2 where s2: "cdvdman_read rd lsn n buf ?s1 = Some (1, s2)"
    "io_frame (?s1\<lparr>err := CDVD_ERR_NO, status := CDVD_STAT_PAUSE\<rparr>) s2" "inv (dev s2)" "ReadPos s2 = 0"
    "\<And>x. \<not> scratch s buf x \<Longrightarrow>
        memory s2 x = write_bytes buf (sector_run disc lsn (unat n)) (memory s) x"
    using read_delivers [of ?s1 lsn n buf] assms(1,2) ready
    by (auto simp: read_ready_def scratch_def)
  let ?s3 = "SetEventFlag 9 ((snd (cdvdman_cb_event SCECdFuncRead s2))\<lparr>sync_flag := False\<rparr>)"
  have start: "sceCdRead rd lsn n buf s = Some (1, ?s3)"
    using path lock s2(1) by (simp add: sceCdRead_def cdvdman_SyncRead_def)
  have idle3: "sceCdSync rd 0 (?s3\<lparr>cdvdman_fdhandles := h\<rparr>) = Some (0, ?s3\<lparr>cdvdman_fdhandles := h\<rparr>)" for h
    by (simp add: sceCdSync_idle SetEventFlag_def)
  have "sync_flag s = False" using idle by (simp add: drive_idle_def)
  then have fr: "read_frame (s\<lparr>cdvdman_fdhandles := h\<rparr>) (?s3\<lparr>cdvdman_fdhandles := h\<rparr>)"
    "err ?s3 = CDVD_ERR_NO" "status ?s3 = CDVD_STAT_PAUSE" "ReadPos ?s3 = 0"
    "cdvdman_fdhandles ?s3 = cdvdman_fdhandles s" for h
    using s2(2,4) by (cases s; cases s2;
      simp add: io_frame_def read_frame_def cdvdman_cb_event_def SetEventFlag_def)+
  show ?thesis
    using start idle3 fr s2(3,5)
    by (intro exI [of _ ?s3]) (simp add: cdvdman_cb_event_def SetEventFlag_def)
qed

lemma read_then_sync_delivers:
  assumes "inv (dev s)" and "readable lsn (unat n)" and ready: "read_ready s lsn n buf"
    and idle: "drive_idle s"
  shows "\<exists>s1. sceCdRead rd lsn n buf s = Some (1, s1) \<and> cdvdman_fdhandles s1 = cdvdman_fdhandles s \<and>
    (\<forall>h. \<exists>s'. sceCdSync rd 0 (s1\<lparr>cdvdman_fdhandles := h\<rparr>) = Some (0, s') \<and>
      read_frame (s\<lparr>cdvdman_fdhandles := h\<rparr>) s' \<and> inv (dev s') \<and>
      err s' = CDVD_ERR_NO \<and> status s' = CDVD_STAT_PAUSE \<and> ReadPos s' = 0 \<and>
      (\<forall>x. \<not> scratch s buf x \<longrightarrow>
        memory s' x = write_bytes buf (sector_run disc lsn (unat n)) (memory s) x))"
  using read_by_thread_delivers [OF assms] read_at_once_delivers [OF assms] by blast

text \<open>A read that is waited for returns, has stored the sectors and leaves the drive at rest.\<close>

lemma read_and_sync_delivers:
  assumes "inv (dev s)" and "readable lsn (unat n)" and "read_ready s lsn n buf"
    and "drive_idle s"
  shows "\<exists>s'. read_and_sync rd lsn n buf s = Some (1, s') \<and> read_frame s s' \<and> inv (dev s') \<and>
      err s' = CDVD_ERR_NO \<and> status s' = CDVD_STAT_PAUSE \<and> ReadPos s' = 0 \<and>
      (\<forall>x. \<not> scratch s buf x \<longrightarrow>
        memory s' x = write_bytes buf (sector_run disc lsn (unat n)) (memory s) x)"
proof -
  obtain s1 where s1: "sceCdRead rd lsn n buf s = Some (1, s1)" "cdvdman_fdhandles s1 = cdvdman_fdhandles s"
    and sync: "\<And>h. \<exists>s'. sceCdSync rd 0 (s1\<lparr>cdvdman_fdhandles := h\<rparr>) = Some (0, s') \<and>
      read_frame (s\<lparr>cdvdman_fdhandles := h\<rparr>) s' \<and> inv (dev s') \<and>
      err s' = CDVD_ERR_NO \<and> status s' = CDVD_STAT_PAUSE \<and> ReadPos s' = 0 \<and>
      (\<forall>x. \<not> scratch s buf x \<longrightarrow>
        memory s' x = write_bytes buf (sector_run disc lsn (unat n)) (memory s) x)"
    using read_then_sync_delivers [OF assms] by blast
  have "s1\<lparr>cdvdman_fdhandles := cdvdman_fdhandles s\<rparr> = s1" using s1(2) by simp
  with s1(1) sync [of "cdvdman_fdhandles s"] show ?thesis
    by (auto simp: read_and_sync_def)
qed

text \<open>The retrying form used by the file system needs no retry on an idle drive.\<close>

lemma retry_idle:
  assumes "sceCdRead rd lsn n buf s = Some (1, s1)"
  shows "sceCdRead_retry rd lsn n buf s = Some s1"
  using assms by (subst sceCdRead_retry.simps) simp

end

section \<open>One read at a time\<close>

lemma AsyncRead_callback: "Stm0Callback (snd (cdvdman_AsyncRead lsn n buf s)) = Stm0Callback s"
  by (cases "sync_flag s") (simp_all add: AsyncRead_busy AsyncRead_free)

lemma fill_callback: "Stm0Callback (snd (StFillStreamBuffer s)) = Stm0Callback s"
proof (cases "StIsReading (SD s) \<noteq> 0")
  case True
  then show ?thesis by (simp add: StFillStreamBuffer_def)
next
  case False
  let ?s1 = "upd_sd (StIsReading_update (\<lambda>_. 1)) (s\<lparr>stm_alarm := None\<rparr>)"
  have s1: "Stm0Callback ?s1 = Stm0Callback s" by (simp add: upd_sd_def)
  show ?thesis
  proof (cases "AllocBank (SD ?s1)")
    case None
    with False s1 show ?thesis by (simp add: StFillStreamBuffer_def upd_sd_def)
  next
    case (Some ptr)
    obtain r s2 where r: "cdvdman_AsyncRead (Stlsn (SD ?s1)) (ucast (StBanksize (SD ?s1))) ptr ?s1 = (r, s2)"
      by fastforce
    then have "Stm0Callback s2 = Stm0Callback s"
      using AsyncRead_callback [of "Stlsn (SD ?s1)" "ucast (StBanksize (SD ?s1))" ptr ?s1] s1 by simp
    moreover have "Stm0Callback (snd (StFillStreamBuffer s)) = Stm0Callback s2"
      unfolding StFillStreamBuffer_def Let_def using False Some r
      by (simp only: if_False option.case prod.case) (simp add: upd_sd_def)
    ultimately show ?thesis by simp
  qed
qed

lemma StmCallback_callback: "Stm0Callback (StmCallback s) = Stm0Callback s"
proof -
  let ?t = "if StIsReading (SD s) \<noteq> 0 then upd_sd bank_arrived s else s"
  obtain r t' where r: "StFillStreamBuffer ?t = (r, t')" by fastforce
  have "Stm0Callback t' = Stm0Callback s"
    using fill_callback [of ?t] unfolding r by (simp add: upd_sd_def)
  then show ?thesis
    unfolding StmCallback_def StStartFillStreamBuffer_def r by simp
qed


end
