(* ===== verification/Stream_Api.thy ===== *)
theory Stream_Api
  imports Read_Thread
begin

text \<open>
  The streaming calls (cdvdman/streaming.c: \<open>sceCdStInit\<close> to \<open>sceCdStRead\<close>) on top of the ring
  buffer and the reading thread. \<open>sceCdStRead\<close> delivers either to IOP memory or, with bit 31
  of the address set, by DMA to the memory of the EE, which is a second memory here.
\<close>

section \<open>The calls\<close>

text \<open>\<open>bufmax / bankmax\<close> traps for \<open>bankmax = 0\<close>; the fields keep 16 bits of each value.\<close>

definition sceCdStInit :: "u32 \<Rightarrow> u32 \<Rightarrow> u32 \<Rightarrow> 'd cdvdman \<Rightarrow> (u32 \<times> 'd cdvdman) option" where
  "sceCdStInit bufmax bankmax iop_bufaddr s =
     (let s1 = s\<lparr>err := CDVD_ERR_NO, stm_alarm := None\<rparr>
      in if bankmax = 0 then None
         else Some (1, upd_sd (\<lambda>sd.
           let bm = (ucast bankmax :: u16); bs = (ucast (bufmax div bankmax) :: u16)
           in StReset (sd\<lparr>StBufmax := bs * bm, StBankmax := bm, StBanksize := bs,
                StIOP_bufaddr := iop_bufaddr\<rparr>)) s1))"

definition SetStm0Callback :: "bool \<Rightarrow> 'd cdvdman \<Rightarrow> 'd cdvdman" where
  "SetStm0Callback b s = s\<lparr>Stm0Callback := b\<rparr>"

definition sceCdStStop :: "'d devread \<Rightarrow> 'd cdvdman \<Rightarrow> (u32 \<times> 'd cdvdman) option" where
  "sceCdStStop rd s =
     (let s1 = s\<lparr>err := CDVD_ERR_NO, status := CDVD_STAT_PAUSE\<rparr>
      in if StStat (SD s1) \<noteq> 0
         then let s2 = SetStm0Callback False (s1\<lparr>stm_alarm := None\<rparr>);
                  s3 = upd_sd (\<lambda>sd. StReset (sd\<lparr>StStreamed := 0, StStat := 0\<rparr>)) s2
              in map_option (\<lambda>(_, s'). (1, s')) (sceCdSync rd 0 s3)
         else Some (1, s1))"

definition sceCdStStart :: "'d devread \<Rightarrow> u32 \<Rightarrow> 'd cdvdman \<Rightarrow> (u32 \<times> 'd cdvdman) option" where
  "sceCdStStart rd lsn s = do {
     (_, s1) \<leftarrow> sceCdStStop rd s;
     let s2 = SetStm0Callback True (upd_sd (\<lambda>sd. StReset (sd\<lparr>StStat := 1, Stlsn := lsn\<rparr>)) s1);
     let s3 = s2\<lparr>err := CDVD_ERR_NO, status := CDVD_STAT_PAUSE\<rparr>;
     Some (1, StStartFillStreamBuffer s3) }"

definition sceCdStStat :: "'d cdvdman \<Rightarrow> u32 \<times> 'd cdvdman" where
  "sceCdStStat s = (ucast (StStreamed (SD s)), s\<lparr>err := CDVD_ERR_NO\<rparr>)"

definition sceCdStPause :: "'d devread \<Rightarrow> 'd cdvdman \<Rightarrow> (u32 \<times> 'd cdvdman) option" where
  "sceCdStPause rd s =
     (let s1 = s\<lparr>err := CDVD_ERR_NO, status := CDVD_STAT_PAUSE\<rparr>
      in if StStat (SD s1) \<noteq> 0
         then map_option (\<lambda>(_, s'). (1, s'))
                (sceCdSync rd 0 (SetStm0Callback False (s1\<lparr>stm_alarm := None\<rparr>)))
         else Some (0, s1))"

definition sceCdStResume :: "'d cdvdman \<Rightarrow> u32 \<times> 'd cdvdman" where
  "sceCdStResume s =
     (let s1 = s\<lparr>err := CDVD_ERR_NO, status := CDVD_STAT_PAUSE\<rparr>
      in if StStat (SD s1) \<noteq> 0 then (1, StStartFillStreamBuffer (SetStm0Callback True s1))
         else (0, s1))"

definition sceCdStSeek :: "'d devread \<Rightarrow> u32 \<Rightarrow> 'd cdvdman \<Rightarrow> (u32 \<times> 'd cdvdman) option" where
  "sceCdStSeek rd lsn s =
     (let s1 = s\<lparr>err := CDVD_ERR_NO, status := CDVD_STAT_PAUSE\<rparr>
      in if StStat (SD s1) \<noteq> 0 then sceCdStStart rd lsn s1 else Some (0, s1))"

section \<open>\<open>sceCdStRead\<close>\<close>

text \<open>
  Waiting for bit 8 of the event flag. While the bit is clear the reading thread runs; with
  no request pending, an armed refill alarm goes off and calls \<open>StmScheduleCb\<close>; with
  neither, the wait never ends.
\<close>

definition alarm_fires :: "u32 \<Rightarrow> 'd cdvdman \<Rightarrow> 'd cdvdman" where
  "alarm_fires t s =
     (let (again, s') = StmScheduleCb (s\<lparr>stm_alarm := None\<rparr>)
      in if again \<noteq> 0 then s'\<lparr>stm_alarm := Some again\<rparr> else s')"

partial_function (option) wait_data :: "'d devread \<Rightarrow> 'd cdvdman \<Rightarrow> 'd cdvdman option" where
  "wait_data rd s =
     (if intr_ef s AND 8 = 8 then Some s
      else if semas s cdrom_rthread_sema \<noteq> 0
           then Option.bind (cdvdman_cdread_Thread rd s) (wait_data rd)
      else case stm_alarm s of
             Some t \<Rightarrow> wait_data rd (alarm_fires t s)
           | None \<Rightarrow> None)"

definition to_EE :: "u32 \<Rightarrow> bool" where
  "to_EE buffer \<longleftrightarrow> buffer AND 0x80000000 \<noteq> 0"

text \<open>One transfer out of the ring, by either copy of the routine.\<close>

definition take_sectors ::
  "bool \<Rightarrow> int \<Rightarrow> u32 \<Rightarrow> 'd cdvdman \<times> mem \<Rightarrow> int \<times> 'd cdvdman \<times> mem" where
  "take_sectors ee_side maxcount ptr = (\<lambda>(s, ee).
     if ee_side
     then let (k, ds, sd) = ReadSectorsEE maxcount ptr (SD s)
          in (k, s\<lparr>StreamingData := sd\<rparr>, run_dma (memory s) ds ee)
     else let (k, sd, m) = ReadSectors maxcount ptr (SD s, memory s)
          in (k, s\<lparr>StreamingData := sd, memory := m\<rparr>, ee))"

text \<open>
  The loop \<open>for (...; result < sectors; ...)\<close>: \<open>result\<close> is compared as an unsigned number and
  \<open>SectorsToRead\<close> is signed. With \<open>mode = 0\<close> it is left after one turn.
\<close>

partial_function (option) StRead_loop ::
  "'d devread \<Rightarrow> bool \<Rightarrow> u32 \<Rightarrow> u32 \<Rightarrow> u32 \<Rightarrow> u32 \<Rightarrow> u32 \<Rightarrow> 'd cdvdman \<times> mem \<Rightarrow>
   (u32 \<times> 'd cdvdman \<times> mem) option" where
  "StRead_loop rd ee_side mode sectors result SectorsToRead ptr q =
     (if \<not> result < sectors then Some (result, q)
      else Option.bind (wait_data rd (fst q)) (\<lambda>s.
        let (k, q') = take_sectors ee_side (sint SectorsToRead) ptr (ClearEventFlag (NOT 8) s, snd q);
            n = (word_of_int k :: u32)
        in if mode = 0 then Some (result + n, q')
           else StRead_loop rd ee_side mode sectors (result + n) (SectorsToRead - n)
                  (ptr + n * 2048) q'))"

text \<open>The result, the value stored at \<open>*error\<close> (None when it is left alone) and the state.\<close>

definition sceCdStRead ::
  "'d devread \<Rightarrow> u32 \<Rightarrow> u32 \<Rightarrow> u32 \<Rightarrow> 'd cdvdman \<times> mem \<Rightarrow>
   (u32 \<times> u32 option \<times> 'd cdvdman \<times> mem) option" where
  "sceCdStRead rd sectors buffer mode = (\<lambda>(s, ee).
     let s1 = s\<lparr>err := CDVD_ERR_NO\<rparr>
     in if StStat (SD s1) \<noteq> 0
        then map_option (\<lambda>(r, s2, ee'). (r, Some (err s2), StStartFillStreamBuffer s2, ee'))
               (StRead_loop rd (to_EE buffer) mode sectors 0 sectors
                  (buffer AND NOT 0x80000000) (SetEventFlag 8 s1, ee))
        else Some (0, None, s1, ee))"

section \<open>Setting up the ring\<close>

text \<open>
  \<open>sceCdStInit\<close> establishes the invariant of the ring when there is at least a sector to the
  bank and the sizes fit their 16 bits.
\<close>

text \<open>
  C16. \<open>sceCdStInit\<close> sets up a ring that the other calls can work with: with at least one
  sector to a bank, the ring is empty and well-formed, a bank is \<open>bufmax div bankmax\<close> sectors
  and the ring a whole number of banks.
\<close>

theorem StInit_ring:
  assumes "1 \<le> unat bankmax" and "unat bankmax \<le> unat bufmax" and "unat bufmax < 2 ^ 16"
  shows "\<exists>s'. sceCdStInit bufmax bankmax a s = Some (1, s') \<and> ring_inv (SD s') \<and>
    ring_contents (SD s') m = [] \<and> B_of (SD s') = unat bufmax div unat bankmax \<and>
    N_of (SD s') = unat bufmax div unat bankmax * unat bankmax \<and> StIOP_bufaddr (SD s') = a"
proof -
  let ?b = "unat bufmax div unat bankmax"
  have q: "unat (bufmax div bankmax) = ?b" by (rule unat_div)
  have b1: "1 \<le> ?b" and b2: "?b * unat bankmax \<le> unat bufmax"
    using assms(1,2) by (simp_all add: div_greater_zero_iff Suc_leI)
  have b3: "?b \<le> unat bufmax" by simp
  have bs: "unat (ucast (bufmax div bankmax) :: u16) = ?b"
    using q le_less_trans [OF b3 assms(3)] unat_ucast_u16 [of "bufmax div bankmax"] by simp
  have bm: "unat (ucast bankmax :: u16) = unat bankmax"
    using assms(2,3) by (intro unat_ucast_u16) simp
  have n: "unat (ucast (bufmax div bankmax) * ucast bankmax :: u16) = ?b * unat bankmax"
    using le_less_trans [OF b2 assms(3)] bs bm unat_mult_le [of "ucast (bufmax div bankmax) :: u16" "ucast bankmax"]
    by simp
  have nz: "bankmax \<noteq> 0" using assms(1) by auto
  let ?s' = "upd_sd (\<lambda>sd. StReset (sd\<lparr>StBufmax := ucast (bufmax div bankmax) * ucast bankmax,
      StBankmax := ucast bankmax, StBanksize := ucast (bufmax div bankmax), StIOP_bufaddr := a\<rparr>))
      (s\<lparr>err := 0, stm_alarm := None\<rparr>)"
  have init: "sceCdStInit bufmax bankmax a s = Some (1, ?s')"
    using nz by (simp add: sceCdStInit_def Let_def)
  have sd: "N_of (SD ?s') = ?b * unat bankmax" "B_of (SD ?s') = ?b" "W_of (SD ?s') = 0"
    "R_of (SD ?s') = 0" "S_of (SD ?s') = 0" "StIOP_bufaddr (SD ?s') = a"
    using n bs by (simp_all add: upd_sd_def StReset_def)
  have "ring_inv (SD ?s')"
    unfolding ring_inv_def sd using b1 assms(1) by simp
  moreover have "ring_contents (SD ?s') m = []" unfolding ring_contents_def sd by simp
  ultimately show ?thesis using init sd by blast
qed

section \<open>The invariant of a running stream\<close>

text \<open>
  \<open>pos\<close> is the sector the reader gets next. The ring holds the sectors of the disc from \<open>pos\<close>
  on, in order, up to \<open>Stlsn\<close>; and a bank is under way exactly while \<open>StIsReading\<close> is set,
  with the request of the reading thread aimed at the write pointer.
\<close>

definition disc_sectors :: "(u32 \<Rightarrow> u8 list) \<Rightarrow> u32 \<Rightarrow> nat \<Rightarrow> u8 list list" where
  "disc_sectors disc lsn n = map (\<lambda>i. disc (lsn + of_nat i)) [0..<n]"

definition bank_under_way :: "'d cdvdman \<Rightarrow> bool" where
  "bank_under_way s \<longleftrightarrow>
     (if StIsReading (SD s) \<noteq> 0
      then sync_flag s \<and> semas s cdrom_rthread_sema = 1 \<and> cdread_lba s = Stlsn (SD s) \<and>
        cdread_sectors s = ucast (StBanksize (SD s)) \<and>
        cdread_buf s = ring_addr (SD s) (StWritePtr (SD s)) \<and>
        S_of (SD s) + B_of (SD s) \<le> N_of (SD s)
      else \<not> sync_flag s \<and> semas s cdrom_rthread_sema = 0)"

definition stream_inv :: "(u32 \<Rightarrow> u8 list) \<Rightarrow> u32 \<Rightarrow> 'd cdvdman \<Rightarrow> bool" where
  "stream_inv disc pos s \<longleftrightarrow>
     ring_inv (SD s) \<and> StStat (SD s) \<noteq> 0 \<and> Stm0Callback s \<and> StIOP_bufaddr (SD s) AND 3 = 0 \<and>
     13 \<le> pos \<and> unat pos + S_of (SD s) < 2 ^ 32 \<and>
     Stlsn (SD s) = pos + of_nat (S_of (SD s)) \<and>
     ring_contents (SD s) (memory s) = disc_sectors disc pos (S_of (SD s)) \<and>
     bank_under_way s"

lemma disc_sectors_add:
  "disc_sectors disc lsn (j + k) = disc_sectors disc lsn j @ disc_sectors disc (lsn + of_nat j) k"
  by (simp add: disc_sectors_def map_upt_add o_def add.assoc)

lemma length_disc_sectors [simp]: "length (disc_sectors disc lsn n) = n"
  by (simp add: disc_sectors_def)

lemma concat_disc_sectors: "concat (disc_sectors disc lsn n) = sector_run disc lsn n"
  by (simp add: disc_sectors_def sector_run_def)

lemma take_disc_sectors: "k \<le> n \<Longrightarrow> take k (disc_sectors disc lsn n) = disc_sectors disc lsn k"
  using disc_sectors_add [of disc lsn k "n - k"] by simp

lemma drop_disc_sectors:
  "k \<le> n \<Longrightarrow> drop k (disc_sectors disc lsn n) = disc_sectors disc (lsn + of_nat k) (n - k)"
  using disc_sectors_add [of disc lsn k "n - k"] by simp

lemma ring_addr_aligned: "(ring_addr sd p AND 3 = 0) = (StIOP_bufaddr sd AND 3 = 0)"
proof -
  have "(a + b * 2048) AND 3 = a AND 3" for a b :: u32
  proof -
    have m: "x AND 3 = take_bit 2 x" for x :: u32
      by (simp add: take_bit_eq_mask mask_eq_exp_minus_1)
    have d: "(4 :: nat) dvd 2 ^ 32" by simp
    have "unat (a + b * 2048) mod 4 = (unat a + unat (b * 2048)) mod 4"
      unfolding unat_word_ariths(1) using mod_mod_cancel [OF d] by simp
    also have "\<dots> = (unat a + unat (b * 2048) mod 4) mod 4" by (simp only: mod_add_right_eq)
    also have "unat (b * 2048) mod 4 = 0"
      unfolding unat_word_ariths(2) using mod_mod_cancel [OF d, of "unat b * 2048"] by simp
    also have "(unat a + 0) mod 4 = unat a mod 4" by simp
    finally have "take_bit 2 (unat (a + b * 2048)) = take_bit 2 (unat a)"
      by (simp add: take_bit_eq_mod)
    then show ?thesis
      unfolding m word_unat_eq_iff by (simp only: unsigned_take_bit_eq)
  qed
  then show ?thesis by (simp add: ring_addr_def)
qed

lemma ring_flag_irrelevant [simp]:
  "ring_inv (sd\<lparr>StIsReading := x\<rparr>) = ring_inv sd"
  "ring_contents (sd\<lparr>StIsReading := x\<rparr>) m = ring_contents sd m"
  "ring_addr (sd\<lparr>StIsReading := x\<rparr>) p = ring_addr sd p"
  "AllocBank (sd\<lparr>StIsReading := x\<rparr>) = AllocBank sd"
  by (simp_all add: ring_inv_def ring_contents_def ring_slot_def ring_addr_def AllocBank_def)

text \<open>Restarting the fill keeps the invariant, whatever the state of the fill.\<close>

lemma fill_inv:
  assumes "stream_inv disc pos s"
  shows "stream_inv disc pos (StStartFillStreamBuffer s)"
    and "memory (StStartFillStreamBuffer s) = memory s"
    and "dev (StStartFillStreamBuffer s) = dev s"
    and "cdvdman_buf (StStartFillStreamBuffer s) = cdvdman_buf s"
proof -
  show "stream_inv disc pos (StStartFillStreamBuffer s)"
  proof (cases "StIsReading (SD s) \<noteq> 0")
    case True
    then show ?thesis
      using assms by (simp add: StStartFillStreamBuffer_def StFillStreamBuffer_def)
  next
    case False
    let ?s1 = "upd_sd (StIsReading_update (\<lambda>_. 1)) (s\<lparr>stm_alarm := None\<rparr>)"
    have idle: "\<not> sync_flag s" "semas s cdrom_rthread_sema = 0"
      using False assms by (simp_all add: stream_inv_def bank_under_way_def)
    show ?thesis
    proof (cases "AllocBank (SD s)")
      case None
      with False assms show ?thesis
        by (simp add: StStartFillStreamBuffer_def StFillStreamBuffer_def stream_inv_def
            bank_under_way_def upd_sd_def)
    next
      case (Some ptr)
      then have p: "ptr = ring_addr (SD s) (StWritePtr (SD s))" "S_of (SD s) + B_of (SD s) \<le> N_of (SD s)"
        using AllocBank_Some assms by (auto simp: stream_inv_def)
      with False Some idle assms show ?thesis
        by (simp add: StStartFillStreamBuffer_def StFillStreamBuffer_def AsyncRead_free upd_sd_def
            stream_inv_def bank_under_way_def)
    qed
  qed
  show "memory (StStartFillStreamBuffer s) = memory s" "dev (StStartFillStreamBuffer s) = dev s"
    "cdvdman_buf (StStartFillStreamBuffer s) = cdvdman_buf s"
    by (auto simp: StStartFillStreamBuffer_def StFillStreamBuffer_def cdvdman_AsyncRead_def
        cdvdman_common_lock_def ClearEventFlag_def SignalSema_def upd_sd_def Let_def
        split: option.splits)
qed

lemma fill_keeps:
  "Stlsn (SD (StStartFillStreamBuffer s)) = Stlsn (SD s)"
  "StBanksize (SD (StStartFillStreamBuffer s)) = StBanksize (SD s)"
  "StStreamed (SD (StStartFillStreamBuffer s)) = StStreamed (SD s)"
  "StBufmax (SD (StStartFillStreamBuffer s)) = StBufmax (SD s)"
  "StIOP_bufaddr (SD (StStartFillStreamBuffer s)) = StIOP_bufaddr (SD s)"
  by (auto simp: StStartFillStreamBuffer_def StFillStreamBuffer_def cdvdman_AsyncRead_def
      cdvdman_common_lock_def ClearEventFlag_def SignalSema_def upd_sd_def Let_def
      split: option.splits)

lemma fill_starts:
  "\<not> sync_flag s \<Longrightarrow> AllocBank (SD s) \<noteq> None \<Longrightarrow> StIsReading (SD s) = 0 \<Longrightarrow>
   StIsReading (SD (StStartFillStreamBuffer s)) = 1"
  by (auto simp: StStartFillStreamBuffer_def StFillStreamBuffer_def AsyncRead_free upd_sd_def)

lemma fill_event_flag:
  "intr_ef s AND 8 = 8 \<Longrightarrow> intr_ef (StStartFillStreamBuffer s) AND 8 = 8"
proof -
  assume "intr_ef s AND 8 = 8"
  moreover have "((x :: u32) AND - 2) AND 8 = x AND 8" for x
    by (simp add: and.assoc)
  ultimately show ?thesis
    by (auto simp: StStartFillStreamBuffer_def StFillStreamBuffer_def cdvdman_AsyncRead_def
        cdvdman_common_lock_def ClearEventFlag_def SignalSema_def upd_sd_def Let_def
        split: option.splits)
qed

section \<open>The reading thread keeps a stream going\<close>

context disc_device
begin

text \<open>The bank under way arrives and the next one is requested.\<close>

lemma turn_inv:
  assumes S: "stream_inv disc pos s" and "inv (dev s)" and busy: "semas s cdrom_rthread_sema \<noteq> 0"
    and rdb: "readable (Stlsn (SD s)) (B_of (SD s))"
    and disc_end: "unat (Stlsn (SD s)) + B_of (SD s) < 2 ^ 32"
  shows "\<exists>s'. cdvdman_cdread_Thread rd s = Some s' \<and> stream_inv disc pos s' \<and> inv (dev s') \<and>
    Stlsn (SD s') = Stlsn (SD s) + of_nat (B_of (SD s)) \<and> B_of (SD s') = B_of (SD s) \<and>
    S_of (SD s') = S_of (SD s) + B_of (SD s) \<and> N_of (SD s') = N_of (SD s) \<and> intr_ef s' AND 8 = 8"
proof -
  let ?sd = "SD s" and ?bs = "disc_sectors disc (Stlsn (SD s)) (B_of (SD s))"
  from S have ring: "ring_inv ?sd" and al: "StIOP_bufaddr ?sd AND 3 = 0" and pos: "13 \<le> pos"
    and lt: "unat pos + S_of ?sd < 2 ^ 32" and lsn: "Stlsn ?sd = pos + of_nat (S_of ?sd)"
    and held: "ring_contents ?sd (memory s) = disc_sectors disc pos (S_of ?sd)"
    and way: "bank_under_way s" and cb: "Stm0Callback s" and st: "StStat ?sd \<noteq> 0"
    by (simp_all add: stream_inv_def)
  from way busy have rdg: "StIsReading ?sd \<noteq> 0" and sem: "semas s cdrom_rthread_sema = 1"
    and req: "cdread_lba s = Stlsn ?sd" "cdread_sectors s = ucast (StBanksize ?sd)"
      "cdread_buf s = ring_addr ?sd (StWritePtr ?sd)"
    and room: "S_of ?sd + B_of ?sd \<le> N_of ?sd"
    by (auto simp: bank_under_way_def split: if_splits)
  have ulsn: "unat (Stlsn ?sd) = unat pos + S_of ?sd"
    unfolding lsn using lt unat_add_le [of pos "of_nat (S_of ?sd)"] by simp
  have n: "unat (cdread_sectors s) = B_of ?sd" using req(2) by simp
  have aligned: "cdread_buf s AND 3 = 0" unfolding req(3) using al by (simp add: ring_addr_aligned)
  have l13: "13 \<le> Stlsn ?sd" using pos ulsn by (simp add: word_le_nat_alt)
  have ready: "read_ready s (cdread_lba s) (cdread_sectors s) (cdread_buf s)"
    using aligned l13 disc_end u16_bound [of "StBanksize ?sd"] by (simp add: read_ready_def req(1) n)
  obtain s1 where s1: "cdvdman_cdread_Thread rd s = Some (StmCallback s1)" "inv (dev s1)"
    "read_frame (s\<lparr>sync_flag := False, semas := (semas s)(cdrom_rthread_sema := 0)\<rparr>) s1"
    "intr_ef s1 AND 9 = 9"
    "\<And>x. memory s1 x = write_bytes (cdread_buf s)
        (sector_run disc (cdread_lba s) (unat (cdread_sectors s))) (memory s) x"
    using thread_delivers [OF assms(2) _ ready sem] rdb aligned cb
    by (auto simp: req(1) n scratch_def)
  note f = read_frame_fields [OF s1(3), simplified]
  have mem: "memory s1 = write_bytes (ring_addr ?sd (StWritePtr ?sd)) (concat ?bs) (memory s)"
    using s1(5) by (auto simp: req n concat_disc_sectors)
  have len: "\<And>b. b \<in> set ?bs \<Longrightarrow> length b = 2048" using disc_sector by (auto simp: disc_sectors_def)
  have lenc: "length (concat ?bs) = B_of ?sd * 2048" by (simp add: concat_disc_sectors)
  let ?s2 = "upd_sd bank_arrived s1"
  have sd2: "SD ?s2 = bank_arrived ?sd" and m2: "memory ?s2 = memory s1"
    using f by (simp_all add: upd_sd_def)
  note b = bank_arrived_fields [OF ring room]
  have lsn2: "Stlsn (bank_arrived ?sd) = Stlsn ?sd + of_nat (B_of ?sd)"
    by (simp add: bank_arrived_def Let_def)
  have cont: "ring_contents (bank_arrived ?sd) (memory s1) = disc_sectors disc pos (S_of ?sd + B_of ?sd)"
    unfolding bank_arrived_contents [OF ring room] disc_sectors_add mem
    using held_slots_kept [OF ring room lenc] bank_slots_written [OF ring _ len] held lsn by simp
  have inv2: "stream_inv disc pos ?s2"
    using bank_arrived_inv [OF ring room] cont al pos disc_end ulsn lsn2 lsn f cb st
    by (simp add: stream_inv_def sd2 m2 b bank_under_way_def)
       (simp add: upd_sd_def bank_arrived_def Let_def f)
  have cb1: "StmCallback s1 = StStartFillStreamBuffer ?s2"
    using rdg f by (simp add: StmCallback_def)
  have ef: "intr_ef ?s2 AND 8 = 8"
  proof -
    have "(intr_ef s1 AND 9) AND 8 = 8" using s1(4) by simp
    then show ?thesis by (simp add: upd_sd_def and.assoc)
  qed
  show ?thesis
    unfolding s1(1) cb1
    using fill_inv [OF inv2] fill_keeps [of ?s2] lsn2 sd2 s1(2) fill_event_flag [OF ef] b(2,4,5)
    by (intro exI [of _ "StStartFillStreamBuffer ?s2"]) (simp add: upd_sd_def)
qed

end

section \<open>Readers get the next sectors\<close>

text \<open>The sectors found in memory from an address on.\<close>

definition sectors_at :: "mem \<Rightarrow> u32 \<Rightarrow> nat \<Rightarrow> u8 list list" where
  "sectors_at m a k = map (\<lambda>i. read_bytes m (a + of_nat (i * 2048)) 2048) [0..<k]"

text \<open>A reader's buffer in IOP memory does not overlap the ring.\<close>

definition reader_buffer :: "'d cdvdman \<Rightarrow> u32 \<Rightarrow> u32 \<Rightarrow> bool" where
  "reader_buffer s buffer sectors \<longleftrightarrow>
     to_EE buffer \<or> disjoint_runs (StIOP_bufaddr (SD s)) (ring_size (SD s))
       (buffer AND NOT 0x80000000) (min (unat sectors) (S_of (SD s)) * 2048)"

lemma sectors_written:
  assumes "\<And>b. b \<in> set bs \<Longrightarrow> length b = 2048" and "length bs * 2048 \<le> 2 ^ 32"
  shows "sectors_at (write_bytes a (concat bs) m) a (length bs) = bs"
  using slots_of_concat [OF assms] by (intro nth_equalityI) (simp_all add: sectors_at_def)

text \<open>One transfer out of the ring moves the stream's position by what it delivers.\<close>

lemma take_sectors_inv:
  assumes S: "stream_inv disc pos s" and len: "\<And>l. length (disc l) = 2048"
    and "0 \<le> maxcount"
    and safe: "\<not> ee_side \<Longrightarrow> disjoint_runs (StIOP_bufaddr (SD s)) (ring_size (SD s)) ptr
      (ring_takes maxcount (SD s) * 2048)"
  shows "\<exists>s' ee'. take_sectors ee_side maxcount ptr (s, ee) = (int (ring_takes maxcount (SD s)), s', ee') \<and>
    stream_inv disc (pos + of_nat (ring_takes maxcount (SD s))) s' \<and> err s' = err s \<and> dev s' = dev s \<and>
    sectors_at (if ee_side then ee' else memory s') ptr (ring_takes maxcount (SD s))
      = disc_sectors disc pos (ring_takes maxcount (SD s)) \<and>
    SD s' = take_out (ring_takes maxcount (SD s)) (SD s) \<and> intr_ef s' = intr_ef s \<and>
    semas s' = semas s \<and> stm_alarm s' = stm_alarm s \<and> (ee_side \<longrightarrow> memory s' = memory s) \<and> (\<not> ee_side \<longrightarrow> ee' = ee)"
proof -
  let ?sd = "SD s" and ?k = "ring_takes maxcount (SD s)"
  from S have ring: "ring_inv ?sd" and al: "StIOP_bufaddr ?sd AND 3 = 0" and pos: "13 \<le> pos"
    and lt: "unat pos + S_of ?sd < 2 ^ 32" and lsn: "Stlsn ?sd = pos + of_nat (S_of ?sd)"
    and held: "ring_contents ?sd (memory s) = disc_sectors disc pos (S_of ?sd)"
    and way: "bank_under_way s" and cb: "Stm0Callback s" "StStat ?sd \<noteq> 0"
    by (simp_all add: stream_inv_def)
  have kS: "?k \<le> S_of ?sd" by (simp add: ring_takes_def)
  have N: "0 < N_of ?sd" using ring by (auto simp: ring_inv_def)
  note f = take_out_fields [OF N kS]
  let ?out = "disc_sectors disc pos ?k"
  have out: "take ?k (ring_contents ?sd (memory s)) = ?out"
    by (simp add: held take_disc_sectors [OF kS])
  have len_out: "\<And>b. b \<in> set ?out \<Longrightarrow> length b = 2048" by (auto simp: disc_sectors_def len)
  have k32: "?k * 2048 \<le> 2 ^ 32" using kS u16_bound [of "StStreamed ?sd"] by simp
  have at: "sectors_at (write_bytes ptr (concat ?out) m) ptr ?k = ?out" for m
    using sectors_written [of ?out, OF len_out] k32 by simp
  have k_small: "unat (of_nat ?k :: u32) = ?k"
    using kS u16_bound [of "StStreamed ?sd"] by (intro unat_of_nat_u32) simp
  have upos: "unat (pos + of_nat ?k) = unat pos + ?k"
    using lt kS k_small unat_add_le [of pos "of_nat ?k"] by simp
  have rest: "drop ?k (ring_contents ?sd (memory s)) = disc_sectors disc (pos + of_nat ?k) (S_of ?sd - ?k)"
    by (simp add: held drop_disc_sectors [OF kS])
  have same: "StIsReading (take_out ?k ?sd) = StIsReading ?sd" "Stlsn (take_out ?k ?sd) = Stlsn ?sd"
    "StStat (take_out ?k ?sd) = StStat ?sd" "StBanksize (take_out ?k ?sd) = StBanksize ?sd"
    "StWritePtr (take_out ?k ?sd) = StWritePtr ?sd"
    "ring_addr (take_out ?k ?sd) p = ring_addr ?sd p" for p
    by (simp_all add: take_out_def ring_addr_def)
  have inv': "stream_inv disc (pos + of_nat ?k) (s\<lparr>StreamingData := take_out ?k ?sd, memory := m\<rparr>)"
    if m: "ring_contents (take_out ?k ?sd) m = drop ?k (ring_contents ?sd (memory s))" for m
    using take_out_inv [OF ring kS] m rest al pos lt lsn cb way kS upos
    by (auto simp: stream_inv_def f same bank_under_way_def word_le_nat_alt of_nat_diff
        split: if_splits)
  show ?thesis
  proof (cases ee_side)
    case True
    obtain ds where ds: "ReadSectorsEE maxcount ptr ?sd = (int ?k, ds, take_out ?k ?sd)"
      "\<And>ee. run_dma (memory s) ds ee = write_bytes ptr (concat ?out) ee"
      using ReadSectorsEE_takes [OF ring assms(3), of ptr "memory s"] out by auto
    have "stream_inv disc (pos + of_nat ?k) (s\<lparr>StreamingData := take_out ?k ?sd\<rparr>)"
      using inv' [of "memory s"] take_out_contents [OF N kS] by simp
    with ds at True show ?thesis by (simp add: take_sectors_def)
  next
    case False
    have R: "ReadSectors maxcount ptr (?sd, memory s)
        = (int ?k, take_out ?k ?sd, write_bytes ptr (concat ?out) (memory s))"
      using ReadSectors_takes [OF ring assms(3) safe [OF False], of "memory s"] out by simp
    have "ring_contents (take_out ?k ?sd) (write_bytes ptr (concat ?out) (memory s))
        = drop ?k (ring_contents ?sd (write_bytes ptr (concat ?out) (memory s)))"
      by (rule take_out_contents [OF N kS])
    also have "\<dots> = drop ?k (ring_contents ?sd (memory s))"
      using safe [OF False] ring_contents_outside [OF _ N, of ptr "concat ?out" "memory s"]
        length_concat_slots [OF kS, of "memory s"] out by simp
    finally show ?thesis using R at False inv' by (simp add: take_sectors_def)
  qed
qed

text \<open>
  A read that does not wait (\<open>mode = 0\<close>): it gets what is there, at most what was asked for,
  and the stream goes on behind it.
\<close>

definition stream_took :: "'d cdvdman \<Rightarrow> u32 \<Rightarrow> nat" where
  "stream_took s sectors = min (unat sectors) (S_of (SD s))"

lemma StRead_inv:
  assumes S: "stream_inv disc pos s" and len: "\<And>l. length (disc l) = 2048"
    and n: "0 < unat sectors" "unat sectors < 2 ^ 31" and safe: "reader_buffer s buffer sectors"
  shows "\<exists>s' ee'. sceCdStRead rd sectors buffer 0 (s, ee)
      = Some (of_nat (stream_took s sectors), Some CDVD_ERR_NO, s', ee') \<and>
    stream_inv disc (pos + of_nat (stream_took s sectors)) s' \<and> dev s' = dev s \<and>
    B_of (SD s') = B_of (SD s) \<and>
    sectors_at (if to_EE buffer then ee' else memory s') (buffer AND NOT 0x80000000) (stream_took s sectors)
      = disc_sectors disc pos (stream_took s sectors)"
proof -
  let ?k = "stream_took s sectors" and ?ptr = "buffer AND NOT 0x80000000"
  have max: "sint sectors = int (unat sectors)" using n(2) by (rule sint_small)
  have k: "ring_takes (sint sectors) (SD s) = ?k" by (simp add: ring_takes_def stream_took_def max)
  let ?s1 = "SetEventFlag 8 (s\<lparr>err := CDVD_ERR_NO\<rparr>)"
  let ?s2 = "ClearEventFlag (NOT 8) ?s1"
  have wait: "wait_data rd ?s1 = Some ?s1"
    by (subst wait_data.simps) (simp add: SetEventFlag_def bit.conj_disj_distrib2)
  have S2: "stream_inv disc pos ?s2" and sd: "SD ?s2 = SD s"
    using S by (simp_all add: stream_inv_def bank_under_way_def SetEventFlag_def ClearEventFlag_def)
  have m0: "0 \<le> sint sectors" by (simp add: max)
  have sf: "\<not> to_EE buffer \<Longrightarrow> disjoint_runs (StIOP_bufaddr (SD ?s2)) (ring_size (SD ?s2)) ?ptr
      (ring_takes (sint sectors) (SD ?s2) * 2048)"
    using safe unfolding sd k by (simp add: reader_buffer_def stream_took_def)
  obtain s3 ee' where s3: "take_sectors (to_EE buffer) (sint sectors) ?ptr (?s2, ee) = (int ?k, s3, ee')"
    "stream_inv disc (pos + of_nat ?k) s3" "err s3 = CDVD_ERR_NO" "dev s3 = dev s"
    "sectors_at (if to_EE buffer then ee' else memory s3) ?ptr ?k = disc_sectors disc pos ?k"
    "SD s3 = take_out ?k (SD s)"
  proof -
    have "err ?s2 = CDVD_ERR_NO" "dev ?s2 = dev s" by (simp_all add: SetEventFlag_def ClearEventFlag_def)
    then show ?thesis
      using take_sectors_inv [OF S2 len m0 sf, of "to_EE buffer" ee, unfolded sd k] that by metis
  qed
  have lt: "0 < sectors" using n(1) by (simp add: word_less_nat_alt)
  have st: "StStat (SD s) \<noteq> 0" using S by (simp add: stream_inv_def)
  have loop: "StRead_loop rd (to_EE buffer) 0 sectors 0 sectors ?ptr (?s1, ee) = Some (of_nat ?k, s3, ee')"
    using lt wait s3(1) by (subst StRead_loop.simps) simp
  show ?thesis
    using loop st s3 fill_inv [OF s3(2)] fill_keeps [of s3] take_out_def [of ?k "SD s"]
    by (intro exI [of _ "StStartFillStreamBuffer s3"] exI [of _ ee']) (auto simp: sceCdStRead_def)
qed

section \<open>Histories of a stream\<close>

text \<open>
  \<open>stream_hist rd s0 out s\<close>: from \<open>s0\<close>, some turns of the reading thread and some reads lead
  to \<open>s\<close>, and the reads delivered the sectors \<open>out\<close>. Turns stop at the last sector address,
  readers use buffers that do not overlap the ring.
\<close>

inductive stream_hist :: "'d devread \<Rightarrow> 'd cdvdman \<Rightarrow> u8 list list \<Rightarrow> 'd cdvdman \<Rightarrow> bool"
  for rd s0 where
  start: "stream_hist rd s0 [] s0"
| turn: "stream_hist rd s0 out s \<Longrightarrow> semas s cdrom_rthread_sema \<noteq> 0 \<Longrightarrow>
    unat (Stlsn (SD s)) + B_of (SD s) < 2 ^ 32 \<Longrightarrow> cdvdman_cdread_Thread rd s = Some s' \<Longrightarrow>
    stream_hist rd s0 out s'"
| read: "stream_hist rd s0 out s \<Longrightarrow> 0 < unat sectors \<Longrightarrow> unat sectors < 2 ^ 31 \<Longrightarrow>
    reader_buffer s buffer sectors \<Longrightarrow>
    sceCdStRead rd sectors buffer 0 (s, ee) = Some (k, e, s', ee') \<Longrightarrow>
    stream_hist rd s0
      (out @ sectors_at (if to_EE buffer then ee' else memory s') (buffer AND NOT 0x80000000) (unat k)) s'"

inductive_cases stream_hist_cases: "stream_hist rd s0 out s"

context disc_device
begin

lemma hist_inv:
  assumes hist: "stream_hist rd s0 out s" and S0: "stream_inv disc lsn s0" and d0: "inv (dev s0)"
    and "\<And>l. readable l (B_of (SD s0))"
  shows "stream_inv disc (lsn + of_nat (length out)) s \<and> inv (dev s) \<and>
    out = disc_sectors disc lsn (length out) \<and> B_of (SD s) = B_of (SD s0)"
  using hist
proof induction
  case start
  with S0 d0 show ?case by (simp add: disc_sectors_def)
next
  case (turn out s s')
  then have S: "stream_inv disc (lsn + of_nat (length out)) s" and d: "inv (dev s)"
    and B: "B_of (SD s) = B_of (SD s0)" by simp_all
  then show ?case
    using turn turn_inv [OF S d turn.hyps(2) _ turn.hyps(3)] assms(4) by auto
next
  case (read out s sectors buffer ee k e s' ee')
  then have S: "stream_inv disc (lsn + of_nat (length out)) s" and d: "inv (dev s)"
    and B: "B_of (SD s) = B_of (SD s0)" and out: "out = disc_sectors disc lsn (length out)" by simp_all
  let ?k = "stream_took s sectors"
  have eq: "k = of_nat ?k" "stream_inv disc (lsn + of_nat (length out) + of_nat ?k) s'" "dev s' = dev s"
    "B_of (SD s') = B_of (SD s)"
    "sectors_at (if to_EE buffer then ee' else memory s') (buffer AND NOT 0x80000000) ?k
      = disc_sectors disc (lsn + of_nat (length out)) ?k"
    using StRead_inv [OF S disc_sector read.hyps(2-4), of rd ee] read.hyps(5) by auto
  have "unat k = ?k"
    unfolding eq(1) using u16_bound [of "StStreamed (SD s)"]
    by (intro unat_of_nat_u32) (simp add: stream_took_def)
  moreover have "length (disc_sectors disc lsn' ?k) = ?k" for lsn' by simp
  ultimately show ?case
    using eq(2-5) d B out disc_sectors_add [of disc lsn "length out" ?k]
    by (simp add: add.assoc)
qed

end

section \<open>Starting a stream\<close>

text \<open>The ring as \<open>sceCdStInit\<close> leaves it, whatever its counters are now.\<close>

definition ring_configured :: "SteamingData \<Rightarrow> bool" where
  "ring_configured sd \<longleftrightarrow> 0 < B_of sd \<and> B_of sd dvd N_of sd \<and> 0 < N_of sd \<and> StIOP_bufaddr sd AND 3 = 0"

lemma StReset_fields [simp]:
  "StBufmax (StReset sd) = StBufmax sd" "StBanksize (StReset sd) = StBanksize sd"
  "StWritePtr (StReset sd) = 0" "StReadPtr (StReset sd) = 0" "StStreamed (StReset sd) = 0"
  "StIsReading (StReset sd) = 0" "StStat (StReset sd) = StStat sd" "Stlsn (StReset sd) = Stlsn sd"
  "StIOP_bufaddr (StReset sd) = StIOP_bufaddr sd"
  by (simp_all add: StReset_def)

lemma StStop_idle:
  assumes "\<not> sync_flag s" and "ring_configured (SD s)"
  shows "\<exists>s'. sceCdStStop rd s = Some (1, s') \<and> \<not> sync_flag s' \<and> semas s' = semas s \<and>
    memory s' = memory s \<and> dev s' = dev s \<and> ring_configured (SD s') \<and>
    B_of (SD s') = B_of (SD s) \<and> N_of (SD s') = N_of (SD s) \<and> intr_ef s' = intr_ef s"
  using assms
  by (auto simp: sceCdStStop_def sceCdSync_def SetStm0Callback_def upd_sd_def ring_configured_def
      Let_def)

lemma StStart_inv:
  assumes idle: "\<not> sync_flag s" "semas s cdrom_rthread_sema = 0" and conf: "ring_configured (SD s)"
    and lsn: "13 \<le> lsn"
  shows "\<exists>s'. sceCdStStart rd lsn s = Some (1, s') \<and> stream_inv disc lsn s' \<and> dev s' = dev s \<and>
    memory s' = memory s \<and> B_of (SD s') = B_of (SD s) \<and> StIsReading (SD s') = 1 \<and>
    S_of (SD s') = 0"
proof -
  obtain s1 where s1: "sceCdStStop rd s = Some (1, s1)" "\<not> sync_flag s1" "semas s1 = semas s"
    "memory s1 = memory s" "dev s1 = dev s" "ring_configured (SD s1)" "B_of (SD s1) = B_of (SD s)"
    "N_of (SD s1) = N_of (SD s)"
    using StStop_idle [OF idle(1) conf] by blast
  let ?s2 = "(SetStm0Callback True (upd_sd (\<lambda>sd. StReset (sd\<lparr>StStat := 1, Stlsn := lsn\<rparr>)) s1))
      \<lparr>err := CDVD_ERR_NO, status := CDVD_STAT_PAUSE\<rparr>"
  have inv2: "stream_inv disc lsn ?s2"
    using s1 idle lsn u32_bound [of lsn]
    by (auto simp: stream_inv_def ring_inv_def ring_configured_def bank_under_way_def upd_sd_def
        SetStm0Callback_def ring_contents_def disc_sectors_def)
  have "memory ?s2 = memory s" "dev ?s2 = dev s" "B_of (SD ?s2) = B_of (SD s)"
    using s1 by (simp_all add: upd_sd_def SetStm0Callback_def)
  moreover have "StIsReading (SD (StStartFillStreamBuffer ?s2)) = 1"
  proof (rule fill_starts)
    have "B_of (SD s1) \<le> N_of (SD s1)"
      using s1(6) by (intro dvd_imp_le) (simp_all add: ring_configured_def)
    then have "uint (StBanksize (SD s1)) \<le> uint (StBufmax (SD s1))"
      by (simp flip: word_le_def add: word_le_nat_alt)
    then show "AllocBank (SD ?s2) \<noteq> None" by (simp add: AllocBank_def upd_sd_def SetStm0Callback_def)
  qed (use s1 in \<open>simp_all add: upd_sd_def SetStm0Callback_def\<close>)
  ultimately show ?thesis
    using s1(1) fill_inv [OF inv2] fill_keeps [of ?s2]
    by (simp add: sceCdStStart_def) (simp add: upd_sd_def SetStm0Callback_def)
qed

section \<open>A stream that no longer moves\<close>

text \<open>
  A blocking read (\<open>mode\<close> not 0) waits for the reading thread. When no bank is under way and
  no refill is scheduled, nothing sets the event flag, and a read of more than the ring holds
  does not return: the refill is requested only after the loop.
\<close>

lemma wait_data_stuck:
  assumes "intr_ef s AND 8 = 0" and "semas s cdrom_rthread_sema = 0" and "stm_alarm s = None"
  shows "wait_data rd s = None"
  using assms by (subst wait_data.simps) simp

text \<open>
  C33. A blocking read (\<open>sceCdStRead\<close> with a mode other than 0) of more sectors than are held
  never returns when no bank is on its way and no refill is armed: nothing in the wait loop
  starts one.
\<close>

theorem StRead_stuck:
  assumes S: "stream_inv disc pos s" and len: "\<And>l. length (disc l) = 2048"
    and n: "S_of (SD s) < unat sectors" "unat sectors < 2 ^ 31"
    and safe: "reader_buffer s buffer sectors" and mode: "mode \<noteq> 0"
    and full: "StIsReading (SD s) = 0" and no_alarm: "stm_alarm s = None"
  shows "sceCdStRead rd sectors buffer mode (s, ee) = None"
proof -
  let ?k = "S_of (SD s)" and ?ptr = "buffer AND NOT 0x80000000"
  have max: "sint sectors = int (unat sectors)" using n(2) by (rule sint_small)
  have k: "ring_takes (sint sectors) (SD s) = ?k" using n(1) by (simp add: ring_takes_def max)
  let ?s1 = "SetEventFlag 8 (s\<lparr>err := CDVD_ERR_NO\<rparr>)"
  let ?s2 = "ClearEventFlag (NOT 8) ?s1"
  have wait: "wait_data rd ?s1 = Some ?s1"
    by (subst wait_data.simps) (simp add: SetEventFlag_def bit.conj_disj_distrib2)
  have S2: "stream_inv disc pos ?s2" and sd: "SD ?s2 = SD s"
    using S by (simp_all add: stream_inv_def bank_under_way_def SetEventFlag_def ClearEventFlag_def)
  have m0: "0 \<le> sint sectors" by (simp add: max)
  have sf: "\<not> to_EE buffer \<Longrightarrow> disjoint_runs (StIOP_bufaddr (SD ?s2)) (ring_size (SD ?s2)) ?ptr
      (ring_takes (sint sectors) (SD ?s2) * 2048)"
    using safe n(1) unfolding sd k by (simp add: reader_buffer_def)
  obtain s3 ee' where s3: "take_sectors (to_EE buffer) (sint sectors) ?ptr (?s2, ee) = (int ?k, s3, ee')"
    "intr_ef s3 = intr_ef ?s2" "semas s3 = semas ?s2" "stm_alarm s3 = stm_alarm ?s2"
    using take_sectors_inv [OF S2 len m0 sf, of "to_EE buffer" ee, unfolded sd k] by metis
  have ef: "intr_ef ?s2 AND 8 = 0"
  proof -
    have "((x :: u32) AND - 9) AND 8 = 0" for x by (simp add: and.assoc)
    then show ?thesis by (simp add: ClearEventFlag_def)
  qed
  have "wait_data rd s3 = None"
    using S full no_alarm s3(2-4) ef
    by (intro wait_data_stuck) (simp_all add: stream_inv_def bank_under_way_def SetEventFlag_def
        ClearEventFlag_def)
  moreover have lt: "of_nat ?k < sectors" "0 < sectors"
    using n(1) by (simp_all add: word_less_nat_alt)
  ultimately have "StRead_loop rd (to_EE buffer) mode sectors (of_nat ?k) (sectors - of_nat ?k)
      (?ptr + of_nat ?k * 2048) (s3, ee') = None"
    by (subst StRead_loop.simps) simp
  then have "StRead_loop rd (to_EE buffer) mode sectors 0 sectors ?ptr (?s1, ee) = None"
    using wait s3(1) mode lt by (subst StRead_loop.simps) simp
  then show ?thesis using S by (simp add: sceCdStRead_def stream_inv_def)
qed

text \<open>
  Pausing while a bank is under way: the callback that would clear \<open>StIsReading\<close> is gone when
  the bank arrives, so the flag stays set, and resuming takes the fill for running already.
\<close>

context disc_device
begin

lemma Pause_Resume_stalls:
  assumes S: "stream_inv disc pos s" and "inv (dev s)" and busy: "StIsReading (SD s) \<noteq> 0"
    and ef: "intr_ef s AND 1 = 0" and rdb: "readable (Stlsn (SD s)) (B_of (SD s))"
    and disc_end: "unat (Stlsn (SD s)) + B_of (SD s) < 2 ^ 32"
  shows "\<exists>s1 s2. sceCdStPause rd s = Some (1, s1) \<and> sceCdStResume s1 = (1, s2) \<and>
    SD s2 = SD s \<and> \<not> sync_flag s2 \<and> semas s2 cdrom_rthread_sema = 0 \<and> stm_alarm s2 = None \<and>
    StFillStreamBuffer s2 = (0, s2)"
proof -
  let ?sd = "SD s"
  from S busy have al: "StIOP_bufaddr ?sd AND 3 = 0" and pos: "13 \<le> pos"
    and lt: "unat pos + S_of ?sd < 2 ^ 32" and lsn: "Stlsn ?sd = pos + of_nat (S_of ?sd)"
    and sync: "sync_flag s" and sem: "semas s cdrom_rthread_sema = 1"
    and req: "cdread_lba s = Stlsn ?sd" "cdread_sectors s = ucast (StBanksize ?sd)"
      "cdread_buf s = ring_addr ?sd (StWritePtr ?sd)" and st: "StStat ?sd \<noteq> 0"
    by (auto simp: stream_inv_def bank_under_way_def split: if_splits)
  have ulsn: "unat (Stlsn ?sd) = unat pos + S_of ?sd"
    unfolding lsn using lt unat_add_le [of pos "of_nat (S_of ?sd)"] by simp
  let ?p = "SetStm0Callback False (s\<lparr>err := CDVD_ERR_NO, status := CDVD_STAT_PAUSE, stm_alarm := None\<rparr>)"
  have n: "unat (cdread_sectors ?p) = B_of ?sd" using req(2) by (simp add: SetStm0Callback_def)
  have aligned: "cdread_buf s AND 3 = 0" unfolding req(3) using al by (simp add: ring_addr_aligned)
  have l13: "13 \<le> Stlsn ?sd" using pos ulsn by (simp add: word_le_nat_alt)
  have ready: "read_ready ?p (cdread_lba ?p) (cdread_sectors ?p) (cdread_buf ?p)"
    using aligned l13 disc_end u16_bound [of "StBanksize ?sd"] n
    by (simp add: read_ready_def req(1) SetStm0Callback_def)
  obtain s1 where s1: "cdvdman_cdread_Thread rd ?p = Some (snd (cdvdman_cb_event SCECdFuncRead s1))"
    "\<not> sync_flag s1" "read_frame (?p\<lparr>sync_flag := False, semas := (semas s)(cdrom_rthread_sema := 0)\<rparr>) s1"
    using thread_delivers [of ?p] assms(2) rdb ready sem req n by (auto simp: SetStm0Callback_def)
  let ?s1 = "snd (cdvdman_cb_event SCECdFuncRead s1)"
  have alarm: "stm_alarm s1 = None" using s1(3) by (cases s; cases s1; simp add: read_frame_def SetStm0Callback_def)
  have f: "SD ?s1 = SD s" "\<not> sync_flag ?s1" "semas ?s1 cdrom_rthread_sema = 0" "stm_alarm ?s1 = None"
    using read_frame_fields [OF s1(3)] s1(2) alarm
    by (simp_all add: cdvdman_cb_event_def SetStm0Callback_def)
  have "sync_wait rd ?p = sync_wait rd ?s1"
    by (rule sync_wait_turn) (use s1(1) sync ef in \<open>simp_all add: SetStm0Callback_def\<close>)
  then have "sceCdSync rd 0 ?p = Some (0, ?s1)"
    using f(2) sync by (simp add: sceCdSync_def sync_wait_idle SetStm0Callback_def)
  then have pause: "sceCdStPause rd s = Some (1, ?s1)"
    using st by (simp add: sceCdStPause_def)
  let ?s2 = "SetStm0Callback True (?s1\<lparr>err := CDVD_ERR_NO, status := CDVD_STAT_PAUSE\<rparr>)"
  have fill: "StFillStreamBuffer ?s2 = (0, ?s2)"
    using busy f(1) by (simp add: StFillStreamBuffer_def SetStm0Callback_def)
  have "StStat (SD ?s1) \<noteq> 0" using st f(1) by simp
  then have "sceCdStResume ?s1 = (1, ?s2)"
    using fill by (simp add: sceCdStResume_def StStartFillStreamBuffer_def Let_def)
  with pause fill f show ?thesis
    by (intro exI [of _ ?s1] exI [of _ ?s2]) (simp add: SetStm0Callback_def)
qed

end

end
