(* ===== verification/Scmd.thy ===== *)
theory Scmd
  imports Read_Thread
begin

text \<open>
  S commands (cdvdman/cdvdman.c: \<open>cdvdman_writeSCmd\<close>, \<open>cdvdman_sendSCmd\<close> and the calls made of
  them): parameters go to the mechacon a byte at a time, the answer comes back through
  a register with a busy bit (0x80) and an empty bit (0x40). The registers are the hardware's:
  they are given as the functions of a record, on a state of the hardware.
\<close>

section \<open>The registers\<close>

record 'h scmd_regs =
  rd_SDATAIN :: "'h \<Rightarrow> u8 \<times> 'h"
  rd_SDATAOUT :: "'h \<Rightarrow> u8 \<times> 'h"
  wr_SDATAIN :: "u8 \<Rightarrow> 'h \<Rightarrow> 'h"
  wr_SCOMMAND :: "u8 \<Rightarrow> 'h \<Rightarrow> 'h"
  rd_SCOMMAND :: "'h \<Rightarrow> u8 \<times> 'h"

text \<open>\<open>while (!(CDVDreg_SDATAIN & 0x40)) dummy = CDVDreg_SDATAOUT\<close>: drop a stale answer.\<close>

partial_function (option) scmd_drain :: "'h scmd_regs \<Rightarrow> 'h \<Rightarrow> 'h option" where
  "scmd_drain hw h =
     (let (st, h1) = rd_SDATAIN hw h
      in if st AND 0x40 \<noteq> 0 then Some h1 else scmd_drain hw (snd (rd_SDATAOUT hw h1)))"

partial_function (option) scmd_wait :: "'h scmd_regs \<Rightarrow> 'h \<Rightarrow> 'h option" where
  "scmd_wait hw h =
     (let (st, h1) = rd_SDATAIN hw h
      in if st AND 0x80 \<noteq> 0 then scmd_wait hw h1 else Some h1)"

text \<open>
  The answer is collected in a buffer of 64 bytes on the stack; a 65th byte would be stored
  behind it, which the model treats as a crash.
\<close>

partial_function (option) scmd_collect ::
  "'h scmd_regs \<Rightarrow> u8 list \<Rightarrow> 'h \<Rightarrow> (u8 list \<times> 'h) option" where
  "scmd_collect hw got h =
     (let (st, h1) = rd_SDATAIN hw h
      in if st AND 0x40 \<noteq> 0 then Some (got, h1)
         else if length got \<ge> 64 then None
         else let (b, h2) = rd_SDATAOUT hw h1 in scmd_collect hw (got @ [b]) h2)"

definition scmd_send :: "'h scmd_regs \<Rightarrow> u8 list \<Rightarrow> 'h \<Rightarrow> 'h" where
  "scmd_send hw inp h = fold (wr_SDATAIN hw) inp h"

section \<open>\<open>cdvdman_writeSCmd\<close>\<close>

text \<open>The result and the bytes stored at \<open>out\<close>, at most \<open>out_size\<close>.\<close>

definition cdvdman_writeSCmd ::
  "'h scmd_regs \<Rightarrow> u8 \<Rightarrow> u8 list \<Rightarrow> nat \<Rightarrow> 'd cdvdman \<times> 'h \<Rightarrow> (u32 \<times> u8 list \<times> 'd cdvdman \<times> 'h) option"
where
  "cdvdman_writeSCmd hw cmd inp out_size = (\<lambda>(s, h). do {
     s1 \<leftarrow> WaitSema cdvdman_scmdsema s;
     let (st, h1) = rd_SDATAIN hw h;
     if st AND 0x80 \<noteq> 0 then Some (0, [], SignalSema cdvdman_scmdsema s1, h1)
     else do {
       h2 \<leftarrow> scmd_drain hw h1;
       let h3 = snd (rd_SCOMMAND hw (wr_SCOMMAND hw cmd (scmd_send hw inp h2)));
       h4 \<leftarrow> scmd_wait hw h3;
       (got, h5) \<leftarrow> scmd_collect hw [] h4;
       Some (1, take out_size got, SignalSema cdvdman_scmdsema s1, h5) } })"

text \<open>
  \<open>cdvdman_sendSCmd\<close>: a busy mechacon is tried again, 2501 times in all, 2 ms apart; the
  result is 1 even when every try found it busy.
\<close>

primrec send_tries ::
  "nat \<Rightarrow> 'h scmd_regs \<Rightarrow> u8 \<Rightarrow> u8 list \<Rightarrow> nat \<Rightarrow> 'd cdvdman \<times> 'h \<Rightarrow> (u8 list \<times> 'd cdvdman \<times> 'h) option"
where
  "send_tries 0 hw cmd inp out_size q = Some ([], q)"
| "send_tries (Suc n) hw cmd inp out_size q =
     Option.bind (cdvdman_writeSCmd hw cmd inp out_size q) (\<lambda>(r, out, s', h').
       if r = 0 then send_tries n hw cmd inp out_size (DelayThread 2000 s', h')
       else Some (out, s', h'))"

definition cdvdman_sendSCmd ::
  "'h scmd_regs \<Rightarrow> u8 \<Rightarrow> u8 list \<Rightarrow> nat \<Rightarrow> 'd cdvdman \<times> 'h \<Rightarrow> (u32 \<times> u8 list \<times> 'd cdvdman \<times> 'h) option"
where
  "cdvdman_sendSCmd hw cmd inp out_size q =
     map_option (\<lambda>(out, s', h'). (1, out, DelayThread 2000 s', h'))
       (send_tries 2501 hw cmd inp out_size q)"

section \<open>The calls\<close>

text \<open>
  Answers land in local buffers that are not initialised; \<open>stk\<close> gives what they hold before,
  and \<open>onto out stk\<close> what they hold after.
\<close>

definition onto :: "u8 list \<Rightarrow> u8 list \<Rightarrow> u8 list" where
  "onto out stk = out @ drop (length out) stk"

type_synonym ('d, 'h) scmd_state = "'d cdvdman \<times> 'h"

text \<open>\<open>sceCdRI\<close>: the status byte and the eight bytes of the identification.\<close>

definition sceCdRI ::
  "'h scmd_regs \<Rightarrow> u8 list \<Rightarrow> ('d, 'h) scmd_state \<Rightarrow> (u32 \<times> u8 list \<times> u8 \<times> ('d, 'h) scmd_state) option"
where
  "sceCdRI hw stk q = do {
     (_, out, q') \<leftarrow> cdvdman_sendSCmd hw 0x12 [] 9 q;
     let rdbuf = onto out stk;
     Some (1, take 8 (drop 1 rdbuf), rdbuf ! 0, q') }"

record cd_clock_t =
  cl_stat :: u8
  cl_second :: u8
  cl_minute :: u8
  cl_hour :: u8
  cl_week :: u8
  cl_day :: u8
  cl_month :: u8
  cl_year :: u8

definition clock_bytes :: "cd_clock_t \<Rightarrow> u8 list" where
  "clock_bytes c = [cl_stat c, cl_second c, cl_minute c, cl_hour c, cl_week c, cl_day c,
     cl_month c, cl_year c]"

definition bytes_clock :: "u8 list \<Rightarrow> cd_clock_t" where
  "bytes_clock b = \<lparr>cl_stat = b ! 0, cl_second = b ! 1, cl_minute = b ! 2, cl_hour = b ! 3,
     cl_week = b ! 4, cl_day = b ! 5, cl_month = b ! 6, cl_year = b ! 7\<rparr>"

definition sceCdRC ::
  "'h scmd_regs \<Rightarrow> cd_clock_t \<Rightarrow> ('d, 'h) scmd_state \<Rightarrow> (u32 \<times> cd_clock_t \<times> ('d, 'h) scmd_state) option"
where
  "sceCdRC hw rtc = (\<lambda>(s, h). do {
     (r, out, q') \<leftarrow> cdvdman_sendSCmd hw 0x08 [] 8 (s\<lparr>err := CDVD_ERR_NO\<rparr>, h);
     Some (r, bytes_clock (onto out (clock_bytes rtc)), q') })"

definition sceCdReadClock ::
  "'h scmd_regs \<Rightarrow> cd_clock_t \<Rightarrow> ('d, 'h) scmd_state \<Rightarrow> (u32 \<times> cd_clock_t \<times> ('d, 'h) scmd_state) option"
where
  "sceCdReadClock hw rtc = (\<lambda>(s, h). do {
     (rc, out, q') \<leftarrow> cdvdman_sendSCmd hw 0x08 [] 8 (s\<lparr>err := CDVD_ERR_NO\<rparr>, h);
     let c = bytes_clock (onto out (clock_bytes rtc));
     Some (rc, c\<lparr>cl_week := 0, cl_month := cl_month c AND 0x7f\<rparr>, q') })"

definition sceCdApplySCmd ::
  "'h scmd_regs \<Rightarrow> u32 \<Rightarrow> u8 list \<Rightarrow> ('d, 'h) scmd_state \<Rightarrow> (u32 \<times> u8 list \<times> ('d, 'h) scmd_state) option"
where
  "sceCdApplySCmd hw cmd inp q = cdvdman_sendSCmd hw (ucast (cmd AND 0xff)) inp 16 q"

definition sceCdPowerOff ::
  "'h scmd_regs \<Rightarrow> ('d, 'h) scmd_state \<Rightarrow> (u32 \<times> u8 list \<times> ('d, 'h) scmd_state) option"
where
  "sceCdPowerOff hw q = cdvdman_sendSCmd hw 0x0F [] 1 q"

text \<open>The version bytes, and the top bit of the first one apart.\<close>

definition cdvdman_readMechaconVersion ::
  "'h scmd_regs \<Rightarrow> u8 list \<Rightarrow> ('d, 'h) scmd_state \<Rightarrow> (u32 \<times> u8 list \<times> u32 \<times> ('d, 'h) scmd_state) option"
where
  "cdvdman_readMechaconVersion hw stk q = do {
     (_, out, q') \<leftarrow> cdvdman_sendSCmd hw 0x03 [0] 4 q;
     let rdbuf = onto out stk;
     let st = ucast (rdbuf ! 0) AND (0x80 :: u32);
     let rdbuf' = rdbuf[0 := rdbuf ! 0 AND 0x7f];
     Some (1, take 4 rdbuf', st, q') }"

definition mechacon_version :: "u8 list \<Rightarrow> u32" where
  "mechacon_version v = ucast (v ! 3) OR push_bit 8 (ucast (v ! 2)) OR push_bit 16 (ucast (v ! 1))"

text \<open>The string literal \<open>"M_NAME_UNKNOWN\0\0"\<close>, 16 bytes of it.\<close>

definition M_NAME_UNKNOWN :: "u8 list" where
  "M_NAME_UNKNOWN = [0x4D, 0x5F, 0x4E, 0x41, 0x4D, 0x45, 0x5F, 0x55, 0x4E, 0x4B, 0x4E, 0x4F, 0x57,
     0x4E, 0, 0]"

text \<open>\<open>sceCdRM\<close>: the model name in two halves, for mechacons old enough to answer.\<close>

definition sceCdRM ::
  "'h scmd_regs \<Rightarrow> u8 list \<Rightarrow> u8 list \<Rightarrow> ('d, 'h) scmd_state \<Rightarrow>
   (u32 \<times> u8 list \<times> u32 \<times> ('d, 'h) scmd_state) option"
where
  "sceCdRM hw stk stk' q = do {
     (_, ver, st, q1) \<leftarrow> cdvdman_readMechaconVersion hw stk' q;
     let rdbuf = onto ver stk;
     if 0x104FE < mechacon_version rdbuf then Some (1, M_NAME_UNKNOWN, st OR 0x40, q1)
     else do {
       (_, out1, q2) \<leftarrow> cdvdman_sendSCmd hw 0x17 [0] 9 q1;
       let rd1 = onto out1 rdbuf;
       (_, out2, q3) \<leftarrow> cdvdman_sendSCmd hw 0x17 [8] 9 q2;
       let rd2 = onto out2 rd1;
       Some (1, take 8 (drop 1 rd1) @ take 8 (drop 1 rd2),
         ucast (rd1 ! 0) OR ucast (rd2 ! 0), q3) } }"

text \<open>
  \<open>cdvdman_readID\<close>: None in the second component when the buffer is not written. The IDs are
  little-endian words over the answer of \<open>sceCdRI\<close>.
\<close>

definition word_of_bytes :: "u8 list \<Rightarrow> u32" where
  "word_of_bytes b = ucast (b ! 0) OR push_bit 8 (ucast (b ! 1)) OR push_bit 16 (ucast (b ! 2))
     OR push_bit 24 (ucast (b ! 3))"

definition cdvdman_readID ::
  "'h scmd_regs \<Rightarrow> u8 list \<Rightarrow> bool \<Rightarrow> ('d, 'h) scmd_state \<Rightarrow>
   (u32 \<times> u8 list option \<times> ('d, 'h) scmd_state) option"
where
  "cdvdman_readID hw stk model q = do {
     (r, lbuf, st, q') \<leftarrow> sceCdRI hw stk q;
     if r = 0 \<or> st \<noteq> 0 then Some (0, None, q')
     else if \<not> model
          then Some (1, Some (bytes_u32 (ucast (lbuf ! 0) OR 0x08004600)
                 @ bytes_u32 (word_of_bytes (drop 4 lbuf))), q')
          else Some (1, Some (bytes_u32 (drop_bit 8 (word_of_bytes lbuf))), q') }"

definition sceCdReadGUID ::
  "'h scmd_regs \<Rightarrow> u8 list \<Rightarrow> ('d, 'h) scmd_state \<Rightarrow> (u32 \<times> u8 list option \<times> ('d, 'h) scmd_state) option"
where
  "sceCdReadGUID hw stk = cdvdman_readID hw stk False"

definition sceCdReadModelID ::
  "'h scmd_regs \<Rightarrow> u8 list \<Rightarrow> ('d, 'h) scmd_state \<Rightarrow> (u32 \<times> u8 list option \<times> ('d, 'h) scmd_state) option"
where
  "sceCdReadModelID hw stk = cdvdman_readID hw stk True"

section \<open>A mechacon that answers\<close>

text \<open>
  What the code relies on: parameter bytes are accepted, a command keeps the busy bit set for a
  while, and then the answer can be read byte by byte until the empty bit is set.
  \<open>listening h ps\<close>: parameters \<open>ps\<close> are in, nothing to read; \<open>working h n out\<close>: \<open>n\<close> more
  polls find the command under way, then \<open>out\<close> is the answer.
\<close>

definition mechacon ::
  "'h scmd_regs \<Rightarrow> ('h \<Rightarrow> u8 list \<Rightarrow> bool) \<Rightarrow> ('h \<Rightarrow> nat \<Rightarrow> u8 list \<Rightarrow> bool) \<Rightarrow>
   (u8 \<Rightarrow> u8 list \<Rightarrow> u8 list) \<Rightarrow> bool" where
  "mechacon hw listening working answer \<longleftrightarrow>
     (\<forall>h ps. listening h ps \<longrightarrow>
        fst (rd_SDATAIN hw h) AND 0x80 = 0 \<and> fst (rd_SDATAIN hw h) AND 0x40 \<noteq> 0 \<and>
        listening (snd (rd_SDATAIN hw h)) ps \<and>
        (\<forall>b. listening (wr_SDATAIN hw b h) (ps @ [b])) \<and>
        (\<forall>c. \<exists>n. working (snd (rd_SCOMMAND hw (wr_SCOMMAND hw c h))) n (answer c ps))) \<and>
     (\<forall>h n out. working h (Suc n) out \<longrightarrow>
        fst (rd_SDATAIN hw h) AND 0x80 \<noteq> 0 \<and> working (snd (rd_SDATAIN hw h)) n out) \<and>
     (\<forall>h out. working h 0 out \<longrightarrow>
        fst (rd_SDATAIN hw h) AND 0x80 = 0 \<and> working (snd (rd_SDATAIN hw h)) 0 out) \<and>
     (\<forall>h. working h 0 [] \<longrightarrow> fst (rd_SDATAIN hw h) AND 0x40 \<noteq> 0 \<and> listening (snd (rd_SDATAIN hw h)) []) \<and>
     (\<forall>h b out. working h 0 (b # out) \<longrightarrow> fst (rd_SDATAIN hw h) AND 0x40 = 0 \<and>
        (\<forall>h'. working h' 0 (b # out) \<longrightarrow>
          fst (rd_SDATAOUT hw h') = b \<and> working (snd (rd_SDATAOUT hw h')) 0 out))"

lemma mechacon_command:
  "mechacon hw listening working answer \<Longrightarrow> listening h ps \<Longrightarrow>
   \<exists>n. working (snd (rd_SCOMMAND hw (wr_SCOMMAND hw c h))) n (answer c ps)"
  by (simp add: mechacon_def)

lemma mechacon_send:
  assumes "mechacon hw listening working answer" and "listening h ps"
  shows "listening (scmd_send hw inp h) (ps @ inp)"
  using assms(2)
proof (induction inp arbitrary: h ps)
  case Nil
  then show ?case by (simp add: scmd_send_def)
next
  case (Cons b inp)
  from assms(1) Cons.prems have "listening (wr_SDATAIN hw b h) (ps @ [b])"
    by (simp add: mechacon_def)
  from Cons.IH [OF this] show ?case by (simp add: scmd_send_def)
qed

lemma mechacon_wait:
  assumes "mechacon hw listening working answer" and "working h n out"
  shows "\<exists>h'. scmd_wait hw h = Some h' \<and> working h' 0 out"
  using assms(2)
proof (induction n arbitrary: h)
  case 0
  with assms(1) have "fst (rd_SDATAIN hw h) AND 0x80 = 0" "working (snd (rd_SDATAIN hw h)) 0 out"
    by (simp_all add: mechacon_def)
  then show ?case by (subst scmd_wait.simps) (simp add: case_prod_beta)
next
  case (Suc n)
  with assms(1) have "fst (rd_SDATAIN hw h) AND 0x80 \<noteq> 0" "working (snd (rd_SDATAIN hw h)) n out"
    unfolding mechacon_def by blast+
  with Suc.IH [OF this(2)] show ?case by (subst scmd_wait.simps) (simp add: case_prod_beta)
qed

lemma mechacon_collect:
  assumes "mechacon hw listening working answer" and "working h 0 out" and "length got + length out \<le> 64"
  shows "\<exists>h'. scmd_collect hw got h = Some (got @ out, h') \<and> listening h' []"
  using assms(2,3)
proof (induction out arbitrary: h got)
  case Nil
  with assms(1) have "fst (rd_SDATAIN hw h) AND 0x40 \<noteq> 0" "listening (snd (rd_SDATAIN hw h)) []"
    unfolding mechacon_def by blast+
  then show ?case by (subst scmd_collect.simps) (simp add: case_prod_beta)
next
  case (Cons b out)
  let ?h1 = "snd (rd_SDATAIN hw h)"
  from assms(1) Cons.prems(1) have e: "fst (rd_SDATAIN hw h) AND 0x40 = 0" and w: "working ?h1 0 (b # out)"
    unfolding mechacon_def by blast+
  with assms(1) Cons.prems(1) have "fst (rd_SDATAOUT hw ?h1) = b" "working (snd (rd_SDATAOUT hw ?h1)) 0 out"
    unfolding mechacon_def by blast+
  with e Cons.prems(2) Cons.IH [of "snd (rd_SDATAOUT hw ?h1)" "got @ [b]"] show ?case
    by (subst scmd_collect.simps) (simp add: case_prod_beta)
qed

text \<open>
  C17. \<open>cdvdman_writeSCmd\<close> against a mechacon that keeps the register protocol
  and is ready: the command always comes back with 1, delivers the answer to the command and
  its parameters (cut to the caller's buffer), gives the semaphore back, and leaves the
  mechacon listening.
\<close>

theorem writeSCmd_answers:
  assumes m: "mechacon hw listening working answer" and l: "listening h []"
    and free: "semas s cdvdman_scmdsema = 1" and len: "length (answer cmd inp) \<le> 64"
  shows "\<exists>h'. cdvdman_writeSCmd hw cmd inp out_size (s, h) = Some (1, take out_size (answer cmd inp), s, h') \<and>
    listening h' []"
proof -
  let ?h1 = "snd (rd_SDATAIN hw h)"
  have h1: "fst (rd_SDATAIN hw h) AND 0x80 = 0" "listening ?h1 []"
    using m l unfolding mechacon_def by blast+
  have h2: "fst (rd_SDATAIN hw ?h1) AND 0x40 \<noteq> 0" "listening (snd (rd_SDATAIN hw ?h1)) []"
    using m h1(2) unfolding mechacon_def by blast+
  let ?h2 = "snd (rd_SDATAIN hw ?h1)"
  have drain: "scmd_drain hw ?h1 = Some ?h2"
    using h2(1) by (subst scmd_drain.simps) (simp add: case_prod_beta)
  have "listening (scmd_send hw inp ?h2) inp" using mechacon_send [OF m h2(2)] by simp
  then obtain n where "working (snd (rd_SCOMMAND hw (wr_SCOMMAND hw cmd (scmd_send hw inp ?h2)))) n (answer cmd inp)"
    using mechacon_command [OF m] by blast
  from mechacon_wait [OF m this] obtain h4
    where h4: "scmd_wait hw (snd (rd_SCOMMAND hw (wr_SCOMMAND hw cmd (scmd_send hw inp ?h2)))) = Some h4"
      "working h4 0 (answer cmd inp)" by blast
  from mechacon_collect [OF m h4(2), of "[]"] len obtain h5
    where h5: "scmd_collect hw [] h4 = Some (answer cmd inp, h5)" "listening h5 []" by auto
  let ?s1 = "s\<lparr>semas := (semas s)(cdvdman_scmdsema := 0)\<rparr>"
  have w: "WaitSema cdvdman_scmdsema s = Some ?s1" using free by (simp add: WaitSema_def)
  have "(semas s)(cdvdman_scmdsema := 1) = semas s" using free by auto
  then have sig: "SignalSema cdvdman_scmdsema ?s1 = s" by (simp add: SignalSema_def)
  show ?thesis
    using w sig h1(1) drain h4(1) h5 by (simp add: cdvdman_writeSCmd_def case_prod_beta)
qed

text \<open>A mechacon that stays busy: every try is refused, and \<open>cdvdman_sendSCmd\<close> reports 1.\<close>

lemma send_tries_busy:
  assumes "\<And>h. fst (rd_SDATAIN hw h) AND 0x80 \<noteq> 0" and "semas s cdvdman_scmdsema = 1"
  shows "\<exists>h'. send_tries n hw cmd inp out_size (s, h) = Some ([], s\<lparr>slept := slept s + n * 2000\<rparr>, h')"
  using assms(2)
proof (induction n arbitrary: s h)
  case 0
  then show ?case by simp
next
  case (Suc n)
  let ?s1 = "s\<lparr>semas := (semas s)(cdvdman_scmdsema := 0)\<rparr>"
  have w: "WaitSema cdvdman_scmdsema s = Some ?s1" using Suc.prems by (simp add: WaitSema_def)
  have "(semas s)(cdvdman_scmdsema := 1) = semas s" using Suc.prems by auto
  then have sig: "SignalSema cdvdman_scmdsema ?s1 = s" by (simp add: SignalSema_def)
  have "cdvdman_writeSCmd hw cmd inp out_size (s, h) = Some (0, [], s, snd (rd_SDATAIN hw h))"
    using w sig assms(1) [of h] by (simp add: cdvdman_writeSCmd_def case_prod_beta)
  moreover have "semas (DelayThread 2000 s) cdvdman_scmdsema = 1" using Suc.prems by (simp add: DelayThread_def)
  moreover obtain h' where "send_tries n hw cmd inp out_size (DelayThread 2000 s, snd (rd_SDATAIN hw h))
      = Some ([], (DelayThread 2000 s)\<lparr>slept := slept (DelayThread 2000 s) + n * 2000\<rparr>, h')"
    using Suc.IH [OF calculation(2)] by blast
  moreover have "(DelayThread 2000 s)\<lparr>slept := slept (DelayThread 2000 s) + n * 2000\<rparr>
      = s\<lparr>slept := slept s + Suc n * 2000\<rparr>"
    by (simp add: DelayThread_def add.assoc)
  ultimately show ?case by simp
qed

text \<open>
  A mechacon that stays busy: \<open>cdvdman_sendSCmd\<close> asks 2501 times, two milliseconds apart,
  then gives up, and returns 1 with nothing stored at the caller's buffer - the result of success.
\<close>

theorem sendSCmd_busy:
  assumes "\<And>h. fst (rd_SDATAIN hw h) AND 0x80 \<noteq> 0" and "semas s cdvdman_scmdsema = 1"
  shows "\<exists>h'. cdvdman_sendSCmd hw cmd inp out_size (s, h)
    = Some (1, [], s\<lparr>slept := slept s + 2502 * 2000\<rparr>, h')"
proof -
  obtain h' where "send_tries 2501 hw cmd inp out_size (s, h)
      = Some ([], s\<lparr>slept := slept s + 2501 * 2000\<rparr>, h')"
    using send_tries_busy [OF assms] by blast
  then show ?thesis by (simp add: cdvdman_sendSCmd_def DelayThread_def)
qed

end
