(* ===== verification/Control.thy ===== *)
theory Control
  imports Stream_Api Scmd "HOL-Library.Signed_Division"
begin

text \<open>
  The control calls of cdvdman/cdvdman.c: drive state, tray, errors, disc positions,
  callbacks, the service call \<open>sceCdSC\<close>, the disc's identification, the interrupt handler and
  the start-up code. The file-system start \<open>fs_init\<close> is here too: it is reached from \<open>sceCdInit\<close>.
\<close>

section \<open>Drive state\<close>

text \<open>The calls that only set the status block and announce an event.\<close>

definition drive_call :: "u32 \<Rightarrow> u32 \<Rightarrow> u32 \<Rightarrow> 'd cdvdman \<Rightarrow> u32 \<times> 'd cdvdman" where
  "drive_call e st func s =
     (1, snd (cdvdman_cb_event func (s\<lparr>err := e, status := st\<rparr>)))"

definition sceCdStandby :: "'d cdvdman \<Rightarrow> u32 \<times> 'd cdvdman" where
  "sceCdStandby = drive_call CDVD_ERR_NO CDVD_STAT_PAUSE SCECdFuncStandby"

definition sceCdSeek :: "u32 \<Rightarrow> 'd cdvdman \<Rightarrow> u32 \<times> 'd cdvdman" where
  "sceCdSeek lsn = drive_call CDVD_ERR_NO CDVD_STAT_PAUSE SCECdFuncSeek"

definition sceCdStop :: "'d cdvdman \<Rightarrow> u32 \<times> 'd cdvdman" where
  "sceCdStop = drive_call CDVD_ERR_NO CDVD_STAT_STOP SCECdFuncStop"

definition sceCdPause :: "'d cdvdman \<Rightarrow> u32 \<times> 'd cdvdman" where
  "sceCdPause = drive_call CDVD_ERR_NO CDVD_STAT_PAUSE SCECdFuncPause"

definition sceCdBreak :: "'d cdvdman \<Rightarrow> u32 \<times> 'd cdvdman" where
  "sceCdBreak = drive_call CDVD_ERR_ABRT CDVD_STAT_PAUSE SCECdFuncBreak"

definition sceCdGetError :: "'d cdvdman \<Rightarrow> u32" where
  "sceCdGetError s = err s"

definition sceCdStatus :: "'d cdvdman \<Rightarrow> u32" where
  "sceCdStatus s = status s"

definition sceCdGetToc :: "'d cdvdman \<Rightarrow> u32 \<times> 'd cdvdman" where
  "sceCdGetToc s = (1, s\<lparr>err := CDVD_ERR_READ\<rparr>)"

definition sceCdGetDiskType :: "'d cdvdman \<Rightarrow> u32" where
  "sceCdGetDiskType s = disc_type_reg s"

definition cdvdman_initDiskType :: "'d cdvdman \<Rightarrow> 'd cdvdman" where
  "cdvdman_initDiskType s = s\<lparr>err := CDVD_ERR_NO, disc_type_reg := ucast (media (settings s))\<rparr>"

definition sceCdGetReadPos :: "'d cdvdman \<Rightarrow> u32" where
  "sceCdGetReadPos s = ReadPos s"

definition sceGetFsvRbuf :: "'d cdvdman \<Rightarrow> u32" where
  "sceGetFsvRbuf s = cdvdman_fs_buf s"

definition sceCdCallback :: "u32 \<Rightarrow> 'd cdvdman \<Rightarrow> u32 \<times> 'd cdvdman" where
  "sceCdCallback func s = (user_cb s, s\<lparr>user_cb := func\<rparr>)"

text \<open>The result, and the value stored at \<open>traycnt\<close> where there is one.\<close>

definition sceCdTrayReq :: "u32 \<Rightarrow> 'd cdvdman \<Rightarrow> u32 \<times> u32 option \<times> 'd cdvdman" where
  "sceCdTrayReq mode s =
     (if mode = CDVD_TRAY_CHECK
      then (1, Some (if cdvdman_media_changed s then 1 else 0), s\<lparr>cdvdman_media_changed := False\<rparr>)
      else if mode = CDVD_TRAY_OPEN
      then (1, None, (DelayThread 11000 (s\<lparr>status := CDVD_STAT_OPEN, disc_type_reg := 0\<rparr>))
             \<lparr>err := CDVD_ERR_OPENS\<rparr>)
      else if mode = CDVD_TRAY_CLOSE
      then (1, None, (DelayThread 25000 s)\<lparr>status := CDVD_STAT_PAUSE, err := CDVD_ERR_NO,
             disc_type_reg := ucast (media (settings s)), cdvdman_media_changed := True\<rparr>)
      else (0, None, s))"

section \<open>Disc positions\<close>

record cd_location_t =
  minute :: u8
  second :: u8
  sector :: u8
  track :: u8

text \<open>One field, read as \<open>((u32)x >> 16) * 10 + ((u32)x & 0xF)\<close>.\<close>

definition bcd_field :: "u8 \<Rightarrow> int" where
  "bcd_field x = uint (drop_bit 16 (ucast x :: u32) * 10 + (ucast x AND 0xF))"

definition sceCdPosToInt :: "cd_location_t \<Rightarrow> int" where
  "sceCdPosToInt p =
     ((bcd_field (minute p) * 60 + bcd_field (second p)) * 75 + bcd_field (sector p)) - 150"

text \<open>C's division truncates; a field keeps 8 bits.\<close>

definition to_bcd :: "int \<Rightarrow> u8" where
  "to_bcd x = word_of_int ((x sdiv 10) * 16 + x - (x sdiv 10) * 10)"

definition sceCdIntToPos :: "int \<Rightarrow> cd_location_t \<Rightarrow> cd_location_t" where
  "sceCdIntToPos i0 p =
     (let i = i0 + 150; se0 = i sdiv 75; sc = i - se0 * 75; mi = se0 sdiv 60; se = se0 - mi * 60
      in p\<lparr>sector := word_of_int ((sc - (sc sdiv 10) * 10) + (sc sdiv 10) * 16),
           second := to_bcd se, minute := to_bcd mi\<rparr>)"

section \<open>The service call\<close>

definition CDSC_GET_DEBUG_STATUS :: u32 where [simp]: "CDSC_GET_DEBUG_STATUS = 0xFFFFFFF0"
definition CDSC_GET_INTRFLAG :: u32 where [simp]: "CDSC_GET_INTRFLAG = 0xFFFFFFF5"
definition CDSC_IO_SEMA :: u32 where [simp]: "CDSC_IO_SEMA = 0xFFFFFFF6"
definition CDSC_GET_VERSION :: u32 where [simp]: "CDSC_GET_VERSION = 0xFFFFFFF7"
definition CDSC_SET_ERROR :: u32 where [simp]: "CDSC_SET_ERROR = 0xFFFFFFFE"
definition CDVDMAN_MODULE_VERSION :: u32 where [simp]: "CDVDMAN_MODULE_VERSION = 0x225"

text \<open>
  \<open>flag_addr\<close> is the address of \<open>cdvdman_debug_print_flag\<close>. The result, the value of
  \<open>*param\<close> afterwards and the state.
\<close>

definition sceCdSC :: "u32 \<Rightarrow> u32 \<Rightarrow> u32 \<Rightarrow> 'd cdvdman \<Rightarrow> (u32 \<times> u32 \<times> 'd cdvdman) option" where
  "sceCdSC flag_addr code param s =
     (if code = CDSC_GET_INTRFLAG then Some (intr_ef_id s, param, s)
      else if code = CDSC_IO_SEMA
      then (if param \<noteq> 0 then map_option (\<lambda>s'. (param, param, s')) (WaitSema cdrom_io_sema s)
            else Some (param, param, SignalSema cdrom_io_sema s))
      else if code = CDSC_GET_VERSION then Some (CDVDMAN_MODULE_VERSION, param, s)
      else if code = CDSC_GET_DEBUG_STATUS then Some (0xFF, flag_addr, s)
      else if code = CDSC_SET_ERROR then Some (param, param, s\<lparr>err := param\<rparr>)
      else Some (1, param, s))"

section \<open>The disc's identification\<close>

text \<open>\<open>sceCdReadDiskID\<close>: the bytes at \<open>DiskID\<close> decide what is stored there.\<close>

definition sceCdReadDiskID :: "u32 \<Rightarrow> 'd cdvdman \<Rightarrow> u32 \<times> 'd cdvdman" where
  "sceCdReadDiskID a s =
     (let p = read_bytes (memory s) a 5;
          bs = (if list_all (\<lambda>b. b = 0) p then [0xde, 0xad] else take 5 (DiscID (settings s)))
      in (1, s\<lparr>memory := write_bytes a bs (memory s)\<rparr>))"

text \<open>The result is 1; the values are \<open>*on_dual\<close> and \<open>*layer1_start\<close>.\<close>

definition sceCdReadDvdDualInfo :: "'d cdvdman \<Rightarrow> u32 \<times> u32" where
  "sceCdReadDvdDualInfo s =
     (if has_flag IOPCORE_COMPAT_EMU_DVDDL (settings s) then (1, 0)
      else (if layer1_start (settings s) > 0 then 1 else 0, layer1_start (settings s)))"

section \<open>Starting the file system\<close>

text \<open>
  The root directory record inside a volume descriptor: a directory record
  (\<open>struct dirTocEntry\<close>, packed) at offset 0x9c of the sector. \<open>length\<close> is a signed 16-bit field.
\<close>

record dirTocEntry =
  toc_length :: u16
  fileLBA :: u32
  fileSize :: u32
  fileProperties :: u8
  filenameLength :: u8

definition dirTocEntry_at :: "mem \<Rightarrow> u32 \<Rightarrow> dirTocEntry" where
  "dirTocEntry_at m a = \<lparr>toc_length = get_u16 m a, fileLBA = get_u32 m (a + 2),
     fileSize = get_u32 m (a + 10), fileProperties = m (a + 25), filenameLength = m (a + 32)\<rparr>"

definition root_of :: "u32 \<Rightarrow> 'd cdvdman \<Rightarrow> layer_info_t" where
  "root_of base s =
     (let e = dirTocEntry_at (memory s) (cdvdman_buf s + 0x9c)
      in \<lparr>rootDirtocLBA = base + fileLBA e, rootDirtocLength = scast (toc_length e)\<rparr>)"

definition no_handle :: FHANDLE where
  "no_handle = \<lparr>fh_f = 0, fh_lsn = 0, filesize = 0, position = 0\<rparr>"

text \<open>
  \<open>fs_init\<close>: the device's file-system start comes from the driver (None when it does not
  return), then the volume descriptor of each layer is read. The results of \<open>sceCdRead\<close> are
  not looked at.
\<close>

definition fs_init :: "'d devread \<Rightarrow> ('d \<Rightarrow> 'd option) \<Rightarrow> 'd cdvdman \<Rightarrow> 'd cdvdman option" where
  "fs_init rd DeviceFSInit s =
     (if fs_inited s then Some s
      else do {
        d \<leftarrow> DeviceFSInit (dev s);
        let s1 = s\<lparr>cdvdman_fdhandles := replicate MAX_FDHANDLES no_handle, dev := d\<rparr>;
        (_, s2) \<leftarrow> read_and_sync rd 16 1 (cdvdman_buf s1) s1;
        let s3 = s2\<lparr>layer_info := (root_of 0 s2, snd (layer_info s2))\<rparr>;
        s4 \<leftarrow> (if has_flag IOPCORE_COMPAT_EMU_DVDDL (settings s3) then Some s3
               else let (on_dual, layer1) = sceCdReadDvdDualInfo s3
                    in if on_dual \<noteq> 0
                       then map_option
                              (\<lambda>(_, s'). s'\<lparr>layer_info := (fst (layer_info s'), root_of layer1 s')\<rparr>)
                              (read_and_sync rd (layer1 + 16) 1 (cdvdman_buf s3) s3)
                       else Some s3);
        Some (s4\<lparr>fs_inited := True\<rparr>) })"

definition cdvdman_init :: "'d devread \<Rightarrow> ('d \<Rightarrow> 'd option) \<Rightarrow> 'd cdvdman \<Rightarrow> 'd cdvdman option" where
  "cdvdman_init rd DeviceFSInit s =
     (if cdvdman_cdinited s then Some s
      else map_option (\<lambda>s'. s'\<lparr>cdvdman_cdinited := True\<rparr>)
             (fs_init rd DeviceFSInit (s\<lparr>err := CDVD_ERR_NO\<rparr>)))"

definition sceCdInit ::
  "'d devread \<Rightarrow> ('d \<Rightarrow> 'd option) \<Rightarrow> u32 \<Rightarrow> 'd cdvdman \<Rightarrow> (u32 \<times> 'd cdvdman) option" where
  "sceCdInit rd DeviceFSInit init_mode s = map_option (Pair 1) (cdvdman_init rd DeviceFSInit s)"

section \<open>Interrupts and start-up\<close>

text \<open>The power-off register: reading it and acknowledging bits of it.\<close>

record 'h pwoff_regs =
  rd_PWOFF :: "'h \<Rightarrow> u8 \<times> 'h"
  wr_PWOFF :: "u8 \<Rightarrow> 'h \<Rightarrow> 'h"

definition CDL_DATA_RDY :: u8 where [simp]: "CDL_DATA_RDY = 0x01"
definition CDL_DATA_COMPLETE :: u8 where [simp]: "CDL_DATA_COMPLETE = 0x02"
definition CDL_DATA_END :: u8 where [simp]: "CDL_DATA_END = 0x04"

definition pwoff_ack :: "'h pwoff_regs \<Rightarrow> u8 \<Rightarrow> 'h \<Rightarrow> bool \<times> 'h" where
  "pwoff_ack hw bits h = (let (v, h') = rd_PWOFF hw h in (v AND bits \<noteq> 0, h'))"

definition intrh_cdrom :: "'h pwoff_regs \<Rightarrow> 'd cdvdman \<times> 'h \<Rightarrow> u32 \<times> 'd cdvdman \<times> 'h" where
  "intrh_cdrom hw = (\<lambda>(s, h).
     let (rdy, h1) = pwoff_ack hw CDL_DATA_RDY h;
         h2 = (if rdy then wr_PWOFF hw CDL_DATA_RDY h1 else h1);
         (fin, h3) = pwoff_ack hw CDL_DATA_END h2
     in if fin
        then (1, SetEventFlag 0x14 s,
              if has_flag IOPCORE_ENABLE_POFF (settings s) then wr_PWOFF hw CDL_DATA_END h3 else h3)
        else (1, s, wr_PWOFF hw CDL_DATA_COMPLETE h3))"

definition InstallIntrHandler :: "'h pwoff_regs \<Rightarrow> 'h \<Rightarrow> 'h" where
  "InstallIntrHandler hw h =
     (let (e, h1) = pwoff_ack hw CDL_DATA_END h;
          h2 = (if e then wr_PWOFF hw CDL_DATA_END h1 else h1);
          (r, h3) = pwoff_ack hw CDL_DATA_RDY h2
      in if r then wr_PWOFF hw CDL_DATA_RDY h3 else h3)"

definition cdvdman_create_semaphores :: "'d cdvdman \<Rightarrow> 'd cdvdman" where
  "cdvdman_create_semaphores s =
     s\<lparr>semas := (semas s)(cdvdman_scmdsema := 1, cdrom_rthread_sema := 0)\<rparr>"

definition cdvdman_startThreads :: "'d cdvdman \<Rightarrow> 'd cdvdman" where
  "cdvdman_startThreads s = s\<lparr>status := CDVD_STAT_PAUSE, err := CDVD_ERR_NO\<rparr>"

text \<open>\<open>AddDrv\<close> calls the driver's \<open>init\<close> operation; \<open>ef\<close> is the id the kernel hands out.\<close>

definition cdrom_init :: "'d cdvdman \<Rightarrow> u32 \<times> 'd cdvdman" where
  "cdrom_init s = (0, s\<lparr>semas := (semas s)(cdrom_io_sema := 1, cdvdman_searchfilesema := 1)\<rparr>)"

definition cdrom_deinit :: "'d cdvdman \<Rightarrow> u32 \<times> 'd cdvdman" where
  "cdrom_deinit s = (0, s\<lparr>semas := (semas s)(cdrom_io_sema := 0, cdvdman_searchfilesema := 0)\<rparr>)"

definition cdvdman_initdev :: "u32 \<Rightarrow> 'd cdvdman \<Rightarrow> 'd cdvdman" where
  "cdvdman_initdev ef s = snd (cdrom_init (s\<lparr>intr_ef_id := ef, intr_ef := 1\<rparr>))"

text \<open>
  \<open>_start\<close>: the driver's \<open>DeviceInit\<close>, which may not return, then semaphores, threads, the file
  device and the interrupt handler.
\<close>

definition start_parts ::
  "'h pwoff_regs \<Rightarrow> ('d cdvdman \<Rightarrow> 'd cdvdman option) \<Rightarrow> u32 \<Rightarrow> 'd cdvdman \<times> 'h \<Rightarrow> ('d cdvdman \<times> 'h) option"
where
  "start_parts hw DeviceInit ef = (\<lambda>(s, h). map_option
     (\<lambda>s1. (cdvdman_initdev ef (cdvdman_startThreads (cdvdman_create_semaphores s1)), InstallIntrHandler hw h))
     (DeviceInit s))"

text \<open>
  As the Makefile builds it (\<open>SPEED_TESTING\<close>) the settings of the test image come first; the
  type of the disc is initialised at the end.
\<close>

definition speed_settings :: "cdvdman_settings_common \<Rightarrow> cdvdman_settings_common" where
  "speed_settings stg = stg\<lparr>NumParts := 1, media := 0x14, flags := 0, layer1_start := 0,
     DiscID := [0x30, 0x31, 0x32, 0x33, 0x34]\<rparr>"

definition cdvdman_start :: "'h pwoff_regs \<Rightarrow> (u32 \<Rightarrow> 'd \<Rightarrow> 'd) \<Rightarrow> ('d cdvdman \<Rightarrow> 'd cdvdman option) \<Rightarrow> u32 \<Rightarrow>
  'd cdvdman \<times> 'h \<Rightarrow> ('d cdvdman \<times> 'h) option"
where
  "cdvdman_start hw set_LBA0 DeviceInit ef = (\<lambda>(s, h).
     map_option (\<lambda>(s2, h2). (cdvdman_initDiskType s2, h2)) (start_parts hw DeviceInit ef
       (s\<lparr>settings := speed_settings (settings s), dev := set_LBA0 390359 (dev s)\<rparr>, h)))"

text \<open>A \<open>DeviceInit\<close> or \<open>DeviceDeinit\<close> that changes nothing but the driver's own state.\<close>

definition on_device :: "('d \<Rightarrow> 'd) \<Rightarrow> 'd cdvdman \<Rightarrow> 'd cdvdman option" where
  "on_device f s = Some (s\<lparr>dev := f (dev s)\<rparr>)"

text \<open>The operations the device does not have.\<close>

definition cdrom_dummy :: int where "cdrom_dummy = -1"
definition cdrom_dummy64 :: int where "cdrom_dummy64 = -1"

definition cdrom_ioctl :: "u32 \<Rightarrow> 'd cdvdman \<Rightarrow> (int \<times> 'd cdvdman) option" where
  "cdrom_ioctl cmd s = do {
     s1 \<leftarrow> WaitSema cdrom_io_sema s;
     Some (if cmd \<noteq> 0x10000 then -22 else 0, SignalSema cdrom_io_sema s1) }"

section \<open>Positions, read back\<close>

lemma bcd_field_eq: "bcd_field x = uint x mod 16"
proof -
  have "unat (drop_bit 16 (ucast x :: u32)) = 0"
    using u8_bound [of x] by (simp add: drop_bit_eq_div unat_div)
  then have z: "drop_bit 16 (ucast x :: u32) = 0" by (simp only: unat_eq_0)
  have "uint (ucast x AND 0xF :: u32) = uint x mod 16"
  proof -
    have "(ucast x AND 0xF :: u32) = take_bit 4 (ucast x)"
      by (simp add: take_bit_eq_mask mask_eq_exp_minus_1)
    then have "unat (ucast x AND 0xF :: u32) = unat x mod 16"
      using unat_mod [of "ucast x :: u32" 16] by (simp add: take_bit_eq_mod)
    then have "int (unat (ucast x AND 0xF :: u32)) = int (unat x) mod 16" by (simp only: zmod_int of_nat_numeral)
    then show ?thesis by simp
  qed
  then show ?thesis by (simp add: bcd_field_def z)
qed

lemma sdiv_nonneg: "0 \<le> (x :: int) \<Longrightarrow> 0 < y \<Longrightarrow> x sdiv y = x div y"
  by (simp add: signed_divide_int_def sgn_if)

lemma to_bcd_low:
  assumes "0 \<le> x" and "x < 100"
  shows "uint (to_bcd x) mod 16 = x mod 10" and "uint (to_bcd x) div 16 = x div 10"
proof -
  have d: "0 \<le> x div 10" "x div 10 \<le> 9" using assms by auto
  have m: "0 \<le> x mod 10" "x mod 10 \<le> 9" by auto
  have e: "(x sdiv 10) * 16 + x - (x sdiv 10) * 10 = x div 10 * 16 + x mod 10"
    using assms by (simp add: sdiv_nonneg minus_div_mult_eq_mod [symmetric])
  have "take_bit 8 (x div 10 * 16 + x mod 10) = x div 10 * 16 + x mod 10"
    using d m by (intro take_bit_int_eq_self) auto
  then have "uint (to_bcd x) = x div 10 * 16 + x mod 10"
    unfolding to_bcd_def e uint_word_of_int_eq by simp
  then show "uint (to_bcd x) mod 16 = x mod 10" "uint (to_bcd x) div 16 = x div 10"
    using m by (simp_all add: mod_pos_pos_trivial div_pos_pos_trivial)
qed

text \<open>
  The position conversions are not inverse: \<open>sceCdPosToInt\<close> shifts its bytes
  by 16, so that converting a sector number to minutes, seconds and frames and back loses the
  tens of seconds and frames. The result is exactly this number; it is the sector number only
  when those digits are 0.
\<close>

theorem PosToInt_IntToPos:
  assumes "-150 \<le> i" and "i + 150 < 450000"
  defines "se0 \<equiv> (i + 150) div 75"
  shows "sceCdPosToInt (sceCdIntToPos i p) =
    ((se0 div 60 mod 10) * 60 + se0 mod 60 mod 10) * 75 + (i + 150) mod 75 mod 10 - 150"
proof -
  have i: "0 \<le> i + 150" using assms(1) by simp
  have se0: "0 \<le> se0" "se0 < 6000" using i assms(2) by (auto simp: se0_def)
  have sc: "i + 150 - se0 * 75 = (i + 150) mod 75"
    by (simp add: se0_def minus_div_mult_eq_mod)
  have se: "se0 - se0 div 60 * 60 = se0 mod 60" by (simp add: minus_div_mult_eq_mod)
  have scb: "word_of_int ((x - (x sdiv 10) * 10) + (x sdiv 10) * 16) = to_bcd x" for x
    by (simp add: to_bcd_def algebra_simps)
  have L: "sceCdIntToPos i p = p\<lparr>sector := to_bcd ((i + 150) mod 75), second := to_bcd (se0 mod 60),
      minute := to_bcd (se0 div 60)\<rparr>"
    unfolding sceCdIntToPos_def Let_def scb sdiv_nonneg [OF i zero_less_numeral] se0_def [symmetric]
      sdiv_nonneg [OF se0(1) zero_less_numeral] sc se ..
  have r: "0 \<le> (i + 150) mod 75" "(i + 150) mod 75 < 100" "0 \<le> se0 mod 60" "se0 mod 60 < 100"
    "0 \<le> se0 div 60" "se0 div 60 < 100"
    using se0 pos_mod_bound [of 75 "i + 150"] pos_mod_bound [of 60 se0] by auto
  have f: "minute (p\<lparr>sector := a, second := b, minute := c\<rparr>) = c"
    "second (p\<lparr>sector := a, second := b, minute := c\<rparr>) = b"
    "sector (p\<lparr>sector := a, second := b, minute := c\<rparr>) = a" for a b c
    by simp_all
  show ?thesis
    unfolding L sceCdPosToInt_def bcd_field_eq f
      to_bcd_low(1) [OF r(1,2)] to_bcd_low(1) [OF r(3,4)] to_bcd_low(1) [OF r(5,6)] ..
qed

end
