(* ===== verification/Modload.thy ===== *)
theory Modload
  imports Prelude
begin

text \<open>
  Hooks on the IOP's module loader (cdvdman/ioplib_util.c). \<open>hookMODLOAD\<close> replaces entries of
  the loader's export table and redirects the stubs of every module that imports it; the
  hooks answer for modules that must not be loaded ("fake modules") and pass everything else
  on. The loader itself is another module: its functions are arguments.
\<close>

section \<open>Finding a library\<close>

record iop_library =
  lib_name :: "u8 list"
  lib_version :: u16
  lib_exports :: "u32 list"

text \<open>\<open>getModInfo\<close> walks the list of registered libraries for an eight-byte name.\<close>

fun getModInfo :: "u8 list \<Rightarrow> iop_library list \<Rightarrow> (u16 \<times> u32 list) option" where
  "getModInfo modname [] = None"
| "getModInfo modname (l # ls) =
     (if take 8 (lib_name l) = take 8 modname then Some (lib_version l, lib_exports l)
      else getModInfo modname ls)"

lemma getModInfo_find:
  "getModInfo modname ls =
     map_option (\<lambda>l. (lib_version l, lib_exports l)) (find (\<lambda>l. take 8 (lib_name l) = take 8 modname) ls)"
  by (induction ls) auto

section \<open>Fake modules\<close>

definition FAKEMOD_ID :: u32 where [simp]: "FAKEMOD_ID = 0xdead"

text \<open>The driver a build is for selects the lists of modules that are not to be loaded.\<close>

datatype driver = USB_DRIVER | SMB_DRIVER | HDD_DRIVER

fun lm_modulefake_list :: "driver \<Rightarrow> string list" where
  "lm_modulefake_list USB_DRIVER = [''USBD.IRX'', ''CDVDSTM.IRX'']"
| "lm_modulefake_list SMB_DRIVER = [''DEV9.IRX'', ''SMAP.IRX'', ''CDVDSTM.IRX'']"
| "lm_modulefake_list HDD_DRIVER = [''ATAD.IRX'', ''DEV9.IRX'', ''CDVDSTM.IRX'']"

fun lmb_modulefake_list :: "driver \<Rightarrow> string list" where
  "lmb_modulefake_list USB_DRIVER = [''USB_driver'', ''cdvd_st_driver'']"
| "lmb_modulefake_list SMB_DRIVER = [''dev9'', ''INET_SMAP_driver'', ''cdvd_st_driver'']"
| "lmb_modulefake_list HDD_DRIVER = [''atad_driver'', ''dev9'', ''cdvd_st_driver'']"

text \<open>\<open>strstr\<close>: whether the second string occurs in the first.\<close>

fun strstr :: "string \<Rightarrow> string \<Rightarrow> bool" where
  "strstr [] needle \<longleftrightarrow> needle = []"
| "strstr (c # cs) needle \<longleftrightarrow> take (length needle) (c # cs) = needle \<or> strstr cs needle"

lemma strstr_iff: "strstr s needle \<longleftrightarrow> (\<exists>a b. s = a @ needle @ b)"
proof (induction s)
  case Nil
  then show ?case by auto
next
  case (Cons c cs)
  have "take (length needle) (c # cs) = needle \<longleftrightarrow> (\<exists>b. c # cs = needle @ b)"
    by (metis append_eq_conv_conj append_take_drop_id)
  moreover have "(\<exists>a b. c # cs = a @ needle @ b)
      \<longleftrightarrow> (\<exists>b. c # cs = needle @ b) \<or> (\<exists>a b. cs = a @ needle @ b)"
    by (metis append_Cons append_Nil list.inject neq_Nil_conv)
  ultimately show ?case using Cons by simp
qed

text \<open>The hooks' state: the flag and the loader's own state.\<close>

record 'm modload =
  fakemod_flag :: bool
  loader :: 'm

definition checkFakemod :: "string \<Rightarrow> string list \<Rightarrow> 'm modload \<Rightarrow> bool \<times> 'm modload" where
  "checkFakemod modname fakemod_list s =
     (if list_ex (strstr modname) fakemod_list then (True, s\<lparr>fakemod_flag := True\<rparr>) else (False, s))"

definition isFakemod :: "'m modload \<Rightarrow> bool \<times> 'm modload" where
  "isFakemod s = (if fakemod_flag s then (True, s\<lparr>fakemod_flag := False\<rparr>) else (False, s))"

text \<open>A call that is passed on runs the loader's function on the loader's state.\<close>

type_synonym 'm loader_call = "'m \<Rightarrow> u32 \<times> 'm"

definition pass_on :: "'m loader_call \<Rightarrow> 'm modload \<Rightarrow> u32 \<times> 'm modload" where
  "pass_on f s = (let (r, l) = f (loader s) in (r, s\<lparr>loader := l\<rparr>))"

definition Hook_LoadStartModule ::
  "driver \<Rightarrow> (string \<Rightarrow> 'm loader_call) \<Rightarrow> string \<Rightarrow> 'm modload \<Rightarrow> u32 \<times> 'm modload" where
  "Hook_LoadStartModule drv LoadStartModule modpath s =
     (let (_, s1) = checkFakemod modpath (lm_modulefake_list drv) s; (fake, s2) = isFakemod s1
      in if fake then (FAKEMOD_ID, s2) else pass_on (LoadStartModule modpath) s2)"

definition Hook_StartModule ::
  "(u32 \<Rightarrow> string \<Rightarrow> 'm loader_call) \<Rightarrow> u32 \<Rightarrow> string \<Rightarrow> 'm modload \<Rightarrow> u32 \<times> 'm modload" where
  "Hook_StartModule StartModule i modname s =
     (let (fake, s1) = isFakemod s
      in if fake then (FAKEMOD_ID, s1) else pass_on (StartModule i modname) s1)"

text \<open>The name of a module in a buffer is the string at 0x8e; it is given directly.\<close>

definition Hook_LoadModuleBuffer ::
  "driver \<Rightarrow> (string \<Rightarrow> 'm loader_call) \<Rightarrow> string \<Rightarrow> 'm modload \<Rightarrow> u32 \<times> 'm modload" where
  "Hook_LoadModuleBuffer drv LoadModuleBuffer modname s =
     (let (fake, s1) = checkFakemod modname (lmb_modulefake_list drv) s
      in if fake then (FAKEMOD_ID, s1) else pass_on (LoadModuleBuffer modname) s1)"

definition Hook_StopModule ::
  "(u32 \<Rightarrow> 'm loader_call) \<Rightarrow> u32 \<Rightarrow> 'm modload \<Rightarrow> u32 \<times> 'm modload" where
  "Hook_StopModule StopModule i s = (if i = FAKEMOD_ID then (0, s) else pass_on (StopModule i) s)"

definition Hook_UnloadModule ::
  "(u32 \<Rightarrow> 'm loader_call) \<Rightarrow> u32 \<Rightarrow> 'm modload \<Rightarrow> u32 \<times> 'm modload" where
  "Hook_UnloadModule UnloadModule i s =
     (if i = FAKEMOD_ID then (0, s) else pass_on (UnloadModule i) s)"

definition Hook_SearchModuleByName ::
  "(string \<Rightarrow> 'm loader_call) \<Rightarrow> string \<Rightarrow> 'm modload \<Rightarrow> u32 \<times> 'm modload" where
  "Hook_SearchModuleByName SearchModuleByName modname s =
     (if modname = ''cdvd_ee_driver'' then (FAKEMOD_ID, s) else pass_on (SearchModuleByName modname) s)"

text \<open>A listed module is never handed to the loader, and the flag does not stay set.\<close>

lemma LoadStart_fake:
  assumes "list_ex (strstr path) (lm_modulefake_list drv)"
  shows "Hook_LoadStartModule drv f path s = (FAKEMOD_ID, s\<lparr>fakemod_flag := False\<rparr>)"
  using assms by (simp add: Hook_LoadStartModule_def checkFakemod_def isFakemod_def)

lemma LoadStart_pass:
  assumes "\<not> list_ex (strstr path) (lm_modulefake_list drv)" and "\<not> fakemod_flag s"
  shows "Hook_LoadStartModule drv f path s = pass_on (f path) s"
  using assms by (simp add: Hook_LoadStartModule_def checkFakemod_def isFakemod_def)

text \<open>A listed module in a buffer is answered twice: when it is loaded and when it is started.\<close>

lemma Buffer_then_Start:
  assumes "list_ex (strstr name) (lmb_modulefake_list drv)"
  shows "Hook_LoadModuleBuffer drv f name s = (FAKEMOD_ID, s\<lparr>fakemod_flag := True\<rparr>) \<and>
    Hook_StartModule g FAKEMOD_ID name (s\<lparr>fakemod_flag := True\<rparr>) = (FAKEMOD_ID, s\<lparr>fakemod_flag := False\<rparr>)"
  using assms
  by (simp add: Hook_LoadModuleBuffer_def Hook_StartModule_def checkFakemod_def isFakemod_def)

text \<open>
  A fake module loaded from a buffer and not started leaves its flag set: the next module
  loaded and started from a file is taken for it and is not loaded, whatever its name.
\<close>

theorem flag_leaks:
  assumes "list_ex (strstr name) (lmb_modulefake_list drv)"
  shows "Hook_LoadStartModule drv g path (snd (Hook_LoadModuleBuffer drv f name s))
    = (FAKEMOD_ID, s\<lparr>fakemod_flag := False\<rparr>)"
  using assms
  by (simp add: Hook_LoadStartModule_def Hook_LoadModuleBuffer_def checkFakemod_def isFakemod_def)

section \<open>\<open>hookMODLOAD\<close>\<close>

text \<open>An import stub: the jump instruction and the number of the function imported.\<close>

record irx_import_stub =
  jump :: u32
  fno :: u16

text \<open>The loader's library: version, export table, and the import tables of its callers, each
  ended by a stub with a null jump.\<close>

record modload_lib =
  ml_version :: u16
  ml_exports :: "u32 list"
  ml_caller :: "irx_import_stub list list"

definition hooked_entries :: "u16 \<Rightarrow> nat list" where
  "hooked_entries version = (if version > 0x102 then [7, 8, 10, 20, 21, 22] else [7, 8, 10])"

text \<open>\<open>hooks\<close> gives the address of the hook for an entry; the old entries are kept aside.\<close>

definition hook_exports :: "(nat \<Rightarrow> u32) \<Rightarrow> u16 \<Rightarrow> u32 list \<Rightarrow> u32 list" where
  "hook_exports hooks version ex = fold (\<lambda>i e. e[i := hooks i]) (hooked_entries version) ex"

definition jump_to :: "u32 \<Rightarrow> u32" where
  "jump_to target = 0x08000000 OR drop_bit 6 (push_bit 4 target)"

fun fix_stubs :: "u32 list \<Rightarrow> irx_import_stub list \<Rightarrow> irx_import_stub list" where
  "fix_stubs ex [] = []"
| "fix_stubs ex (st # sts) =
     (if jump st = 0 then st # sts
      else st\<lparr>jump := jump_to (ex ! unat (fno st))\<rparr> # fix_stubs ex sts)"

definition hookMODLOAD :: "(nat \<Rightarrow> u32) \<Rightarrow> modload_lib \<Rightarrow> (nat \<Rightarrow> u32 option) \<times> modload_lib" where
  "hookMODLOAD hooks lib =
     (let ex = hook_exports hooks (ml_version lib) (ml_exports lib)
      in (\<lambda>i. if i \<in> set (hooked_entries (ml_version lib)) then Some (ml_exports lib ! i) else None,
          lib\<lparr>ml_exports := ex, ml_caller := map (fix_stubs ex) (ml_caller lib)\<rparr>))"

text \<open>Where a MIPS jump goes from an address in the lowest 256 MB.\<close>

definition jump_target :: "u32 \<Rightarrow> u32" where
  "jump_target i = push_bit 2 (i AND 0x03FFFFFF)"

lemma fold_update_nth:
  "i < length ex \<Longrightarrow> fold (\<lambda>j e. e[j := f j]) js ex ! i = (if i \<in> set js then f i else ex ! i)"
  by (induction js arbitrary: ex) auto

lemma hook_exports_nth:
  "i < length ex \<Longrightarrow>
     hook_exports hooks version ex ! i = (if i \<in> set (hooked_entries version) then hooks i else ex ! i)"
  unfolding hook_exports_def by (rule fold_update_nth)

lemma fix_stubs_nth:
  assumes "i < length sts" and "\<forall>j\<le>i. jump (sts ! j) \<noteq> 0"
  shows "fix_stubs ex sts ! i = (sts ! i)\<lparr>jump := jump_to (ex ! unat (fno (sts ! i)))\<rparr>"
  using assms
proof (induction sts arbitrary: i)
  case (Cons st sts)
  have "jump st \<noteq> 0" using Cons.prems(2) by (auto dest: spec [of _ 0])
  moreover have "\<forall>j\<le>k. jump (sts ! j) \<noteq> 0" if "i = Suc k" for k
    using Cons.prems(2) that by (metis Suc_le_mono nth_Cons_Suc)
  ultimately show ?case using Cons by (cases i) auto
qed simp

lemma jump_target_jump_to:
  assumes "t < 0x10000000" and "t AND 3 = 0"
  shows "jump_target (jump_to t) = t"
proof -
  have m: "(0x03FFFFFF :: u32) = mask 26" "(3 :: u32) = mask 2" "(0x08000000 :: u32) = push_bit 27 1"
    by (simp_all add: mask_eq_exp_minus_1 push_bit_eq_mult)
  have pow: "bit (536870912 :: u32) n \<Longrightarrow> n = 29" "bit (536870912 :: int) n \<Longrightarrow> n = 29" for n
  proof -
    have p: "(536870912 :: u32) = 2 ^ 29" "(536870912 :: int) = 2 ^ 29" by simp_all
    show "bit (536870912 :: u32) n \<Longrightarrow> n = 29" "bit (536870912 :: int) n \<Longrightarrow> n = 29"
      unfolding p bit_exp_iff by simp_all
  qed
  have low: "\<not> bit t n" if "n < 2" for n
  proof -
    have "bit (t AND mask 2) n = bit t n" using that by (simp add: bit_simps)
    moreover have "\<not> bit (t AND mask 2) n" using assms(2) unfolding m by simp
    ultimately show ?thesis by simp
  qed
  have high: "\<not> bit t n" if "n \<ge> 28" for n
  proof -
    have "take_bit 28 t = t"
      using assms(1) by (intro word_unat_eq_iff [THEN iffD2]) (simp add: unsigned_take_bit_eq take_bit_nat_eq_self word_less_nat_alt)
    then have "bit t n = bit (take_bit 28 t) n" by simp
    then show ?thesis using that by (simp add: bit_simps)
  qed
  show ?thesis
  proof (rule bit_word_eqI)
    fix n assume n: "n < LENGTH(32)"
    show "bit (jump_target (jump_to t)) n = bit t n"
    proof (cases "n < 2 \<or> n \<ge> 28")
      case True
      then show ?thesis using low high n unfolding jump_target_def jump_to_def m
        by (auto simp: bit_simps)
    next
      case False
      then show ?thesis using n unfolding jump_target_def jump_to_def m
        by (auto simp: bit_simps dest: pow)
    qed
  qed
qed

text \<open>
  C26. After \<open>hookMODLOAD\<close> every import of a hooked loader function by a module
  that was already loaded jumps to the hook, every other import jumps to where it did before,
  and the replaced entries are kept for the hooks to call.
\<close>

theorem hook_redirects:
  assumes lib': "(old, lib') = hookMODLOAD hooks lib"
    and tab: "t < length (ml_caller lib)" "i < length (ml_caller lib ! t)"
      "\<forall>j\<le>i. jump (ml_caller lib ! t ! j) \<noteq> 0"
    and f: "f = unat (fno (ml_caller lib ! t ! i))" "f < length (ml_exports lib)"
    and dest: "dest = (if f \<in> set (hooked_entries (ml_version lib)) then hooks f else ml_exports lib ! f)"
      "dest < 0x10000000" "dest AND 3 = 0"
  shows "jump_target (jump (ml_caller lib' ! t ! i)) = dest \<and>
    (f \<in> set (hooked_entries (ml_version lib)) \<longrightarrow> old f = Some (ml_exports lib ! f))"
proof -
  let ?ex = "hook_exports hooks (ml_version lib) (ml_exports lib)"
  have "?ex ! f = dest" using hook_exports_nth [OF f(2)] dest(1) by simp
  moreover have "ml_caller lib' ! t = fix_stubs ?ex (ml_caller lib ! t)"
    using lib' tab(1) by (simp add: hookMODLOAD_def Let_def)
  ultimately have "jump (ml_caller lib' ! t ! i) = jump_to dest"
    using fix_stubs_nth [OF tab(2,3), of ?ex] f(1) by simp
  moreover have "f \<in> set (hooked_entries (ml_version lib)) \<longrightarrow> old f = Some (ml_exports lib ! f)"
    using lib' by (simp add: hookMODLOAD_def Let_def)
  ultimately show ?thesis using jump_target_jump_to [OF dest(2,3)] by simp
qed

section \<open>Fake modules stay out\<close>


end
