(* ===== verification/Boot.thy ===== *)
theory Boot
  imports Read_Thread Control Modload
begin

text \<open>
  The start of the module without \<open>SPEED_TESTING\<close>, where the module loader is hooked and the
  settings are those the launcher wrote into the file, its end, and what the start sets up.
\<close>

section \<open>The start\<close>

definition cdvdman_start_hooked :: "'h pwoff_regs \<Rightarrow> (nat \<Rightarrow> u32) \<Rightarrow> ('d cdvdman \<Rightarrow> 'd cdvdman option) \<Rightarrow> u32 \<Rightarrow>
  'd cdvdman \<times> 'h \<Rightarrow> modload_lib \<Rightarrow> (('d cdvdman \<times> 'h) \<times> (nat \<Rightarrow> u32 option) \<times> modload_lib) option"
where
  "cdvdman_start_hooked hw hooks DeviceInit ef sh lib =
     map_option (\<lambda>(s2, h2). ((cdvdman_initDiskType s2, h2), hookMODLOAD hooks lib)) (start_parts hw DeviceInit ef sh)"

text \<open>\<open>_shutdown\<close>, when the module is unloaded.\<close>

definition cdvdman_shutdown :: "('d \<Rightarrow> 'd) \<Rightarrow> 'd cdvdman \<Rightarrow> u32 \<times> 'd cdvdman" where
  "cdvdman_shutdown DeviceDeinit s = (0, s\<lparr>dev := DeviceDeinit (dev s)\<rparr>)"

section \<open>What it sets up\<close>

text \<open>The module as it is loaded: its static variables have their initial values.\<close>

definition loaded :: "'d cdvdman \<Rightarrow> bool" where
  "loaded s \<longleftrightarrow> \<not> sync_flag s \<and> \<not> Stm0Callback s \<and> \<not> cdvdman_cdinited s \<and> \<not> fs_inited s \<and>
     cdvdman_buf s AND 3 = 0 \<and> cdvdman_fs_buf s AND 3 = 0"

text \<open>\<open>started d s s1\<close>: \<open>s1\<close> is \<open>s\<close> with everything free for use and the driver in state \<open>d\<close>.\<close>

definition started :: "'d \<Rightarrow> 'd cdvdman \<Rightarrow> 'd cdvdman \<Rightarrow> bool" where
  "started d s s1 \<longleftrightarrow> loaded s1 \<and> drive_idle s1 \<and> semas s1 cdvdman_searchfilesema = 1 \<and> semas s1 cdrom_io_sema = 1 \<and>
     cdvdman_buf s1 = cdvdman_buf s \<and> cdvdman_fs_buf s1 = cdvdman_fs_buf s \<and> memory s1 = memory s \<and>
     settings s1 = settings s \<and> dev s1 = d"

lemma start_parts_started:
  assumes "DeviceInit s = Some t" and "loaded t"
  shows "\<exists>s1. start_parts hw DeviceInit ef (s, h) = Some (s1, InstallIntrHandler hw h) \<and>
    started (dev t) t (cdvdman_initDiskType s1)"
  using assms
  by (auto simp: start_parts_def started_def loaded_def drive_idle_def cdvdman_initDiskType_def cdvdman_initdev_def
      cdrom_init_def cdvdman_startThreads_def cdvdman_create_semaphores_def)

lemma start_started:
  assumes "DeviceInit (s\<lparr>settings := speed_settings (settings s), dev := set_lba 390359 (dev s)\<rparr>) = Some t" and "loaded t"
  shows "\<exists>s1. cdvdman_start hw set_lba DeviceInit ef (s, h) = Some (s1, InstallIntrHandler hw h) \<and> started (dev t) t s1"
  using start_parts_started [of DeviceInit, OF assms, of hw ef h] by (auto simp: cdvdman_start_def)

lemma start_hooked_started:
  assumes "DeviceInit s = Some t" and "loaded t"
  shows "\<exists>s1. cdvdman_start_hooked hw hooks DeviceInit ef (s, h) lib
      = Some ((s1, InstallIntrHandler hw h), hookMODLOAD hooks lib) \<and> started (dev t) t s1"
  using start_parts_started [of DeviceInit, OF assms, of hw ef h] by (auto simp: cdvdman_start_hooked_def)

end
