(* ===== verification/Fs_Files.thy ===== *)
theory Fs_Files
  imports Control
begin

text \<open>
  The file operations of the \<open>cdrom\<close> device (cdvdman/cdvdman.c: \<open>cdrom_read\<close>, \<open>cdrom_lseek\<close>,
  \<open>cdrom_close\<close>, \<open>cdvdman_getfilefreeslot\<close>): open files live in the table
  \<open>cdvdman_fdhandles\<close>; a kernel file object points at its slot. A read is done in up to three
  phases: the rest of a sector, whole sectors straight to the caller, the start of a sector.
\<close>

section \<open>The table\<close>

text \<open>The kernel's file object, of which the code uses the unit, the mode and \<open>privdata\<close>.\<close>

record iop_file_t =
  f_addr :: u32
  f_mode :: u32
  f_unit :: u32
  f_privdata :: nat

fun free_slot :: "FHANDLE list \<Rightarrow> nat option" where
  "free_slot [] = None"
| "free_slot (fh # fhs) = (if fh_f fh = 0 then Some 0 else map_option Suc (free_slot fhs))"

definition cdvdman_getfilefreeslot :: "'d cdvdman \<Rightarrow> nat option" where
  "cdvdman_getfilefreeslot s = free_slot (take MAX_FDHANDLES (cdvdman_fdhandles s))"

definition get_fh :: "nat \<Rightarrow> 'd cdvdman \<Rightarrow> FHANDLE" where
  "get_fh slot s = cdvdman_fdhandles s ! slot"

definition set_fh :: "nat \<Rightarrow> FHANDLE \<Rightarrow> 'd cdvdman \<Rightarrow> 'd cdvdman" where
  "set_fh slot fh s = s\<lparr>cdvdman_fdhandles := (cdvdman_fdhandles s)[slot := fh]\<rparr>"

definition cdrom_close :: "iop_file_t \<Rightarrow> 'd cdvdman \<Rightarrow> (u32 \<times> iop_file_t \<times> 'd cdvdman) option" where
  "cdrom_close f s = do {
     s1 \<leftarrow> WaitSema cdrom_io_sema s;
     Some (0, f\<lparr>f_mode := 0\<rparr>, SignalSema cdrom_io_sema (set_fh (f_privdata f) no_handle s1)) }"

section \<open>Seeking\<close>

definition SEEK_SET :: u32 where [simp]: "SEEK_SET = 0"
definition SEEK_CUR :: u32 where [simp]: "SEEK_CUR = 1"
definition SEEK_END :: u32 where [simp]: "SEEK_END = 2"

definition seek_to :: "u32 \<Rightarrow> u32 \<Rightarrow> FHANDLE \<Rightarrow> u32" where
  "seek_to offset whence fh =
     (let p = (if whence = SEEK_CUR then position fh + offset
               else if whence = SEEK_SET then offset
               else if whence = SEEK_END then filesize fh - offset
               else position fh)
      in if p > filesize fh then filesize fh else p)"

definition cdrom_lseek :: "iop_file_t \<Rightarrow> u32 \<Rightarrow> u32 \<Rightarrow> 'd cdvdman \<Rightarrow> (u32 \<times> 'd cdvdman) option" where
  "cdrom_lseek f offset whence s = do {
     s1 \<leftarrow> WaitSema cdrom_io_sema s;
     let fh = get_fh (f_privdata f) s1;
     let r = seek_to offset whence fh;
     Some (r, SignalSema cdrom_io_sema (set_fh (f_privdata f) (fh\<lparr>position := r\<rparr>) s1)) }"

section \<open>Reading\<close>

text \<open>
  The registers of the loop: the destination, the bytes left (\<open>size\<close>, signed in C) and the
  bytes read.
\<close>

type_synonym rd_regs = "u32 \<times> u32 \<times> u32"

definition advance_file :: "nat \<Rightarrow> u32 \<Rightarrow> 'd cdvdman \<Rightarrow> 'd cdvdman" where
  "advance_file slot n s = set_fh slot ((get_fh slot s)\<lparr>position := position (get_fh slot s) + n\<rparr>) s"

text \<open>Start a read at the file position, move the position, wait for the data.\<close>

definition file_read_sectors ::
  "'d devread \<Rightarrow> nat \<Rightarrow> u32 \<Rightarrow> u32 \<Rightarrow> u32 \<Rightarrow> 'd cdvdman \<Rightarrow> 'd cdvdman option" where
  "file_read_sectors rd slot nsectors dst nbytes s = do {
     s1 \<leftarrow> sceCdRead_retry rd (fh_lsn (get_fh slot s) + position (get_fh slot s) div 2048) nsectors dst s;
     (_, s2) \<leftarrow> sceCdSync rd 0 (advance_file slot nbytes s1);
     Some s2 }"

definition read_phase1 ::
  "'d devread \<Rightarrow> nat \<Rightarrow> rd_regs \<Rightarrow> 'd cdvdman \<Rightarrow> (rd_regs \<times> 'd cdvdman) option" where
  "read_phase1 rd slot = (\<lambda>(buf, sz, rpos) s.
     let offset = position (get_fh slot s) mod 2048
     in if offset \<noteq> 0
        then let nbytes = (if sz < 2048 - offset then sz else 2048 - offset)
             in map_option (\<lambda>s'. ((buf + nbytes, sz - nbytes, rpos + nbytes),
                    s'\<lparr>memory := mips_memcpy buf (cdvdman_fs_buf s' + offset) (unat nbytes) (memory s')\<rparr>))
                  (file_read_sectors rd slot 1 (cdvdman_fs_buf s) nbytes s)
        else Some ((buf, sz, rpos), s))"

definition read_phase2 ::
  "'d devread \<Rightarrow> nat \<Rightarrow> rd_regs \<Rightarrow> 'd cdvdman \<Rightarrow> (rd_regs \<times> 'd cdvdman) option" where
  "read_phase2 rd slot = (\<lambda>(buf, sz, rpos) s.
     let nsectors = sz div 2048
     in if nsectors > 0
        then let nbytes = nsectors * 2048
             in map_option (\<lambda>s'. ((buf + nbytes, sz - nbytes, rpos + nbytes), s'))
                  (file_read_sectors rd slot nsectors buf nbytes s)
        else Some ((buf, sz, rpos), s))"

definition read_phase3 ::
  "'d devread \<Rightarrow> nat \<Rightarrow> rd_regs \<Rightarrow> 'd cdvdman \<Rightarrow> (rd_regs \<times> 'd cdvdman) option" where
  "read_phase3 rd slot = (\<lambda>(buf, sz, rpos) s.
     let nbytes = sz
     in if nbytes > 0
        then map_option (\<lambda>s'. ((buf, sz - nbytes, rpos + nbytes),
                  s'\<lparr>memory := mips_memcpy buf (cdvdman_fs_buf s') (unat nbytes) (memory s')\<rparr>))
               (file_read_sectors rd slot 1 (cdvdman_fs_buf s) nbytes s)
        else Some ((buf, sz, rpos), s))"

definition clip_size :: "FHANDLE \<Rightarrow> u32 \<Rightarrow> u32" where
  "clip_size fh sz = (if position fh + sz > filesize fh then filesize fh - position fh else sz)"

definition cdrom_read ::
  "'d devread \<Rightarrow> iop_file_t \<Rightarrow> u32 \<Rightarrow> u32 \<Rightarrow> 'd cdvdman \<Rightarrow> (u32 \<times> 'd cdvdman) option" where
  "cdrom_read rd f buf sz s = do {
     s1 \<leftarrow> WaitSema cdrom_io_sema s;
     let slot = f_privdata f;
     let sz' = clip_size (get_fh slot s1) sz;
     (_, s2) \<leftarrow> sceCdDiskReady rd 0 s1;
     ((_, _, rpos), s3) \<leftarrow>
       (if 0 <s sz'
        then do {
          (r1, a) \<leftarrow> read_phase1 rd slot (buf, sz', 0) s2;
          (r2, b) \<leftarrow> read_phase2 rd slot r1 a;
          read_phase3 rd slot r2 b }
        else Some ((buf, sz', 0), s2));
     Some (rpos, SignalSema cdrom_io_sema s3) }"

section \<open>The bytes of a file\<close>

text \<open>\<open>n\<close> bytes from byte \<open>p\<close> of the file that starts at sector \<open>lsn\<close>.\<close>

definition file_bytes :: "(u32 \<Rightarrow> u8 list) \<Rightarrow> u32 \<Rightarrow> nat \<Rightarrow> nat \<Rightarrow> u8 list" where
  "file_bytes disc lsn p n =
     map (\<lambda>i. disc (lsn + of_nat ((p + i) div 2048)) ! ((p + i) mod 2048)) [0..<n]"

lemma length_file_bytes [simp]: "length (file_bytes disc lsn p n) = n"
  by (simp add: file_bytes_def)

lemma file_bytes_add:
  "file_bytes disc lsn p (j + k) = file_bytes disc lsn p j @ file_bytes disc lsn (p + j) k"
  by (simp add: file_bytes_def map_upt_add add.assoc)

lemma file_bytes_0 [simp]: "file_bytes disc lsn p 0 = []"
  by (simp add: file_bytes_def)

lemma file_bytes_sector:
  assumes "length (disc (lsn + of_nat q)) = 2048" and "off + n \<le> 2048"
  shows "file_bytes disc lsn (q * 2048 + off) n = take n (drop off (disc (lsn + of_nat q)))"
proof (rule nth_equalityI)
  show "length (file_bytes disc lsn (q * 2048 + off) n) = length (take n (drop off (disc (lsn + of_nat q))))"
    using assms by simp
next
  fix i assume "i < length (file_bytes disc lsn (q * 2048 + off) n)"
  then have i: "i < n" by simp
  then have "(q * 2048 + off + i) div 2048 = q" "(q * 2048 + off + i) mod 2048 = off + i"
    using assms(2) by (simp_all add: add.assoc)
  then show "file_bytes disc lsn (q * 2048 + off) n ! i = take n (drop off (disc (lsn + of_nat q))) ! i"
    using i assms by (simp add: file_bytes_def)
qed

lemma file_bytes_sectors:
  assumes "\<And>l. length (disc l) = 2048"
  shows "sector_run disc (lsn + of_nat q) n = file_bytes disc lsn (q * 2048) (n * 2048)"
proof (induction n)
  case 0
  then show ?case by simp
next
  case (Suc n)
  have "sector_run disc (lsn + of_nat q) (n + Suc 0)
      = file_bytes disc lsn (q * 2048) (n * 2048) @ disc (lsn + of_nat (q + n))"
    by (simp only: sector_run_add Suc.IH sector_run_1) (simp add: add.assoc)
  also have "disc (lsn + of_nat (q + n)) = file_bytes disc lsn (q * 2048 + n * 2048) 2048"
    using file_bytes_sector [of disc lsn "q + n" 0 2048] assms by (simp add: add_mult_distrib)
  finally show ?case
    using file_bytes_add [of disc lsn "q * 2048" "n * 2048" 2048] by (simp add: add.commute)
qed

section \<open>Seeking stays inside the file\<close>

lemma seek_to_inside: "seek_to offset whence fh \<le> filesize fh"
  by (auto simp: seek_to_def Let_def not_less)

lemma free_slot_correct:
  "free_slot fhs = Some i \<longleftrightarrow> i < length fhs \<and> fh_f (fhs ! i) = 0 \<and> (\<forall>j<i. fh_f (fhs ! j) \<noteq> 0)"
proof (induction fhs arbitrary: i)
  case Nil
  then show ?case by simp
next
  case (Cons fh fhs)
  show ?case
  proof (cases i)
    case 0
    then show ?thesis by auto
  next
    case (Suc k)
    then show ?thesis using Cons.IH [of k] by (auto simp: nth_Cons less_Suc_eq_0_disj)
  qed
qed

lemma free_slot_full: "free_slot fhs = None \<longleftrightarrow> (\<forall>fh \<in> set fhs. fh_f fh \<noteq> 0)"
  by (induction fhs) auto

section \<open>What reading a file does\<close>

definition file_ready :: "nat \<Rightarrow> 'd cdvdman \<Rightarrow> bool" where
  "file_ready slot s \<longleftrightarrow> drive_idle s \<and> slot < length (cdvdman_fdhandles s) \<and>
     cdvdman_fs_buf s AND 3 = 0 \<and> semas s cdvdman_searchfilesema = 1"

text \<open>The module's own two buffers are scratch memory of a file read.\<close>

definition own_buffers :: "'d cdvdman \<Rightarrow> u32 \<Rightarrow> bool" where
  "own_buffers s x \<longleftrightarrow> in_run (cdvdman_fs_buf s) 2048 x \<or> in_run (cdvdman_buf s) 4096 x"

text \<open>
  \<open>s'\<close> is \<open>s\<close> after a part of a file read: the file has moved by \<open>length bs\<close> and the bytes
  \<open>bs\<close> are at \<open>buf\<close>.
\<close>

definition file_part :: "nat \<Rightarrow> u32 \<Rightarrow> u8 list \<Rightarrow> 'd cdvdman \<Rightarrow> 'd cdvdman \<Rightarrow> bool" where
  "file_part slot buf bs s s' \<longleftrightarrow> read_frame (advance_file slot (of_nat (length bs)) s) s' \<and>
     (\<forall>x. \<not> own_buffers s x \<longrightarrow> memory s' x = write_bytes buf bs (memory s) x)"

lemma advance_file_fields [simp]:
  "drive_idle (advance_file slot n s) = drive_idle s"
  "semas (advance_file slot n s) = semas s" "memory (advance_file slot n s) = memory s"
  "cdvdman_buf (advance_file slot n s) = cdvdman_buf s"
  "cdvdman_fs_buf (advance_file slot n s) = cdvdman_fs_buf s"
  "dev (advance_file slot n s) = dev s"
  "length (cdvdman_fdhandles (advance_file slot n s)) = length (cdvdman_fdhandles s)"
  by (simp_all add: advance_file_def set_fh_def drive_idle_def)

lemma advance_file_get:
  "slot < length (cdvdman_fdhandles s) \<Longrightarrow>
   get_fh slot (advance_file slot n s) = (get_fh slot s)\<lparr>position := position (get_fh slot s) + n\<rparr>"
  by (simp add: advance_file_def set_fh_def get_fh_def)

lemma read_frame_idle: "read_frame s s' \<Longrightarrow> drive_idle s' = drive_idle s"
  by (simp add: drive_idle_def read_frame_fields)

lemma file_part_ready:
  assumes "file_part slot buf bs s s'"
  shows "file_ready slot s' = file_ready slot s" and "own_buffers s' = own_buffers s"
    and "slot < length (cdvdman_fdhandles s) \<Longrightarrow>
      get_fh slot s' = (get_fh slot s)\<lparr>position := position (get_fh slot s) + of_nat (length bs)\<rparr>"
    and "cdvdman_fs_buf s' = cdvdman_fs_buf s" and "cdvdman_buf s' = cdvdman_buf s"
    and "length (cdvdman_fdhandles s') = length (cdvdman_fdhandles s)"
proof -
  have f: "read_frame (advance_file slot (of_nat (length bs)) s) s'"
    using assms by (simp add: file_part_def)
  note g = read_frame_fields [OF f] read_frame_idle [OF f]
  show "file_ready slot s' = file_ready slot s" using g by (simp add: file_ready_def)
  show "own_buffers s' = own_buffers s" using g by (simp add: own_buffers_def fun_eq_iff)
  show "get_fh slot s' = (get_fh slot s)\<lparr>position := position (get_fh slot s) + of_nat (length bs)\<rparr>"
    if "slot < length (cdvdman_fdhandles s)"
    using advance_file_get [OF that] g(8) unfolding get_fh_def by simp
  show "cdvdman_fs_buf s' = cdvdman_fs_buf s" "cdvdman_buf s' = cdvdman_buf s"
    "length (cdvdman_fdhandles s') = length (cdvdman_fdhandles s)"
    using g by simp_all
qed

lemma file_part_refl: "slot < length (cdvdman_fdhandles s) \<Longrightarrow> file_part slot buf [] s s"
  by (simp add: file_part_def advance_file_def set_fh_def get_fh_def)

lemma file_part_trans:
  assumes "file_part slot buf bs a b" and "file_part slot (buf + of_nat (length bs)) cs b c"
    and "slot < length (cdvdman_fdhandles a)" and "length bs + length cs \<le> 2 ^ 32"
  shows "file_part slot buf (bs @ cs) a c"
proof -
  note r = file_part_ready [OF assms(1)]
  have f1: "read_frame (advance_file slot (of_nat (length bs)) a) b"
    and f2: "read_frame (advance_file slot (of_nat (length cs)) b) c"
    using assms(1,2) by (simp_all add: file_part_def)
  have "cdvdman_fdhandles b = cdvdman_fdhandles (advance_file slot (of_nat (length bs)) a)"
    using read_frame_fields(8) [OF f1] .
  then have "read_frame (advance_file slot (of_nat (length bs + length cs)) a)
      (advance_file slot (of_nat (length cs)) b)"
    using f1 r(3) assms(3)
    by (cases a; cases b; simp add: read_frame_def advance_file_def set_fh_def get_fh_def add.assoc)
  then have fr: "read_frame (advance_file slot (of_nat (length (bs @ cs))) a) c"
    using read_frame_trans [OF _ f2] by simp
  have "memory c x = write_bytes buf (bs @ cs) (memory a) x" if x: "\<not> own_buffers a x" for x
  proof -
    have "memory c x = write_bytes (buf + of_nat (length bs)) cs (memory b) x"
      using assms(2) x r(2) by (simp add: file_part_def)
    also have "\<dots> = write_bytes (buf + of_nat (length bs)) cs (write_bytes buf bs (memory a)) x"
      using assms(1) x by (simp add: file_part_def write_bytes_def)
    also have "\<dots> = write_bytes buf (bs @ cs) (memory a) x"
      using write_bytes_append [OF assms(4) refl] by metis
    finally show ?thesis .
  qed
  with fr show ?thesis by (simp add: file_part_def)
qed

lemma up_to_boundary: "m * q + r = p \<Longrightarrow> r \<le> m \<Longrightarrow> (p + (m - r)) mod m = (0 :: nat)"
proof -
  assume "m * q + r = p" and "r \<le> m"
  then have "p + (m - r) = m * q + m" by linarith
  then show ?thesis by simp
qed

lemma sector_of_position: "p = unat pos \<Longrightarrow> (pos :: u32) div 2048 = of_nat (p div 2048)"
proof -
  assume p: "p = unat pos"
  then have "p div 2048 < 2 ^ 32" using u32_bound [of pos] by simp
  then show ?thesis unfolding word_unat_eq_iff by (simp only: unat_of_nat_u32 unat_div p) simp
qed

text \<open>
  The situation a phase finds: \<open>sz\<close> bytes are to go to \<open>buf\<close> from byte \<open>p\<close> of the file at \<open>lsn\<close>.
\<close>

definition phase_env :: "nat \<Rightarrow> u32 \<Rightarrow> nat \<Rightarrow> u32 \<Rightarrow> u32 \<Rightarrow> 'd cdvdman \<Rightarrow> bool" where
  "phase_env slot lsn p buf sz s \<longleftrightarrow> file_ready slot s \<and> lsn = fh_lsn (get_fh slot s) \<and>
     p = unat (position (get_fh slot s)) \<and> 13 \<le> lsn \<and> p + unat sz < 2 ^ 32 \<and>
     unat lsn + (p + unat sz) div 2048 + 1 < 2 ^ 32 \<and>
     disjoint_runs (cdvdman_fs_buf s) 2048 buf (unat sz) \<and>
     disjoint_runs (cdvdman_buf s) 4096 buf (unat sz)"

lemma phase_envD:
  assumes "phase_env slot lsn p buf sz s"
  shows "file_ready slot s" and "lsn = fh_lsn (get_fh slot s)" and "p = unat (position (get_fh slot s))"
    and "13 \<le> lsn" and "p + unat sz < 2 ^ 32" and "unat lsn + (p + unat sz) div 2048 + 1 < 2 ^ 32"
    and "disjoint_runs (cdvdman_fs_buf s) 2048 buf (unat sz)"
    and "disjoint_runs (cdvdman_buf s) 4096 buf (unat sz)"
  using assms unfolding phase_env_def by blast+

context disc_device
begin

lemma file_read_sectors_delivers:
  assumes "inv (dev s)" and ready: "file_ready slot s"
    and L: "L = fh_lsn (get_fh slot s) + position (get_fh slot s) div 2048"
    and "readable L (unat n)" and "read_ready s L n dst"
  shows "\<exists>s'. file_read_sectors rd slot n dst nb s = Some s' \<and>
    read_frame (advance_file slot nb s) s' \<and> inv (dev s') \<and>
    (\<forall>x. \<not> scratch s dst x \<longrightarrow>
      memory s' x = write_bytes dst (sector_run disc L (unat n)) (memory s) x)"
proof -
  have idle: "drive_idle s" using ready by (simp add: file_ready_def)
  obtain s1 where s1: "sceCdRead rd L n dst s = Some (1, s1)" "cdvdman_fdhandles s1 = cdvdman_fdhandles s"
    and sync: "\<And>h. \<exists>s'. sceCdSync rd 0 (s1\<lparr>cdvdman_fdhandles := h\<rparr>) = Some (0, s') \<and>
      read_frame (s\<lparr>cdvdman_fdhandles := h\<rparr>) s' \<and> inv (dev s') \<and>
      (\<forall>x. \<not> scratch s dst x \<longrightarrow>
        memory s' x = write_bytes dst (sector_run disc L (unat n)) (memory s) x)"
    using read_then_sync_delivers [OF assms(1,4,5) idle] by blast
  have adv: "advance_file slot nb s1 = s1\<lparr>cdvdman_fdhandles := cdvdman_fdhandles (advance_file slot nb s)\<rparr>"
    "advance_file slot nb s = s\<lparr>cdvdman_fdhandles := cdvdman_fdhandles (advance_file slot nb s)\<rparr>"
    using s1(2) by (simp_all add: advance_file_def set_fh_def get_fh_def)
  obtain s' where s': "sceCdSync rd 0 (advance_file slot nb s1) = Some (0, s')"
    "read_frame (advance_file slot nb s) s'" "inv (dev s')"
    "\<forall>x. \<not> scratch s dst x \<longrightarrow>
        memory s' x = write_bytes dst (sector_run disc L (unat n)) (memory s) x"
    using sync [of "cdvdman_fdhandles (advance_file slot nb s)"] unfolding adv(1) [symmetric]
      adv(2) [symmetric] by blast
  have "file_read_sectors rd slot n dst nb s = Some s'"
    using retry_idle [OF s1(1)] s'(1) L by (simp add: file_read_sectors_def)
  with s' show ?thesis by blast
qed

text \<open>Part of one sector, through the module's buffer.\<close>

lemma bounce_part:
  assumes "inv (dev s)" and ready: "file_ready slot s"
    and fh: "lsn = fh_lsn (get_fh slot s)" "p = unat (position (get_fh slot s))"
    and l13: "13 \<le> lsn" "unat lsn + p div 2048 + 1 < 2 ^ 32"
    and "readable (lsn + of_nat (p div 2048)) 1"
    and nb: "p mod 2048 + unat nb \<le> 2048"
    and dj: "disjoint_runs (cdvdman_fs_buf s) 2048 buf (unat nb)"
  shows "\<exists>s'. file_read_sectors rd slot 1 (cdvdman_fs_buf s) nb s = Some s' \<and> inv (dev s') \<and>
    cdvdman_fs_buf s' = cdvdman_fs_buf s \<and>
    file_part slot buf (file_bytes disc lsn p (unat nb)) s
      (s'\<lparr>memory := mips_memcpy buf (cdvdman_fs_buf s' + of_nat (p mod 2048)) (unat nb) (memory s')\<rparr>)"
proof -
  let ?L = "lsn + of_nat (p div 2048)" and ?fs = "cdvdman_fs_buf s"
  have pd: "p div 2048 < 2 ^ 32" using u32_bound [of "position (get_fh slot s)"] fh(2) by simp
  note pos = sector_of_position [OF fh(2)]
  have uL: "unat ?L = unat lsn + p div 2048"
    using l13(2) unat_of_nat_u32 [OF pd] unat_add_le [of lsn "of_nat (p div 2048)"] by simp
  have rdy: "read_ready s ?L 1 ?fs"
    using ready uL l13 by (simp add: read_ready_def file_ready_def word_le_nat_alt)
  obtain s' where s': "file_read_sectors rd slot 1 ?fs nb s = Some s'"
    "read_frame (advance_file slot nb s) s'" "inv (dev s')"
    "\<And>x. \<not> scratch s ?fs x \<Longrightarrow> memory s' x = write_bytes ?fs (disc ?L) (memory s) x"
    using file_read_sectors_delivers [OF assms(1) ready, of ?L 1 ?fs nb] rdy assms(7) pos fh(1)
    by auto
  have ns: "\<not> scratch s ?fs x" for x using ready by (simp add: scratch_def file_ready_def)
  have m: "memory s' = write_bytes ?fs (disc ?L) (memory s)" using s'(4) ns by auto
  have fs: "cdvdman_fs_buf s' = ?fs" using read_frame_fields [OF s'(2)] by simp
  let ?bs = "file_bytes disc lsn p (unat nb)"
  have data: "read_bytes (memory s') (?fs + of_nat (p mod 2048)) (unat nb) = ?bs"
  proof -
    have "?bs = take (unat nb) (drop (p mod 2048) (disc ?L))"
      using file_bytes_sector [of disc lsn "p div 2048" "p mod 2048" "unat nb"] disc_sector nb by simp
    moreover have "read_bytes (memory s') (?fs + of_nat (p mod 2048)) (unat nb)
        = take (unat nb) (drop (p mod 2048) (disc ?L))"
    proof (rule nth_equalityI)
      show "length (read_bytes (memory s') (?fs + of_nat (p mod 2048)) (unat nb))
          = length (take (unat nb) (drop (p mod 2048) (disc ?L)))" using nb disc_sector by simp
    next
      fix i assume "i < length (read_bytes (memory s') (?fs + of_nat (p mod 2048)) (unat nb))"
      then have i: "i < unat nb" by simp
      then have lt: "p mod 2048 + i < length (disc ?L)" using nb disc_sector by simp
      have "write_bytes ?fs (disc ?L) (memory s) (?fs + of_nat (p mod 2048 + i)) = disc ?L ! (p mod 2048 + i)"
        by (rule write_bytes_inside [OF lt]) (simp add: disc_sector)
      with i show "read_bytes (memory s') (?fs + of_nat (p mod 2048)) (unat nb) ! i
          = take (unat nb) (drop (p mod 2048) (disc ?L)) ! i"
        using nb disc_sector by (simp add: m add.assoc)
    qed
    ultimately show ?thesis by simp
  qed
  let ?s2 = "s'\<lparr>memory := mips_memcpy buf (cdvdman_fs_buf s' + of_nat (p mod 2048)) (unat nb) (memory s')\<rparr>"
  have "read_frame (advance_file slot (of_nat (length ?bs)) s) ?s2"
    using s'(2) by (simp add: read_frame_upd)
  moreover have "memory ?s2 x = write_bytes buf ?bs (memory s) x" if x: "\<not> own_buffers s x" for x
  proof -
    have "memory s' x = memory s x"
      unfolding m using x disc_sector by (intro write_bytes_outside) (simp add: own_buffers_def)
    then show ?thesis using data fs by (simp add: mips_memcpy_def write_bytes_def)
  qed
  ultimately show ?thesis using s'(1,3) fs by (auto simp: file_part_def)
qed

lemma phase_env_next:
  assumes E: "phase_env slot lsn p buf sz s" and P: "file_part slot buf bs s s'"
    and len: "length bs = unat nb" and le: "unat nb \<le> unat sz"
  shows "phase_env slot lsn (p + unat nb) (buf + nb) (sz - nb) s'"
proof -
  note r = file_part_ready [OF P]
  have slot: "slot < length (cdvdman_fdhandles s)" and lt: "p + unat sz < 2 ^ 32"
    using E by (simp_all add: phase_env_def file_ready_def)
  have rest: "unat (sz - nb) = unat sz - unat nb" using le by (simp add: unat_sub word_le_nat_alt)
  have p: "unat (position (get_fh slot s) + of_nat (length bs)) = p + unat nb"
    using E len le lt unat_add_le [of "position (get_fh slot s)" nb] by (simp add: phase_env_def)
  have dj: "disjoint_runs (buf + nb) (unat sz - unat nb) b k" if "disjoint_runs b k buf (unat sz)" for b k
    using disjoint_runs_offset [of buf "unat sz" b k "unat nb" "unat sz - unat nb"] that le lt
    by (simp add: disjoint_runs_sym)
  show ?thesis
    unfolding phase_env_def r(1) r(4) r(5) rest
  proof (intro conjI)
    show "disjoint_runs (cdvdman_fs_buf s) 2048 (buf + nb) (unat sz - unat nb)"
      "disjoint_runs (cdvdman_buf s) 4096 (buf + nb) (unat sz - unat nb)"
      using dj phase_envD(7,8) [OF E] by (simp_all add: disjoint_runs_sym)
  qed (use phase_envD [OF E] r(3) [OF slot] p le in simp_all)
qed

lemma phase1_delivers:
  assumes "inv (dev s)" and E: "phase_env slot lsn p buf sz s" and n: "0 < unat sz"
    and R: "\<forall>l j. j \<le> Suc (unat sz div 2048) \<longrightarrow> readable l j"
  shows "\<exists>nb s'. read_phase1 rd slot (buf, sz, rpos) s = Some ((buf + nb, sz - nb, rpos + nb), s') \<and>
    inv (dev s') \<and> file_part slot buf (file_bytes disc lsn p (unat nb)) s s' \<and> unat nb \<le> unat sz \<and>
    (unat nb < unat sz \<longrightarrow> (p + unat nb) mod 2048 = 0)"
proof -
  let ?pos = "position (get_fh slot s)"
  note e = phase_envD [OF E]
  have slot: "slot < length (cdvdman_fdhandles s)" using e(1) by (simp add: file_ready_def)
  have off: "unat (?pos mod 2048) = p mod 2048" using e(3) by (simp add: unat_mod)
  show ?thesis
  proof (cases "?pos mod 2048 = 0")
    case True
    then have "read_phase1 rd slot (buf, sz, rpos) s = Some ((buf + 0, sz - 0, rpos + 0), s)"
      by (simp add: read_phase1_def)
    moreover have "p mod 2048 = 0" using True off by (metis unat_0)
    ultimately show ?thesis
      using assms(1) file_part_refl [OF slot, of buf] by (intro exI [of _ 0] exI [of _ s]) simp
  next
    case False
    define nb where "nb = (if sz < 2048 - ?pos mod 2048 then sz else 2048 - ?pos mod 2048)"
    have lt: "p mod 2048 < 2048" by simp
    then have sub: "unat (2048 - ?pos mod 2048) = 2048 - p mod 2048"
      using off by (simp add: unat_sub word_le_nat_alt)
    have nb: "unat nb = (if unat sz < 2048 - p mod 2048 then unat sz else 2048 - p mod 2048)"
      by (simp add: nb_def word_less_nat_alt sub)
    have nbs: "unat nb \<le> unat sz" "p mod 2048 + unat nb \<le> 2048" using nb lt by auto
    have l: "unat lsn + p div 2048 + 1 < 2 ^ 32"
      using e(6) div_le_mono [of p "p + unat sz" 2048] by simp
    have dj: "disjoint_runs (cdvdman_fs_buf s) 2048 buf (unat nb)"
      by (rule disjoint_runs_mono [OF e(7)]) (use nbs in simp_all)
    obtain s' where s': "file_read_sectors rd slot 1 (cdvdman_fs_buf s) nb s = Some s'" "inv (dev s')"
      "cdvdman_fs_buf s' = cdvdman_fs_buf s"
      "file_part slot buf (file_bytes disc lsn p (unat nb)) s
        (s'\<lparr>memory := mips_memcpy buf (cdvdman_fs_buf s' + of_nat (p mod 2048)) (unat nb) (memory s')\<rparr>)"
      using bounce_part [OF assms(1) e(1-4) l _ nbs(2) dj] R by auto
    let ?s2 = "s'\<lparr>memory := mips_memcpy buf (cdvdman_fs_buf s' + of_nat (p mod 2048)) (unat nb) (memory s')\<rparr>"
    have o: "?pos mod 2048 = of_nat (p mod 2048)" using off by (metis of_nat_unat ucast_id)
    have nb': "(if sz < 2048 - of_nat (p mod 2048) then sz else 2048 - of_nat (p mod 2048)) = nb"
      by (simp only: nb_def o)
    have "read_phase1 rd slot (buf, sz, rpos) s = Some ((buf + nb, sz - nb, rpos + nb), ?s2)"
      using False s'(1) unfolding read_phase1_def prod.case Let_def o nb' by simp
    moreover have "unat nb < unat sz \<longrightarrow> (p + unat nb) mod 2048 = 0"
    proof
      assume "unat nb < unat sz"
      then have u: "unat nb = 2048 - p mod 2048" using nb by (auto split: if_splits)
      show "(p + unat nb) mod 2048 = 0"
        unfolding u by (rule up_to_boundary [OF mult_div_mod_eq]) (use lt in simp)
    qed
    ultimately show ?thesis
      using s'(2,4) nbs(1) by (intro exI [of _ nb] exI [of _ ?s2]) simp
  qed
qed

lemma phase2_delivers:
  assumes "inv (dev s)" and E: "phase_env slot lsn p buf sz s"
    and R: "\<forall>l j. j \<le> Suc (unat sz div 2048) \<longrightarrow> readable l j"
    and al: "0 < unat sz \<Longrightarrow> p mod 2048 = 0"
  shows "\<exists>nb s'. read_phase2 rd slot (buf, sz, rpos) s = Some ((buf + nb, sz - nb, rpos + nb), s') \<and>
    inv (dev s') \<and> file_part slot buf (file_bytes disc lsn p (unat nb)) s s' \<and>
    unat nb = unat sz div 2048 * 2048"
proof -
  let ?pos = "position (get_fh slot s)" and ?ns = "sz div 2048"
  note e = phase_envD [OF E]
  have slot: "slot < length (cdvdman_fdhandles s)" using e(1) by (simp add: file_ready_def)
  have uns: "unat ?ns = unat sz div 2048" by (simp add: unat_div)
  show ?thesis
  proof (cases "?ns = 0")
    case True
    then have "read_phase2 rd slot (buf, sz, rpos) s = Some ((buf + 0, sz - 0, rpos + 0), s)"
      by (simp add: read_phase2_def)
    moreover have "unat sz div 2048 = 0" using True uns by (metis unat_0)
    ultimately show ?thesis
      using assms(1) file_part_refl [OF slot, of buf] by (intro exI [of _ 0] exI [of _ s]) simp
  next
    case False
    then have pos0: "0 < unat ?ns" by (simp add: unat_gt_0)
    then have sz: "2048 \<le> unat sz" using uns by (simp add: div_greater_zero_iff)
    then have p0: "p mod 2048 = 0" using al by simp
    let ?nb = "?ns * 2048"
    have le: "unat ?ns * 2048 \<le> unat sz" using uns by simp
    have unb: "unat ?nb = unat ?ns * 2048"
      using le u32_bound [of sz] unat_mult_le [of ?ns 2048] by simp
    let ?L = "lsn + of_nat (p div 2048)"
    have pd: "p div 2048 < 2 ^ 32" using u32_bound [of ?pos] e(3) by simp
    have L: "?L = fh_lsn (get_fh slot s) + ?pos div 2048"
      by (simp add: e(2) sector_of_position [OF e(3)])
    have dd: "p div 2048 + unat ?ns = (p + unat sz) div 2048"
      unfolding uns by (rule div_plus_div_distrib_dvd_left [symmetric]) (rule mod_0_imp_dvd [OF p0])
    have uL: "unat ?L = unat lsn + p div 2048"
      using e(6) dd unat_of_nat_u32 [OF pd] unat_add_le [of lsn "of_nat (p div 2048)"] by simp
    have rdy: "read_ready s ?L ?ns buf"
      unfolding read_ready_def
    proof (intro conjI impI)
      show "13 \<le> ?L" using e(4) uL by (simp add: word_le_nat_alt)
      show "unat ?L + unat ?ns < 2 ^ 32" using uL dd e(6) by simp
      show "unat ?ns * 2048 \<le> 2 ^ 32" using le u32_bound [of sz] by simp
      show "disjoint_runs (cdvdman_buf s) 4096 buf (unat ?ns * 2048)"
        by (rule disjoint_runs_mono [OF e(8)]) (use le in simp_all)
      show "semas s cdvdman_searchfilesema = 1" using e(1) by (simp add: file_ready_def)
      show "?ns \<noteq> 0" using False .
    qed
    obtain s' where s': "file_read_sectors rd slot ?ns buf ?nb s = Some s'"
      "read_frame (advance_file slot ?nb s) s'" "inv (dev s')"
      "\<And>x. \<not> scratch s buf x \<Longrightarrow> memory s' x = write_bytes buf (sector_run disc ?L (unat ?ns)) (memory s) x"
      using file_read_sectors_delivers [OF assms(1) e(1) L _ rdy, of ?nb] R uns by auto
    have data: "sector_run disc ?L (unat ?ns) = file_bytes disc lsn p (unat ?nb)"
    proof -
      have "p div 2048 * 2048 = p" using p0 by (metis add.right_neutral div_mult_mod_eq)
      then show ?thesis
        using file_bytes_sectors [of disc lsn "p div 2048" "unat ?ns"] disc_sector unb by simp
    qed
    have "file_part slot buf (file_bytes disc lsn p (unat ?nb)) s s'"
      using s'(2,4) by (simp add: file_part_def own_buffers_def scratch_def flip: data)
    moreover have "read_phase2 rd slot (buf, sz, rpos) s = Some ((buf + ?nb, sz - ?nb, rpos + ?nb), s')"
      using pos0 s'(1) unfolding read_phase2_def prod.case Let_def by (simp add: word_less_nat_alt)
    ultimately show ?thesis using s'(3) unb uns by (intro exI [of _ ?nb] exI [of _ s']) simp
  qed
qed

lemma phase3_delivers:
  assumes "inv (dev s)" and E: "phase_env slot lsn p buf sz s"
    and R: "\<forall>l j. j \<le> 1 \<longrightarrow> readable l j"
    and al: "0 < unat sz \<Longrightarrow> p mod 2048 = 0" and small: "unat sz < 2048"
  shows "\<exists>s'. read_phase3 rd slot (buf, sz, rpos) s = Some ((buf, 0, rpos + sz), s') \<and>
    inv (dev s') \<and> file_part slot buf (file_bytes disc lsn p (unat sz)) s s'"
proof -
  note e = phase_envD [OF E]
  have slot: "slot < length (cdvdman_fdhandles s)" using e(1) by (simp add: file_ready_def)
  show ?thesis
  proof (cases "sz = 0")
    case True
    then show ?thesis
      using assms(1) file_part_refl [OF slot, of buf] by (simp add: read_phase3_def)
  next
    case False
    then have p0: "p mod 2048 = 0" using al by (simp add: unat_gt_0)
    have l: "unat lsn + p div 2048 + 1 < 2 ^ 32"
      using e(6) div_le_mono [of p "p + unat sz" 2048] by simp
    obtain s' where s': "file_read_sectors rd slot 1 (cdvdman_fs_buf s) sz s = Some s'" "inv (dev s')"
      "file_part slot buf (file_bytes disc lsn p (unat sz)) s
        (s'\<lparr>memory := mips_memcpy buf (cdvdman_fs_buf s' + of_nat (p mod 2048)) (unat sz) (memory s')\<rparr>)"
      using bounce_part [OF assms(1) e(1-4) l _ _ e(7)] R p0 small by auto
    let ?s2 = "s'\<lparr>memory := mips_memcpy buf (cdvdman_fs_buf s') (unat sz) (memory s')\<rparr>"
    have "read_phase3 rd slot (buf, sz, rpos) s = Some ((buf, 0, rpos + sz), ?s2)"
      using False s'(1) by (simp add: read_phase3_def word_gt_0)
    then show ?thesis using s'(2,3) p0 by (intro exI [of _ ?s2]) simp
  qed
qed

text \<open>Taking and giving back the semaphore around a read leaves the read's own effect.\<close>

lemma file_part_signal:
  assumes "semas s cdrom_io_sema = 1"
    and part: "file_part slot buf bs (s\<lparr>semas := (semas s)(cdrom_io_sema := 0), err := CDVD_ERR_NO\<rparr>) s'"
  shows "file_part slot buf bs s (SignalSema cdrom_io_sema s')"
proof -
  let ?s2 = "s\<lparr>semas := (semas s)(cdrom_io_sema := 0), err := CDVD_ERR_NO\<rparr>"
  have "(semas s)(cdrom_io_sema := 1) = semas s" using assms(1) by auto
  moreover from part have f: "read_frame (advance_file slot (of_nat (length bs)) ?s2) s'"
    by (simp add: file_part_def)
  moreover note read_frame_fields(4) [OF f]
  ultimately have "read_frame (advance_file slot (of_nat (length bs)) s) (SignalSema cdrom_io_sema s')"
    by (cases s; cases s'; simp add: read_frame_def SignalSema_def advance_file_def set_fh_def get_fh_def)
  moreover have "memory (SignalSema cdrom_io_sema s') = memory s'" by (simp add: SignalSema_def)
  ultimately show ?thesis using part by (simp add: file_part_def own_buffers_def)
qed

text \<open>The three phases one after the other: they leave nothing over.\<close>

lemma phases_deliver:
  assumes i: "inv (dev s)" and E: "phase_env slot lsn p buf n s" and n0: "0 < unat n"
    and R: "\<forall>l j. j \<le> Suc (unat n div 2048) \<longrightarrow> readable l j"
  obtains x y c where "read_phase1 rd slot (buf, n, 0) s = Some x"
    and "read_phase2 rd slot (fst x) (snd x) = Some y"
    and "\<exists>buf'. read_phase3 rd slot (fst y) (snd y) = Some ((buf', 0, n), c)"
    and "inv (dev c)" and "file_part slot buf (file_bytes disc lsn p (unat n)) s c"
proof -
  have slot: "slot < length (cdvdman_fdhandles s)"
    using phase_envD(1) [OF E] by (simp add: file_ready_def)
  obtain nb1 a where a: "read_phase1 rd slot (buf, n, 0) s = Some ((buf + nb1, n - nb1, 0 + nb1), a)"
    "inv (dev a)" "file_part slot buf (file_bytes disc lsn p (unat nb1)) s a" "unat nb1 \<le> unat n"
    "unat nb1 < unat n \<longrightarrow> (p + unat nb1) mod 2048 = 0"
    using phase1_delivers [OF i E n0 R, of 0] by auto
  have Ea: "phase_env slot lsn (p + unat nb1) (buf + nb1) (n - nb1) a"
    using phase_env_next [OF E a(3) _ a(4)] by simp
  have rest1: "unat (n - nb1) = unat n - unat nb1" using a(4) by (simp add: unat_sub word_le_nat_alt)
  have R1: "\<forall>l j. j \<le> Suc (unat (n - nb1) div 2048) \<longrightarrow> readable l j"
    using R rest1 div_le_mono [of "unat (n - nb1)" "unat n" 2048] by auto
  have al1: "0 < unat (n - nb1) \<Longrightarrow> (p + unat nb1) mod 2048 = 0" using a(5) rest1 by simp
  obtain nb2 b where b: "read_phase2 rd slot (buf + nb1, n - nb1, 0 + nb1) a
      = Some ((buf + nb1 + nb2, n - nb1 - nb2, 0 + nb1 + nb2), b)" "inv (dev b)"
    "file_part slot (buf + nb1) (file_bytes disc lsn (p + unat nb1) (unat nb2)) a b"
    "unat nb2 = unat (n - nb1) div 2048 * 2048"
    using phase2_delivers [OF a(2) Ea R1 al1, of "0 + nb1"] by auto
  have le2: "unat nb2 \<le> unat (n - nb1)" using b(4) by simp
  have Eb: "phase_env slot lsn (p + unat nb1 + unat nb2) (buf + nb1 + nb2) (n - nb1 - nb2) b"
    using phase_env_next [OF Ea b(3) _ le2] by simp
  have rest2: "unat (n - nb1 - nb2) = unat (n - nb1) mod 2048"
    using le2 b(4) by (simp add: unat_sub word_le_nat_alt minus_div_mult_eq_mod)
  have al2: "(p + unat nb1 + unat nb2) mod 2048 = 0" if "0 < unat (n - nb1 - nb2)"
  proof -
    have "0 < unat (n - nb1)" using that rest2 by (cases "unat (n - nb1)") simp_all
    then show ?thesis using al1 b(4) by simp
  qed
  have R3: "\<forall>l j. j \<le> 1 \<longrightarrow> readable l j" using R by auto
  have small: "unat (n - nb1 - nb2) < 2048" using rest2 by simp
  obtain c where c: "read_phase3 rd slot (buf + nb1 + nb2, n - nb1 - nb2, 0 + nb1 + nb2) b
      = Some ((buf + nb1 + nb2, 0, 0 + nb1 + nb2 + (n - nb1 - nb2)), c)" "inv (dev c)"
    "file_part slot (buf + nb1 + nb2)
      (file_bytes disc lsn (p + unat nb1 + unat nb2) (unat (n - nb1 - nb2))) b c"
    using phase3_delivers [OF b(2) Eb R3 al2 small, of "0 + nb1 + nb2"] by auto
  have total: "unat nb1 + unat nb2 + unat (n - nb1 - nb2) = unat n"
    using rest1 rest2 b(4) a(4) by simp
  have n32: "unat n < 2 ^ 32" using u32_bound [of n] by simp
  have "file_part slot buf (file_bytes disc lsn p (unat nb1)
      @ file_bytes disc lsn (p + unat nb1) (unat nb2)) s b"
    by (rule file_part_trans [OF a(3)]) (use b(3) slot total n32 in simp_all)
  then have "file_part slot buf ((file_bytes disc lsn p (unat nb1)
      @ file_bytes disc lsn (p + unat nb1) (unat nb2))
      @ file_bytes disc lsn (p + unat nb1 + unat nb2) (unat (n - nb1 - nb2))) s c"
    by (rule file_part_trans) (use c(3) slot total n32 in \<open>simp_all add: add.assoc\<close>)
  moreover have "(file_bytes disc lsn p (unat nb1)
      @ file_bytes disc lsn (p + unat nb1) (unat nb2))
      @ file_bytes disc lsn (p + unat nb1 + unat nb2) (unat (n - nb1 - nb2))
      = file_bytes disc lsn p (unat n)"
    by (simp add: file_bytes_add add.assoc flip: total)
  ultimately have fin: "file_part slot buf (file_bytes disc lsn p (unat n)) s c" by simp
  show ?thesis
    by (rule that [OF a(1), of "((buf + nb1 + nb2, n - nb1 - nb2, 0 + nb1 + nb2), b)" c])
      (use b(1) c fin in simp_all)
qed

text \<open>
  The whole read: it returns the number of bytes between the position and the end of the file,
  at most what was asked for, moves the position by it, and stores those bytes of the file.
\<close>

lemma cdrom_read_delivers:
  assumes "inv (dev s)" and io: "semas s cdrom_io_sema = 1"
    and E: "phase_env (f_privdata f) lsn p buf n s" and n: "n = clip_size (get_fh (f_privdata f) s) sz"
    and pos: "unat n < 2 ^ 31" and R: "\<forall>l j. j \<le> Suc (unat n div 2048) \<longrightarrow> readable l j"
  shows "\<exists>s'. cdrom_read rd f buf sz s = Some (n, s') \<and> inv (dev s') \<and>
    file_part (f_privdata f) buf (file_bytes disc lsn p (unat n)) s s'"
proof -
  let ?slot = "f_privdata f"
  let ?s1 = "s\<lparr>semas := (semas s)(cdrom_io_sema := 0)\<rparr>"
  let ?s2 = "?s1\<lparr>err := CDVD_ERR_NO\<rparr>"
  have w: "WaitSema cdrom_io_sema s = Some ?s1" using io by (simp add: WaitSema_def)
  have idle: "\<not> sync_flag s" using E by (simp add: phase_env_def file_ready_def drive_idle_def)
  obtain r where ready: "sceCdDiskReady rd 0 ?s1 = Some (r, ?s2)"
    using DiskReady_idle [of ?s1 rd 0] idle by auto
  have clip: "clip_size (get_fh ?slot ?s1) sz = n" using n by (simp add: get_fh_def)
  have "phase_env ?slot lsn p buf n ?s2 = phase_env ?slot lsn p buf n s"
    by (simp add: phase_env_def file_ready_def drive_idle_def get_fh_def)
  with E have E2: "phase_env ?slot lsn p buf n ?s2" by simp
  have slot: "?slot < length (cdvdman_fdhandles ?s2)"
    using phase_envD(1) [OF E2] by (simp add: file_ready_def)
  have final: "file_part ?slot buf bs s (SignalSema cdrom_io_sema s')" if "file_part ?slot buf bs ?s2 s'" for bs s'
    by (rule file_part_signal [OF io]) (use that in simp)
  show ?thesis
  proof (cases "n = 0")
    case True
    then have "cdrom_read rd f buf sz s = Some (n, SignalSema cdrom_io_sema ?s2)"
      using w ready clip by (simp add: cdrom_read_def Let_def)
    moreover have "file_part ?slot buf [] s (SignalSema cdrom_io_sema ?s2)"
      by (rule final) (rule file_part_refl [OF slot])
    ultimately show ?thesis using True assms(1) by (simp add: SignalSema_def)
  next
    case False
    have n0: "0 < unat n" using False by (simp add: unat_gt_0)
    have sp: "0 <s n"
    proof -
      have "sint n = int (unat n)" using pos by (rule sint_small)
      with n0 have "0 < sint n" by linarith
      then show ?thesis by (simp add: word_sless_alt)
    qed
    have i2: "inv (dev ?s2)" using assms(1) by simp
    obtain x y c buf' where ph: "read_phase1 rd ?slot (buf, n, 0) ?s2 = Some x"
      "read_phase2 rd ?slot (fst x) (snd x) = Some y"
      "read_phase3 rd ?slot (fst y) (snd y) = Some ((buf', 0, n), c)"
      and c: "inv (dev c)" "file_part ?slot buf (file_bytes disc lsn p (unat n)) ?s2 c"
      using phases_deliver [OF i2 E2 n0 R] by metis
    have "cdrom_read rd f buf sz s = Some (n, SignalSema cdrom_io_sema c)"
      using w ready clip sp ph by (simp add: cdrom_read_def Let_def split_beta)
    with final [OF c(2)] c(1) show ?thesis by (auto simp: SignalSema_def)
  qed
qed

end

section \<open>The table and the positions\<close>

text \<open>
  \<open>cdvdman_getfilefreeslot\<close> takes the first free one of the 64 slots, and finds none
  exactly when all of them are in use.
\<close>

theorem first_free_slot:
  assumes "length (cdvdman_fdhandles s) = MAX_FDHANDLES"
  shows "case cdvdman_getfilefreeslot s of
      Some i \<Rightarrow> i < MAX_FDHANDLES \<and> fh_f (get_fh i s) = 0 \<and> (\<forall>j<i. fh_f (get_fh j s) \<noteq> 0)
    | None \<Rightarrow> \<forall>j<MAX_FDHANDLES. fh_f (get_fh j s) \<noteq> 0"
proof (cases "cdvdman_getfilefreeslot s")
  case None
  then have "\<forall>fh \<in> set (cdvdman_fdhandles s). fh_f fh \<noteq> 0"
    using assms free_slot_full [of "cdvdman_fdhandles s"] by (simp add: cdvdman_getfilefreeslot_def)
  with None assms show ?thesis by (simp add: get_fh_def)
next
  case (Some i)
  then show ?thesis
    using assms free_slot_correct [of "cdvdman_fdhandles s" i]
    by (simp add: cdvdman_getfilefreeslot_def get_fh_def)
qed

text \<open>
  C28. \<open>cdrom_lseek\<close> with the device free always returns: the new position, never behind the
  end of the file, is the result, only the position of that file changes, and the semaphore is
  free again.
\<close>

theorem lseek_inside:
  assumes "semas s cdrom_io_sema = 1" and "f_privdata f < length (cdvdman_fdhandles s)"
  shows "\<exists>r. cdrom_lseek f offset whence s
      = Some (r, set_fh (f_privdata f) ((get_fh (f_privdata f) s)\<lparr>position := r\<rparr>) s) \<and>
    r \<le> filesize (get_fh (f_privdata f) s) \<and>
    (whence = SEEK_SET \<and> offset \<le> filesize (get_fh (f_privdata f) s) \<longrightarrow> r = offset)"
proof -
  have "(semas s)(cdrom_io_sema := 1) = semas s" using assms(1) by auto
  then have "cdrom_lseek f offset whence s
      = Some (seek_to offset whence (get_fh (f_privdata f) s),
          set_fh (f_privdata f)
            ((get_fh (f_privdata f) s)\<lparr>position := seek_to offset whence (get_fh (f_privdata f) s)\<rparr>) s)"
    using assms by (simp add: cdrom_lseek_def WaitSema_def SignalSema_def set_fh_def get_fh_def Let_def)
  then show ?thesis
    using seek_to_inside [of offset whence "get_fh (f_privdata f) s"]
    by (auto simp: seek_to_def Let_def)
qed

end
