(* ===== verification/Fs_Search.thy ===== *)
theory Fs_Search
  imports Fs_Files
begin

text \<open>
  Names and directories (cdvdman/cdvdman.c): \<open>cdrom_purifyPath\<close>, \<open>cdvdman_trimspaces\<close>,
  \<open>cdvdman_locatefile\<close>, \<open>cdvdman_findfile\<close> and the calls made of them. A C string is the list of
  its bytes before the terminating zero. A store behind the end of a buffer on the stack is
  None, as is a loop that does not end and the use of the result of a \<open>strrchr\<close> that found nothing.
\<close>

type_synonym cstring = "u8 list"

section \<open>Paths\<close>

definition purify_needed :: "cstring \<Rightarrow> bool" where
  "purify_needed path \<longleftrightarrow>
     length path \<ge> 3 \<and> (path ! (length path - 1) \<noteq> 0x31 \<or> path ! (length path - 2) \<noteq> 0x3B)"

definition cdrom_purifyPath :: "cstring \<Rightarrow> u32 \<times> cstring" where
  "cdrom_purifyPath path = (if purify_needed path then (0, path @ [0x3B, 0x31]) else (1, path))"

text \<open>
  \<open>strncpy\<close> to the 128-byte \<open>path_buffer\<close> and the suffix appended in it: the copy has to leave
  a terminator, the suffix has to fit.
\<close>

definition path_buffer :: "cstring \<Rightarrow> cstring option" where
  "path_buffer filename =
     (if length filename \<ge> 128 then None
      else let path = snd (cdrom_purifyPath filename) in if length path \<ge> 128 then None else Some path)"

text \<open>Blanks and dots at the end of a name are cut off.\<close>

definition cdvdman_trimspaces :: "cstring \<Rightarrow> cstring" where
  "cdvdman_trimspaces str = rev (dropWhile (\<lambda>c. c = 0x20 \<or> c = 0x2e) (rev str))"

text \<open>\<open>while (*p == '/') p++; while (*p == '\\') p++;\<close>\<close>

definition skip_slashes :: "cstring \<Rightarrow> cstring" where
  "skip_slashes p = dropWhile (\<lambda>c. c = 0x5C) (dropWhile (\<lambda>c. c = 0x2F) p)"

text \<open>The separator after the first segment: a slash anywhere wins over a backslash.\<close>

definition segment_end :: "cstring \<Rightarrow> nat option" where
  "segment_end p =
     (let n = length (takeWhile (\<lambda>c. c \<noteq> 0x2F) p); k = length (takeWhile (\<lambda>c. c \<noteq> 0x5C) p)
      in if n < length p then Some n else if k < length p then Some k else None)"

text \<open>The segment in \<open>cdvdman_dirname[32]\<close>, and the path behind the separator.\<close>

definition first_segment :: "cstring \<Rightarrow> (cstring \<times> cstring option) option" where
  "first_segment p =
     (case segment_end p of
        Some n \<Rightarrow> if n \<ge> 32 then None else Some (take n p, Some (drop (Suc n) p))
      | None \<Rightarrow> if length p \<ge> 32 then None else Some (p, None))"

section \<open>Scanning a directory sector\<close>

text \<open>The name of an entry: \<open>strncpy\<close> of \<open>filenameLength\<close> bytes and a terminator.\<close>

definition entry_name :: "mem \<Rightarrow> u32 \<Rightarrow> nat \<Rightarrow> cstring" where
  "entry_name m a n = takeWhile (\<lambda>c. c \<noteq> 0) (read_bytes m (a + 33) n)"

text \<open>\<open>!strncmp(a, b, 12)\<close>\<close>

definition same_name :: "cstring \<Rightarrow> cstring \<Rightarrow> bool" where
  "same_name a b \<longleftrightarrow> take 12 a = take 12 b"

datatype found = Found u32 | Subdir u32 | Nowhere

text \<open>
  The \<open>do ... while (tocPos < 2016)\<close> loop over one sector at \<open>buf\<close>. The position only moves
  past an entry that has a name.
\<close>

partial_function (option) scan_sector ::
  "mem \<Rightarrow> u32 \<Rightarrow> cstring \<Rightarrow> bool \<Rightarrow> u32 \<Rightarrow> found option" where
  "scan_sector m buf dirname slash tocPos =
     (let a = buf + tocPos; e = dirTocEntry_at m a; n = unat (filenameLength e)
      in if toc_length e = 0 then Some Nowhere
         else if n = 0
              then (if tocPos <s 2016 then scan_sector m buf dirname slash tocPos else Some Nowhere)
         else if n \<ge> 15 then None
         else let same = same_name dirname (entry_name m a n)
              in if same \<and> \<not> slash then Some (Found a)
                 else if same \<and> fileProperties e AND 2 \<noteq> 0 then Some (Subdir a)
                 else let tocPos' = tocPos + scast (toc_length e)
                      in if tocPos' <s 2016 then scan_sector m buf dirname slash tocPos'
                         else Some Nowhere)"

text \<open>\<open>while (tocLength > 0)\<close>: sector by sector; a refused read ends the search.\<close>

partial_function (option) scan_directory ::
  "'d devread \<Rightarrow> cstring \<Rightarrow> bool \<Rightarrow> u32 \<Rightarrow> u32 \<Rightarrow> 'd cdvdman \<Rightarrow> (found \<times> 'd cdvdman) option" where
  "scan_directory rd dirname slash tocLBA tocLength s =
     (if \<not> 0 <s tocLength then Some (Nowhere, s)
      else Option.bind (sceCdRead rd tocLBA 1 (cdvdman_buf s) s) (\<lambda>(r, s1).
        if r = 0 then Some (Nowhere, s1)
        else Option.bind (sceCdSync rd 0 s1) (\<lambda>(_, s2).
          Option.bind (scan_sector (memory s2) (cdvdman_buf s2) dirname slash 0) (\<lambda>res.
            if res = Nowhere then scan_directory rd dirname slash (tocLBA + 1) (tocLength - 2048) s2
            else Some (res, s2)))))"

text \<open>Where the search goes on inside a directory: the second layer starts at \<open>layer1_start\<close>.\<close>

definition subdir_lba :: "u32 \<Rightarrow> u32 \<Rightarrow> 'd cdvdman \<Rightarrow> u32" where
  "subdir_lba layer lba s =
     (if has_flag IOPCORE_COMPAT_EMU_DVDDL (settings s) then lba
      else if layer \<noteq> 0 then lba + snd (sceCdReadDvdDualInfo s) else lba)"

lemma first_segment_shorter:
  "first_segment (skip_slashes p) = Some (d, Some rest) \<Longrightarrow> length rest < length p"
proof -
  assume a: "first_segment (skip_slashes p) = Some (d, Some rest)"
  let ?q = "skip_slashes p"
  have "length ?q \<le> length p"
    unfolding skip_slashes_def using length_dropWhile_le order_trans by blast
  moreover obtain n where "segment_end ?q = Some n" and r: "rest = drop (Suc n) ?q"
    using a by (auto simp: first_segment_def split: option.splits if_splits)
  moreover from this(1) have "n < length ?q"
    by (auto simp: segment_end_def Let_def split: if_splits)
  ultimately show ?thesis by simp
qed

function cdvdman_locatefile ::
  "'d devread \<Rightarrow> cstring \<Rightarrow> u32 \<Rightarrow> u32 \<Rightarrow> u32 \<Rightarrow> 'd cdvdman \<Rightarrow> (u32 option \<times> 'd cdvdman) option" where
  "cdvdman_locatefile rd p tocLBA tocLength layer s =
     (case first_segment (skip_slashes p) of
        None \<Rightarrow> None
      | Some (dirname, rest) \<Rightarrow>
          (case scan_directory rd dirname (rest \<noteq> None) tocLBA tocLength s of
             None \<Rightarrow> None
           | Some (Nowhere, s1) \<Rightarrow> Some (None, s1)
           | Some (Found a, s1) \<Rightarrow> Some (Some a, s1)
           | Some (Subdir a, s1) \<Rightarrow>
               (case rest of
                  None \<Rightarrow> None
                | Some p' \<Rightarrow>
                    let e = dirTocEntry_at (memory s1) a
                    in cdvdman_locatefile rd p' (subdir_lba layer (fileLBA e) s1) (fileSize e) layer s1)))"
  by pat_completeness auto
termination
  by (relation "measure (\<lambda>(rd, p, tocLBA, tocLength, layer, s). length p)")
    (auto simp: first_segment_shorter)

declare cdvdman_locatefile.simps [simp del]

section \<open>\<open>cdvdman_findfile\<close>\<close>

record cd_file_t =
  cdf_lsn :: u32
  cdf_size :: u32
  cdf_name :: cstring

text \<open>\<open>strrchr(name, '\\') + 1\<close>; the name has 24 bytes up to the end of the structure.\<close>

definition base_name :: "cstring \<Rightarrow> cstring option" where
  "base_name name =
     (if 0x5C \<in> set name
      then let b = rev (takeWhile (\<lambda>c. c \<noteq> 0x5C) (rev name)) in if length b \<ge> 24 then None else Some b
      else None)"

text \<open>
  The test of the videos' suffix looks at the four characters six before the end; a name
  shorter than six characters would be read before its start.
\<close>

definition is_video :: "cstring \<Rightarrow> bool option" where
  "is_video path =
     (if length path < 6 then None
      else let x = take 4 (drop (length path - 6) path)
           in Some (x = [0x2e, 0x50, 0x53, 0x53] \<or> x = [0x2e, 0x70, 0x73, 0x73]))"

definition cdvdman_findfile ::
  "'d devread \<Rightarrow> ('d \<Rightarrow> 'd option) \<Rightarrow> cstring \<Rightarrow> u32 \<Rightarrow> 'd cdvdman \<Rightarrow>
   (u32 \<times> cd_file_t option \<times> 'd cdvdman) option" where
  "cdvdman_findfile rd DeviceFSInit name layer0 s = do {
     s1 \<leftarrow> cdvdman_init rd DeviceFSInit s;
     let layer = (if has_flag IOPCORE_COMPAT_EMU_DVDDL (settings s1) then 0 else layer0);
     let info = (if layer \<noteq> 0 then snd (layer_info s1) else fst (layer_info s1));
     s2 \<leftarrow> WaitSema cdvdman_searchfilesema s1;
     let path = cdvdman_trimspaces (take 255 name);
     if rootDirtocLBA info = 0 then Some (0, None, SignalSema cdvdman_searchfilesema s2)
     else do {
       (found, s3) \<leftarrow> cdvdman_locatefile rd path (rootDirtocLBA info) (rootDirtocLength info) layer s2;
       (case found of
          None \<Rightarrow> Some (0, None, SignalSema cdvdman_searchfilesema s3)
        | Some a \<Rightarrow> do {
            let e = dirTocEntry_at (memory s3) a;
            let lsn = (if layer \<noteq> 0 then fileLBA e + snd (sceCdReadDvdDualInfo s3) else fileLBA e);
            skip \<leftarrow> (if has_flag IOPCORE_COMPAT_0_SKIP_VIDEOS (settings s3) then is_video path
                     else Some False);
            nm \<leftarrow> base_name name;
            Some (1, Some \<lparr>cdf_lsn = lsn, cdf_size = (if skip then 0 else fileSize e), cdf_name = nm\<rparr>,
                  SignalSema cdvdman_searchfilesema s3) }) } }"

definition sceCdSearchFile ::
  "'d devread \<Rightarrow> ('d \<Rightarrow> 'd option) \<Rightarrow> cstring \<Rightarrow> 'd cdvdman \<Rightarrow> (u32 \<times> cd_file_t option \<times> 'd cdvdman) option"
where
  "sceCdSearchFile rd DeviceFSInit name = cdvdman_findfile rd DeviceFSInit name 0"

definition sceCdLayerSearchFile ::
  "'d devread \<Rightarrow> ('d \<Rightarrow> 'd option) \<Rightarrow> cstring \<Rightarrow> u32 \<Rightarrow> 'd cdvdman \<Rightarrow>
   (u32 \<times> cd_file_t option \<times> 'd cdvdman) option"
where
  "sceCdLayerSearchFile rd DeviceFSInit name layer = cdvdman_findfile rd DeviceFSInit name layer"

section \<open>Opening\<close>

text \<open>Results are C \<open>int\<close>s: 0, \<open>-ENOENT\<close> (-2) or \<open>-EMFILE\<close> (-24).\<close>

definition cdvdman_open ::
  "'d devread \<Rightarrow> ('d \<Rightarrow> 'd option) \<Rightarrow> iop_file_t \<Rightarrow> cstring \<Rightarrow> 'd cdvdman \<Rightarrow>
   (int \<times> iop_file_t \<times> 'd cdvdman) option"
where
  "cdvdman_open rd DeviceFSInit f filename s = do {
     s1 \<leftarrow> WaitSema cdrom_io_sema s;
     s2 \<leftarrow> cdvdman_init rd DeviceFSInit s1;
     (r, f', s3) \<leftarrow>
       (if f_unit f <s 2
        then do {
          (_, a) \<leftarrow> sceCdDiskReady rd 0 s2;
          (case cdvdman_getfilefreeslot a of
             None \<Rightarrow> Some (-24, f, a)
           | Some slot \<Rightarrow> do {
               (ok, cdfile, b) \<leftarrow> cdvdman_findfile rd DeviceFSInit filename (f_unit f) a;
               (case cdfile of
                  Some c \<Rightarrow>
                    if ok \<noteq> 0
                    then Some (0, f\<lparr>f_privdata := slot\<rparr>,
                           set_fh slot \<lparr>fh_f = f_addr f, fh_lsn = cdf_lsn c, filesize = cdf_size c,
                             position = 0\<rparr> b)
                    else Some (-2, f, b)
                | None \<Rightarrow> Some (-2, f, b)) }) }
        else Some (-2, f, s2));
     Some (r, f', SignalSema cdrom_io_sema s3) }"

definition cdrom_open ::
  "'d devread \<Rightarrow> ('d \<Rightarrow> 'd option) \<Rightarrow> iop_file_t \<Rightarrow> cstring \<Rightarrow> 'd cdvdman \<Rightarrow>
   (int \<times> iop_file_t \<times> 'd cdvdman) option"
where
  "cdrom_open rd DeviceFSInit f filename s = do {
     path \<leftarrow> path_buffer filename;
     (r, f', s') \<leftarrow> cdvdman_open rd DeviceFSInit f path s;
     Some (r, if r \<ge> 0 then f'\<lparr>f_mode := 1\<rparr> else f', s') }"

definition cdrom_dopen ::
  "'d devread \<Rightarrow> ('d \<Rightarrow> 'd option) \<Rightarrow> iop_file_t \<Rightarrow> cstring \<Rightarrow> 'd cdvdman \<Rightarrow>
   (int \<times> iop_file_t \<times> 'd cdvdman) option"
where
  "cdrom_dopen rd DeviceFSInit f dirname = cdvdman_open rd DeviceFSInit f dirname"

definition cdrom_getstat ::
  "'d devread \<Rightarrow> ('d \<Rightarrow> 'd option) \<Rightarrow> iop_file_t \<Rightarrow> cstring \<Rightarrow> 'd cdvdman \<Rightarrow>
   (int \<times> cd_file_t option \<times> 'd cdvdman) option"
where
  "cdrom_getstat rd DeviceFSInit f filename s = do {
     path \<leftarrow> path_buffer filename;
     (_, s1) \<leftarrow> sceCdDiskReady rd 0 s;
     (r, c, s2) \<leftarrow> sceCdLayerSearchFile rd DeviceFSInit path (f_unit f) s1;
     Some (uint r - 1, c, s2) }"

section \<open>Listing\<close>

record iox_dirent_t =
  de_mode :: u32
  de_size :: u32
  de_name :: cstring

text \<open>
  \<open>do ... while (filenameLength == 1)\<close>: the entries of the directory itself and of its parent
  have names of one byte. The result is 0 at the end of the list.
\<close>

partial_function (option) next_entry ::
  "mem \<Rightarrow> u32 \<Rightarrow> u32 \<Rightarrow> (u32 \<times> u32 \<times> u32) option" where
  "next_entry m buf pos =
     (let a = buf + pos; e = dirTocEntry_at m a
      in if toc_length e = 0 then Some (0, a, pos)
         else let pos' = pos + scast (toc_length e)
              in if filenameLength e = 1 then next_entry m buf pos' else Some (1, a, pos'))"

definition cdrom_dread ::
  "'d devread \<Rightarrow> iop_file_t \<Rightarrow> 'd cdvdman \<Rightarrow> (u32 \<times> iox_dirent_t option \<times> 'd cdvdman) option"
where
  "cdrom_dread rd f s = do {
     s1 \<leftarrow> WaitSema cdrom_io_sema s;
     (_, s2) \<leftarrow> sceCdDiskReady rd 0 s1;
     let fh = get_fh (f_privdata f) s2;
     (r, s3) \<leftarrow> sceCdRead rd (fh_lsn fh) 1 (cdvdman_fs_buf s2) s2;
     if r \<noteq> 1 then Some (r, None, SignalSema cdrom_io_sema s3)
     else do {
       (_, s4) \<leftarrow> sceCdSync rd 0 s3;
       (r', a, pos) \<leftarrow> next_entry (memory s4) (cdvdman_fs_buf s4) (position fh);
       let e = dirTocEntry_at (memory s4) a;
       Some (r', Some \<lparr>de_mode = (if fileProperties e AND 2 \<noteq> 0 then 0x116d else 0x2124),
               de_size = fileSize e, de_name = entry_name (memory s4) a (unat (filenameLength e))\<rparr>,
             SignalSema cdrom_io_sema
               (set_fh (f_privdata f) ((get_fh (f_privdata f) s4)\<lparr>position := pos\<rparr>) s4)) } }"

section \<open>What a scan finds\<close>

text \<open>
  A directory sector as the code can walk it: entries of positive length one behind the other,
  with names of 1 to 14 bytes, ended by an entry of length 0 or by the end of the sector.
\<close>

record dentry =
  d_len :: nat
  d_name :: cstring
  d_dir :: bool

definition dentry_at :: "mem \<Rightarrow> u32 \<Rightarrow> dentry \<Rightarrow> bool" where
  "dentry_at m a d \<longleftrightarrow>
     0 < d_len d \<and> d_len d < 256 \<and> toc_length (dirTocEntry_at m a) = of_nat (d_len d) \<and>
     d_name d \<noteq> [] \<and> length (d_name d) < 15 \<and> 0 \<notin> set (d_name d) \<and>
     unat (filenameLength (dirTocEntry_at m a)) = length (d_name d) \<and>
     read_bytes m (a + 33) (length (d_name d)) = d_name d \<and>
     d_dir d = (fileProperties (dirTocEntry_at m a) AND 2 \<noteq> 0)"

primrec dir_chain :: "mem \<Rightarrow> u32 \<Rightarrow> nat \<Rightarrow> dentry list \<Rightarrow> bool" where
  "dir_chain m buf pos [] \<longleftrightarrow> 2016 \<le> pos \<or> toc_length (dirTocEntry_at m (buf + of_nat pos)) = 0"
| "dir_chain m buf pos (d # ds) \<longleftrightarrow>
     pos < 2016 \<and> dentry_at m (buf + of_nat pos) d \<and> dir_chain m buf (pos + d_len d) ds"

text \<open>The search on the abstract directory: the first entry that matches, with its offset.\<close>

primrec dir_lookup :: "cstring \<Rightarrow> bool \<Rightarrow> nat \<Rightarrow> dentry list \<Rightarrow> nat option" where
  "dir_lookup nm slash pos [] = None"
| "dir_lookup nm slash pos (d # ds) =
     (if same_name nm (d_name d) \<and> (\<not> slash \<or> d_dir d) then Some pos
      else dir_lookup nm slash (pos + d_len d) ds)"

definition found_at :: "bool \<Rightarrow> u32 \<Rightarrow> nat option \<Rightarrow> found" where
  "found_at slash buf r =
     (case r of None \<Rightarrow> Nowhere
      | Some pos \<Rightarrow> if slash then Subdir (buf + of_nat pos) else Found (buf + of_nat pos))"

lemma takeWhile_no_zero: "0 \<notin> set xs \<Longrightarrow> takeWhile (\<lambda>c. c \<noteq> (0 :: u8)) xs = xs"
  by (induction xs) auto

lemma pos_sless: "pos < 2 ^ 31 \<Longrightarrow> ((of_nat pos :: u32) <s 2016) = (pos < 2016)"
proof -
  assume p: "pos < 2 ^ 31"
  then have u: "unat (of_nat pos :: u32) = pos" by (intro unat_of_nat_u32) simp
  then have "sint (of_nat pos :: u32) = int pos" using sint_small [of "of_nat pos"] p by simp
  moreover have "sint (2016 :: u32) = 2016" by simp
  ultimately show ?thesis by (simp add: word_sless_alt)
qed

text \<open>The length of an entry, read as the signed 16-bit number it is.\<close>

lemma entry_length:
  assumes "n < 256"
  shows "unat (of_nat n :: u16) = n" and "(scast (of_nat n :: u16) :: u32) = of_nat n"
proof -
  show u: "unat (of_nat n :: u16) = n" using assms by (intro unat_of_nat_u16) simp
  have "uint (of_nat n :: u16) = int (unat (of_nat n :: u16))" by simp
  also note u
  finally have "sint (of_nat n :: u16) = int n"
    using assms signed_take_bit_int_eq_self [of 15 "int n"] by (simp add: sint_uint)
  then have "word_of_int (sint (of_nat n :: u16)) = (of_nat n :: u32)" by simp
  then show "(scast (of_nat n :: u16) :: u32) = of_nat n" by (simp only: scast_eq)
qed

text \<open>One turn of the walk at a well-formed entry.\<close>

lemma scan_entry:
  assumes d: "dentry_at m (buf + of_nat pos) d"
  shows "scan_sector m buf nm slash (of_nat pos) =
    (if same_name nm (d_name d) \<and> (\<not> slash \<or> d_dir d) then Some (found_at slash buf (Some pos))
     else if (of_nat (pos + d_len d) :: u32) <s 2016 then scan_sector m buf nm slash (of_nat (pos + d_len d))
     else Some Nowhere)"
proof -
  let ?a = "buf + of_nat pos"
  let ?e = "dirTocEntry_at m ?a"
  have len: "0 < d_len d" "d_len d < 256" "toc_length ?e = of_nat (d_len d)"
    and nm: "d_name d \<noteq> []" "length (d_name d) < 15" "0 \<notin> set (d_name d)"
      "unat (filenameLength ?e) = length (d_name d)" "read_bytes m (?a + 33) (length (d_name d)) = d_name d"
    and dir: "d_dir d = (fileProperties ?e AND 2 \<noteq> 0)"
    using d unfolding dentry_at_def by blast+
  note l = entry_length [OF len(2)]
  have "unat (toc_length ?e) \<noteq> 0" using len(1,3) l(1) by simp
  then have l0: "toc_length ?e \<noteq> 0" by auto
  have name: "entry_name m ?a (unat (filenameLength ?e)) = d_name d"
    by (simp add: entry_name_def nm takeWhile_no_zero)
  have n0: "length (d_name d) \<noteq> 0" using nm(1) by simp
  have next_: "of_nat pos + scast (toc_length ?e) = (of_nat (pos + d_len d) :: u32)"
    by (simp add: len(3) l(2))
  show ?thesis
    using l0 n0 nm(2,4) name dir
    by (subst scan_sector.simps) (auto simp: found_at_def Let_def next_)
qed

text \<open>
  The walk over a directory sector implements the lookup in a directory: on entries the
  code can walk it ends, and it finds the first entry with the wanted name (a directory, when
  a path separator follows), at the address of that entry, and nothing when there is none.
\<close>

lemma scan_sector_correct:
  assumes "dir_chain m buf pos ds" and "pos < 2016"
  shows "scan_sector m buf nm slash (of_nat pos) = Some (found_at slash buf (dir_lookup nm slash pos ds))"
  using assms
proof (induction ds arbitrary: pos)
  case Nil
  then show ?case by (subst scan_sector.simps) (simp add: found_at_def)
next
  case (Cons d ds)
  from Cons.prems(1) have d: "dentry_at m (buf + of_nat pos) d" and chain: "dir_chain m buf (pos + d_len d) ds"
    by simp_all
  have short: "d_len d < 256" using d by (simp add: dentry_at_def)
  show ?case
  proof (cases "pos + d_len d < 2016")
    case True
    then show ?thesis
      using scan_entry [OF d] pos_sless [of "pos + d_len d"] Cons.IH [OF chain] by auto
  next
    case False
    then have "ds = []" using chain by (cases ds) simp_all
    then show ?thesis
      using scan_entry [OF d] pos_sless [of "pos + d_len d"] False Cons.prems(2) short by (simp add: found_at_def)
  qed
qed

text \<open>
  C40. An entry with a length but without a name stops the search for ever: the position does
  not move, so the call never returns.
\<close>

theorem scan_sector_stuck:
  assumes "toc_length (dirTocEntry_at m (buf + pos)) \<noteq> 0"
    and "filenameLength (dirTocEntry_at m (buf + pos)) = 0" and "pos <s 2016"
  shows "scan_sector m buf nm slash pos = None"
proof -
  have "\<not> (m' = m \<and> b = buf \<and> p = pos)" if "scan_sector m' b d sl p = Some y" for m' b d sl p y
    using that
    by (rule scan_sector.raw_induct [where P = "\<lambda>m' b d sl p y. \<not> (m' = m \<and> b = buf \<and> p = pos)", rotated])
      (use assms in \<open>auto simp: Let_def split: if_splits\<close>)
  then show ?thesis by (metis not_Some_eq)
qed

section \<open>Paths\<close>

text \<open>
  \<open>cdrom_purifyPath\<close> yields a normal form: a path that has been through it
  is left as it is by a second call.
\<close>

theorem purify_idem: "snd (cdrom_purifyPath (snd (cdrom_purifyPath path))) = snd (cdrom_purifyPath path)"
  by (auto simp: cdrom_purifyPath_def purify_needed_def nth_append)

lemma trimspaces_idem: "cdvdman_trimspaces (cdvdman_trimspaces str) = cdvdman_trimspaces str"
  by (simp add: cdvdman_trimspaces_def)

text \<open>A path whose separators are all slashes finds its file, and then has no name to report.\<close>

lemma base_name_slashes: "0x5C \<notin> set name \<Longrightarrow> base_name name = None"
  by (simp add: base_name_def)

section \<open>The root directory is one sector long\<close>

context disc_device
begin

text \<open>
  With a length of at most one sector, the search reads one sector and is decided by it. The
  length \<open>fs_init\<close> keeps for the root directory is the length of its directory record, a
  number below 256, and not the size of the directory.
\<close>

lemma scan_directory_one:
  assumes "inv (dev s)" and idle: "drive_idle s" and "readable lba 1" and "13 \<le> lba"
    and "unat lba + 1 < 2 ^ 32" and al: "cdvdman_buf s AND 3 = 0"
    and len: "0 < unat tocLength" "unat tocLength \<le> 2048"
  shows "\<exists>s'. read_frame s s' \<and> inv (dev s') \<and>
    memory s' = write_bytes (cdvdman_buf s) (disc lba) (memory s) \<and>
    scan_directory rd nm slash lba tocLength s
      = map_option (\<lambda>res. (res, s')) (scan_sector (memory s') (cdvdman_buf s) nm slash 0)"
proof -
  have rdy: "read_ready s lba 1 (cdvdman_buf s)" using al assms(4,5) by (simp add: read_ready_def)
  obtain s' where s': "read_and_sync rd lba 1 (cdvdman_buf s) s = Some (1, s')" "read_frame s s'"
    "inv (dev s')"
    "\<And>x. \<not> scratch s (cdvdman_buf s) x \<Longrightarrow>
      memory s' x = write_bytes (cdvdman_buf s) (disc lba) (memory s) x"
    using read_and_sync_delivers [OF assms(1) _ rdy idle] assms(3) by auto
  have m: "memory s' = write_bytes (cdvdman_buf s) (disc lba) (memory s)"
    using s'(4) al by (auto simp: scratch_def)
  have buf: "cdvdman_buf s' = cdvdman_buf s" using read_frame_fields [OF s'(2)] by simp
  obtain s1 r where s1: "sceCdRead rd lba 1 (cdvdman_buf s) s = Some (1, s1)" "sceCdSync rd 0 s1 = Some (r, s')"
    using s'(1) by (auto simp: read_and_sync_def bind_eq_Some_conv)
  have l31: "sint tocLength = int (unat tocLength)" using len(2) by (intro sint_small) simp
  with len(1) have "0 < sint tocLength" by linarith
  then have pos: "0 <s tocLength" by (simp add: word_sless_alt)
  have stop: "\<not> 0 <s tocLength - 2048"
  proof (cases "unat tocLength = 2048")
    case True
    then have "tocLength = 2048" by (simp add: word_unat_eq_iff)
    then show ?thesis by simp
  next
    case False
    with len(2) have lt: "unat tocLength < 2048" by simp
    have "uint (tocLength - 2048) = int (unat tocLength) + 4294965248"
    proof -
      have "unat (tocLength - 2048) = unat tocLength + 2 ^ 32 - 2048"
        using unat_sub_wrap [of tocLength 2048] lt by simp
      then have "int (unat (tocLength - 2048)) = int (unat tocLength + 2 ^ 32 - 2048)" by simp
      then show ?thesis by simp
    qed
    then have "\<not> uint (tocLength - 2048) < 2147483648" using len(1) by linarith
    moreover have "uint x < 2147483648" if "0 <s x" for x :: u32
    proof (rule ccontr)
      assume "\<not> uint x < 2147483648"
      then have "uint x div 2147483648 = 1"
        using uint_lt2p [of x] by (intro int_div_pos_eq [of _ _ _ "uint x - 2147483648"]) simp_all
      then have "bit (uint x) 31" by (simp add: bit_iff_odd)
      then have "sint x < 0" by (simp add: sint_uint signed_take_bit_negative_iff)
      with that show False by (simp add: word_sless_alt)
    qed
    ultimately show ?thesis by blast
  qed
  have empty: "scan_directory rd nm slash (lba + 1) (tocLength - 2048) s' = Some (Nowhere, s')"
    using stop by (subst scan_directory.simps) simp
  have "scan_directory rd nm slash lba tocLength s
      = map_option (\<lambda>res. (res, s')) (scan_sector (memory s') (cdvdman_buf s) nm slash 0)"
    using pos s1 buf empty
    by (subst scan_directory.simps) (cases "scan_sector (memory s') (cdvdman_buf s) nm slash 0"; simp)
  with s'(2,3) m show ?thesis by blast
qed

end

end
