(* ===== verification/Fs_Open.thy ===== *)
theory Fs_Open
  imports Fs_Search
begin

text \<open>
  What a path means, and that the search finds it. A directory on the disc is described by the
  entries of its sectors (\<open>dir_on\<close>), a path by the entries it leads through (\<open>resolves\<close>); the
  calls \<open>cdvdman_locatefile\<close>, \<open>cdvdman_findfile\<close> and \<open>cdrom_open\<close> implement it. The last section
  is about the start: \<open>fs_init\<close> finds the root directory that the search begins at.
\<close>

section \<open>Directories on the disc\<close>

definition sector_image :: "u8 list \<Rightarrow> mem" where
  "sector_image bs = write_bytes 0 bs (\<lambda>_. 0)"

definition entry_of :: "u8 list \<Rightarrow> nat \<Rightarrow> dirTocEntry" where
  "entry_of bs pos = dirTocEntry_at (sector_image bs) (of_nat pos)"

primrec names_fit :: "nat \<Rightarrow> dentry list \<Rightarrow> bool" where
  "names_fit pos [] \<longleftrightarrow> True"
| "names_fit pos (d # ds) \<longleftrightarrow> pos + 33 + length (d_name d) \<le> 2048 \<and> names_fit (pos + d_len d) ds"

definition dir_sector :: "u8 list \<Rightarrow> dentry list \<Rightarrow> bool" where
  "dir_sector bs ds \<longleftrightarrow> dir_chain (sector_image bs) 0 0 ds \<and> names_fit 0 ds"

lemma image_byte:
  assumes "k < length bs" and "length bs \<le> 2 ^ 32"
  shows "write_bytes a bs m (a + of_nat k) = sector_image bs (of_nat k)"
  using assms write_bytes_inside [of k bs a m] write_bytes_inside [of k bs 0 "\<lambda>_. 0"]
  by (simp add: sector_image_def)

lemma image_entry:
  assumes "pos + 33 \<le> length bs" and "length bs \<le> 2 ^ 32"
  shows "dirTocEntry_at (write_bytes a bs m) (a + of_nat pos) = entry_of bs pos"
proof -
  have "write_bytes a bs m (a + of_nat pos + of_nat k) = sector_image bs (of_nat pos + of_nat k)" if "k < 33" for k
    using image_byte [of "pos + k" bs a m] that assms by (simp add: add.assoc)
  from this [of 0] this [of 1] this [of 2] this [of 3] this [of 4] this [of 5] this [of 10] this [of 11]
    this [of 12] this [of 13] this [of 25] this [of 32]
  show ?thesis
    by (simp add: entry_of_def dirTocEntry_at_def get_u16_def get_u32_def add.assoc)
qed

lemma image_name:
  assumes "pos + 33 + n \<le> length bs" and "length bs \<le> 2 ^ 32"
  shows "read_bytes (write_bytes a bs m) (a + of_nat pos + 33) n = read_bytes (sector_image bs) (of_nat pos + 33) n"
proof (rule nth_equalityI)
  fix i assume "i < length (read_bytes (write_bytes a bs m) (a + of_nat pos + 33) n)"
  then show "read_bytes (write_bytes a bs m) (a + of_nat pos + 33) n ! i
      = read_bytes (sector_image bs) (of_nat pos + 33) n ! i"
    using image_byte [of "pos + 33 + i" bs a m] assms by (simp add: add.assoc)
qed simp

lemma image_chain:
  assumes "dir_chain (sector_image bs) 0 pos ds" and "names_fit pos ds" and "length bs = 2048"
  shows "dir_chain (write_bytes a bs m) a pos ds"
  using assms(1,2)
proof (induction ds arbitrary: pos)
  case Nil
  then show ?case using image_entry [of pos bs a m] assms(3) by (cases "2016 \<le> pos") (simp_all add: entry_of_def)
next
  case (Cons d ds)
  then have d: "pos < 2016" "dentry_at (sector_image bs) (of_nat pos) d" "pos + 33 + length (d_name d) \<le> 2048"
    by simp_all
  then have "dentry_at (write_bytes a bs m) (a + of_nat pos) d"
    using image_entry [of pos bs a m] image_name [of pos "length (d_name d)" bs a m] assms(3)
    by (simp add: dentry_at_def entry_of_def)
  with Cons d(1) show ?case by simp
qed

lemma dir_lookup_bound: "dir_chain m b pos ds \<Longrightarrow> dir_lookup nm slash pos ds = Some q \<Longrightarrow> q < 2016"
  by (induction ds arbitrary: pos) (auto split: if_splits)

text \<open>A directory of several sectors, and the first entry in it that matches.\<close>

primrec dir_on :: "(u32 \<Rightarrow> u8 list) \<Rightarrow> u32 \<Rightarrow> dentry list list \<Rightarrow> bool" where
  "dir_on disc lba [] \<longleftrightarrow> True"
| "dir_on disc lba (ds # dss) \<longleftrightarrow> dir_sector (disc lba) ds \<and> dir_on disc (lba + 1) dss"

primrec dir_find :: "(u32 \<Rightarrow> u8 list) \<Rightarrow> cstring \<Rightarrow> bool \<Rightarrow> u32 \<Rightarrow> dentry list list \<Rightarrow> dirTocEntry option" where
  "dir_find disc nm slash lba [] = None"
| "dir_find disc nm slash lba (ds # dss) =
     (case dir_lookup nm slash 0 ds of
        Some pos \<Rightarrow> Some (entry_of (disc lba) pos)
      | None \<Rightarrow> dir_find disc nm slash (lba + 1) dss)"

text \<open>The number of sectors the loop reads for a length in bytes, a signed number.\<close>

definition sectors_of :: "u32 \<Rightarrow> nat" where
  "sectors_of len = (if 0 <s len then (unat len + 2047) div 2048 else 0)"

lemma sless_pos: "0 <s (x :: u32) \<Longrightarrow> unat x < 2 ^ 31"
proof (rule ccontr)
  assume a: "0 <s x" and "\<not> unat x < 2 ^ 31"
  then have "\<not> uint x < 2147483648" by (simp flip: nat_uint_eq)
  then have "uint x div 2147483648 = 1"
    using uint_lt2p [of x] by (intro int_div_pos_eq [of _ _ _ "uint x - 2147483648"]) simp_all
  then have "bit (uint x) 31" by (simp add: bit_iff_odd)
  then have "sint x < 0" by (simp add: sint_uint signed_take_bit_negative_iff)
  with a show False by (simp add: word_sless_alt)
qed

lemma sectors_of_Suc:
  assumes "0 <s len"
  shows "sectors_of len = Suc (sectors_of (len - 2048))"
proof -
  have lt: "unat len < 2 ^ 31" using assms by (rule sless_pos)
  then have "sint len = int (unat len)" by (rule sint_small)
  with assms have pos: "0 < unat len" by (simp only: word_sless_alt sint_0 of_nat_0_less_iff)
  show ?thesis
  proof (cases "2048 < unat len")
    case True
    then have left: "unat (len - 2048) = unat len - 2048" using unat_sub_wrap [of len 2048] by simp
    then have "sint (len - 2048) = int (unat len - 2048)" using lt sint_small [of "len - 2048"] by simp
    moreover have "(0 :: int) < int (unat len - 2048)" using True by (simp only: of_nat_0_less_iff zero_less_diff)
    ultimately have "0 <s len - 2048" by (simp only: word_sless_alt sint_0)
    moreover have "unat len + 2047 = (unat len - 1) + 2048" using True by simp
    then have "(unat len + 2047) div 2048 = (unat len - 1) div 2048 + 1" by (simp only: div_add_self2)
    ultimately show ?thesis using assms left True by (simp add: sectors_of_def)
  next
    case False
    have "\<not> 0 <s len - 2048"
    proof (cases "unat len = 2048")
      case True
      then have "len = 2048" by (simp add: word_unat_eq_iff)
      then show ?thesis by simp
    next
      case neq: False
      then have "unat (len - 2048) = unat len + 2 ^ 32 - 2048" using False unat_sub_wrap [of len 2048] by simp
      then show ?thesis using sless_pos [of "len - 2048"] by auto
    qed
    moreover have "(unat len + 2047) div 2048 = 1" using False pos by (intro div_nat_eqI) simp_all
    ultimately show ?thesis using assms by (simp add: sectors_of_def)
  qed
qed

lemma sectors_of_0: "sectors_of len = 0 \<Longrightarrow> \<not> 0 <s len"
  using sectors_of_Suc [of len] by auto

section \<open>The search through a directory\<close>

context disc_device
begin

text \<open>One turn: a sector comes to the buffer and is looked through.\<close>

lemma scan_turn:
  assumes "inv (dev s)" and idle: "drive_idle s" and "readable lba 1" and "13 \<le> lba"
    and "unat lba + 1 < 2 ^ 32" and al: "cdvdman_buf s AND 3 = 0" and len: "0 <s len"
    and dir: "dir_sector (disc lba) ds"
  obtains s' where "read_frame s s'" and "inv (dev s')"
    and "memory s' = write_bytes (cdvdman_buf s) (disc lba) (memory s)"
    and "scan_directory rd nm slash lba len s = (case dir_lookup nm slash 0 ds of
        Some pos \<Rightarrow> Some (found_at slash (cdvdman_buf s) (Some pos), s')
      | None \<Rightarrow> scan_directory rd nm slash (lba + 1) (len - 2048) s')"
proof -
  have "read_ready s lba 1 (cdvdman_buf s)" using al assms(4,5) by (simp add: read_ready_def)
  with assms(1,3) idle obtain s' where s': "read_and_sync rd lba 1 (cdvdman_buf s) s = Some (1, s')" "read_frame s s'"
    "inv (dev s')" "\<And>x. \<not> scratch s (cdvdman_buf s) x \<Longrightarrow>
      memory s' x = write_bytes (cdvdman_buf s) (disc lba) (memory s) x"
    using read_and_sync_delivers [of s lba 1 "cdvdman_buf s"] by auto
  have m: "memory s' = write_bytes (cdvdman_buf s) (disc lba) (memory s)"
    using s'(4) al by (auto simp: scratch_def)
  obtain s1 r where s1: "sceCdRead rd lba 1 (cdvdman_buf s) s = Some (1, s1)" "sceCdSync rd 0 s1 = Some (r, s')"
    using s'(1) by (auto simp: read_and_sync_def bind_eq_Some_conv)
  have "dir_chain (memory s') (cdvdman_buf s) 0 ds"
    unfolding m using dir disc_sector by (intro image_chain) (simp_all add: dir_sector_def)
  then have "scan_sector (memory s') (cdvdman_buf s) nm slash 0
      = Some (found_at slash (cdvdman_buf s) (dir_lookup nm slash 0 ds))"
    using scan_sector_correct [where pos = 0] by simp
  then have "scan_directory rd nm slash lba len s = (case dir_lookup nm slash 0 ds of
        Some pos \<Rightarrow> Some (found_at slash (cdvdman_buf s) (Some pos), s')
      | None \<Rightarrow> scan_directory rd nm slash (lba + 1) (len - 2048) s')"
    using len s1 read_frame_fields(2) [OF s'(2)]
    by (subst scan_directory.simps) (auto simp: found_at_def split: option.splits)
  with s'(2,3) m show ?thesis by (rule that)
qed

text \<open>The whole directory: the search ends and finds what the directory has.\<close>

lemma scan_directory_finds:
  assumes "inv (dev s)" and "drive_idle s" and "\<forall>i<length dss. readable (lba + of_nat i) 1" and "13 \<le> lba"
    and "unat lba + length dss < 2 ^ 32" and "cdvdman_buf s AND 3 = 0"
    and "length dss = sectors_of len" and "dir_on disc lba dss"
  shows "\<exists>s'. read_frame s s' \<and> inv (dev s') \<and>
    (\<forall>x. \<not> in_run (cdvdman_buf s) 2048 x \<longrightarrow> memory s' x = memory s x) \<and>
    (case dir_find disc nm slash lba dss of
       None \<Rightarrow> scan_directory rd nm slash lba len s = Some (Nowhere, s')
     | Some e \<Rightarrow> \<exists>a. scan_directory rd nm slash lba len s = Some (if slash then Subdir a else Found a, s') \<and>
         dirTocEntry_at (memory s') a = e)"
  using assms
proof (induction dss arbitrary: lba len s)
  case Nil
  then have "\<not> 0 <s len" using sectors_of_0 [of len] by simp
  then show ?case using Nil.prems(1) by (subst scan_directory.simps) auto
next
  case (Cons ds dss)
  have len: "0 <s len"
    using Cons.prems(7) by (simp add: sectors_of_def split: if_splits)
  have dir: "dir_sector (disc lba) ds" "dir_on disc (lba + 1) dss" using Cons.prems(8) by simp_all
  have r: "readable lba 1" using Cons.prems(3) by auto
  have "unat lba + 1 < 2 ^ 32" using Cons.prems(5) by simp
  then obtain s1 where s1: "read_frame s s1" "inv (dev s1)"
    "memory s1 = write_bytes (cdvdman_buf s) (disc lba) (memory s)"
    "scan_directory rd nm slash lba len s = (case dir_lookup nm slash 0 ds of
        Some pos \<Rightarrow> Some (found_at slash (cdvdman_buf s) (Some pos), s1)
      | None \<Rightarrow> scan_directory rd nm slash (lba + 1) (len - 2048) s1)"
    using scan_turn [OF Cons.prems(1,2) r Cons.prems(4) _ Cons.prems(6) len dir(1)] by blast
  have out: "memory s1 x = memory s x" if "\<not> in_run (cdvdman_buf s) 2048 x" for x
    unfolding s1(3) using that disc_sector by (intro write_bytes_outside) simp
  show ?case
  proof (cases "dir_lookup nm slash 0 ds")
    case None
    have next_: "unat (lba + 1) = unat lba + 1" using Cons.prems(5) by (simp add: unat_add_le [where y = 1])
    have R1: "\<forall>i<length dss. readable (lba + 1 + of_nat i) 1"
    proof (intro allI impI)
      fix i assume "i < length dss"
      then show "readable (lba + 1 + of_nat i) 1" using Cons.prems(3) by (auto simp: add.assoc dest: spec [of _ "Suc i"])
    qed
    have at: "13 \<le> lba + 1" "unat (lba + 1) + length dss < 2 ^ 32"
      using Cons.prems(4,5) next_ by (simp_all add: word_le_nat_alt)
    have b1: "cdvdman_buf s1 = cdvdman_buf s" and idle1: "drive_idle s1"
      using Cons.prems(2) read_frame_fields [OF s1(1)] by (simp_all add: drive_idle_def)
    have left: "length dss = sectors_of (len - 2048)" using Cons.prems(7) sectors_of_Suc [OF len] by simp
    from Cons.IH [OF s1(2) idle1 R1 at _ left dir(2)] Cons.prems(6)
    obtain s2 where s2: "read_frame s1 s2" "inv (dev s2)"
      "\<forall>x. \<not> in_run (cdvdman_buf s) 2048 x \<longrightarrow> memory s2 x = memory s1 x"
      "case dir_find disc nm slash (lba + 1) dss of
         None \<Rightarrow> scan_directory rd nm slash (lba + 1) (len - 2048) s1 = Some (Nowhere, s2)
       | Some e \<Rightarrow> \<exists>a. scan_directory rd nm slash (lba + 1) (len - 2048) s1
           = Some (if slash then Subdir a else Found a, s2) \<and> dirTocEntry_at (memory s2) a = e"
      unfolding b1 by blast
    have step: "scan_directory rd nm slash lba len s = scan_directory rd nm slash (lba + 1) (len - 2048) s1"
      "dir_find disc nm slash lba (ds # dss) = dir_find disc nm slash (lba + 1) dss"
      using None s1(4) by simp_all
    show ?thesis
      unfolding step
      by (intro exI [of _ s2] conjI s2(2,4) read_frame_trans [OF s1(1) s2(1)]) (use s2(3) out in simp)
  next
    case (Some pos)
    then have "pos < 2016" using dir(1) dir_lookup_bound by (auto simp: dir_sector_def)
    then have "dirTocEntry_at (memory s1) (cdvdman_buf s + of_nat pos) = entry_of (disc lba) pos"
      unfolding s1(3) using disc_sector by (intro image_entry) simp_all
    then show ?thesis using Some s1 out by (intro exI [of _ s1]) (simp add: found_at_def)
  qed
qed

end

section \<open>Paths\<close>

definition segment_ok :: "cstring \<Rightarrow> bool" where
  "segment_ok nm \<longleftrightarrow> nm \<noteq> [] \<and> length nm < 32 \<and> 0x2F \<notin> set nm \<and> 0x5C \<notin> set nm"

primrec path_of :: "cstring list \<Rightarrow> cstring" where
  "path_of [] = []"
| "path_of (nm # nms) = nm @ (if nms = [] then [] else 0x5C # path_of nms)"

definition dir_at ::
  "(u32 \<Rightarrow> nat \<Rightarrow> bool) \<Rightarrow> (u32 \<Rightarrow> u8 list) \<Rightarrow> u32 \<Rightarrow> u32 \<Rightarrow> dentry list list \<Rightarrow> bool"
where
  "dir_at readable disc lba len dss \<longleftrightarrow> dir_on disc lba dss \<and> length dss = sectors_of len \<and> 13 \<le> lba \<and>
     unat lba + length dss < 2 ^ 32 \<and> (\<forall>i<length dss. readable (lba + of_nat i) 1)"

text \<open>
  The last segment names an entry of any kind, the ones before it directories. The result is the
  entry, or None when a segment is not there.
\<close>

inductive resolves ::
  "(u32 \<Rightarrow> nat \<Rightarrow> bool) \<Rightarrow> (u32 \<Rightarrow> u8 list) \<Rightarrow> u32 \<Rightarrow> u32 \<Rightarrow> cstring list \<Rightarrow> dirTocEntry option \<Rightarrow> bool"
  for readable disc
where
  final: "resolves readable disc lba len [nm] (dir_find disc nm False lba dss)"
    if "dir_at readable disc lba len dss"
| missing: "resolves readable disc lba len (nm # nms) None"
    if "dir_at readable disc lba len dss" and "dir_find disc nm True lba dss = None" and "nms \<noteq> []"
| inside: "resolves readable disc lba len (nm # nms) r"
    if "dir_at readable disc lba len dss" and "dir_find disc nm True lba dss = Some e"
      and "resolves readable disc (fileLBA e) (fileSize e) nms r"

lemma resolves_nonempty: "resolves readable disc lba len nms r \<Longrightarrow> nms \<noteq> []"
  by (induction rule: resolves.induct) simp_all

lemma path_of_set: "c \<in> set (path_of nms) \<Longrightarrow> c = 0x5C \<or> (\<exists>nm\<in>set nms. c \<in> set nm)"
  by (induction nms) (auto split: if_splits)

lemma skip_path:
  assumes "nms \<noteq> []" and "\<forall>nm\<in>set nms. segment_ok nm"
  shows "skip_slashes (path_of nms) = path_of nms" and "skip_slashes (0x5C # path_of nms) = path_of nms"
proof -
  obtain c nm nms' where "nms = (c # nm) # nms'" "c \<noteq> 0x2F" "c \<noteq> 0x5C"
    using assms by (cases nms; cases "hd nms") (auto simp: segment_ok_def)
  then show "skip_slashes (path_of nms) = path_of nms" "skip_slashes (0x5C # path_of nms) = path_of nms"
    by (simp_all add: skip_slashes_def)
qed

lemma first_of_path:
  assumes "segment_ok nm" and "\<forall>x\<in>set nms. segment_ok x"
  shows "first_segment (path_of (nm # nms)) = Some (nm, if nms = [] then None else Some (path_of nms))"
proof -
  have "0x2F \<notin> set (path_of (nm # nms))"
    using assms path_of_set [of "0x2F" "nm # nms"] by (auto simp: segment_ok_def)
  then have no: "takeWhile (\<lambda>c. c \<noteq> 0x2F) (path_of (nm # nms)) = path_of (nm # nms)"
    by (intro takeWhile_eq_all_conv [THEN iffD2]) metis
  have nm: "takeWhile (\<lambda>c. c \<noteq> 0x5C) nm = nm" "length nm < 32"
    using assms(1) by (auto simp: segment_ok_def takeWhile_eq_all_conv)
  then have "takeWhile (\<lambda>c. c \<noteq> 0x5C) (path_of (nm # nms)) = nm"
    using assms(1) by (simp add: segment_ok_def takeWhile_append2)
  with nm(2) show ?thesis
    unfolding first_segment_def segment_end_def no by simp
qed

context disc_device
begin

lemma locatefile_step:
  assumes "skip_slashes p = path_of (nm # nms)" and "segment_ok nm" and "\<forall>x\<in>set nms. segment_ok x"
  shows "cdvdman_locatefile rd p lba len layer s =
    (case scan_directory rd nm (nms \<noteq> []) lba len s of
       None \<Rightarrow> None
     | Some (Nowhere, s1) \<Rightarrow> Some (None, s1)
     | Some (Found a, s1) \<Rightarrow> Some (Some a, s1)
     | Some (Subdir a, s1) \<Rightarrow>
         if nms = [] then None
         else let e = dirTocEntry_at (memory s1) a
           in cdvdman_locatefile rd (path_of nms) (subdir_lba layer (fileLBA e) s1) (fileSize e) layer s1)"
  unfolding cdvdman_locatefile.simps [of rd p] assms(1) first_of_path [OF assms(2,3)]
  by (simp split: option.splits found.splits)

lemma locatefile_resolves:
  assumes "resolves readable disc lba len nms r" and "\<forall>nm\<in>set nms. segment_ok nm"
    and "skip_slashes p = path_of nms" and "inv (dev s)" and "drive_idle s" and "cdvdman_buf s AND 3 = 0"
  shows "\<exists>s'. read_frame s s' \<and> inv (dev s') \<and>
    (\<forall>x. \<not> in_run (cdvdman_buf s) 2048 x \<longrightarrow> memory s' x = memory s x) \<and>
    (case r of
       None \<Rightarrow> cdvdman_locatefile rd p lba len 0 s = Some (None, s')
     | Some e \<Rightarrow> \<exists>a. cdvdman_locatefile rd p lba len 0 s = Some (Some a, s') \<and> dirTocEntry_at (memory s') a = e)"
  using assms
proof (induction arbitrary: p s rule: resolves.induct)
  case (final lba len dss nm)
  note step = locatefile_step [where nms = "[]" and nm = nm and p = p and s = s and lba = lba and len = len and layer = 0]
  obtain s' where "read_frame s s'" "inv (dev s')" "\<forall>x. \<not> in_run (cdvdman_buf s) 2048 x \<longrightarrow> memory s' x = memory s x"
    "case dir_find disc nm False lba dss of
       None \<Rightarrow> scan_directory rd nm False lba len s = Some (Nowhere, s')
     | Some e \<Rightarrow> \<exists>a. scan_directory rd nm False lba len s = Some (if False then Subdir a else Found a, s') \<and>
         dirTocEntry_at (memory s') a = e"
    using scan_directory_finds [of s dss lba len nm False] final by (auto simp: dir_at_def)
  then show ?case using final.prems(1,2) step by (intro exI [of _ s']) (auto split: option.splits)
next
  case (missing lba len dss nm nms)
  note step = locatefile_step [where nms = nms and nm = nm and p = p and s = s and lba = lba and len = len and layer = 0]
  obtain s' where "read_frame s s'" "inv (dev s')" "\<forall>x. \<not> in_run (cdvdman_buf s) 2048 x \<longrightarrow> memory s' x = memory s x"
    "scan_directory rd nm True lba len s = Some (Nowhere, s')"
    using scan_directory_finds [of s dss lba len nm True] missing by (auto simp: dir_at_def)
  then show ?case using missing.prems(1,2) missing.hyps(3) step by (intro exI [of _ s']) simp
next
  case (inside lba len dss nm e nms r)
  note step = locatefile_step [where nms = nms and nm = nm and p = p and s = s and lba = lba and len = len and layer = 0]
  have ne: "nms \<noteq> []" by (rule resolves_nonempty [OF inside.hyps(3)])
  obtain s1 a where s1: "read_frame s s1" "inv (dev s1)"
    "\<forall>x. \<not> in_run (cdvdman_buf s) 2048 x \<longrightarrow> memory s1 x = memory s x"
    "scan_directory rd nm True lba len s = Some (Subdir a, s1)" "dirTocEntry_at (memory s1) a = e"
    using scan_directory_finds [of s dss lba len nm True] inside by (auto simp: dir_at_def)
  have b1: "cdvdman_buf s1 = cdvdman_buf s" "drive_idle s1"
    using inside.prems(4) read_frame_fields [OF s1(1)] by (simp_all add: drive_idle_def)
  have ok: "\<forall>nm\<in>set nms. segment_ok nm" using inside.prems(1) by simp
  have run: "cdvdman_locatefile rd p lba len 0 s = cdvdman_locatefile rd (path_of nms) (fileLBA e) (fileSize e) 0 s1"
    using step inside.prems(1,2) s1(4,5) ne by (simp add: Let_def subdir_lba_def)
  from inside.IH [OF ok skip_path(1) [OF ne ok] s1(2) b1(2)] inside.prems(5)
  obtain s2 where s2: "read_frame s1 s2" "inv (dev s2)"
    "\<forall>x. \<not> in_run (cdvdman_buf s) 2048 x \<longrightarrow> memory s2 x = memory s1 x"
    "case r of
       None \<Rightarrow> cdvdman_locatefile rd (path_of nms) (fileLBA e) (fileSize e) 0 s1 = Some (None, s2)
     | Some e' \<Rightarrow> \<exists>a. cdvdman_locatefile rd (path_of nms) (fileLBA e) (fileSize e) 0 s1 = Some (Some a, s2) \<and>
         dirTocEntry_at (memory s2) a = e'"
    unfolding b1 by blast
  show ?case
    unfolding run
    by (intro exI [of _ s2] conjI s2(2,4) read_frame_trans [OF s1(1) s2(1)]) (use s1(3) s2(3) in simp)
qed

end

section \<open>\<open>cdvdman_findfile\<close>\<close>

lemma path_of_last: "nms \<noteq> [] \<Longrightarrow> \<exists>pre. 0x5C # path_of nms = pre @ 0x5C # last nms"
proof (induction nms)
  case (Cons nm nms)
  show ?case
  proof (cases "nms = []")
    case True
    then show ?thesis by (intro exI [of _ "[]"]) simp
  next
    case False
    with Cons.IH obtain pre where "0x5C # path_of nms = pre @ 0x5C # last nms" by blast
    with False show ?thesis by (intro exI [of _ "0x5C # nm @ pre"]) simp
  qed
qed simp

lemma base_name_path:
  assumes "nms \<noteq> []" and "segment_ok (last nms)" and "length (last nms) < 24"
  shows "base_name (0x5C # path_of nms) = Some (last nms)"
proof -
  obtain pre where pre: "0x5C # path_of nms = pre @ 0x5C # last nms" using path_of_last [OF assms(1)] by blast
  have "c \<noteq> 0x5C" if "c \<in> set (rev (last nms))" for c using that assms(2) by (auto simp: segment_ok_def)
  then have "takeWhile (\<lambda>c. c \<noteq> 0x5C) (rev (last nms) @ 0x5C # rev pre) = rev (last nms)"
    by (subst takeWhile_append2) auto
  then show ?thesis unfolding base_name_def pre using assms(3) by simp
qed

text \<open>The name as the callers give it: no blanks or dots at the end.\<close>

definition search_path :: "cstring list \<Rightarrow> cstring \<Rightarrow> bool" where
  "search_path nms name \<longleftrightarrow> name = 0x5C # path_of nms \<and> (\<forall>nm\<in>set nms. segment_ok nm) \<and> length (last nms) < 24 \<and>
     length name \<le> 255 \<and> cdvdman_trimspaces name = name"

definition root_resolves ::
  "(u32 \<Rightarrow> nat \<Rightarrow> bool) \<Rightarrow> (u32 \<Rightarrow> u8 list) \<Rightarrow> 'd cdvdman \<Rightarrow> cstring list \<Rightarrow> dirTocEntry option \<Rightarrow> bool"
where
  "root_resolves readable disc s nms r \<longleftrightarrow>
     resolves readable disc (rootDirtocLBA (fst (layer_info s))) (rootDirtocLength (fst (layer_info s))) nms r"

definition fs_ready :: "'d cdvdman \<Rightarrow> bool" where
  "fs_ready s \<longleftrightarrow> cdvdman_cdinited s \<and> drive_idle s \<and> semas s cdvdman_searchfilesema = 1 \<and>
     cdvdman_buf s AND 3 = 0 \<and>
     \<not> has_flag IOPCORE_COMPAT_0_SKIP_VIDEOS (settings s)"

lemma search_sema_kept:
  assumes "semas s x = 1" and "read_frame (s\<lparr>semas := (semas s)(x := 0)\<rparr>) s'"
  shows "read_frame s (SignalSema x s')"
proof -
  have "(semas s)(x := 1) = semas s" using assms(1) by auto
  with assms(2) show ?thesis by (cases s; cases s') (simp add: read_frame_def SignalSema_def)
qed

context disc_device
begin

lemma resolves_root: "resolves readable disc lba len nms r \<Longrightarrow> lba \<noteq> 0"
  by (induction rule: resolves.induct) (auto simp: dir_at_def)

text \<open>\<open>sceCdSearchFile\<close> gives the place and the size of the entry the path leads to, and 0 when there is none.\<close>

lemma findfile_resolves:
  assumes "root_resolves readable disc s nms r" and path: "search_path nms name" and "inv (dev s)" and ready: "fs_ready s"
  shows "\<exists>s'. cdvdman_findfile rd FSI name 0 s = Some (case r of None \<Rightarrow> (0, None, s')
      | Some e \<Rightarrow> (1, Some \<lparr>cdf_lsn = fileLBA e, cdf_size = fileSize e, cdf_name = last nms\<rparr>, s')) \<and>
    read_frame s s' \<and> inv (dev s') \<and> (\<forall>x. \<not> in_run (cdvdman_buf s) 2048 x \<longrightarrow> memory s' x = memory s x)"
proof -
  let ?x = cdvdman_searchfilesema and ?info = "fst (layer_info s)"
  let ?s2 = "s\<lparr>semas := (semas s)(?x := 0)\<rparr>"
  have res: "resolves readable disc (rootDirtocLBA ?info) (rootDirtocLength ?info) nms r"
    using assms(1) by (simp add: root_resolves_def)
  have ne: "nms \<noteq> []" by (rule resolves_nonempty [OF res])
  have nm: "name = 0x5C # path_of nms" "\<forall>nm\<in>set nms. segment_ok nm" "cdvdman_trimspaces name = name" "length name \<le> 255"
    and base: "base_name name = Some (last nms)"
    using path ne base_name_path [OF ne] by (auto simp: search_path_def)
  have s2: "inv (dev ?s2)" "drive_idle ?s2" "cdvdman_buf ?s2 AND 3 = 0"
    using assms(3) ready by (simp_all add: fs_ready_def drive_idle_def)
  have bufs: "cdvdman_buf ?s2 = cdvdman_buf s" "memory ?s2 = memory s" by simp_all
  from locatefile_resolves [OF res nm(2) skip_path(2) [OF ne nm(2)] s2, folded nm(1), unfolded bufs]
  obtain s3 where s3: "read_frame ?s2 s3" "inv (dev s3)"
    "\<forall>x. \<not> in_run (cdvdman_buf s) 2048 x \<longrightarrow> memory s3 x = memory s x"
    "case r of
       None \<Rightarrow> cdvdman_locatefile rd name (rootDirtocLBA ?info) (rootDirtocLength ?info) 0 ?s2 = Some (None, s3)
     | Some e \<Rightarrow> \<exists>a. cdvdman_locatefile rd name (rootDirtocLBA ?info) (rootDirtocLength ?info) 0 ?s2 = Some (Some a, s3) \<and>
         dirTocEntry_at (memory s3) a = e"
    by blast
  have wait: "WaitSema ?x s = Some ?s2" using ready by (simp add: fs_ready_def WaitSema_def)
  have "cdvdman_init rd FSI s = Some s" using ready by (simp add: fs_ready_def cdvdman_init_def)
  moreover have "\<not> has_flag IOPCORE_COMPAT_0_SKIP_VIDEOS (settings s3)"
    using ready read_frame_fields(1) [OF s3(1)] by (simp add: fs_ready_def)
  moreover have "take 255 name = name" using nm(4) by simp
  ultimately have "cdvdman_findfile rd FSI name 0 s = Some (case r of None \<Rightarrow> (0, None, SignalSema ?x s3)
      | Some e \<Rightarrow> (1, Some \<lparr>cdf_lsn = fileLBA e, cdf_size = fileSize e, cdf_name = last nms\<rparr>, SignalSema ?x s3))"
    using s3(4) wait base nm(3) resolves_root [OF res] unfolding cdvdman_findfile_def
    by (auto simp: Let_def split: option.splits)
  moreover have "read_frame s (SignalSema ?x s3)"
    using ready s3(1) by (intro search_sema_kept) (simp_all add: fs_ready_def)
  ultimately show ?thesis using s3(2,3) by (intro exI [of _ "SignalSema ?x s3"]) (simp add: SignalSema_def)
qed

end

section \<open>Opening and reading\<close>

definition opened :: "iop_file_t \<Rightarrow> dirTocEntry \<Rightarrow> FHANDLE" where
  "opened f e = \<lparr>fh_f = f_addr f, fh_lsn = fileLBA e, filesize = fileSize e, position = 0\<rparr>"

text \<open>The bytes a read from the start of the file gives, and the room it needs.\<close>

definition read_count :: "dirTocEntry \<Rightarrow> u32 \<Rightarrow> u32" where
  "read_count e sz = (if sz > fileSize e then fileSize e else sz)"

definition read_fits :: "dirTocEntry \<Rightarrow> u32 \<Rightarrow> u32 \<Rightarrow> 'd cdvdman \<Rightarrow> bool" where
  "read_fits e buf n s \<longleftrightarrow> 13 \<le> fileLBA e \<and> unat n < 2 ^ 31 \<and> unat (fileLBA e) + unat n div 2048 + 1 < 2 ^ 32 \<and>
     cdvdman_fs_buf s AND 3 = 0 \<and> disjoint_runs (cdvdman_fs_buf s) 2048 buf (unat n) \<and>
     disjoint_runs (cdvdman_buf s) 4096 buf (unat n)"

lemma io_sema_kept:
  assumes "semas s x = 1" and "read_frame (s\<lparr>semas := (semas s)(x := 0), err := e\<rparr>) b"
  shows "read_frame s (SignalSema x b)"
    and "read_frame (set_fh slot fh s) (SignalSema x (set_fh slot fh b))"
proof -
  have "(semas s)(x := 1) = semas s" using assms(1) by auto
  with assms(2) show "read_frame s (SignalSema x b)"
    "read_frame (set_fh slot fh s) (SignalSema x (set_fh slot fh b))"
    by (cases s; cases b; simp add: read_frame_def SignalSema_def set_fh_def)+
qed

context disc_device
begin

lemma open_resolves:
  assumes res: "root_resolves readable disc s nms r" and path: "path_buffer filename = Some path" "search_path nms path"
    and "inv (dev s)" and ready: "fs_ready s" and io: "semas s cdrom_io_sema = 1"
    and f: "f_unit f = 0" and slot: "cdvdman_getfilefreeslot s = Some slot"
  shows "\<exists>s'. cdrom_open rd FSI f filename s = Some (case r of None \<Rightarrow> (-2, f, s')
      | Some e \<Rightarrow> (0, f\<lparr>f_privdata := slot, f_mode := 1\<rparr>, s')) \<and>
    read_frame (case r of None \<Rightarrow> s | Some e \<Rightarrow> set_fh slot (opened f e) s) s' \<and> inv (dev s') \<and>
    (\<forall>x. \<not> in_run (cdvdman_buf s) 2048 x \<longrightarrow> memory s' x = memory s x)"
proof -
  let ?x = cdrom_io_sema
  let ?s1 = "s\<lparr>semas := (semas s)(?x := 0)\<rparr>"
  let ?a = "s\<lparr>semas := (semas s)(?x := 0), err := CDVD_ERR_NO\<rparr>"
  have a: "root_resolves readable disc ?a nms r" "fs_ready ?a" "inv (dev ?a)" "cdvdman_getfilefreeslot ?a = Some slot"
    using res ready assms(4) slot
    by (simp_all add: root_resolves_def fs_ready_def drive_idle_def cdvdman_getfilefreeslot_def)
  have wait: "WaitSema ?x s = Some ?s1" using io by (simp add: WaitSema_def)
  have init: "cdvdman_init rd FSI ?s1 = Some ?s1" using ready by (simp add: fs_ready_def cdvdman_init_def)
  obtain q where q: "sceCdDiskReady rd 0 ?s1 = Some (q, ?a)"
    using DiskReady_idle [of ?s1 rd 0] ready by (auto simp: fs_ready_def drive_idle_def)
  obtain b where b: "cdvdman_findfile rd FSI path 0 ?a = Some (case r of None \<Rightarrow> (0, None, b)
      | Some e \<Rightarrow> (1, Some \<lparr>cdf_lsn = fileLBA e, cdf_size = fileSize e, cdf_name = last nms\<rparr>, b))"
    "read_frame ?a b" "inv (dev b)" "\<forall>x. \<not> in_run (cdvdman_buf s) 2048 x \<longrightarrow> memory b x = memory s x"
    using findfile_resolves [OF a(1) path(2) a(3,2), of FSI] by auto
  note kept = io_sema_kept [OF io b(2)]
  have "(0 :: u32) <s 2" by (simp add: word_sless_alt)
  then have unit: "f_unit f <s 2" using f by simp
  show ?thesis
  proof (cases r)
    case None
    then have "cdrom_open rd FSI f filename s = Some (-2, f, SignalSema ?x b)"
      using wait init q a(4) b(1) unit f path(1) unfolding cdrom_open_def cdvdman_open_def by simp
    then show ?thesis using None b kept(1) by (intro exI [of _ "SignalSema ?x b"]) (simp add: SignalSema_def)
  next
    case (Some e)
    let ?b = "SignalSema ?x (set_fh slot (opened f e) b)"
    have "cdrom_open rd FSI f filename s = Some (0, f\<lparr>f_privdata := slot, f_mode := 1\<rparr>, ?b)"
      using wait init q a(4) b(1) unit f path(1) Some unfolding cdrom_open_def cdvdman_open_def opened_def by simp
    then show ?thesis using Some b kept(2) by (intro exI [of _ ?b]) (simp add: SignalSema_def set_fh_def)
  qed
qed

text \<open>Opening a file and reading it from its start.\<close>

lemma open_read_delivers:
  assumes "root_resolves readable disc s nms (Some e)" and "path_buffer filename = Some path" "search_path nms path"
    and "inv (dev s)" and ready: "fs_ready s" and io: "semas s cdrom_io_sema = 1"
    and "f_unit f = 0" and slot: "cdvdman_getfilefreeslot s = Some slot"
    and n: "n = read_count e sz" and fits: "read_fits e buf n s"
    and R: "\<forall>l j. j \<le> Suc (unat n div 2048) \<longrightarrow> readable l j"
  shows "\<exists>s1 s2. cdrom_open rd FSI f filename s = Some (0, f\<lparr>f_privdata := slot, f_mode := 1\<rparr>, s1) \<and>
    get_fh slot s1 = opened f e \<and> cdrom_read rd (f\<lparr>f_privdata := slot, f_mode := 1\<rparr>) buf sz s1 = Some (n, s2) \<and> inv (dev s2) \<and>
    read_frame (advance_file slot n (set_fh slot (opened f e) s)) s2 \<and>
    (\<forall>x. \<not> own_buffers s x \<longrightarrow>
      memory s2 x = write_bytes buf (file_bytes disc (fileLBA e) 0 (unat n)) (memory s) x)"
proof -
  let ?f = "f\<lparr>f_privdata := slot, f_mode := 1\<rparr>"
  obtain s1 where s1: "cdrom_open rd FSI f filename s = Some (0, ?f, s1)"
    "read_frame (set_fh slot (opened f e) s) s1" "inv (dev s1)"
    "\<forall>x. \<not> in_run (cdvdman_buf s) 2048 x \<longrightarrow> memory s1 x = memory s x"
    using open_resolves [OF assms(1-6) assms(7) slot, of FSI] by auto
  note fr = read_frame_fields [OF s1(2)]
  have len: "slot < length (cdvdman_fdhandles s)"
    using slot free_slot_correct [of "take MAX_FDHANDLES (cdvdman_fdhandles s)" slot]
    by (simp add: cdvdman_getfilefreeslot_def)
  have fh: "get_fh slot s1 = opened f e" using len by (simp add: get_fh_def fr(8) set_fh_def)
  have clip: "n = clip_size (get_fh (f_privdata ?f) s1) sz" by (simp add: fh clip_size_def opened_def n read_count_def)
  have env: "phase_env (f_privdata ?f) (fileLBA e) 0 buf n s1"
    using fits ready len fr u32_bound [of n]
    by (simp add: phase_env_def read_fits_def file_ready_def fs_ready_def drive_idle_def fh opened_def)
      (simp add: set_fh_def)
  have io1: "semas s1 cdrom_io_sema = 1" using io fr(4) by (simp add: set_fh_def)
  obtain s2 where s2: "cdrom_read rd ?f buf sz s1 = Some (n, s2)" "inv (dev s2)"
    "file_part slot buf (file_bytes disc (fileLBA e) 0 (unat n)) s1 s2"
    using cdrom_read_delivers [OF s1(3) io1 env clip _ R] fits by (auto simp: read_fits_def)
  have own: "own_buffers s1 = own_buffers s" by (simp add: own_buffers_def fun_eq_iff fr(2,3) set_fh_def)
  have "read_frame (advance_file slot n (set_fh slot (opened f e) s)) (advance_file slot n s1)"
    using s1(2) fr(8) by (cases s; cases s1) (simp add: read_frame_def advance_file_def set_fh_def get_fh_def)
  then have "read_frame (advance_file slot n (set_fh slot (opened f e) s)) s2"
    by (rule read_frame_trans) (use s2(3) in \<open>simp add: file_part_def\<close>)
  moreover have "memory s2 x = write_bytes buf (file_bytes disc (fileLBA e) 0 (unat n)) (memory s) x"
    if "\<not> own_buffers s x" for x
  proof -
    have "memory s1 x = memory s x" using that s1(4) by (auto simp: own_buffers_def in_run_def)
    moreover have "memory s2 x = write_bytes buf (file_bytes disc (fileLBA e) 0 (unat n)) (memory s1) x"
      using s2(3) that own by (simp add: file_part_def)
    ultimately show ?thesis by (simp add: write_bytes_def)
  qed
  ultimately show ?thesis using s1(1) s2(1,2) fh by blast
qed

end

section \<open>The start\<close>

text \<open>The root directory as the volume descriptor, sector 16, names it.\<close>

definition disc_root :: "(u32 \<Rightarrow> u8 list) \<Rightarrow> layer_info_t" where
  "disc_root disc = \<lparr>rootDirtocLBA = fileLBA (entry_of (disc 16) 0x9c),
     rootDirtocLength = scast (toc_length (entry_of (disc 16) 0x9c))\<rparr>"

context disc_device
begin

text \<open>On a disc with one layer \<open>sceCdInit\<close> returns with the file system started.\<close>

lemma init_delivers:
  assumes FSI: "FSI (dev s) = Some d" and "inv d" and "readable 16 1" and idle: "drive_idle s"
    and al: "cdvdman_buf s AND 3 = 0" and new: "\<not> cdvdman_cdinited s" "\<not> fs_inited s"
    and one: "has_flag IOPCORE_COMPAT_EMU_DVDDL (settings s) \<or> layer1_start (settings s) = 0"
  shows "\<exists>s'. cdvdman_init rd FSI s = Some s' \<and> inv (dev s') \<and>
    read_frame (s\<lparr>cdvdman_fdhandles := replicate MAX_FDHANDLES no_handle, cdvdman_cdinited := True, fs_inited := True,
      layer_info := (disc_root disc, snd (layer_info s))\<rparr>) s' \<and>
    (\<forall>x. \<not> in_run (cdvdman_buf s) 2048 x \<longrightarrow> memory s' x = memory s x)"
proof -
  let ?s1 = "s\<lparr>err := CDVD_ERR_NO, cdvdman_fdhandles := replicate MAX_FDHANDLES no_handle, dev := d\<rparr>"
  have "drive_idle ?s1" "read_ready ?s1 16 1 (cdvdman_buf s)"
    using idle al by (simp_all add: drive_idle_def read_ready_def)
  then obtain s2 where s2: "read_and_sync rd 16 1 (cdvdman_buf s) ?s1 = Some (1, s2)" "read_frame ?s1 s2" "inv (dev s2)"
    "memory s2 = write_bytes (cdvdman_buf s) (disc 16) (memory s)"
    using read_and_sync_delivers [of ?s1 16 1 "cdvdman_buf s"] assms(2,3) al by (auto simp: scratch_def)
  note fr = read_frame_fields [OF s2(2)]
  have "dirTocEntry_at (memory s2) (cdvdman_buf s + 0x9c) = entry_of (disc 16) 0x9c"
    unfolding s2(4) using image_entry [of "0x9c" "disc 16" "cdvdman_buf s" "memory s"] disc_sector by simp
  then have root: "root_of 0 s2 = disc_root disc" by (simp add: root_of_def disc_root_def Let_def fr(2))
  let ?s3 = "s2\<lparr>layer_info := (disc_root disc, snd (layer_info s2))\<rparr>"
  have "fs_init rd FSI (s\<lparr>err := CDVD_ERR_NO\<rparr>) = Some (?s3\<lparr>fs_inited := True\<rparr>)"
    using new(2) FSI s2(1) root one fr(1) by (auto simp: fs_init_def sceCdReadDvdDualInfo_def Let_def)
  then have "cdvdman_init rd FSI s = Some (?s3\<lparr>fs_inited := True, cdvdman_cdinited := True\<rparr>)"
    using new(1) by (simp add: cdvdman_init_def)
  moreover have "read_frame (s\<lparr>cdvdman_fdhandles := replicate MAX_FDHANDLES no_handle, cdvdman_cdinited := True,
      fs_inited := True, layer_info := (disc_root disc, snd (layer_info s))\<rparr>)
      (?s3\<lparr>fs_inited := True, cdvdman_cdinited := True\<rparr>)"
    using s2(2) by (cases s; cases s2) (simp add: read_frame_def)
  moreover have "memory s2 x = memory s x" if "\<not> in_run (cdvdman_buf s) 2048 x" for x
    unfolding s2(4) using that disc_sector by (intro write_bytes_outside) simp
  ultimately show ?thesis
    using s2(3) by (intro exI [of _ "?s3\<lparr>fs_inited := True, cdvdman_cdinited := True\<rparr>"]) simp
qed

end

end
