(* ===== verification/Devctl.thy ===== *)
theory Devctl
  imports Fs_Open
begin

text \<open>
  The control operations of the \<open>cdrom\<close> device (cdvdman/cdvdman.c: \<open>cdrom_devctl\<close>,
  \<open>cdrom_ioctl2\<close>). Both take the device's semaphore for the whole call and pass the request on;
  arguments and answers are words in memory.
\<close>

section \<open>\<open>cdrom_ioctl2\<close>\<close>

definition CIOCSTREAMPAUSE :: u32 where [simp]: "CIOCSTREAMPAUSE = 0x630D"
definition CIOCSTREAMRESUME :: u32 where [simp]: "CIOCSTREAMRESUME = 0x630E"
definition CIOCSTREAMSTAT :: u32 where [simp]: "CIOCSTREAMSTAT = 0x630F"

definition cdrom_ioctl2 :: "'d devread \<Rightarrow> u32 \<Rightarrow> 'd cdvdman \<Rightarrow> (int \<times> 'd cdvdman) option" where
  "cdrom_ioctl2 rd cmd s = do {
     s1 \<leftarrow> WaitSema cdrom_io_sema s;
     (r, s2) \<leftarrow>
       (if cmd = CIOCSTREAMPAUSE then map_option (\<lambda>(_, s'). (0, s')) (sceCdStPause rd s1)
        else if cmd = CIOCSTREAMRESUME then Some (0, snd (sceCdStResume s1))
        else if cmd = CIOCSTREAMSTAT then (let (n, s') = sceCdStStat s1 in Some (uint n, s'))
        else Some (-22, s1));
     Some (r, SignalSema cdrom_io_sema s2) }"

section \<open>\<open>cdrom_devctl\<close>\<close>

text \<open>The commands (\<open>enum CDIOC_CODE\<close>), \<open>('C' << 8) | n\<close>.\<close>

datatype CDIOC_CODE = CDIOC_READCLOCK | CDIOC_READGUID | CDIOC_READDISKGUID | CDIOC_GETDISKTYPE
  | CDIOC_GETERROR | CDIOC_TRAYREQ | CDIOC_STATUS | CDIOC_POWEROFF | CDIOC_MMODE | CDIOC_DISKRDY
  | CDIOC_READMODELID | CDIOC_STREAMINIT | CDIOC_BREAK | CDIOC_SPINNOM | CDIOC_SPINSTM
  | CDIOC_TRYCNT | CDIOC_STANDBY | CDIOC_STOP | CDIOC_PAUSE | CDIOC_GETTOC
  | CDIOC_READDVDDUALINFO | CDIOC_INIT | CDIOC_GETINTREVENTFLG

definition CDIOC_table :: "(u32 \<times> CDIOC_CODE) list" where
  "CDIOC_table = [(0x430C, CDIOC_READCLOCK), (0x431D, CDIOC_READGUID), (0x431E, CDIOC_READDISKGUID),
     (0x431F, CDIOC_GETDISKTYPE), (0x4320, CDIOC_GETERROR), (0x4321, CDIOC_TRAYREQ),
     (0x4322, CDIOC_STATUS), (0x4323, CDIOC_POWEROFF), (0x4324, CDIOC_MMODE), (0x4325, CDIOC_DISKRDY),
     (0x4326, CDIOC_READMODELID), (0x4327, CDIOC_STREAMINIT), (0x4328, CDIOC_BREAK),
     (0x4380, CDIOC_SPINNOM), (0x4381, CDIOC_SPINSTM), (0x4382, CDIOC_TRYCNT), (0x4384, CDIOC_STANDBY),
     (0x4385, CDIOC_STOP), (0x4386, CDIOC_PAUSE), (0x4387, CDIOC_GETTOC),
     (0x4389, CDIOC_READDVDDUALINFO), (0x438A, CDIOC_INIT), (0x4391, CDIOC_GETINTREVENTFLG)]"

text \<open>Answers of one word, of some bytes, or none.\<close>

definition answer_word :: "u32 \<Rightarrow> u32 \<Rightarrow> 'd cdvdman \<Rightarrow> 'd cdvdman" where
  "answer_word buf w s = s\<lparr>memory := put_u32 buf w (memory s)\<rparr>"

definition answer_bytes :: "u32 \<Rightarrow> u8 list \<Rightarrow> 'd cdvdman \<Rightarrow> 'd cdvdman" where
  "answer_bytes buf bs s = s\<lparr>memory := write_bytes buf bs (memory s)\<rparr>"

text \<open>The body of the switch, with the semaphore held. \<open>args\<close> and \<open>buf\<close> are addresses.\<close>

definition devctl_switch ::
  "'d devread \<Rightarrow> 'h scmd_regs \<Rightarrow> u8 list \<Rightarrow> CDIOC_CODE option \<Rightarrow> u32 \<Rightarrow> u32 \<Rightarrow>
   'd cdvdman \<times> 'h \<Rightarrow> (int \<times> 'd cdvdman \<times> 'h) option"
where
  "devctl_switch rd hw stk cmd args buf = (\<lambda>(s, h).
     case cmd of
       None \<Rightarrow> Some (-5, s, h)
     | Some CDIOC_READCLOCK \<Rightarrow>
         map_option (\<lambda>(_, c, s', h'). (0, answer_bytes buf (clock_bytes c) s', h'))
           (sceCdReadClock hw (bytes_clock (read_bytes (memory s) buf 8)) (s, h))
     | Some CDIOC_READGUID \<Rightarrow>
         map_option (\<lambda>(_, out, s', h'). (0, case out of Some b \<Rightarrow> answer_bytes buf b s' | None \<Rightarrow> s', h'))
           (sceCdReadGUID hw stk (s, h))
     | Some CDIOC_READDISKGUID \<Rightarrow> Some (0, snd (sceCdReadDiskID buf s), h)
     | Some CDIOC_GETDISKTYPE \<Rightarrow> Some (0, answer_word buf (sceCdGetDiskType s) s, h)
     | Some CDIOC_GETERROR \<Rightarrow> Some (0, answer_word buf (sceCdGetError s) s, h)
     | Some CDIOC_TRAYREQ \<Rightarrow>
         (let (_, cnt, s') = sceCdTrayReq (get_u32 (memory s) args) s
          in Some (0, case cnt of Some w \<Rightarrow> answer_word buf w s' | None \<Rightarrow> s', h))
     | Some CDIOC_STATUS \<Rightarrow> Some (0, answer_word buf (sceCdStatus s) s, h)
     | Some CDIOC_POWEROFF \<Rightarrow> Some (1, s, h)
     | Some CDIOC_MMODE \<Rightarrow> Some (1, s, h)
     | Some CDIOC_DISKRDY \<Rightarrow>
         map_option (\<lambda>(r, s'). (0, answer_word buf r s', h))
           (sceCdDiskReady rd (sint (get_u32 (memory s) args)) s)
     | Some CDIOC_READMODELID \<Rightarrow>
         map_option (\<lambda>(_, out, s', h'). (0, case out of Some b \<Rightarrow> answer_bytes buf b s' | None \<Rightarrow> s', h'))
           (sceCdReadModelID hw stk (s, h))
     | Some CDIOC_STREAMINIT \<Rightarrow>
         map_option (\<lambda>(_, s'). (0, s', h))
           (sceCdStInit (get_u32 (memory s) args) (get_u32 (memory s) (args + 4))
              (get_u32 (memory s) (args + 8)) s)
     | Some CDIOC_BREAK \<Rightarrow> Some (0, snd (sceCdBreak s), h)
     | Some CDIOC_SPINNOM \<Rightarrow> Some (0, s, h)
     | Some CDIOC_SPINSTM \<Rightarrow> Some (0, s, h)
     | Some CDIOC_TRYCNT \<Rightarrow> Some (0, s, h)
     | Some CDIOC_READDVDDUALINFO \<Rightarrow> Some (0, s, h)
     | Some CDIOC_INIT \<Rightarrow> Some (0, s, h)
     | Some CDIOC_STANDBY \<Rightarrow> Some (0, snd (sceCdStandby s), h)
     | Some CDIOC_STOP \<Rightarrow> Some (0, snd (sceCdStop s), h)
     | Some CDIOC_PAUSE \<Rightarrow> Some (0, snd (sceCdPause s), h)
     | Some CDIOC_GETTOC \<Rightarrow> Some (0, snd (sceCdGetToc s), h)
     | Some CDIOC_GETINTREVENTFLG \<Rightarrow>
         Some (sint (intr_ef_id s), answer_word buf (intr_ef_id s) s, h))"

definition cdrom_devctl ::
  "'d devread \<Rightarrow> 'h scmd_regs \<Rightarrow> u8 list \<Rightarrow> u32 \<Rightarrow> u32 \<Rightarrow> u32 \<Rightarrow>
   'd cdvdman \<times> 'h \<Rightarrow> (int \<times> 'd cdvdman \<times> 'h) option"
where
  "cdrom_devctl rd hw stk cmd args buf = (\<lambda>(s, h). do {
     s1 \<leftarrow> WaitSema cdrom_io_sema s;
     (r, s2, h') \<leftarrow> devctl_switch rd hw stk (map_of CDIOC_table cmd) args buf (s1, h);
     Some (r, SignalSema cdrom_io_sema s2, h') })"

section \<open>The semaphore is given back\<close>


lemma ioctl2_gives_back:
  "cdrom_ioctl2 rd cmd s = Some (r, s') \<Longrightarrow> semas s' cdrom_io_sema = 1"
  by (auto simp: cdrom_ioctl2_def SignalSema_def bind_eq_Some_conv)

text \<open>
  A \<open>devctl\<close> command that is not in the table is answered with
  \<open>-EIO\<close>, and leaves the drive, the mechacon and the device's semaphore as they
  were.
\<close>

theorem devctl_unknown:
  assumes "semas s cdrom_io_sema = 1" and "cmd \<notin> fst ` set CDIOC_table"
  shows "cdrom_devctl rd hw stk cmd args buf (s, h) = Some (-5, s, h)"
proof -
  have "map_of CDIOC_table cmd = None" using assms(2) by (simp add: map_of_eq_None_iff)
  moreover have "(semas s)(cdrom_io_sema := 1) = semas s" using assms(1) by auto
  ultimately show ?thesis
    using assms(1) by (simp add: cdrom_devctl_def devctl_switch_def WaitSema_def SignalSema_def)
qed

end
