(* ===== verification/Device_Bdm.thy ===== *)
theory Device_Bdm
  imports Devctl
begin

text \<open>
  The driver the Makefile links (cdvdman/device-bdm.c): the disc image lies on a block
  device that another module connects. The block device itself is not part of the
  repository: it is the structure \<open>struct block_device\<close> with its sector size and its \<open>read\<close>
  function pointer, here a field that may behave differently at every call.
\<close>

record block_device =
  bd_sectorSize :: u32
  bd_read :: "nat \<Rightarrow> u32 \<Rightarrow> u32 \<Rightarrow> u16 \<Rightarrow> mem \<Rightarrow> u32 \<times> mem"

text \<open>
  \<open>g_bd\<close> holds the address of the connected device together with the device; \<open>bd_calls\<close>
  counts the reads made, \<open>bdm_LBAs\<close> is \<open>cdvdman_settings.LBAs\<close> and \<open>bdm_slept\<close> the seconds
  spent waiting.
\<close>

record bdm_state =
  g_bd :: "(u32 \<times> block_device) option"
  g_bd_sectors_per_sector :: u32
  bdm_LBAs :: "u32 list"
  bd_calls :: nat
  bdm_slept :: nat

text \<open>\<open>2048 / bd->sectorSize\<close> traps for a sector size of 0.\<close>

definition bdm_connect_bd :: "u32 \<Rightarrow> block_device \<Rightarrow> bdm_state \<Rightarrow> bdm_state option" where
  "bdm_connect_bd a bd d =
     (if g_bd d \<noteq> None then Some d
      else if bd_sectorSize bd = 0 then None
      else Some (d\<lparr>g_bd := Some (a, bd), g_bd_sectors_per_sector := 2048 div bd_sectorSize bd\<rparr>))"

definition bdm_disconnect_bd :: "u32 \<Rightarrow> bdm_state \<Rightarrow> bdm_state" where
  "bdm_disconnect_bd a d =
     (if map_option fst (g_bd d) = Some a then d\<lparr>g_bd := None\<rparr> else d)"

text \<open>
  \<open>DeviceFSInit\<close> polls until a device is connected. What other threads do between two polls
  is given as a list of events; None means that the list ended with the loop still waiting
  (or that a connect trapped).
\<close>

datatype bdm_event = Nothing_happens | Connect u32 block_device | Disconnect u32

fun bdm_event_step :: "bdm_event \<Rightarrow> bdm_state \<Rightarrow> bdm_state option" where
  "bdm_event_step Nothing_happens d = Some d"
| "bdm_event_step (Connect a bd) d = bdm_connect_bd a bd d"
| "bdm_event_step (Disconnect a) d = Some (bdm_disconnect_bd a d)"

fun DeviceFSInit_bdm :: "bdm_event list \<Rightarrow> bdm_state \<Rightarrow> bdm_state option" where
  "DeviceFSInit_bdm es d =
     (if g_bd d \<noteq> None then Some d
      else case es of
             [] \<Rightarrow> None
           | e # es' \<Rightarrow> (case bdm_event_step e (d\<lparr>bdm_slept := Suc (bdm_slept d)\<rparr>) of
                None \<Rightarrow> None
              | Some d' \<Rightarrow> DeviceFSInit_bdm es' d'))"

declare DeviceFSInit_bdm.simps [simp del]

text \<open>
  \<open>DeviceReadSectors\<close>: the sector count is a 16-bit variable, the result of the device's
  \<open>read\<close> is dropped, and reading with no device connected follows a null pointer.
\<close>

definition DeviceReadSectors_bdm :: "bdm_state devread" where
  "DeviceReadSectors_bdm lsn buffer sectors d m =
     (case g_bd d of
        None \<Rightarrow> None
      | Some (_, bd) \<Rightarrow>
          let sector = bdm_LBAs d ! 0 + lsn * g_bd_sectors_per_sector d;
              count = (ucast (sectors * g_bd_sectors_per_sector d) :: u16);
              (_, m') = bd_read bd (bd_calls d) sector buffer count m
          in Some (0, d\<lparr>bd_calls := Suc (bd_calls d)\<rparr>, m'))"

section \<open>The driver delivers the image\<close>

text \<open>
  A connected device of \<open>k\<close> device sectors to the disc sector whose reads store what the
  device holds: \<open>store\<close> gives the contents of its sectors.
\<close>

definition bd_reads :: "(u32 \<Rightarrow> u8 list) \<Rightarrow> block_device \<Rightarrow> bool" where
  "bd_reads store bd \<longleftrightarrow> (\<forall>i sector buffer count m.
     snd (bd_read bd i sector buffer count m)
       = write_bytes buffer (sector_run store sector (unat count)) m)"

definition bdm_inv :: "(u32 \<Rightarrow> u8 list) \<Rightarrow> u32 \<Rightarrow> nat \<Rightarrow> bdm_state \<Rightarrow> bool" where
  "bdm_inv store lba k d \<longleftrightarrow>
     (\<exists>a bd. g_bd d = Some (a, bd) \<and> bd_reads store bd) \<and>
     bdm_LBAs d ! 0 = lba \<and> g_bd_sectors_per_sector d = of_nat k \<and>
     0 < k \<and> k \<le> 2048 \<and> (\<forall>l. length (store l) * k = 2048)"

text \<open>The image: disc sector \<open>l\<close> is the run of \<open>k\<close> device sectors at \<open>lba + l * k\<close>.\<close>

definition bdm_disc :: "(u32 \<Rightarrow> u8 list) \<Rightarrow> u32 \<Rightarrow> nat \<Rightarrow> u32 \<Rightarrow> u8 list" where
  "bdm_disc store lba k l =
     (if \<forall>l. length (store l) * k = 2048 then sector_run store (lba + l * of_nat k) k
      else replicate 2048 0)"

definition bdm_readable :: "nat \<Rightarrow> u32 \<Rightarrow> nat \<Rightarrow> bool" where
  "bdm_readable k lsn n \<longleftrightarrow> n * k < 2 ^ 16"

lemma bdm_disc_length: "length (bdm_disc store lba k l) = 2048"
proof (cases "\<forall>l. length (store l) * k = 2048")
  case True
  have "\<And>l. length (store l) = 2048 div k"
    using True by (metis div_mult_self_is_m mult_eq_0_iff neq0_conv zero_neq_numeral)
  then have "length (sector_run store (lba + l * of_nat k) k) = k * (2048 div k)"
    by (rule length_sector_run)
  with True show ?thesis
    by (metis (no_types, lifting) bdm_disc_def dvd_mult_div_cancel dvd_triv_right)
next
  case False
  then show ?thesis unfolding bdm_disc_def by (simp only: if_False length_replicate)
qed

lemma bdm_delivers:
  assumes "bdm_inv store lba k d" and "bdm_readable k lsn (unat n)"
  shows "\<exists>d'. bdm_inv store lba k d' \<and> DeviceReadSectors_bdm lsn a n d m
    = Some (0, d', write_bytes a (sector_run (bdm_disc store lba k) lsn (unat n)) m)"
proof -
  from assms(1) obtain b bd where bd: "g_bd d = Some (b, bd)" "bd_reads store bd"
    "bdm_LBAs d ! 0 = lba" "g_bd_sectors_per_sector d = of_nat k" "0 < k" "k \<le> 2048"
    "\<forall>l. length (store l) * k = 2048"
    by (auto simp: bdm_inv_def)
  from assms(2) have nk: "unat n * k < 2 ^ 16" by (simp add: bdm_readable_def)
  have "unat (of_nat k :: u32) = k" using bd(6) by (intro unat_of_nat_u32) simp
  then have "unat (n * of_nat k :: u32) = unat n * k"
    using nk by (simp add: unat_word_ariths)
  then have count: "unat (ucast (n * of_nat k :: u32) :: u16) = unat n * k"
    using nk unat_ucast_u16 [of "n * of_nat k"] by simp
  let ?d = "d\<lparr>bd_calls := Suc (bd_calls d)\<rparr>"
  have disc: "bdm_disc store lba k = (\<lambda>l. sector_run store (lba + l * of_nat k) k)"
    using bd(7) by (auto simp: bdm_disc_def)
  have m': "snd (bd_read bd (bd_calls d) (lba + lsn * of_nat k) a (ucast (n * of_nat k :: u32)) m)
      = write_bytes a (sector_run (bdm_disc store lba k) lsn (unat n)) m"
    using bd(2) count by (simp add: bd_reads_def disc sector_run_group)
  have inv': "bdm_inv store lba k ?d" using bd by (auto simp: bdm_inv_def)
  show ?thesis
    using inv' m' bd(1,3,4)
    by (auto simp: DeviceReadSectors_bdm_def Let_def split: prod.splits intro!: exI [of _ ?d])
qed

interpretation bdm: disc_device DeviceReadSectors_bdm "bdm_inv store lba k" "bdm_disc store lba k"
    "bdm_readable k"
proof unfold_locales
  show "length (bdm_disc store lba k l) = 2048" for l by (rule bdm_disc_length)
  show "bdm_readable k lsn i \<and> bdm_readable k (lsn + of_nat i) j"
    if "bdm_readable k lsn (i + j)" for lsn i j
    using that by (simp add: bdm_readable_def add_mult_distrib)
  show "\<exists>d'. bdm_inv store lba k d' \<and> DeviceReadSectors_bdm lsn a n d m
      = Some (0, d', write_bytes a (sector_run (bdm_disc store lba k) lsn (unat n)) m)"
    if "bdm_inv store lba k d" "bdm_readable k lsn (unat n)" "unat n * 2048 \<le> 2 ^ 32" for d lsn n a m
    using that(1,2) by (rule bdm_delivers)
qed

end
