(* ===== verification/Instances.thy ===== *)
theory Instances
  imports Device_Bdm
begin

text \<open>
  A concrete machine on which the properties are exercised: a block device of 512-byte
  sectors in which every byte of a sector is the low byte of its number, holding an image at
  sector 390359 (the value \<open>_start\<close> sets for speed tests), and the module's state after
  start-up with that device connected.
\<close>

definition demo_store :: "u32 \<Rightarrow> u8 list" where
  "demo_store l = replicate 512 (ucast l)"

definition demo_bd :: block_device where
  "demo_bd = \<lparr>bd_sectorSize = 512,
     bd_read = (\<lambda>i sector buffer count m.
       (0, write_bytes buffer (sector_run demo_store sector (unat count)) m))\<rparr>"

definition demo_bdm :: bdm_state where
  "demo_bdm = \<lparr>g_bd = None, g_bd_sectors_per_sector = 4, bdm_LBAs = [390359], bd_calls = 0,
     bdm_slept = 0\<rparr>"

definition demo_dev :: bdm_state where
  "demo_dev = the (DeviceFSInit_bdm [Nothing_happens, Connect 0x5000 demo_bd] demo_bdm)"

definition demo_settings :: cdvdman_settings_common where
  "demo_settings = \<lparr>NumParts = 1, media = 0x14, flags = 0, layer1_start = 0,
     DiscID = [0x30, 0x31, 0x32, 0x33, 0x34]\<rparr>"

definition demo_ring :: SteamingData where
  "demo_ring = \<lparr>StBufmax = 0, StBankmax = 0, StBanksize = 0, StWritePtr = 0, StReadPtr = 0,
     StStreamed = 0, StStat = 0, StIsReading = 0, StIOP_bufaddr = 0, Stlsn = 0\<rparr>"

definition demo_state :: "'d \<Rightarrow> 'd cdvdman" where
  "demo_state d = \<lparr>err = 0, status = CDVD_STAT_PAUSE, StreamingData = demo_ring, disc_type_reg = 0x14,
     cdread_lba = 0, cdread_sectors = 0, cdread_buf = 0, settings = demo_settings, sync_flag = False,
     user_cb = 0, Stm0Callback = False, cdvdman_media_changed = True, cdvdman_cdinited = False,
     fs_inited = False, ReadPos = 0, cdvdman_fdhandles = replicate 64 \<lparr>fh_f = 0, fh_lsn = 0, filesize = 0, position = 0\<rparr>,
     layer_info = (\<lparr>rootDirtocLBA = 0, rootDirtocLength = 0\<rparr>, \<lparr>rootDirtocLBA = 0, rootDirtocLength = 0\<rparr>),
     cdvdman_buf = 0x20000, cdvdman_fs_buf = 0x22000,
     semas = (\<lambda>x. if x = cdrom_rthread_sema then 0 else 1), intr_ef = 1, intr_ef_id = 7, read_end_alarm = None,
     event_alarm = None, stm_alarm = None, slept = 0, in_intr = False, dev = d, memory = (\<lambda>_. 0)\<rparr>"

lemma demo_dev_eq: "demo_dev = \<lparr>g_bd = Some (0x5000, demo_bd), g_bd_sectors_per_sector = 4,
    bdm_LBAs = [390359], bd_calls = 0, bdm_slept = 2\<rparr>"
  by (simp add: demo_dev_def demo_bdm_def demo_bd_def DeviceFSInit_bdm.simps bdm_connect_bd_def)

lemma demo_bdm_inv: "bdm_inv demo_store 390359 4 demo_dev"
  by (simp add: bdm_inv_def demo_dev_eq demo_bd_def bd_reads_def demo_store_def)

lemma demo_idle: "drive_idle (demo_state d)"
  by (simp add: drive_idle_def demo_state_def)

text \<open>The same machine after \<open>sceCdStInit(4, 2, 0x40000)\<close>.\<close>

definition demo_stream :: "bdm_state cdvdman" where
  "demo_stream = (demo_state demo_dev)\<lparr>StreamingData := demo_ring\<lparr>StBufmax := 4, StBankmax := 2,
     StBanksize := 2, StIOP_bufaddr := 0x40000\<rparr>\<rparr>"

lemma demo_stream_init: "sceCdStInit 4 2 0x40000 (demo_state demo_dev) = Some (1, demo_stream)"
  by (simp add: sceCdStInit_def demo_stream_def demo_state_def demo_ring_def upd_sd_def StReset_def)

lemma demo_stream_facts:
  "\<not> sync_flag demo_stream" "semas demo_stream cdrom_rthread_sema = 0" "dev demo_stream = demo_dev"
  "ring_configured (SD demo_stream)" "B_of (SD demo_stream) = 2" "N_of (SD demo_stream) = 4"
  "StIOP_bufaddr (SD demo_stream) = 0x40000"
  by (simp_all add: demo_stream_def demo_state_def demo_ring_def ring_configured_def)

text \<open>A history in which a bank arrives and a reader takes one sector.\<close>

lemma demo_history:
  assumes "sceCdStStart DeviceReadSectors_bdm 16 demo_stream = Some (1, s0)"
  shows "\<exists>out s'. stream_hist DeviceReadSectors_bdm s0 out s' \<and> length out = 1"
proof -
  let ?rd = DeviceReadSectors_bdm and ?disc = "bdm_disc demo_store 390359 4"
  have s0: "stream_inv ?disc 16 s0" "dev s0 = demo_dev" "B_of (SD s0) = 2" "StIsReading (SD s0) = 1"
    using StStart_inv [OF demo_stream_facts(1,2,4), of 16 ?rd ?disc] demo_stream_facts assms by auto
  have busy: "semas s0 cdrom_rthread_sema \<noteq> 0" "cdread_lba s0 = Stlsn (SD s0)"
    using s0(1,4) by (simp_all add: stream_inv_def bank_under_way_def)
  have S0: "S_of (SD s0) = 0" "Stlsn (SD s0) = 16"
    using StStart_inv [OF demo_stream_facts(1,2,4), of 16 ?rd ?disc] assms s0(1)
    by (auto simp: stream_inv_def)
  obtain s1 where s1: "cdvdman_cdread_Thread ?rd s0 = Some s1" "stream_inv ?disc 16 s1"
    "S_of (SD s1) = 2"
    using bdm.turn_inv [OF s0(1) _ busy(1)] s0 S0 demo_bdm_inv by (fastforce simp: bdm_readable_def)
  have "stream_hist ?rd s0 [] s1"
    by (rule stream_hist.turn [OF stream_hist.start busy(1) _ s1(1)]) (simp add: S0 s0)
  moreover obtain s2 ee where s2: "sceCdStRead ?rd 1 0x80100000 0 (s1, \<lambda>_. 0)
      = Some (of_nat (stream_took s1 1), Some CDVD_ERR_NO, s2, ee)"
    using StRead_inv [OF s1(2) bdm_disc_length, where sectors = 1 and buffer = "0x80100000" and
        rd = ?rd and ee = "\<lambda>_. 0"]
    by (auto simp: reader_buffer_def to_EE_def)
  ultimately have "stream_hist ?rd s0 ([] @ sectors_at (if to_EE 0x80100000 then ee else memory s2)
      (0x80100000 AND NOT 0x80000000) (unat (of_nat (stream_took s1 1) :: u32))) s2"
    by (intro stream_hist.read [OF _ _ _ _ s2]) (simp_all add: reader_buffer_def to_EE_def)
  then show ?thesis
    using s1(3) by (auto simp: stream_took_def sectors_at_def)
qed

end
