(* ===== verification/Boot_Bdm.thy ===== *)
theory Boot_Bdm
  imports Boot Instances
begin

text \<open>
  The module with the driver of device-bdm.c from its start to the bytes of a file: \<open>_start\<close>,
  \<open>sceCdInit\<close>, which waits for a device, the search for a path, \<open>cdrom_open\<close> and \<open>cdrom_read\<close>.
\<close>

section \<open>The driver's start\<close>

text \<open>The first part address of the settings, which \<open>_start\<close> sets.\<close>

definition set_LBA0_bdm :: "u32 \<Rightarrow> bdm_state \<Rightarrow> bdm_state" where
  "set_LBA0_bdm lba d = d\<lparr>bdm_LBAs := (bdm_LBAs d)[0 := lba]\<rparr>"

text \<open>\<open>DeviceInit\<close> registers the table of exports and \<open>DeviceDeinit\<close> does nothing: no state of the module.\<close>

definition DeviceInit_bdm :: "bdm_state \<Rightarrow> bdm_state" where
  "DeviceInit_bdm d = d"

definition DeviceDeinit_bdm :: "bdm_state \<Rightarrow> bdm_state" where
  "DeviceDeinit_bdm d = d"

section \<open>A device appears\<close>

primrec is_connect :: "bdm_event \<Rightarrow> bool" where
  "is_connect Nothing_happens = False"
| "is_connect (Connect a bd) = True"
| "is_connect (Disconnect a) = False"

text \<open>The first device that connects is the one the driver takes.\<close>

definition first_device :: "bdm_event list \<Rightarrow> block_device \<Rightarrow> bool" where
  "first_device es bd \<longleftrightarrow> (\<exists>a. find is_connect es = Some (Connect a bd))"

text \<open>Its sectors are a \<open>k\<close>-th of a disc sector, and reading stores them.\<close>

definition disc_on :: "(u32 \<Rightarrow> u8 list) \<Rightarrow> nat \<Rightarrow> block_device \<Rightarrow> bool" where
  "disc_on store k bd \<longleftrightarrow> bd_reads store bd \<and> unat (bd_sectorSize bd) * k = 2048 \<and>
     (\<forall>l. length (store l) = unat (bd_sectorSize bd))"

lemma FSInit_waits:
  assumes "first_device es bd" and "bd_sectorSize bd \<noteq> 0" and "g_bd d = None"
  shows "\<exists>a d'. DeviceFSInit_bdm es d = Some d' \<and> g_bd d' = Some (a, bd) \<and>
    g_bd_sectors_per_sector d' = 2048 div bd_sectorSize bd \<and> bdm_LBAs d' = bdm_LBAs d"
  using assms
proof (induction es arbitrary: d)
  case Nil
  then show ?case by (simp add: first_device_def)
next
  case (Cons e es)
  show ?case
  proof (cases e)
    case (Connect a b)
    with Cons.prems(1) have "b = bd" by (simp add: first_device_def)
    with Connect Cons.prems(2,3) show ?thesis
      by (subst DeviceFSInit_bdm.simps) (simp add: bdm_connect_bd_def DeviceFSInit_bdm.simps)
  next
    case Nothing_happens
    with Cons.prems Cons.IH [of "d\<lparr>bdm_slept := Suc (bdm_slept d)\<rparr>"] show ?thesis
      by (subst DeviceFSInit_bdm.simps) (simp add: first_device_def)
  next
    case (Disconnect a)
    with Cons.prems Cons.IH [of "d\<lparr>bdm_slept := Suc (bdm_slept d)\<rparr>"] show ?thesis
      by (subst DeviceFSInit_bdm.simps) (simp add: first_device_def bdm_disconnect_bd_def)
  qed
qed

lemma disc_on_size:
  assumes "disc_on store k bd"
  shows "bd_sectorSize bd \<noteq> 0" and "0 < k" and "k \<le> 2048" and "2048 div bd_sectorSize bd = of_nat k"
    and "\<forall>l. length (store l) * k = 2048"
proof -
  let ?n = "unat (bd_sectorSize bd)"
  have sz: "?n * k = 2048" using assms by (simp add: disc_on_def)
  have n: "?n \<noteq> 0"
  proof
    assume "?n = 0"
    with sz show False by simp
  qed
  then show "bd_sectorSize bd \<noteq> 0" by auto
  show k: "0 < k" using sz by (cases k) simp_all
  have "1 * k \<le> ?n * k" using n by (intro mult_le_mono1) simp
  then show le: "k \<le> 2048" unfolding sz by simp
  have "unat (2048 div bd_sectorSize bd :: u32) = (?n * k) div ?n" unfolding sz by (simp add: unat_div)
  also have "\<dots> = unat (of_nat k :: u32)" using n le by (simp add: unat_of_nat_u32)
  finally show "2048 div bd_sectorSize bd = of_nat k" by (simp only: word_unat_eq_iff)
  show "\<forall>l. length (store l) * k = 2048" using assms by (simp add: disc_on_def)
qed

lemma connected_inv:
  assumes dev: "disc_on store k bd" and d: "g_bd d = Some (a, bd)"
    "g_bd_sectors_per_sector d = 2048 div bd_sectorSize bd" "bdm_LBAs d ! 0 = lba"
  shows "bdm_inv store lba k d"
  using disc_on_size [OF dev] d dev by (simp add: bdm_inv_def disc_on_def)

section \<open>From the start of the module\<close>

text \<open>The module as it is loaded, with no device yet.\<close>

definition bdm_loaded :: "bdm_state cdvdman \<Rightarrow> bool" where
  "bdm_loaded s \<longleftrightarrow> loaded s \<and> g_bd (dev s) = None \<and> bdm_LBAs (dev s) \<noteq> []"

lemma all_slots_free: "0 < n \<Longrightarrow> free_slot (replicate n no_handle) = Some 0"
  by (cases n) (simp_all add: no_handle_def)

lemma start_init:
  assumes new: "bdm_loaded s" and es: "first_device es bd" and dev: "disc_on store k bd"
    and start: "cdvdman_start hw set_LBA0_bdm (on_device DeviceInit_bdm) ef (s, h) = Some (s1, h1)"
  shows "\<exists>s2. sceCdInit DeviceReadSectors_bdm (DeviceFSInit_bdm es) mode s1 = Some (1, s2) \<and>
    bdm_inv store 390359 k (dev s2) \<and> fs_ready s2 \<and> semas s2 cdrom_io_sema = 1 \<and>
    fst (layer_info s2) = disc_root (bdm_disc store 390359 k) \<and> cdvdman_getfilefreeslot s2 = Some 0 \<and>
    cdvdman_buf s2 = cdvdman_buf s \<and> cdvdman_fs_buf s2 = cdvdman_fs_buf s \<and>
    (\<forall>x. \<not> in_run (cdvdman_buf s) 2048 x \<longrightarrow> memory s2 x = memory s x)"
proof -
  let ?t = "s\<lparr>settings := speed_settings (settings s), dev := set_LBA0_bdm 390359 (dev s)\<rparr>"
  have "on_device DeviceInit_bdm ?t = Some ?t" "loaded ?t" "dev ?t = set_LBA0_bdm 390359 (dev s)"
    using new by (simp_all add: on_device_def DeviceInit_bdm_def bdm_loaded_def loaded_def)
  then have st: "started (set_LBA0_bdm 390359 (dev s)) ?t s1"
    using start_started [where DeviceInit = "on_device DeviceInit_bdm" and s = s and set_lba = set_LBA0_bdm and t = "?t" and hw = hw and ef = ef and h = h] start by simp
  then have s1: "\<not> sync_flag s1" "\<not> Stm0Callback s1" "\<not> cdvdman_cdinited s1" "\<not> fs_inited s1" "semas s1 cdrom_rthread_sema = 0"
    "semas s1 cdvdman_searchfilesema = 1" "semas s1 cdrom_io_sema = 1" "cdvdman_buf s1 = cdvdman_buf s"
    "cdvdman_fs_buf s1 = cdvdman_fs_buf s" "memory s1 = memory s" "flags (settings s1) = 0" "layer1_start (settings s1) = 0"
    "cdvdman_buf s1 AND 3 = 0" and d1: "dev s1 = set_LBA0_bdm 390359 (dev s)"
    by (auto simp: started_def loaded_def drive_idle_def speed_settings_def)
  note k = disc_on_size [OF dev]
  have none: "g_bd (dev s1) = None" using new by (simp add: d1 set_LBA0_bdm_def bdm_loaded_def)
  obtain a d where d: "DeviceFSInit_bdm es (dev s1) = Some d" "g_bd d = Some (a, bd)"
    "g_bd_sectors_per_sector d = 2048 div bd_sectorSize bd" "bdm_LBAs d = bdm_LBAs (dev s1)"
    using FSInit_waits [OF es k(1) none] by blast
  have "bdm_LBAs d ! 0 = 390359" using new by (simp add: d(4) d1 set_LBA0_bdm_def bdm_loaded_def)
  then have inv: "bdm_inv store 390359 k d" by (rule connected_inv [OF dev d(2,3)])
  have idle: "drive_idle s1" using s1 by (simp add: drive_idle_def)
  obtain s2 where s2: "cdvdman_init DeviceReadSectors_bdm (DeviceFSInit_bdm es) s1 = Some s2" "bdm_inv store 390359 k (dev s2)"
    "read_frame (s1\<lparr>cdvdman_fdhandles := replicate MAX_FDHANDLES no_handle, cdvdman_cdinited := True, fs_inited := True,
      layer_info := (disc_root (bdm_disc store 390359 k), snd (layer_info s1))\<rparr>) s2"
    "\<forall>x. \<not> in_run (cdvdman_buf s1) 2048 x \<longrightarrow> memory s2 x = memory s1 x"
    using bdm.init_delivers [of "DeviceFSInit_bdm es" s1 d store 390359 k, OF d(1) inv _ idle s1(13)] s1 k(3)
    by (auto simp: bdm_readable_def)
  note fr = read_frame_fields [OF s2(3)]
  have "cdvdman_getfilefreeslot s2 = Some 0" by (simp add: cdvdman_getfilefreeslot_def fr(8) all_slots_free)
  moreover have "fs_ready s2"
    using s1 by (simp add: fs_ready_def drive_idle_def fr has_flag_def)
  ultimately show ?thesis using s2 s1 fr by (simp add: sceCdInit_def)
qed


section \<open>The search for a path\<close>


section \<open>A disc with one file\<close>

text \<open>
  A device of 2048-byte sectors with an image at sector 390359: the volume descriptor in sector
  16 of the image names sector 20 as the root directory, which has one entry, \<open>AB;1\<close>, of 3000
  bytes at sector 100.
\<close>

definition padded :: "u8 list \<Rightarrow> u8 list" where
  "padded bs = bs @ replicate (2048 - length bs) 0"

definition demo_root_record :: "u8 list" where
  "demo_root_record = [34, 0, 20, 0, 0, 0, 0, 0, 0, 20, 0, 8, 0, 0, 0, 0, 8, 0]"

definition demo_file_record :: "u8 list" where
  "demo_file_record = [38, 0, 100, 0, 0, 0, 0, 0, 0, 100, 0xb8, 0x0b, 0, 0, 0, 0, 0x0b, 0xb8,
     0, 0, 0, 0, 0, 0, 0, 0, 0, 0, 0, 0, 0, 0, 4, 0x41, 0x42, 0x3b, 0x31, 0]"

definition demo_iso :: "u32 \<Rightarrow> u8 list" where
  "demo_iso l = (if l = 390375 then padded (replicate 156 0 @ demo_root_record)
     else if l = 390379 then padded demo_file_record else replicate 2048 (ucast l))"

definition demo_cd :: block_device where
  "demo_cd = \<lparr>bd_sectorSize = 2048,
     bd_read = (\<lambda>i sector buffer count m. (0, write_bytes buffer (sector_run demo_iso sector (unat count)) m))\<rparr>"

definition demo_pwoff :: "unit pwoff_regs" where
  "demo_pwoff = \<lparr>rd_PWOFF = (\<lambda>h. (0, h)), wr_PWOFF = (\<lambda>v h. h)\<rparr>"

definition demo_entry :: dentry where
  "demo_entry = \<lparr>d_len = 38, d_name = [0x41, 0x42, 0x3b, 0x31], d_dir = False\<rparr>"

definition demo_events :: "bdm_event list" where
  "demo_events = [Nothing_happens, Disconnect 7, Connect 0x5000 demo_cd]"

lemma demo_iso_length: "length (demo_iso l) = 2048"
  by (simp add: demo_iso_def padded_def demo_root_record_def demo_file_record_def)

lemma demo_cd_disc: "disc_on demo_iso 1 demo_cd"
  by (simp add: disc_on_def bd_reads_def demo_cd_def demo_iso_length)

lemma demo_iso_disc: "bdm_disc demo_iso 390359 1 l = demo_iso (390359 + l)"
  by (simp add: bdm_disc_def demo_iso_length)

lemma padded_image: "length bs \<le> 2048 \<Longrightarrow>
  sector_image (padded bs) x = (if unat x < length bs then bs ! unat x else 0)"
  by (simp add: sector_image_def write_bytes_def padded_def nth_append)

lemma demo_root: "disc_root (bdm_disc demo_iso 390359 1) = \<lparr>rootDirtocLBA = 20, rootDirtocLength = 34\<rparr>"
proof -
  have d: "bdm_disc demo_iso 390359 1 16 = padded (replicate 156 0 @ demo_root_record)"
    by (simp add: demo_iso_disc [simplified] demo_iso_def)
  show ?thesis
    unfolding disc_root_def d entry_of_def dirTocEntry_at_def
    by (simp add: get_u16_def get_u32_def padded_image nth_append demo_root_record_def)
qed

lemma demo_dir: "dir_sector (padded demo_file_record) [demo_entry]"
  unfolding dir_sector_def
  by (simp add: dentry_at_def dirTocEntry_at_def get_u16_def padded_image demo_file_record_def demo_entry_def
      read_bytes_def upt_rec)

lemma demo_resolves: "resolves (bdm_readable 1) (bdm_disc demo_iso 390359 1) 20 34 [[0x41, 0x42, 0x3b, 0x31]]
  (Some (entry_of (padded demo_file_record) 0))"
proof -
  let ?disc = "bdm_disc demo_iso 390359 1"
  have d: "?disc 20 = padded demo_file_record" by (simp add: demo_iso_disc [simplified] demo_iso_def)
  have "dir_at (bdm_readable 1) ?disc 20 34 [[demo_entry]]"
    using demo_dir d by (simp add: dir_at_def sectors_of_def bdm_readable_def word_sless_alt)
  moreover have "dir_find ?disc [0x41, 0x42, 0x3b, 0x31] False 20 [[demo_entry]] = Some (entry_of (padded demo_file_record) 0)"
    using d by (simp add: demo_entry_def same_name_def)
  ultimately show ?thesis using resolves.final [where nm = "[0x41, 0x42, 0x3b, 0x31]"] by metis
qed

lemma demo_entry_of: "fileLBA (entry_of (padded demo_file_record) 0) = 100"
  "fileSize (entry_of (padded demo_file_record) 0) = 3000"
  by (simp_all add: entry_of_def dirTocEntry_at_def get_u32_def padded_image demo_file_record_def)


text \<open>The module with this disc in the drive, and the search for its file.\<close>

definition demo_disc_state :: "bdm_state cdvdman" where
  "demo_disc_state = (demo_state (demo_bdm\<lparr>g_bd := Some (0x5000, demo_cd), g_bd_sectors_per_sector := 1\<rparr>))
     \<lparr>cdvdman_cdinited := True, layer_info := (\<lparr>rootDirtocLBA = 20, rootDirtocLength = 34\<rparr>,
       \<lparr>rootDirtocLBA = 0, rootDirtocLength = 0\<rparr>)\<rparr>"


end
