(* ===== verification/Dev9.thy ===== *)
theory Dev9
  imports Prelude
begin

text \<open>
  The driver of the expansion bay (cdvdman/dev9.c): interrupt masks and their dispatch to the
  drivers of the disk and of the network, the DMA channel, the EEPROM, the two kinds of bay
  (PCMCIA and expansion bay). The bay's chip is hardware: its registers, its DMA channel and the
  passing of time are the functions of a record, on a state of the hardware.
\<close>

section \<open>The bus\<close>

text \<open>
  The registers by their names in the headers of the SDK; an 8-bit register is read and written
  with the low byte. The last group are the registers of the disk.
\<close>

datatype ioreg = DEV9_R_REV | DEV9_R_POWER | DEV9_R_1460 | DEV9_R_1464 | DEV9_R_1466 | DEV9_R_1474
  | DEV9_R_1476 | DEV9_R_147E | AIF_IDENT | AIF_INTSR | AIF_INTCL | AIF_INTEN
  | SPD_R_REV_1 | SPD_R_INTR_STAT | SPD_R_INTR_MASK | SPD_R_DMA_CTRL | SPD_R_XFR_CTRL | SPD_R_IF_CTRL
  | SPD_R_38 | SPD_R_PIO_DIR | SPD_R_PIO_DATA
  | r_data | r_error | r_feature | r_nsector | r_sector | r_lcyl | r_hcyl | r_select | r_status
  | r_command | r_control

datatype ssbus = SSBUS_R_1418 | SSBUS_R_141c | SSBUS_R_1420

text \<open>
  \<open>run_dma\<close> starts the channel with an address, a block count register and a direction (true:
  from memory), and runs it to its end; None when it never ends. \<open>wake\<close> is what ends a sleep on
  an event flag: an interrupt of the bay or the alarm. \<open>QueryBootMode6\<close> is the word the kernel's
  boot mode 6 points to, if there is one. Callbacks of other modules are numbered.
\<close>

datatype wake = Irq | Alarm_up

record 'h bus =
  rd_reg :: "ioreg \<Rightarrow> 'h \<Rightarrow> u16 \<times> 'h"
  wr_reg :: "ioreg \<Rightarrow> u16 \<Rightarrow> 'h \<Rightarrow> 'h"
  wr_ssbus :: "ssbus \<Rightarrow> u32 \<Rightarrow> 'h \<Rightarrow> 'h"
  run_dma :: "u32 \<Rightarrow> u32 \<Rightarrow> bool \<Rightarrow> 'h \<Rightarrow> mem \<Rightarrow> ('h \<times> mem) option"
  pass_time :: "nat \<Rightarrow> 'h \<Rightarrow> 'h"
  woken :: "'h \<Rightarrow> (wake \<times> 'h) option"
  AIF_INTR_PCMCIA :: u16
  QueryBootMode6 :: "u16 option"
  foreign_intr :: "nat \<Rightarrow> bool \<Rightarrow> 'h \<Rightarrow> 'h"
  foreign_dma :: "nat \<Rightarrow> u32 \<Rightarrow> u32 \<Rightarrow> 'h \<Rightarrow> 'h"
  foreign_shutdown :: "nat \<Rightarrow> 'h \<Rightarrow> 'h"

section \<open>State\<close>

text \<open>The callbacks the disk driver registers, and those of other modules.\<close>

datatype intr_cb = Ata_intr_cb | Foreign_intr nat
datatype dma_cb = Atad_PreDmaCb | Atad_PostDmaCb | Foreign_dma nat

text \<open>What \<open>ata_io_start\<close> leaves for \<open>ata_io_finish\<close>.\<close>

record ata_cmd_state_t =
  ata_type :: u32
  ata_buf :: u32
  blkcount :: u32
  ata_dir :: u32

record 'h dev9 =
  hw :: 'h
  dev9type :: int
  using_aif :: bool
  intr_installed :: bool
  dma_lock_sem :: nat
  eeprom_data :: "u16 list"
  dev9_intr_cbs :: "nat \<Rightarrow> intr_cb option"
  dev9_shutdown_cbs :: "nat \<Rightarrow> nat option"
  dev9_predma_cbs :: "nat \<Rightarrow> dma_cb option"
  dev9_postdma_cbs :: "nat \<Rightarrow> dma_cb option"
  atad_inited :: bool
  ata_evflg :: u32
  ata_alarm :: bool
  atad_cmd_state :: ata_cmd_state_t
  ata_io_sema :: nat

definition reg_rd :: "'h bus \<Rightarrow> ioreg \<Rightarrow> 'h dev9 \<Rightarrow> u16 \<times> 'h dev9" where
  "reg_rd bus r s = (let (v, h) = rd_reg bus r (hw s) in (v, s\<lparr>hw := h\<rparr>))"

definition reg_wr :: "'h bus \<Rightarrow> ioreg \<Rightarrow> u16 \<Rightarrow> 'h dev9 \<Rightarrow> 'h dev9" where
  "reg_wr bus r v s = s\<lparr>hw := wr_reg bus r v (hw s)\<rparr>"

text \<open>\<open>REG = f(REG)\<close>, and \<open>DelayThread\<close>.\<close>

definition reg_modify :: "'h bus \<Rightarrow> ioreg \<Rightarrow> (u16 \<Rightarrow> u16) \<Rightarrow> 'h dev9 \<Rightarrow> 'h dev9" where
  "reg_modify bus r f s = (let (v, s1) = reg_rd bus r s in reg_wr bus r (f v) s1)"

definition DelayThread_dev9 :: "'h bus \<Rightarrow> nat \<Rightarrow> 'h dev9 \<Rightarrow> 'h dev9" where
  "DelayThread_dev9 bus n s = s\<lparr>hw := pass_time bus n (hw s)\<rparr>"

section \<open>Registration\<close>

text \<open>Once the disk driver has started its two interrupts stay its own.\<close>

definition dev9RegisterIntrCb :: "nat \<Rightarrow> intr_cb option \<Rightarrow> 'h dev9 \<Rightarrow> 'h dev9" where
  "dev9RegisterIntrCb intr cb s =
     (if intr < 2 \<and> atad_inited s then s else s\<lparr>dev9_intr_cbs := (dev9_intr_cbs s)(intr := cb)\<rparr>)"

definition dev9RegisterPreDmaCb :: "nat \<Rightarrow> dma_cb option \<Rightarrow> 'h dev9 \<Rightarrow> 'h dev9" where
  "dev9RegisterPreDmaCb ctrl cb s = s\<lparr>dev9_predma_cbs := (dev9_predma_cbs s)(ctrl := cb)\<rparr>"

definition dev9RegisterPostDmaCb :: "nat \<Rightarrow> dma_cb option \<Rightarrow> 'h dev9 \<Rightarrow> 'h dev9" where
  "dev9RegisterPostDmaCb ctrl cb s = s\<lparr>dev9_postdma_cbs := (dev9_postdma_cbs s)(ctrl := cb)\<rparr>"

text \<open>\<open>idx < 16\<close> is a signed test, so a negative index gets through: None.\<close>

definition dev9RegisterShutdownCb :: "int \<Rightarrow> nat option \<Rightarrow> 'h dev9 \<Rightarrow> (int \<times> 'h dev9) option" where
  "dev9RegisterShutdownCb idx cb s =
     (if \<not> idx < 16 then Some (- 1, s)
      else if idx < 0 then None
      else Some (0, s\<lparr>dev9_shutdown_cbs := (dev9_shutdown_cbs s)(nat idx := cb)\<rparr>))"

section \<open>Interrupts\<close>

definition dev9IntrEnable :: "'h bus \<Rightarrow> u16 \<Rightarrow> 'h dev9 \<Rightarrow> 'h dev9" where
  "dev9IntrEnable bus bits = reg_modify bus SPD_R_INTR_MASK (\<lambda>v. v OR bits)"

definition dev9IntrDisable :: "'h bus \<Rightarrow> u16 \<Rightarrow> 'h dev9 \<Rightarrow> 'h dev9" where
  "dev9IntrDisable bus bits = reg_modify bus SPD_R_INTR_MASK (\<lambda>v. v AND NOT bits)"

text \<open>\<open>ata_intr_cb\<close> and \<open>ata_alarm_cb\<close> of atad.c. The bits of the disk's interrupts are 1 and 2.\<close>

definition SPD_INTR_ATA0 :: u16 where "SPD_INTR_ATA0 = 1"
definition SPD_INTR_ATA :: u16 where "SPD_INTR_ATA = 3"
definition ATA_EV_TIMEOUT :: u32 where "ATA_EV_TIMEOUT = 1"
definition ATA_EV_COMPLETE :: u32 where "ATA_EV_COMPLETE = 2"

definition ata_intr_cb :: "'h bus \<Rightarrow> bool \<Rightarrow> 'h dev9 \<Rightarrow> 'h dev9" where
  "ata_intr_cb bus flag s =
     (if \<not> flag then (dev9IntrDisable bus SPD_INTR_ATA s)\<lparr>ata_evflg := ata_evflg s OR ATA_EV_COMPLETE\<rparr>
      else s)"

definition ata_alarm_cb :: "'h dev9 \<Rightarrow> 'h dev9" where
  "ata_alarm_cb s = s\<lparr>ata_evflg := ata_evflg s OR ATA_EV_TIMEOUT, ata_alarm := False\<rparr>"

definition call_intr :: "'h bus \<Rightarrow> intr_cb option \<Rightarrow> bool \<Rightarrow> 'h dev9 \<Rightarrow> 'h dev9" where
  "call_intr bus cb flag s =
     (case cb of
        None \<Rightarrow> s
      | Some Ata_intr_cb \<Rightarrow> ata_intr_cb bus flag s
      | Some (Foreign_intr n) \<Rightarrow> s\<lparr>hw := foreign_intr bus n flag (hw s)\<rparr>)"

definition intr_pending :: "'h bus \<Rightarrow> 'h dev9 \<Rightarrow> u16 \<times> 'h dev9" where
  "intr_pending bus s = (let (a, s1) = reg_rd bus SPD_R_INTR_STAT s; (b, s2) = reg_rd bus SPD_R_INTR_MASK s1 in (a AND b, s2))"

text \<open>One pass over the 16 callbacks, and passes until no enabled interrupt is pending.\<close>

definition dispatch_pass :: "'h bus \<Rightarrow> bool \<Rightarrow> 'h dev9 \<Rightarrow> 'h dev9" where
  "dispatch_pass bus flag s = fold (\<lambda>i s.
     if dev9_intr_cbs s i = None then s
     else let (p, s1) = intr_pending bus s
          in if bit p i then call_intr bus (dev9_intr_cbs s1 i) flag s1 else s1) [0..<16] s"

partial_function (option) dispatch_loop :: "'h bus \<Rightarrow> bool \<Rightarrow> 'h dev9 \<Rightarrow> 'h dev9 option" where
  "dispatch_loop bus flag s =
     (let (p, s1) = intr_pending bus s
      in if p = 0 then Some s1 else dispatch_loop bus flag (dispatch_pass bus flag s1))"

definition dev9_intr_dispatch :: "'h bus \<Rightarrow> bool \<Rightarrow> 'h dev9 \<Rightarrow> 'h dev9 option" where
  "dev9_intr_dispatch bus flag s =
     dispatch_loop bus flag
       (if flag then fold (\<lambda>i s. call_intr bus (dev9_intr_cbs s i) flag s) [0..<16] s else s)"

text \<open>The handlers of the two kinds of bay. \<open>using_aif\<close> is the interface of a development machine.\<close>

definition intr_cb_called :: "'h bus \<Rightarrow> bool \<Rightarrow> 'h dev9 \<Rightarrow> 'h dev9 option" where
  "intr_cb_called bus flag s = (if intr_installed s then dev9_intr_dispatch bus flag s else Some s)"

definition expbay_intr :: "'h bus \<Rightarrow> 'h dev9 \<Rightarrow> 'h dev9 option" where
  "expbay_intr bus s =
     map_option (reg_wr bus DEV9_R_1466 0 \<circ> reg_wr bus DEV9_R_1466 1) (intr_cb_called bus False s)"

definition pcmcia_ack :: "'h bus \<Rightarrow> u16 \<Rightarrow> u16 \<Rightarrow> 'h dev9 \<Rightarrow> 'h dev9 option" where
  "pcmcia_ack bus cstc1 cstc2 s = do {
     let s1 = reg_wr bus DEV9_R_1466 cstc2 (reg_wr bus DEV9_R_1464 cstc1 s);
     s2 \<leftarrow> (if cstc1 AND 3 \<noteq> 0 \<or> cstc2 AND 3 \<noteq> 0
            then map_option (reg_wr bus DEV9_R_1474 0 \<circ> reg_wr bus DEV9_R_POWER 0) (intr_cb_called bus True s1)
            else Some s1);
     s3 \<leftarrow> (if cstc1 AND 0x80 \<noteq> 0 \<or> cstc2 AND 0x80 \<noteq> 0 then intr_cb_called bus False s2 else Some s2);
     Some (reg_wr bus DEV9_R_147E 0 (reg_wr bus DEV9_R_147E 1 s3)) }"

definition pcmcia_intr :: "'h bus \<Rightarrow> 'h dev9 \<Rightarrow> (u32 \<times> 'h dev9) option" where
  "pcmcia_intr bus s =
     (let (cstc1, s1) = reg_rd bus DEV9_R_1464 s; (cstc2, s2) = reg_rd bus DEV9_R_1466 s1
      in if using_aif s2
         then let (i, s3) = reg_rd bus AIF_INTSR s2
              in if i AND AIF_INTR_PCMCIA bus \<noteq> 0
                 then map_option (Pair 1) (pcmcia_ack bus cstc1 cstc2 (reg_wr bus AIF_INTCL (AIF_INTR_PCMCIA bus) s3))
                 else Some (0, s3)
         else map_option (Pair 1) (pcmcia_ack bus cstc1 cstc2 s2))"

section \<open>DMA\<close>

text \<open>\<open>AtadPreDmaCb\<close> and \<open>AtadPostDmaCb\<close> of atad.c switch the disk's DMA on and off.\<close>

definition AtadPreDmaCb :: "'h bus \<Rightarrow> 'h dev9 \<Rightarrow> 'h dev9" where
  "AtadPreDmaCb bus = reg_modify bus SPD_R_XFR_CTRL (\<lambda>v. v OR 0x80)"

definition AtadPostDmaCb :: "'h bus \<Rightarrow> 'h dev9 \<Rightarrow> 'h dev9" where
  "AtadPostDmaCb bus = reg_modify bus SPD_R_XFR_CTRL (\<lambda>v. v AND NOT 0x80)"

definition call_dma :: "'h bus \<Rightarrow> dma_cb option \<Rightarrow> u32 \<Rightarrow> u32 \<Rightarrow> 'h dev9 \<Rightarrow> 'h dev9" where
  "call_dma bus cb bcr dir s =
     (case cb of
        None \<Rightarrow> s
      | Some Atad_PreDmaCb \<Rightarrow> AtadPreDmaCb bus s
      | Some Atad_PostDmaCb \<Rightarrow> AtadPostDmaCb bus s
      | Some (Foreign_dma n) \<Rightarrow> s\<lparr>hw := foreign_dma bus n bcr dir (hw s)\<rparr>)"

text \<open>A lock that is taken blocks for ever: None.\<close>

definition dev9DmaTransfer ::
  "'h bus \<Rightarrow> nat \<Rightarrow> u32 \<Rightarrow> u32 \<Rightarrow> u32 \<Rightarrow> 'h dev9 \<times> mem \<Rightarrow> (int \<times> 'h dev9 \<times> mem) option" where
  "dev9DmaTransfer bus ctrl buf bcr dir = (\<lambda>(s, m).
     if ctrl > 3 \<or> ctrl \<in> {2, 3} \<and> (dev9_predma_cbs s ctrl = None \<or> dev9_postdma_cbs s ctrl = None)
     then Some (- 1, s, m)
     else if dma_lock_sem s = 0 then None
     else let dmactrl = (if ctrl \<in> {0, 1} then of_nat ctrl else push_bit ctrl 4);
              (rev, s1) = reg_rd bus SPD_R_REV_1 (s\<lparr>dma_lock_sem := dma_lock_sem s - 1\<rparr>);
              s2 = reg_wr bus SPD_R_DMA_CTRL (if rev < 17 then (dmactrl AND 3) OR 4 else (dmactrl AND 1) OR 6) s1;
              s3 = call_dma bus (dev9_predma_cbs s2 ctrl) bcr dir s2
          in map_option (\<lambda>(h, m').
                 let s4 = call_dma bus (dev9_postdma_cbs s3 ctrl) bcr dir (s3\<lparr>hw := h\<rparr>)
                 in (0, s4\<lparr>dma_lock_sem := 1\<rparr>, m'))
               (run_dma bus buf bcr (dir AND 1 \<noteq> 0) (hw s3) m))"

section \<open>The EEPROM\<close>

text \<open>
  Nine bits of command go out on the data line, then each of the four words is clocked in from
  its top bit. A value is held on the lines for a microsecond.
\<close>

definition pio :: "'h bus \<Rightarrow> u16 \<Rightarrow> 'h dev9 \<Rightarrow> 'h dev9" where
  "pio bus v s = DelayThread_dev9 bus 1 (reg_wr bus SPD_R_PIO_DATA v s)"

definition eeprom_bit :: "'h bus \<Rightarrow> u16 \<times> 'h dev9 \<Rightarrow> nat \<Rightarrow> u16 \<times> 'h dev9" where
  "eeprom_bit bus = (\<lambda>(w, s) j.
     let (v, s1) = reg_rd bus SPD_R_PIO_DATA (pio bus 0xc0 s)
     in (if v AND 0x10 \<noteq> 0 then w OR push_bit j 1 else w, pio bus 0x80 s1))"

definition eeprom_word :: "'h bus \<Rightarrow> 'h dev9 \<Rightarrow> u16 \<times> 'h dev9" where
  "eeprom_word bus s = foldl (eeprom_bit bus) (0, s) (rev [0..<16])"

definition eeprom_slot :: "'h bus \<Rightarrow> nat \<Rightarrow> 'h dev9 \<Rightarrow> 'h dev9" where
  "eeprom_slot bus i s =
     (let (w, s1) = eeprom_word bus s in s1\<lparr>eeprom_data := (eeprom_data s1)[Suc i := w]\<rparr>)"

definition eeprom_words :: "'h bus \<Rightarrow> 'h dev9 \<Rightarrow> 'h dev9" where
  "eeprom_words bus s = fold (eeprom_slot bus) [0..<4] s"

definition eeprom_command :: "'h bus \<Rightarrow> 'h dev9 \<Rightarrow> 'h dev9" where
  "eeprom_command bus s =
     fold (pio bus) ([0x80] @ concat (replicate 2 [0xa0, 0xe0]) @ concat (replicate 7 [0x80, 0xc0]) @ [0xc0])
       (DelayThread_dev9 bus 1 (reg_wr bus SPD_R_PIO_DIR 0xe1 s))"

definition read_eeprom_data :: "'h bus \<Rightarrow> 'h dev9 \<Rightarrow> int \<times> 'h dev9" where
  "read_eeprom_data bus s =
     (let (res, s1) =
        (if eeprom_data s ! 0 <s 0 then (- 2, s)
         else let (v, s2) = reg_rd bus SPD_R_PIO_DATA (eeprom_command bus s); s3 = DelayThread_dev9 bus 1 s2
           in if v AND 0x10 \<noteq> 0
              then let s4 = pio bus 0 s3 in (- 1, s4\<lparr>eeprom_data := (eeprom_data s4)[0 := 0]\<rparr>)
              else let s4 = pio bus 0 (eeprom_words bus (pio bus 0x80 s3))
                   in (0, s4\<lparr>eeprom_data := (eeprom_data s4)[0 := 1]\<rparr>))
      in (res, reg_wr bus SPD_R_PIO_DIR 1 s1))"

text \<open>The result and the four words stored at the caller's buffer.\<close>

definition dev9GetEEPROM :: "'h dev9 \<Rightarrow> int \<times> u16 list" where
  "dev9GetEEPROM s =
     (if eeprom_data s ! 0 = 0 then (- 1, [])
      else if eeprom_data s ! 0 <s 0 then (- 2, [])
      else (0, map (\<lambda>i. eeprom_data s ! Suc i) [0..<4]))"

definition dev9LEDCtl :: "'h bus \<Rightarrow> nat \<Rightarrow> 'h dev9 \<Rightarrow> 'h dev9" where
  "dev9LEDCtl bus ctl = reg_wr bus SPD_R_PIO_DATA (if ctl = 0 then 1 else 0)"

section \<open>Start-up and shutdown\<close>

definition pcmcia_stat :: "u16 \<Rightarrow> u16" where
  "pcmcia_stat stat =
     (let v0 = (if stat AND 0x10 \<noteq> 0 then 1 else stat AND 1)
      in fold (\<lambda>(b, to) v. if stat AND b \<noteq> 0 then v OR to else v)
           [(0x02, 0x02), (0x20, 0x02), (0x04, 0x08), (0x08, 0x10), (0x200, 0x20), (0x100, 0x40),
            (0x400, 0x80), (0x800, 0x04)] v0)"

definition pcmcia_set_stat :: "'h bus \<Rightarrow> u16 \<Rightarrow> 'h dev9 \<Rightarrow> 'h dev9" where
  "pcmcia_set_stat bus stat = reg_wr bus DEV9_R_1476 (pcmcia_stat stat AND 0xff)"

definition expbay_set_stat :: "'h bus \<Rightarrow> u16 \<Rightarrow> 'h dev9 \<Rightarrow> 'h dev9" where
  "expbay_set_stat bus stat = reg_wr bus DEV9_R_1464 (stat AND 0x3f)"

definition dev9_set_stat :: "'h bus \<Rightarrow> u16 \<Rightarrow> 'h dev9 \<Rightarrow> 'h dev9" where
  "dev9_set_stat bus stat s =
     (if dev9type s = 0 then pcmcia_set_stat bus stat s
      else if dev9type s = 1 then expbay_set_stat bus stat s else s)"

text \<open>The semaphore is always created. The kernel's DMA controller is enabled for the bay.\<close>

definition dev9_init :: "'h bus \<Rightarrow> 'h dev9 \<Rightarrow> int \<times> 'h dev9" where
  "dev9_init bus s =
     (let s1 = dev9IntrDisable bus 0xffff (dev9_set_stat bus 0x103 (s\<lparr>dma_lock_sem := 1\<rparr>));
          s2 = s1\<lparr>intr_installed := True, dev9_intr_cbs := (\<lambda>_. None), dev9_predma_cbs := (\<lambda>_. None),
            dev9_postdma_cbs := (\<lambda>_. None)\<rparr>
      in (0, dev9LEDCtl bus 0 (snd (read_eeprom_data bus s2))))"

definition ssbus_write :: "'h bus \<Rightarrow> ssbus \<Rightarrow> u32 \<Rightarrow> 'h dev9 \<Rightarrow> 'h dev9" where
  "ssbus_write bus r v s = s\<lparr>hw := wr_ssbus bus r v (hw s)\<rparr>"

definition expbay_init :: "'h bus \<Rightarrow> 'h dev9 \<Rightarrow> int \<times> 'h dev9" where
  "expbay_init bus s =
     (let s1 = ssbus_write bus SSBUS_R_141c 0xef1a3043 (ssbus_write bus SSBUS_R_1418 0xe01a3043
            (ssbus_write bus SSBUS_R_1420 0x51011 s));
          (r, s2) = dev9_init bus s1
      in if r \<noteq> 0 then (1, s2) else (0, reg_wr bus DEV9_R_1466 0 s2))"

text \<open>A development machine goes through the AIF, which must be there.\<close>

definition pcmcia_aif :: "'h bus \<Rightarrow> 'h dev9 \<Rightarrow> bool \<times> 'h dev9" where
  "pcmcia_aif bus s =
     (case QueryBootMode6 bus of
        None \<Rightarrow> (True, s)
      | Some m \<Rightarrow>
          if m AND 0xfe \<noteq> 0x60 then (True, s)
          else let (v, s1) = reg_rd bus AIF_IDENT s
               in if v = 0xa1 then (True, (reg_wr bus AIF_INTEN (AIF_INTR_PCMCIA bus) s1)\<lparr>using_aif := True\<rparr>)
                  else (False, s1))"

definition pcmcia_init :: "'h bus \<Rightarrow> 'h dev9 \<Rightarrow> int \<times> 'h dev9" where
  "pcmcia_init bus s =
     (let s1 = ssbus_write bus SSBUS_R_141c 0xef1a3043 (ssbus_write bus SSBUS_R_1418 0x1a00bb
            (ssbus_write bus SSBUS_R_1420 0x51011 s));
          (ok, s2) = pcmcia_aif bus s1
      in if \<not> ok then (1, s2)
         else let (r, s3) = dev9_init bus (ssbus_write bus SSBUS_R_1418 0xe01a3043 s2)
              in if r \<noteq> 0 then (1, s3) else (0, reg_wr bus DEV9_R_147E 0 s3))"

text \<open>The shutdown callbacks are cleared, then the revision register says which bay it is.\<close>

definition dev9d_init :: "'h bus \<Rightarrow> 'h dev9 \<Rightarrow> int \<times> 'h dev9" where
  "dev9d_init bus s =
     (let (v, s1) = reg_rd bus DEV9_R_REV (s\<lparr>dev9_shutdown_cbs := (\<lambda>_. None)\<rparr>); dev9hw = v AND 0xf0
      in if dev9hw = 0x20 then pcmcia_init bus (s1\<lparr>dev9type := 0\<rparr>)
         else if dev9hw = 0x30 then expbay_init bus (s1\<lparr>dev9type := 1\<rparr>)
         else (1, s1))"

definition shutdown_calls :: "'h bus \<Rightarrow> 'h dev9 \<Rightarrow> 'h dev9" where
  "shutdown_calls bus s = fold (\<lambda>i s. case dev9_shutdown_cbs s i of
     None \<Rightarrow> s | Some n \<Rightarrow> s\<lparr>hw := foreign_shutdown bus n (hw s)\<rparr>) [0..<16] s"

definition dev9Shutdown :: "'h bus \<Rightarrow> 'h dev9 \<Rightarrow> 'h dev9" where
  "dev9Shutdown bus s =
     (let s1 = shutdown_calls bus s
      in DelayThread_dev9 bus 1000000
        (if dev9type s1 = 0 then reg_wr bus DEV9_R_1474 0 (reg_wr bus DEV9_R_POWER 0 s1)
         else if dev9type s1 = 1
         then let (v, s2) = reg_rd bus DEV9_R_1464 (reg_wr bus DEV9_R_1464 0 (reg_wr bus DEV9_R_1466 1 s1))
              in reg_modify bus DEV9_R_POWER (\<lambda>v. v AND NOT 1)
                   (reg_modify bus DEV9_R_POWER (\<lambda>v. v AND NOT 4) (reg_wr bus DEV9_R_1460 v s2))
         else s1))"

text \<open>The two commands of the device \<open>dev9x\<close>; their numbers are the SDK's.\<close>

definition dev9x_devctl :: "'h bus \<Rightarrow> u32 \<Rightarrow> u32 \<Rightarrow> u32 \<Rightarrow> 'h dev9 \<Rightarrow> int \<times> 'h dev9" where
  "dev9x_devctl bus DDIOC_MODEL DDIOC_OFF cmd s =
     (if cmd = DDIOC_MODEL then (dev9type s, s)
      else if cmd = DDIOC_OFF then (0, dev9Shutdown bus s) else (0, s))"

end
