(* ===== verification/Atad.thy ===== *)
theory Atad
  imports Dev9
begin

text \<open>
  The disk driver (cdvdman/atad.c) over the registers of the bay: waiting for the device,
  issuing a command (\<open>ata_io_start\<close>), finishing it (\<open>ata_io_finish\<close>) and the sector access made of
  the two. The numbers of commands and of status bits are those of the ATA standard. \<open>vmc\<close> says
  whether the module is built with \<open>VMC_DRIVER\<close>: then a semaphore guards the access and writes
  are commands of their own.
\<close>

section \<open>Numbers\<close>

definition ATA_RES_ERR_NOTREADY :: int where [simp]: "ATA_RES_ERR_NOTREADY = - 501"
definition ATA_RES_ERR_TIMEOUT :: int where [simp]: "ATA_RES_ERR_TIMEOUT = - 502"
definition ATA_RES_ERR_IO :: int where [simp]: "ATA_RES_ERR_IO = - 503"
definition ATA_RES_ERR_CMD :: int where [simp]: "ATA_RES_ERR_CMD = - 506"
definition ATA_RES_ERR_ICRC :: int where [simp]: "ATA_RES_ERR_ICRC = - 510"

definition ATA_C_READ_DMA :: u16 where [simp]: "ATA_C_READ_DMA = 0xC8"
definition ATA_C_READ_DMA_EXT :: u16 where [simp]: "ATA_C_READ_DMA_EXT = 0x25"
definition ATA_C_WRITE_DMA :: u16 where [simp]: "ATA_C_WRITE_DMA = 0xCA"
definition ATA_C_WRITE_DMA_EXT :: u16 where [simp]: "ATA_C_WRITE_DMA_EXT = 0x35"
definition ATA_C_SMART :: u16 where [simp]: "ATA_C_SMART = 0xB0"
definition ATA_SEL_LBA :: u16 where [simp]: "ATA_SEL_LBA = 0x40"
definition ATA_STAT_BUSY :: u16 where [simp]: "ATA_STAT_BUSY = 0x80"
definition ATA_STAT_ERR :: u16 where [simp]: "ATA_STAT_ERR = 1"
definition ATA_ERR_ICRC :: u16 where [simp]: "ATA_ERR_ICRC = 0x80"
definition SPD_IF_DMA_ENABLE :: u16 where [simp]: "SPD_IF_DMA_ENABLE = 4"

text \<open>The commands that may be sent to a device that is not ready: device reset, execute
  diagnostic, initialize parameters, packet, identify packet device.\<close>

definition sent_unready :: "u16 list" where
  "sent_unready = [0x08, 0x90, 0x91, 0xA0, 0xA1]"

text \<open>Command and type: 1 no data, 2 PIO in, 4 DMA, 7 a subcommand; bit 7 marks 48-bit addresses.\<close>

definition ata_cmd_table :: "(u8 \<times> u8) list" where
  "ata_cmd_table = [(0xC8, 0x04), (0xEC, 0x02), (0xA1, 0x02), (0xB0, 0x07), (0xEF, 0x01), (0x25, 0x84),
     (0xCA, 0x04), (0xE3, 0x01), (0x35, 0x84)]"

definition smart_cmd_table :: "(u8 \<times> u8) list" where
  "smart_cmd_table = [(0xD8, 0x01)]"

section \<open>Waiting for the device\<close>

text \<open>80 polls, the first ten at once, then ten at each of growing intervals (in microseconds).\<close>

definition busy_delays :: "nat list" where
  "busy_delays = concat (map (replicate 10) [0, 100, 1000, 10000, 100000, 1000000, 1000000, 1000000])"

primrec wait_busy :: "'h bus \<Rightarrow> u16 \<Rightarrow> nat list \<Rightarrow> 'h dev9 \<Rightarrow> int \<times> 'h dev9" where
  "wait_busy bus bits [] s = (ATA_RES_ERR_TIMEOUT, s)"
| "wait_busy bus bits (d # ds) s =
     (let (v, s1) = reg_rd bus r_control s
      in if v AND bits = 0 then (0, s1)
         else wait_busy bus bits ds (if d = 0 then s1 else DelayThread_dev9 bus d s1))"

definition gen_ata_wait_busy :: "'h bus \<Rightarrow> u16 \<Rightarrow> 'h dev9 \<Rightarrow> int \<times> 'h dev9" where
  "gen_ata_wait_busy bus bits = wait_busy bus bits busy_delays"

definition ata_device_select :: "'h bus \<Rightarrow> u16 \<Rightarrow> 'h dev9 \<Rightarrow> int \<times> 'h dev9" where
  "ata_device_select bus device s =
     (let (res, s1) = gen_ata_wait_busy bus 0x88 s
      in if res < 0 then (res, s1)
         else let (v, s2) = reg_rd bus r_select s1
              in if drop_bit 4 v AND 1 = device then (0, s2)
                 else let s3 = reg_wr bus r_select (push_bit 4 (device AND 1)) s2;
                          s4 = snd (reg_rd bus r_control (snd (reg_rd bus r_control s3)))
                      in gen_ata_wait_busy bus 0x88 s4)"

definition ata_get_error :: "'h bus \<Rightarrow> 'h dev9 \<Rightarrow> u16 \<times> 'h dev9" where
  "ata_get_error bus s = (let (v, s1) = reg_rd bus r_error s in (v AND 0xff, s1))"

text \<open>
  Sleeping on the event flag until the command completes or its alarm goes off: the interrupt
  runs the bay's handler, which calls the disk driver's.
\<close>

definition bay_intr :: "'h bus \<Rightarrow> 'h dev9 \<Rightarrow> 'h dev9 option" where
  "bay_intr bus s =
     (if dev9type s = 0 then map_option snd (pcmcia_intr bus s)
      else if dev9type s = 1 then expbay_intr bus s else Some s)"

partial_function (option) ata_wait_event :: "'h bus \<Rightarrow> 'h dev9 \<Rightarrow> (u32 \<times> 'h dev9) option" where
  "ata_wait_event bus s =
     (if ata_evflg s AND (ATA_EV_TIMEOUT OR ATA_EV_COMPLETE) \<noteq> 0
      then Some (ata_evflg s, s\<lparr>ata_evflg := 0\<rparr>)
      else case woken bus (hw s) of
        None \<Rightarrow> None
      | Some (w, h) \<Rightarrow>
          let s1 = s\<lparr>hw := h\<rparr>
          in if w = Alarm_up then ata_wait_event bus (if ata_alarm s1 then ata_alarm_cb s1 else s1)
             else Option.bind (bay_intr bus s1) (ata_wait_event bus))"

section \<open>\<open>ata_io_start\<close>\<close>

record taskfile =
  t_feature :: u16
  t_nsector :: u16
  t_sector :: u16
  t_lcyl :: u16
  t_hcyl :: u16
  t_select :: u16
  t_command :: u16

definition cmd_type :: "taskfile \<Rightarrow> u8" where
  "cmd_type t =
     (let (table, cmd) = (if t_command t = ATA_C_SMART then (smart_cmd_table, ucast (t_feature t))
                          else (ata_cmd_table, ucast (t_command t)))
      in case map_of table cmd of Some ty \<Rightarrow> ty | None \<Rightarrow> 0)"

text \<open>A 48-bit command writes the upper bytes of the registers first.\<close>

definition write_task :: "'h bus \<Rightarrow> bool \<Rightarrow> taskfile \<Rightarrow> 'h dev9 \<Rightarrow> 'h dev9" where
  "write_task bus ext t s =
     (let up = (\<lambda>v. drop_bit 8 v AND 0xff);
          s1 = (if ext
            then reg_wr bus r_hcyl (up (t_hcyl t)) (reg_wr bus r_lcyl (up (t_lcyl t)) (reg_wr bus r_sector (up (t_sector t))
                   (reg_wr bus r_nsector (up (t_nsector t)) (reg_wr bus r_feature (up (t_feature t)) s))))
            else s)
      in reg_wr bus r_command (t_command t AND 0xff) (reg_wr bus r_select ((t_select t OR ATA_SEL_LBA) AND 0xff)
           (reg_wr bus r_hcyl (t_hcyl t AND 0xff) (reg_wr bus r_lcyl (t_lcyl t AND 0xff)
             (reg_wr bus r_sector (t_sector t AND 0xff) (reg_wr bus r_nsector (t_nsector t AND 0xff)
               (reg_wr bus r_feature (t_feature t AND 0xff) s1)))))))"

definition ata_io_start :: "'h bus \<Rightarrow> u32 \<Rightarrow> u32 \<Rightarrow> taskfile \<Rightarrow> 'h dev9 \<Rightarrow> int \<times> 'h dev9" where
  "ata_io_start bus buf blks t s =
     (let (res, s1) = ata_device_select bus (drop_bit 4 (t_select t) AND 1) (s\<lparr>ata_evflg := 0\<rparr>);
          type = cmd_type t; ty = type AND 0x7F;
          s2 = s1\<lparr>atad_cmd_state := (atad_cmd_state s1)\<lparr>ata_type := ucast ty\<rparr>\<rparr>
      in if res \<noteq> 0 then (res, s1)
         else if ty = 0 then (ATA_RES_ERR_CMD, s2)
         else let (v, s3) = reg_rd bus r_control (s2\<lparr>atad_cmd_state := (atad_cmd_state s2)\<lparr>ata_buf := buf, blkcount := blks\<rparr>\<rparr>)
           in if v AND 0x40 = 0 \<and> t_command t \<notin> set sent_unready then (ATA_RES_ERR_NOTREADY, s3)
              else let using_timeout = (ty = 1 \<or> ty = 6 \<or> ty = 4);
                       s4 = (if ty = 4
                             then s3\<lparr>atad_cmd_state := (atad_cmd_state s3)\<lparr>ata_dir :=
                               if t_command t \<noteq> ATA_C_READ_DMA \<and> t_command t \<noteq> ATA_C_READ_DMA_EXT then 1 else 0\<rparr>\<rparr>
                             else s3);
                       s5 = (if using_timeout then s4\<lparr>ata_alarm := True\<rparr> else s4);
                       s6 = (if ty = 1 then dev9IntrEnable bus SPD_INTR_ATA0 s5 else s5);
                       s7 = reg_wr bus r_control (if using_timeout then 0 else 2) s6
                   in (0, dev9LEDCtl bus 1 (write_task bus (type AND 0x80 \<noteq> 0) t s7)))"

section \<open>\<open>ata_io_finish\<close>\<close>

text \<open>\<open>ata_pio_transfer\<close> returns at once: the code behind its first \<open>return\<close> is never reached.\<close>

definition ata_pio_transfer :: "'h bus \<Rightarrow> 'h dev9 \<Rightarrow> int \<times> 'h dev9" where
  "ata_pio_transfer bus s = (0, reg_wr bus SPD_R_PIO_DATA 0 s)"

text \<open>At most \<open>n\<close> polls of a register for any of some bits.\<close>

primrec poll_bits :: "'h bus \<Rightarrow> ioreg \<Rightarrow> u16 \<Rightarrow> nat \<Rightarrow> 'h dev9 \<Rightarrow> u16 \<times> 'h dev9" where
  "poll_bits bus r bits 0 s = (0, s)"
| "poll_bits bus r bits (Suc n) s =
     (let (v, s1) = reg_rd bus r s in if v AND bits \<noteq> 0 then (v AND bits, s1) else poll_bits bus r bits n s1)"

definition cmd_error :: "'h bus \<Rightarrow> 'h dev9 \<Rightarrow> int \<times> 'h dev9" where
  "cmd_error bus s =
     (let (e, s1) = ata_get_error bus s
      in (if e AND ATA_ERR_ICRC \<noteq> 0 then ATA_RES_ERR_ICRC else ATA_RES_ERR_IO, s1))"

text \<open>
  How many blocks the FIFO has room for or holds: the answer of the polls, or of a sleep. Left: an
  error; right None: an interrupt that was not for the DMA.
\<close>

definition dma_ready :: "'h bus \<Rightarrow> 'h dev9 \<Rightarrow> ((int + u16 option) \<times> 'h dev9) option" where
  "dma_ready bus s =
     (let (v, s1) = poll_bits bus SPD_R_38 0x1f 20 s
      in if v \<noteq> 0 then Some (Inr (Some v), s1)
         else case ata_wait_event bus (dev9IntrEnable bus SPD_INTR_ATA s1) of
           None \<Rightarrow> None
         | Some (bits, s2) \<Rightarrow>
             if bits AND ATA_EV_TIMEOUT \<noteq> 0 then Some (Inl ATA_RES_ERR_TIMEOUT, s2)
             else let (i, s3) = reg_rd bus SPD_R_INTR_STAT s2
               in if i AND 2 = 0
                  then let (c, s4) = reg_rd bus r_control s3
                       in if c AND 1 \<noteq> 0 then let (e, s5) = cmd_error bus s4 in Some (Inl e, s5)
                          else Some (Inr None, s4)
                  else let (v, s4) = reg_rd bus SPD_R_38 s3 in Some (Inr (Some (v AND 0x1f)), s4))"

definition dma_bcr :: "u32 \<Rightarrow> u32" where
  "dma_bcr count = push_bit 9 (count * 512) OR 32"

partial_function (option) ata_dma_complete ::
  "'h bus \<Rightarrow> u32 \<Rightarrow> u32 \<Rightarrow> u32 \<Rightarrow> 'h dev9 \<times> mem \<Rightarrow> (int \<times> 'h dev9 \<times> mem) option" where
  "ata_dma_complete bus buf blks dir q =
     (if blks = 0 then Some (0, q)
      else Option.bind (dma_ready bus (fst q)) (\<lambda>(x, s1).
        case x of
          Inl e \<Rightarrow> Some (e, s1, snd q)
        | Inr None \<Rightarrow> ata_dma_complete bus buf blks dir (s1, snd q)
        | Inr (Some dma_stat) \<Rightarrow>
            let count = (if blks <s ucast dma_stat then blks else ucast dma_stat)
            in Option.bind (dev9DmaTransfer bus 0 buf (dma_bcr count) dir (s1, snd q)) (\<lambda>(res, q2).
                 if res < 0 then Some (res, q2)
                 else ata_dma_complete bus (buf + count * 512) (blks - count) dir q2)))"

primrec pio_loop :: "'h bus \<Rightarrow> nat \<Rightarrow> 'h dev9 \<Rightarrow> int \<times> 'h dev9" where
  "pio_loop bus 0 s = (0, s\<lparr>atad_cmd_state := (atad_cmd_state s)\<lparr>blkcount := - 1\<rparr>\<rparr>)"
| "pio_loop bus (Suc n) s =
     (let (r, s1) = ata_pio_transfer bus (s\<lparr>atad_cmd_state := (atad_cmd_state s)\<lparr>blkcount := of_nat n\<rparr>\<rparr>)
      in if r < 0 then (r, s1)
         else let (r', s2) = gen_ata_wait_busy bus 0x80 s1
              in if r' < 0 then (r', s2) else pio_loop bus n s2)"

text \<open>The end of every command but a timed-out one without data.\<close>

definition cmd_finish :: "'h bus \<Rightarrow> int \<Rightarrow> 'h dev9 \<Rightarrow> int \<times> 'h dev9" where
  "cmd_finish bus res s = (res, dev9LEDCtl bus 0 (s\<lparr>ata_alarm := False\<rparr>))"

definition check_status :: "'h bus \<Rightarrow> 'h dev9 \<Rightarrow> int \<times> 'h dev9" where
  "check_status bus s =
     (let (v, s1) = reg_rd bus r_status s;
          (res, s2) = (if v AND ATA_STAT_BUSY \<noteq> 0 then gen_ata_wait_busy bus 0x80 s1 else (0, s1));
          (stat, s3) = reg_rd bus r_status s2
      in if stat AND ATA_STAT_ERR \<noteq> 0 then let (e, s4) = cmd_error bus s3 in cmd_finish bus e s4
         else cmd_finish bus res s3)"

definition finish_dma :: "'h bus \<Rightarrow> 'h dev9 \<Rightarrow> (int \<times> 'h dev9) option" where
  "finish_dma bus s =
     (let (v, s1) = poll_bits bus SPD_R_INTR_STAT 1 100 s
      in if v \<noteq> 0 then Some (check_status bus s1)
         else map_option (\<lambda>(bits, s2).
                if bits AND ATA_EV_TIMEOUT \<noteq> 0 then cmd_finish bus ATA_RES_ERR_TIMEOUT s2 else check_status bus s2)
              (ata_wait_event bus (dev9IntrEnable bus SPD_INTR_ATA0 s1)))"

definition ata_io_finish :: "'h bus \<Rightarrow> 'h dev9 \<times> mem \<Rightarrow> (int \<times> 'h dev9 \<times> mem) option" where
  "ata_io_finish bus q =
     (let s = fst q; m = snd q; c = atad_cmd_state s
      in if ata_type c = 1 \<or> ata_type c = 6
         then map_option (\<lambda>(bits, s1).
                if bits AND ATA_EV_TIMEOUT \<noteq> 0 then (ATA_RES_ERR_TIMEOUT, s1, m)
                else let (r, s2) = check_status bus s1 in (r, s2, m))
              (ata_wait_event bus s)
         else if ata_type c = 4
         then Option.bind (ata_dma_complete bus (ata_buf c) (blkcount c) (ata_dir c) q) (\<lambda>(res, s1, m1).
                if res < 0 then (let (r, s2) = cmd_finish bus res s1 in Some (r, s2, m1))
                else map_option (\<lambda>(r, s2). (r, s2, m1)) (finish_dma bus s1))
         else let (r, s1) = gen_ata_wait_busy bus 0x80 (snd (reg_rd bus r_control s))
           in if r < 0 then (let (r', s2) = cmd_finish bus r s1 in Some (r', s2, m))
              else let (r', s2) = pio_loop bus (unat (blkcount c)) s1;
                       (r'', s3) = (if r' < 0 then cmd_finish bus r' s2 else check_status bus s2)
                   in Some (r'', s3, m))"

section \<open>\<open>ata_device_sector_io\<close>\<close>

definition ata_set_dir :: "'h bus \<Rightarrow> u32 \<Rightarrow> 'h dev9 \<Rightarrow> 'h dev9" where
  "ata_set_dir bus dir s =
     (let (v, s1) = reg_rd bus SPD_R_IF_CTRL (reg_wr bus SPD_R_38 3 s)
      in reg_wr bus SPD_R_XFR_CTRL (ucast dir OR 6)
           (reg_wr bus SPD_R_IF_CTRL ((v AND 1) OR (if dir = 1 then 0x4c else 0x4e)) s1))"

definition io_len :: "bool \<Rightarrow> u32 \<Rightarrow> u32" where
  "io_len lba48 nsectors =
     (if lba48 then if nsectors > 16384 then 16384 else nsectors
      else if nsectors > 256 then 256 else nsectors)"

definition io_task :: "bool \<Rightarrow> bool \<Rightarrow> u16 \<Rightarrow> u32 \<Rightarrow> u32 \<Rightarrow> u32 \<Rightarrow> taskfile" where
  "io_task vmc lba48 device lba len dir =
     (if lba48
      then \<lparr>t_feature = 0, t_nsector = ucast len, t_sector = ucast ((drop_bit 16 lba AND 0xff00) OR (lba AND 0xff)),
             t_lcyl = ucast (drop_bit 8 lba AND 0xff), t_hcyl = ucast (drop_bit 16 lba AND 0xff),
             t_select = push_bit 4 device,
             t_command = if dir = 1 \<and> vmc then ATA_C_WRITE_DMA_EXT else ATA_C_READ_DMA_EXT\<rparr>
      else \<lparr>t_feature = 0, t_nsector = ucast len, t_sector = ucast (lba AND 0xff),
             t_lcyl = ucast (drop_bit 8 lba AND 0xff), t_hcyl = ucast (drop_bit 16 lba AND 0xff),
             t_select = push_bit 4 device OR ucast (drop_bit 24 lba AND 0xf),
             t_command = if dir = 1 \<and> vmc then ATA_C_WRITE_DMA else ATA_C_READ_DMA\<rparr>)"

text \<open>A checksum error on the cable is tried again, three times in all.\<close>

primrec io_tries ::
  "nat \<Rightarrow> 'h bus \<Rightarrow> u32 \<Rightarrow> u32 \<Rightarrow> taskfile \<Rightarrow> u32 \<Rightarrow> int \<Rightarrow> 'h dev9 \<times> mem \<Rightarrow> (int \<times> 'h dev9 \<times> mem) option" where
  "io_tries 0 bus buf len t dir res q = Some (res, q)"
| "io_tries (Suc k) bus buf len t dir res q =
     (let (r, s1) = ata_io_start bus buf len t (fst q)
      in if r \<noteq> 0 then Some (r, s1, snd q)
         else Option.bind (ata_io_finish bus (ata_set_dir bus dir s1, snd q)) (\<lambda>(r', s2, m2).
           let s3 = reg_modify bus SPD_R_IF_CTRL (\<lambda>v. v AND NOT SPD_IF_DMA_ENABLE) s2
           in if r' \<noteq> ATA_RES_ERR_ICRC then Some (r', s3, m2)
              else io_tries k bus buf len t dir r' (s3, m2)))"

lemma io_len_bounds:
  assumes "n \<noteq> 0"
  shows "0 < unat (io_len l n)" and "unat (io_len l n) \<le> unat n" and "unat (io_len l n) \<le> (if l then 16384 else 256)"
proof -
  have "0 < unat n" using assms by (simp add: unat_gt_0)
  then show "0 < unat (io_len l n)" "unat (io_len l n) \<le> unat n" "unat (io_len l n) \<le> (if l then 16384 else 256)"
    by (auto simp: io_len_def word_less_nat_alt)
qed

lemma io_len_rest:
  assumes "n \<noteq> 0"
  shows "unat (n - io_len l n) = unat n - unat (io_len l n)" and "unat n - unat (io_len l n) < unat n"
  using io_len_bounds [OF assms, of l] by (simp_all add: unat_sub word_le_nat_alt)

function sector_loop ::
  "bool \<Rightarrow> bool \<Rightarrow> 'h bus \<Rightarrow> u16 \<Rightarrow> u32 \<Rightarrow> u32 \<Rightarrow> u32 \<Rightarrow> u32 \<Rightarrow> 'h dev9 \<times> mem \<Rightarrow> (int \<times> 'h dev9 \<times> mem) option"
where
  "sector_loop vmc lba48 bus device buf lba nsectors dir q =
     (if nsectors = 0 then Some (0, q)
      else let len = io_len lba48 nsectors
           in case io_tries 3 bus buf len (io_task vmc lba48 device lba len dir) dir 0 q of
                None \<Rightarrow> None
              | Some (res, q') \<Rightarrow>
                  if res \<noteq> 0 then Some (res, q')
                  else sector_loop vmc lba48 bus device (buf + len * 512) (lba + len) (nsectors - len) dir q')"
  by pat_completeness auto
termination
  by (relation "measure (\<lambda>(_, _, _, _, _, _, n, _, _). unat n)") (auto simp: io_len_rest)

declare sector_loop.simps [simp del]

definition ata_device_sector_io ::
  "bool \<Rightarrow> bool \<Rightarrow> 'h bus \<Rightarrow> u16 \<Rightarrow> u32 \<Rightarrow> u32 \<Rightarrow> u32 \<Rightarrow> u32 \<Rightarrow> 'h dev9 \<times> mem \<Rightarrow> (int \<times> 'h dev9 \<times> mem) option"
where
  "ata_device_sector_io vmc lba48 bus device buf lba nsectors dir = (\<lambda>(s, m).
     if vmc
     then if ata_io_sema s = 0 then None
          else map_option (\<lambda>(r, s', m'). (r, s'\<lparr>ata_io_sema := 1\<rparr>, m'))
            (sector_loop vmc lba48 bus device buf lba nsectors dir (s\<lparr>ata_io_sema := ata_io_sema s - 1\<rparr>, m))
     else sector_loop vmc lba48 bus device buf lba nsectors dir (s, m))"

text \<open>\<open>atad_start\<close>: the callbacks.\<close>

definition atad_start :: "'h dev9 \<Rightarrow> int \<times> 'h dev9" where
  "atad_start s =
     (0, (dev9RegisterPostDmaCb 0 (Some Atad_PostDmaCb) (dev9RegisterPreDmaCb 0 (Some Atad_PreDmaCb)
       (dev9RegisterIntrCb 0 (Some Ata_intr_cb) (dev9RegisterIntrCb 1 (Some Ata_intr_cb)
         (s\<lparr>ata_evflg := 0\<rparr>)))))\<lparr>ata_io_sema := 1\<rparr>)"

end
