(* ===== verification/Atad_Delivers.thy ===== *)
theory Atad_Delivers
  imports Atad
begin

text \<open>
  The disk driver against a disk that keeps the register protocol. \<open>ata_drive\<close> states the
  protocol as laws on the bus: what a view of the hardware shows of the task file, of the sectors
  still to transfer and of the two DMA registers after each access. The theorem: an access of any
  number of sectors comes back with success and the sectors are in memory.
\<close>

section \<open>The protocol of the disk\<close>

text \<open>\<open>now\<close> and \<open>before\<close> are the last two bytes written to a register of the task file.\<close>

record drive =
  now :: "ioreg \<Rightarrow> u16"
  before :: "ioreg \<Rightarrow> u16"
  todo :: "(u32 \<times> nat) option"
  intrq :: bool
  xfr :: u16
  ifc :: u16

definition task_regs :: "ioreg set" where
  "task_regs = {r_feature, r_nsector, r_sector, r_lcyl, r_hcyl, r_select}"

definition put_reg :: "ioreg \<Rightarrow> u16 \<Rightarrow> drive \<Rightarrow> drive" where
  "put_reg r v d = d\<lparr>before := (before d)(r := now d r), now := (now d)(r := v)\<rparr>"

definition low24 :: "drive \<Rightarrow> u32" where
  "low24 d = ucast (now d r_sector) OR push_bit 8 (ucast (now d r_lcyl)) OR push_bit 16 (ucast (now d r_hcyl))"

definition task28 :: "drive \<Rightarrow> u32 \<times> nat" where
  "task28 d = (low24 d OR push_bit 24 (ucast (now d r_select) AND 0xf),
     if now d r_nsector = 0 then 256 else unat (now d r_nsector))"

definition task48 :: "drive \<Rightarrow> u32 \<times> nat" where
  "task48 d = (low24 d OR push_bit 24 (ucast (before d r_sector)),
     let n = unat (now d r_nsector) + 256 * unat (before d r_nsector) in if n = 0 then 65536 else n)"

text \<open>A transfer of \<open>c\<close> sectors from where the disk stands.\<close>

definition moved :: "nat \<Rightarrow> drive \<Rightarrow> drive" where
  "moved c d = (case todo d of None \<Rightarrow> d
     | Some (l, n) \<Rightarrow> d\<lparr>todo := if c = n then None else Some (l + of_nat c, n - c), intrq := (c = n)\<rparr>)"

text \<open>The words a block count register stands for.\<close>

definition bcr_words :: "u32 \<Rightarrow> nat" where
  "bcr_words bcr = unat (drop_bit 16 bcr) * unat (bcr AND 0xffff)"

definition reads_keep :: "'h bus \<Rightarrow> ('h \<Rightarrow> drive) \<Rightarrow> bool" where
  "reads_keep bus view \<longleftrightarrow>
     (\<forall>h r. r \<noteq> r_data \<longrightarrow> view (snd (rd_reg bus r h)) = (if r = r_status then (view h)\<lparr>intrq := False\<rparr> else view h))"

definition reads_show :: "'h bus \<Rightarrow> ('h \<Rightarrow> drive) \<Rightarrow> bool" where
  "reads_show bus view \<longleftrightarrow>
     (\<forall>h. todo (view h) = None \<longrightarrow> fst (rd_reg bus r_control h) AND 0x88 = 0 \<and>
        fst (rd_reg bus r_control h) AND 0x40 \<noteq> 0 \<and> fst (rd_reg bus r_status h) AND 0x81 = 0) \<and>
     (\<forall>h. drop_bit 4 (fst (rd_reg bus r_select h)) AND 1 = drop_bit 4 (now (view h) r_select) AND 1) \<and>
     (\<forall>h. intrq (view h) \<longrightarrow> fst (rd_reg bus SPD_R_INTR_STAT h) AND 1 \<noteq> 0) \<and>
     (\<forall>h. todo (view h) \<noteq> None \<longrightarrow> fst (rd_reg bus SPD_R_38 h) AND 0x1f \<noteq> 0) \<and>
     (\<forall>h. fst (rd_reg bus SPD_R_XFR_CTRL h) = xfr (view h)) \<and>
     (\<forall>h. fst (rd_reg bus SPD_R_IF_CTRL h) = ifc (view h))"

definition writes_show :: "'h bus \<Rightarrow> ('h \<Rightarrow> drive) \<Rightarrow> bool" where
  "writes_show bus view \<longleftrightarrow>
     (\<forall>h r v. r \<notin> {r_command, r_data} \<longrightarrow> view (wr_reg bus r v h) =
        (if r \<in> task_regs then put_reg r v (view h)
         else if r = SPD_R_XFR_CTRL then (view h)\<lparr>xfr := v\<rparr>
         else if r = SPD_R_IF_CTRL then (view h)\<lparr>ifc := v\<rparr> else view h)) \<and>
     (\<forall>h. todo (view h) = None \<longrightarrow>
        view (wr_reg bus r_command 0xC8 h) = (view h)\<lparr>todo := Some (task28 (view h)), intrq := False\<rparr>) \<and>
     (\<forall>h. todo (view h) = None \<and> before (view h) r_lcyl = 0 \<and> before (view h) r_hcyl = 0 \<longrightarrow>
        view (wr_reg bus r_command 0x25 h) = (view h)\<lparr>todo := Some (task48 (view h)), intrq := False\<rparr>)"

definition dma_moves :: "'h bus \<Rightarrow> ('h \<Rightarrow> drive) \<Rightarrow> (u32 \<Rightarrow> u8 list) \<Rightarrow> bool" where
  "dma_moves bus view store \<longleftrightarrow>
     (\<forall>h m a bcr c l n. todo (view h) = Some (l, n) \<and> 0 < c \<and> c \<le> n \<and> bcr_words bcr = c * 128 \<and>
        xfr (view h) AND 0x80 \<noteq> 0 \<and> ifc (view h) AND 6 = 6 \<longrightarrow>
        (\<exists>h'. run_dma bus a bcr False h m = Some (h', write_bytes a (sector_run store l c) m) \<and>
           view h' = moved c (view h)))"

definition ata_drive :: "'h bus \<Rightarrow> ('h \<Rightarrow> drive) \<Rightarrow> (u32 \<Rightarrow> u8 list) \<Rightarrow> bool" where
  "ata_drive bus view store \<longleftrightarrow> (\<forall>l. length (store l) = 512) \<and> reads_keep bus view \<and>
     reads_show bus view \<and> writes_show bus view \<and> dma_moves bus view store"

section \<open>Accesses as the driver makes them\<close>

definition disk_view :: "('h \<Rightarrow> drive) \<Rightarrow> 'h dev9 \<Rightarrow> drive" where
  "disk_view view s = view (hw s)"

lemma V_upd [simp]:
  "disk_view view (s\<lparr>ata_evflg := e\<rparr>) = disk_view view s" "disk_view view (s\<lparr>ata_alarm := b\<rparr>) = disk_view view s"
  "disk_view view (s\<lparr>atad_cmd_state := c\<rparr>) = disk_view view s" "disk_view view (s\<lparr>dma_lock_sem := k\<rparr>) = disk_view view s"
  "disk_view view (s\<lparr>ata_io_sema := k\<rparr>) = disk_view view s" "disk_view view (s\<lparr>hw := h\<rparr>) = view h"
  by (simp_all add: disk_view_def)

text \<open>What an access leaves alone.\<close>

definition dev9_keeps :: "'h dev9 \<Rightarrow> 'h dev9 \<Rightarrow> bool" where
  "dev9_keeps s s' \<longleftrightarrow> s' = s\<lparr>hw := hw s', ata_evflg := ata_evflg s', ata_alarm := ata_alarm s',
     atad_cmd_state := atad_cmd_state s'\<rparr>"

lemma keeps_refl [simp]: "dev9_keeps s s"
  by (simp add: dev9_keeps_def)

lemma keeps_trans [trans]: "dev9_keeps a b \<Longrightarrow> dev9_keeps b c \<Longrightarrow> dev9_keeps a c"
  by (cases a; cases b; cases c) (simp add: dev9_keeps_def)

lemma keeps_fields:
  assumes "dev9_keeps s s'"
  shows "dma_lock_sem s' = dma_lock_sem s" and "dev9_predma_cbs s' = dev9_predma_cbs s"
    and "dev9_postdma_cbs s' = dev9_postdma_cbs s" and "ata_io_sema s' = ata_io_sema s"
  using assms by (cases s; cases s'; simp add: dev9_keeps_def)+

lemma rd_eq: "reg_rd bus r s = (fst (rd_reg bus r (hw s)), s\<lparr>hw := snd (rd_reg bus r (hw s))\<rparr>)"
  by (simp add: reg_rd_def split_def Let_def)

lemma rd_wr_fields [simp]:
  "atad_cmd_state (snd (reg_rd bus r s)) = atad_cmd_state s" "atad_cmd_state (reg_wr bus r v s) = atad_cmd_state s"
  "dev9_keeps s (snd (reg_rd bus r s))" "dev9_keeps s (reg_wr bus r v s)"
  by (simp_all add: rd_eq reg_wr_def dev9_keeps_def)

lemma keeps_upd [simp]:
  "dev9_keeps s (t\<lparr>ata_evflg := e\<rparr>) = dev9_keeps s t" "dev9_keeps s (t\<lparr>ata_alarm := b\<rparr>) = dev9_keeps s t"
  "dev9_keeps s (t\<lparr>atad_cmd_state := c\<rparr>) = dev9_keeps s t"
  by (cases s; cases t; simp add: dev9_keeps_def)+

lemma keeps_rd [simp]: "dev9_keeps s t \<Longrightarrow> dev9_keeps s (snd (reg_rd bus r t))"
  by (erule keeps_trans) simp

lemma keeps_wr [simp]: "dev9_keeps s t \<Longrightarrow> dev9_keeps s (reg_wr bus r v t)"
  by (erule keeps_trans) simp

lemma V_rd:
  assumes "ata_drive bus view store" and "r \<noteq> r_data" and "r \<noteq> r_status"
  shows "disk_view view (snd (reg_rd bus r s)) = disk_view view s"
  using assms by (simp add: ata_drive_def reads_keep_def rd_eq disk_view_def)

lemma V_rd_status:
  assumes "ata_drive bus view store"
  shows "disk_view view (snd (reg_rd bus r_status s)) = (disk_view view s)\<lparr>intrq := False\<rparr>"
  using assms by (simp add: ata_drive_def reads_keep_def rd_eq disk_view_def)

lemma V_wr_task:
  assumes "ata_drive bus view store" and "r \<in> task_regs"
  shows "disk_view view (reg_wr bus r v s) = put_reg r v (disk_view view s)"
  using assms by (auto simp: ata_drive_def writes_show_def reg_wr_def disk_view_def task_regs_def)

lemma V_wr_ctrl:
  assumes "ata_drive bus view store"
  shows "disk_view view (reg_wr bus SPD_R_XFR_CTRL v s) = (disk_view view s)\<lparr>xfr := v\<rparr>"
    and "disk_view view (reg_wr bus SPD_R_IF_CTRL v s) = (disk_view view s)\<lparr>ifc := v\<rparr>"
  using assms by (simp_all add: ata_drive_def writes_show_def reg_wr_def disk_view_def task_regs_def)

lemma V_wr:
  assumes "ata_drive bus view store" and "r \<notin> task_regs \<union> {r_command, r_data, SPD_R_XFR_CTRL, SPD_R_IF_CTRL}"
  shows "disk_view view (reg_wr bus r v s) = disk_view view s"
  using assms by (simp add: ata_drive_def writes_show_def reg_wr_def disk_view_def)

lemma V_command:
  assumes "ata_drive bus view store" and "todo (disk_view view s) = None"
  shows "disk_view view (reg_wr bus r_command 0xC8 s) = (disk_view view s)\<lparr>todo := Some (task28 (disk_view view s)), intrq := False\<rparr>"
    and "before (disk_view view s) r_lcyl = 0 \<Longrightarrow> before (disk_view view s) r_hcyl = 0 \<Longrightarrow>
      disk_view view (reg_wr bus r_command 0x25 s) = (disk_view view s)\<lparr>todo := Some (task48 (disk_view view s)), intrq := False\<rparr>"
  using assms by (simp_all add: ata_drive_def writes_show_def reg_wr_def disk_view_def)

lemma drive_idle_reads:
  assumes "ata_drive bus view store" and "todo (disk_view view s) = None"
  shows "fst (reg_rd bus r_control s) AND 0x88 = 0" and "fst (reg_rd bus r_control s) AND 0x40 \<noteq> 0"
    and "fst (reg_rd bus r_status s) AND 0x81 = 0"
  using assms by (simp_all add: ata_drive_def reads_show_def rd_eq disk_view_def)

lemma drive_reads:
  assumes "ata_drive bus view store"
  shows "intrq (disk_view view s) \<Longrightarrow> fst (reg_rd bus SPD_R_INTR_STAT s) AND 1 \<noteq> 0"
    and "todo (disk_view view s) \<noteq> None \<Longrightarrow> fst (reg_rd bus SPD_R_38 s) AND 0x1f \<noteq> 0"
    and "fst (reg_rd bus SPD_R_XFR_CTRL s) = xfr (disk_view view s)" and "fst (reg_rd bus SPD_R_IF_CTRL s) = ifc (disk_view view s)"
  using assms by (auto simp: ata_drive_def reads_show_def rd_eq disk_view_def)

section \<open>Issuing the command\<close>

lemma busy_delays_first: "\<exists>ds. busy_delays = 0 # ds"
proof -
  have ten: "replicate 10 x = x # replicate 9 x" for x :: nat by (simp add: numeral_eq_Suc)
  show ?thesis unfolding busy_delays_def by (simp add: ten)
qed

lemma busy_at_once:
  assumes "fst (reg_rd bus r_control s) AND bits = 0"
  shows "gen_ata_wait_busy bus bits s = (0, snd (reg_rd bus r_control s))"
proof -
  obtain ds where ds: "busy_delays = 0 # ds" using busy_delays_first by blast
  show ?thesis unfolding gen_ata_wait_busy_def ds using assms by (simp add: split_def Let_def)
qed

lemma and_sub:
  assumes "(v :: u16) AND a = 0" and "a AND b = b"
  shows "v AND b = 0"
proof -
  have "v AND b = (v AND a) AND b" using assms(2) by (simp only: and.assoc)
  then show ?thesis using assms(1) by simp
qed

lemma select_idle:
  assumes D: "ata_drive bus view store" and idle: "todo (disk_view view s) = None"
  shows "\<exists>s'. ata_device_select bus 0 s = (0, s') \<and> dev9_keeps s s' \<and> todo (disk_view view s') = None \<and>
    xfr (disk_view view s') = xfr (disk_view view s) \<and> ifc (disk_view view s') = ifc (disk_view view s) \<and> atad_cmd_state s' = atad_cmd_state s"
proof -
  have busy: "gen_ata_wait_busy bus 0x88 t = (0, snd (reg_rd bus r_control t))" if "todo (disk_view view t) = None" for t
    by (rule busy_at_once) (rule drive_idle_reads(1) [OF D that])
  let ?s1 = "snd (reg_rd bus r_control s)" let ?s2 = "snd (reg_rd bus r_select ?s1)"
  let ?s4 = "snd (reg_rd bus r_control (snd (reg_rd bus r_control (reg_wr bus r_select 0 ?s2))))"
  have disk_view: "disk_view view ?s2 = disk_view view s" "disk_view view ?s4 = put_reg r_select 0 (disk_view view s)"
    "disk_view view (snd (reg_rd bus r_control ?s4)) = put_reg r_select 0 (disk_view view s)"
    using D by (simp_all add: V_rd [OF D] V_wr_task [OF D] task_regs_def)
  have i4: "todo (disk_view view ?s4) = None" unfolding disk_view(2) using idle by (simp add: put_reg_def)
  have "ata_device_select bus 0 s = (0, if drop_bit 4 (fst (reg_rd bus r_select ?s1)) AND 1 = 0 then ?s2
      else snd (reg_rd bus r_control ?s4))"
    using busy [OF idle] busy [OF i4] by (simp add: ata_device_select_def split_def Let_def)
  then show ?thesis
    using idle disk_view by (simp add: put_reg_def)
qed

section \<open>The task file\<close>

lemma and_ff: "(x :: 'a::len word) AND 0xff = take_bit 8 x"
  by (simp add: take_bit_eq_mask mask_eq_exp_minus_1)

lemma and_f: "(x :: 'a::len word) AND 0xf = take_bit 4 x"
  by (simp add: take_bit_eq_mask mask_eq_exp_minus_1)

lemma and_ff00: "(x :: u32) AND 0xff00 = push_bit 8 (take_bit 8 (drop_bit 8 x))"
proof -
  have "(0xff00 :: u32) = push_bit 8 (mask 8)" by (simp add: mask_eq_exp_minus_1 push_bit_eq_mult)
  show ?thesis unfolding \<open>0xff00 = push_bit 8 (mask 8)\<close> by (auto simp: bit_simps intro!: bit_word_eqI)
qed

lemma four_bytes: "(take_bit 8 x OR push_bit 8 (take_bit 8 (drop_bit 8 x)) OR
   push_bit 16 (take_bit 8 (drop_bit 16 x))) OR push_bit 24 (take_bit 8 (drop_bit 24 x)) = (x :: u32)"
proof (rule bit_word_eqI)
  fix n assume "n < LENGTH(32)"
  then consider "n < 8" | "8 \<le> n \<and> n < 16" | "16 \<le> n \<and> n < 24" | "24 \<le> n \<and> n < 32" by fastforce
  then show "bit ((take_bit 8 x OR push_bit 8 (take_bit 8 (drop_bit 8 x)) OR
   push_bit 16 (take_bit 8 (drop_bit 16 x))) OR push_bit 24 (take_bit 8 (drop_bit 24 x))) n = bit x n"
    by cases (auto simp: bit_simps)
qed

lemma byte_up_down: "ucast (take_bit 8 (ucast (y :: u32) :: u16)) = take_bit 8 y"
  by (auto simp: bit_simps intro!: bit_word_eqI)

lemma top_nibble:
  assumes "unat (x :: u32) < 2 ^ 28"
  shows "take_bit 4 (drop_bit 24 x) = take_bit 8 (drop_bit 24 x)"
proof -
  have "take_bit 28 x = x"
    unfolding word_unat_eq_iff unsigned_take_bit_eq using assms by (rule take_bit_nat_eq_self)
  then have "bit x n \<Longrightarrow> n < 28" for n by (metis bit_take_bit_iff)
  then show ?thesis by (auto simp: bit_simps intro!: bit_word_eqI) fastforce
qed

text \<open>What the disk makes of the task file written for a run of sectors.\<close>

lemma low24_bytes:
  assumes "now d r_sector = take_bit 8 (ucast lba)" and "now d r_lcyl = take_bit 8 (ucast (take_bit 8 (drop_bit 8 lba)))"
    and "now d r_hcyl = take_bit 8 (ucast (take_bit 8 (drop_bit 16 lba)))"
  shows "low24 d = take_bit 8 lba OR push_bit 8 (take_bit 8 (drop_bit 8 lba)) OR push_bit 16 (take_bit 8 (drop_bit 16 lba))"
  using assms by (simp add: low24_def byte_up_down)

lemma bit_64: "bit (64 :: 'a :: semiring_bit_operations) n \<longleftrightarrow> possible_bit TYPE('a) n \<and> n = 6"
  using bit_exp_iff [of 6 n, where 'a = 'a] by simp

lemma nibble_up_down:
  "take_bit 4 (ucast ((take_bit 8 (ucast (take_bit 4 (y :: u32))) :: u16) OR 64)) = (take_bit 4 y :: u32)"
  by (auto simp: bit_simps bit_64 intro!: bit_word_eqI)

lemma unat_low_byte: "unat (take_bit 8 (ucast (len :: u32) :: u16)) = unat len mod 256"
  unfolding unsigned_take_bit_eq unsigned_ucast_eq take_bit_take_bit by (simp add: take_bit_eq_mod)

lemma unat_two_bytes:
  assumes "unat (len :: u32) < 65536"
  shows "unat (take_bit 8 (ucast len :: u16)) + 256 * unat (take_bit 8 (drop_bit 8 (ucast len :: u16))) = unat len"
proof -
  have hi: "unat (drop_bit 8 (ucast len :: u16)) = unat len div 256"
    unfolding unsigned_drop_bit_eq unsigned_ucast_eq using assms by (simp add: drop_bit_eq_div take_bit_nat_eq_self)
  have "unat (take_bit 8 (drop_bit 8 (ucast len :: u16))) = unat len div 256 mod 256"
    unfolding unsigned_take_bit_eq hi by (simp add: take_bit_eq_mod)
  also have "\<dots> = unat len div 256" using assms by (intro mod_less) simp
  finally show ?thesis unfolding unat_low_byte by simp
qed

lemma sector_bytes:
  "take_bit 8 (push_bit 8 (x :: u32)) = 0"
  "ucast (take_bit 8 (drop_bit 8 (ucast (push_bit 8 (take_bit 8 (drop_bit 24 lba)) OR take_bit 8 lba) :: u16)))
    = take_bit 8 (drop_bit 24 (lba :: u32))"
  by (auto simp: bit_simps add.commute intro!: bit_word_eqI)

lemma no_high_byte: "drop_bit 8 (ucast (take_bit 8 (y :: u32)) :: u16) = 0"
  by (auto simp: bit_simps intro!: bit_word_eqI)

text \<open>The registers as the task file leaves them, apart from the command.\<close>

definition put_task :: "bool \<Rightarrow> taskfile \<Rightarrow> drive \<Rightarrow> drive" where
  "put_task ext t d =
     (let up = (\<lambda>v. drop_bit 8 v AND 0xff);
          d1 = (if ext
            then put_reg r_hcyl (up (t_hcyl t)) (put_reg r_lcyl (up (t_lcyl t)) (put_reg r_sector (up (t_sector t))
                   (put_reg r_nsector (up (t_nsector t)) (put_reg r_feature (up (t_feature t)) d))))
            else d)
      in put_reg r_select ((t_select t OR ATA_SEL_LBA) AND 0xff)
           (put_reg r_hcyl (t_hcyl t AND 0xff) (put_reg r_lcyl (t_lcyl t AND 0xff)
             (put_reg r_sector (t_sector t AND 0xff) (put_reg r_nsector (t_nsector t AND 0xff)
               (put_reg r_feature (t_feature t AND 0xff) d1))))))"

lemma put_task_keeps [simp]:
  "todo (put_task ext t d) = todo d" "xfr (put_task ext t d) = xfr d" "ifc (put_task ext t d) = ifc d"
  by (simp_all add: put_task_def Let_def put_reg_def)

text \<open>A run of sectors that one command can name.\<close>

definition nameable :: "bool \<Rightarrow> u32 \<Rightarrow> u32 \<Rightarrow> bool" where
  "nameable l lba len \<longleftrightarrow> 0 < unat len \<and> unat len \<le> (if l then 16384 else 256) \<and> (\<not> l \<longrightarrow> unat lba < 2 ^ 28)"

lemma nameable_len:
  assumes "nameable l lba len"
  shows "len \<noteq> 0" and "unat len \<le> 16384"
proof -
  have "0 < unat len" using assms by (simp add: nameable_def)
  then show "len \<noteq> 0" by (auto simp: unat_gt_0)
  show "unat len \<le> 16384" using assms by (auto simp: nameable_def split: if_splits)
qed

lemma put_task_28:
  assumes "nameable False lba len"
  shows "task28 (put_task False (io_task vmc False 0 lba len dir) d) = (lba, unat len)"
proof -
  have lba: "unat lba < 2 ^ 28" and len: "0 < unat len" "unat len \<le> 256"
    using assms by (simp_all add: nameable_def)
  have count: "(if take_bit 8 (ucast len :: u16) = 0 then 256 else unat (take_bit 8 (ucast len :: u16))) = unat len"
  proof (cases "unat len = 256")
    case True
    then have "take_bit 8 (ucast len :: u16) = 0" using unat_low_byte [of len] by (simp add: unat_eq_zero)
    with True show ?thesis by simp
  next
    case False
    then have "unat (take_bit 8 (ucast len :: u16)) = unat len" unfolding unat_low_byte using len by simp
    then show ?thesis using len(1) by (metis less_irrefl unat_0)
  qed
  show ?thesis
    unfolding count [symmetric]
    by (simp add: put_task_def io_task_def Let_def put_reg_def task28_def low24_def and_ff and_f byte_up_down
        nibble_up_down four_bytes [of lba, folded top_nibble [OF lba]])
qed

lemma put_task_48:
  fixes vmc :: bool and dir :: u32 and d :: drive
  assumes "nameable True lba len"
  defines "d' \<equiv> put_task True (io_task vmc True 0 lba len dir) d"
  shows "task48 d' = (lba, unat len)" and "before d' r_lcyl = 0" and "before d' r_hcyl = 0"
proof -
  have len: "0 < unat len" "unat len \<le> 16384" using assms(1) by (simp_all add: nameable_def)
  have count: "unat (take_bit 8 (ucast len :: u16)) + 256 * unat (take_bit 8 (drop_bit 8 (ucast len :: u16))) = unat len"
    using len(2) by (intro unat_two_bytes) simp
  show "task48 d' = (lba, unat len)"
    unfolding d'_def using len(1)
    by (simp add: put_task_def io_task_def Let_def put_reg_def task48_def low24_def and_ff and_ff00 byte_up_down
        sector_bytes four_bytes count)
  show "before d' r_lcyl = 0" "before d' r_hcyl = 0"
    unfolding d'_def by (simp_all add: put_task_def io_task_def Let_def put_reg_def and_ff no_high_byte)
qed

lemma write_task_regs:
  assumes D: "ata_drive bus view store"
  shows "\<exists>u. write_task bus l t s = reg_wr bus r_command (t_command t AND 0xff) u \<and>
    disk_view view u = put_task l t (disk_view view s)"
  unfolding write_task_def Let_def
  by (intro exI conjI, rule refl) (simp add: V_wr_task [OF D] task_regs_def put_task_def Let_def)

lemma io_task_select: "drop_bit 4 (t_select (io_task vmc l 0 lba len dir)) AND 1 = 0"
proof -
  have "drop_bit 4 (ucast (take_bit 4 (x :: u32)) :: u16) = 0" for x
    by (auto simp: bit_simps intro!: bit_word_eqI)
  then show ?thesis by (simp add: io_task_def and_f)
qed

lemma io_task_type: "cmd_type (io_task vmc l 0 lba len 0) = (if l then 0x84 else 4)"
  by (simp add: cmd_type_def io_task_def ata_cmd_table_def Let_def)

lemma io_task_command: "t_command (io_task vmc l 0 lba len 0) = (if l then ATA_C_READ_DMA_EXT else ATA_C_READ_DMA)"
  by (simp add: io_task_def)

lemma write_task_todo:
  assumes D: "ata_drive bus view store" and idle: "todo (disk_view view s) = None" and t: "nameable l lba len"
  shows "todo (disk_view view (write_task bus l (io_task vmc l 0 lba len 0) s)) = Some (lba, unat len)"
proof -
  obtain u where u: "write_task bus l (io_task vmc l 0 lba len 0) s
      = reg_wr bus r_command (t_command (io_task vmc l 0 lba len 0) AND 0xff) u"
    "disk_view view u = put_task l (io_task vmc l 0 lba len 0) (disk_view view s)"
    using write_task_regs [OF D] by blast
  have "todo (disk_view view u) = None" using u(2) idle by simp
  with t show ?thesis
    unfolding u(1) by (cases l)
      (simp_all add: io_task_command V_command [OF D] u(2) idle put_task_28 put_task_48)
qed

lemma keeps_write_task [simp]: "dev9_keeps s u \<Longrightarrow> dev9_keeps s (write_task bus ext t u)"
  by (simp add: write_task_def Let_def)

lemma write_task_cmd [simp]: "atad_cmd_state (write_task bus ext t u) = atad_cmd_state u"
  by (simp add: write_task_def Let_def)

lemma io_start_issues:
  assumes D: "ata_drive bus view store" and idle: "todo (disk_view view s) = None" and t: "nameable l lba len"
  shows "\<exists>s'. ata_io_start bus buf len (io_task vmc l 0 lba len 0) s = (0, s') \<and> dev9_keeps s s' \<and>
    todo (disk_view view s') = Some (lba, unat len) \<and>
    atad_cmd_state s' = \<lparr>ata_type = 4, ata_buf = buf, blkcount = len, ata_dir = 0\<rparr>"
proof -
  let ?t = "io_task vmc l 0 lba len 0"
  obtain s1 where s1: "ata_device_select bus 0 (s\<lparr>ata_evflg := 0\<rparr>) = (0, s1)" "dev9_keeps s s1" "todo (disk_view view s1) = None"
    using select_idle [OF D, of "s\<lparr>ata_evflg := 0\<rparr>"] idle by (auto simp: dev9_keeps_def)
  define c where "c = \<lparr>ata_type = 4, ata_buf = buf, blkcount = len, ata_dir = (0 :: u32)\<rparr>"
  define s2 where "s2 = s1\<lparr>atad_cmd_state := (atad_cmd_state s1)\<lparr>ata_type := 4, ata_buf := buf, blkcount := len\<rparr>\<rparr>"
  let ?s3 = "snd (reg_rd bus r_control s2)"
  let ?s4 = "reg_wr bus r_control 0 (?s3\<lparr>atad_cmd_state := c, ata_alarm := True\<rparr>)"
  have V2: "disk_view view s2 = disk_view view s1" by (simp add: s2_def)
  have V4: "todo (disk_view view ?s4) = None"
    using s1(3) by (simp add: V_wr [OF D] V_rd [OF D] task_regs_def V2)
  have rdy: "fst (reg_rd bus r_control s2) AND 0x40 \<noteq> 0" by (rule drive_idle_reads(2) [OF D]) (simp add: V2 s1(3))
  have "ata_io_start bus buf len ?t s = (0, dev9LEDCtl bus 1 (write_task bus l ?t ?s4))"
  proof -
    have c: "(atad_cmd_state s1)\<lparr>ata_type := 4, ata_buf := buf, blkcount := len, ata_dir := 0\<rparr> = c"
      by (simp add: c_def)
    have type: "cmd_type ?t AND 0x7F = 4" "(cmd_type ?t AND 0x80 \<noteq> 0) = l" by (simp_all add: io_task_type)
    have dir: "(if t_command ?t \<noteq> ATA_C_READ_DMA \<and> t_command ?t \<noteq> ATA_C_READ_DMA_EXT then 1 else 0) = (0 :: u32)"
      by (simp add: io_task_command)
    have st: "atad_cmd_state ?s3 = atad_cmd_state s2" by simp
    have u: "(ucast (4 :: u8) :: u32) = 4" by simp
    show ?thesis
      unfolding ata_io_start_def io_task_select s1(1) Let_def prod.case type dir
      using rdy c by (simp add: split_def s2_def u)
  qed
  then show ?thesis
    using s1(2) write_task_todo [OF D V4 t, of vmc]
    by (simp add: dev9LEDCtl_def V_wr [OF D] task_regs_def c_def s2_def)
qed

section \<open>The transfer\<close>

lemma dma_bcr_words: "c < 32 \<Longrightarrow> bcr_words (dma_bcr (of_nat c)) = c * 128"
proof -
  have "list_all (\<lambda>c. bcr_words (dma_bcr (of_nat c)) = c * 128) [0..<32]" by code_simp
  then show "c < 32 \<Longrightarrow> bcr_words (dma_bcr (of_nat c)) = c * 128" by (simp add: list_all_iff)
qed

definition dma_set_up :: "'h dev9 \<Rightarrow> bool" where
  "dma_set_up s \<longleftrightarrow> dma_lock_sem s = 1 \<and> dev9_predma_cbs s 0 = Some Atad_PreDmaCb \<and>
     dev9_postdma_cbs s 0 = Some Atad_PostDmaCb"

lemma dma_set_up_keeps: "dev9_keeps s s' \<Longrightarrow> dma_set_up s' = dma_set_up s"
  by (simp add: dma_set_up_def keeps_fields)

lemma DmaTransfer_moves:
  assumes D: "ata_drive bus view store" and set: "dma_set_up s" and todo: "todo (disk_view view s) = Some (l, n)"
    and c: "0 < c" "c \<le> n" "c < 32" and ifc: "ifc (disk_view view s) AND 6 = 6"
  shows "\<exists>s'. dev9DmaTransfer bus 0 buf (dma_bcr (of_nat c)) 0 (s, m)
      = Some (0, s', write_bytes buf (sector_run store l c) m) \<and> dev9_keeps s s' \<and>
    todo (disk_view view s') = (if c = n then None else Some (l + of_nat c, n - c)) \<and>
    (c = n \<longrightarrow> intrq (disk_view view s')) \<and> ifc (disk_view view s') = ifc (disk_view view s)"
proof -
  let ?s0 = "s\<lparr>dma_lock_sem := 0\<rparr>"
  let ?rev = "reg_rd bus SPD_R_REV_1 ?s0"
  define s2 where "s2 = reg_wr bus SPD_R_DMA_CTRL (if fst ?rev < 17 then (0 AND 3) OR 4 else (0 AND 1) OR 6) (snd ?rev)"
  have V2: "disk_view view s2 = disk_view view s" by (simp add: s2_def V_wr [OF D] V_rd [OF D] task_regs_def)
  define s3 where "s3 = AtadPreDmaCb bus s2"
  have V3: "disk_view view s3 = (disk_view view s)\<lparr>xfr := xfr (disk_view view s) OR 0x80\<rparr>"
    by (simp add: s3_def AtadPreDmaCb_def reg_modify_def split_def Let_def V_wr_ctrl [OF D] V_rd [OF D] V2 drive_reads(3) [OF D])
  have on: "(xfr (disk_view view s) OR 0x80) AND 0x80 \<noteq> 0"
  proof -
    have "(xfr (disk_view view s) OR 0x80) AND 0x80 = 0x80" by (rule bit_word_eqI) (auto simp: bit_simps)
    then show ?thesis by simp
  qed
  obtain h where h: "run_dma bus buf (dma_bcr (of_nat c)) False (hw s3) m
      = Some (h, write_bytes buf (sector_run store l c) m)" "view h = moved c (disk_view view s3)"
  proof -
    have "todo (view (hw s3)) = Some (l, n)" "xfr (view (hw s3)) AND 0x80 \<noteq> 0" "ifc (view (hw s3)) AND 6 = 6"
      using V3 todo on ifc by (simp_all add: disk_view_def)
    then have "\<exists>h. run_dma bus buf (dma_bcr (of_nat c)) False (hw s3) m
        = Some (h, write_bytes buf (sector_run store l c) m) \<and> view h = moved c (view (hw s3))"
      using D c(1,2) dma_bcr_words [OF c(3)] unfolding ata_drive_def dma_moves_def by blast
    then show ?thesis using that by (auto simp: disk_view_def)
  qed
  let ?s4 = "AtadPostDmaCb bus (s3\<lparr>hw := h\<rparr>)"
  have V4: "disk_view view ?s4 = (moved c (disk_view view s3))\<lparr>xfr := xfr (moved c (disk_view view s3)) AND NOT 0x80\<rparr>"
    by (simp add: AtadPostDmaCb_def reg_modify_def split_def Let_def V_wr_ctrl [OF D] V_rd [OF D] h(2) drive_reads(3) [OF D])
  have cbs: "dev9_predma_cbs s2 0 = Some Atad_PreDmaCb" "dev9_postdma_cbs s3 0 = Some Atad_PostDmaCb"
    using set by (simp_all add: dma_set_up_def s3_def s2_def AtadPreDmaCb_def reg_modify_def rd_eq reg_wr_def)
  have "dev9DmaTransfer bus 0 buf (dma_bcr (of_nat c)) 0 (s, m)
      = Some (0, ?s4\<lparr>dma_lock_sem := 1\<rparr>, write_bytes buf (sector_run store l c) m)"
    using set cbs h(1)
    by (simp add: dev9DmaTransfer_def dma_set_up_def call_dma_def split_def Let_def s2_def [symmetric] s3_def [symmetric])
  moreover have "dev9_keeps s (?s4\<lparr>dma_lock_sem := 1\<rparr>)"
    using set by (cases s) (simp add: dev9_keeps_def dma_set_up_def s3_def s2_def AtadPreDmaCb_def AtadPostDmaCb_def
        reg_modify_def rd_eq reg_wr_def)
  ultimately show ?thesis
    using todo V3 V4 by (auto simp: moved_def)
qed

lemma poll_at_once:
  assumes "fst (reg_rd bus r s) AND b \<noteq> 0" and "0 < n"
  shows "poll_bits bus r b n s = (fst (reg_rd bus r s) AND b, snd (reg_rd bus r s))"
  using assms by (cases n) (simp_all add: split_def Let_def)

lemma dma_ready_at_once:
  assumes D: "ata_drive bus view store" and "todo (disk_view view s) \<noteq> None"
  shows "\<exists>v. dma_ready bus s = Some (Inr (Some v), snd (reg_rd bus SPD_R_38 s)) \<and> 0 < unat v \<and> unat v < 32"
proof -
  let ?v = "fst (reg_rd bus SPD_R_38 s) AND 0x1f"
  have v: "?v \<noteq> 0" by (rule drive_reads(2) [OF assms])
  have "?v = fst (reg_rd bus SPD_R_38 s) AND mask 5" by (simp add: mask_eq_exp_minus_1)
  then have "?v = take_bit 5 (fst (reg_rd bus SPD_R_38 s))" by (simp only: take_bit_eq_mask)
  then have "unat ?v = unat (fst (reg_rd bus SPD_R_38 s)) mod 32" by (simp add: take_bit_eq_mod unat_mod)
  then have "unat ?v < 32" by (simp only: mod_less_divisor zero_less_numeral)
  moreover have "0 < unat ?v" using v by (simp only: unat_gt_0 not_False_eq_True)
  moreover have "dma_ready bus s = Some (Inr (Some ?v), snd (reg_rd bus SPD_R_38 s))"
    using v by (simp add: dma_ready_def poll_at_once split_def Let_def)
  ultimately show ?thesis by blast
qed

lemma dma_complete_moves:
  assumes D: "ata_drive bus view store" and "dma_set_up s" and "todo (disk_view view s) = Some (l, unat blks)"
    and "blks \<noteq> 0" and "unat blks \<le> 16384" and "ifc (disk_view view s) AND 6 = 6"
  shows "\<exists>s'. ata_dma_complete bus buf blks 0 (s, m) = Some (0, s', write_bytes buf (sector_run store l (unat blks)) m) \<and>
    dev9_keeps s s' \<and> todo (disk_view view s') = None \<and> intrq (disk_view view s')"
  using assms(2-)
proof (induction "unat blks" arbitrary: blks l s m buf rule: less_induct)
  case less
  obtain v where v: "dma_ready bus s = Some (Inr (Some v), snd (reg_rd bus SPD_R_38 s))" "0 < unat v" "unat v < 32"
    using dma_ready_at_once [OF D, of s] less.prems(2) by auto
  let ?s1 = "snd (reg_rd bus SPD_R_38 s)"
  define count :: u32 where "count = (if blks <s ucast v then blks else ucast v)"
  have small: "blks <s ucast v \<longleftrightarrow> unat blks < unat v"
    using sless_small [of blks "ucast v"] less.prems(4) v(3) by simp
  have pos: "0 < unat blks" using less.prems(3) by (simp add: unat_gt_0)
  have c: "0 < unat count" "unat count \<le> unat blks" "unat count < 32"
    using small v pos by (auto simp: count_def)
  have rest: "unat (blks - count) = unat blks - unat count" using c(2) by (simp add: unat_sub word_le_nat_alt)
  have V1: "disk_view view ?s1 = disk_view view s" by (simp add: V_rd [OF D])
  obtain s2 where s2: "dev9DmaTransfer bus 0 buf (dma_bcr count) 0 (?s1, m)
      = Some (0, s2, write_bytes buf (sector_run store l (unat count)) m)" "dev9_keeps ?s1 s2"
    "todo (disk_view view s2) = (if unat count = unat blks then None else Some (l + count, unat blks - unat count))"
    "unat count = unat blks \<longrightarrow> intrq (disk_view view s2)" "ifc (disk_view view s2) = ifc (disk_view view s)"
    using DmaTransfer_moves [OF D, of ?s1 l "unat blks" "unat count" buf m] c less.prems(1,2,5) V1
    by (auto simp: dma_set_up_keeps [of s ?s1])
  have step: "ata_dma_complete bus buf blks 0 (s, m) = ata_dma_complete bus (buf + count * 512) (blks - count) 0
      (s2, write_bytes buf (sector_run store l (unat count)) m)"
    using less.prems(3) v(1) s2(1) by (subst ata_dma_complete.simps) (simp add: count_def [symmetric] Let_def)
  have k: "dev9_keeps s s2" using s2(2) by (rule keeps_trans [rotated]) simp
  show ?case
  proof (cases "unat count = unat blks")
    case True
    then have "blks - count = 0" by (simp only: word_unat_eq_iff rest) simp
    then show ?thesis using True step s2 k by (simp add: ata_dma_complete.simps)
  next
    case False
    let ?r = "blks - count" and ?m = "write_bytes buf (sector_run store l (unat count)) m"
    have r: "unat ?r < unat blks" "?r \<noteq> 0" "unat ?r \<le> 16384"
      using False c rest less.prems(4) by auto
    have IH: "\<exists>s'. ata_dma_complete bus (buf + count * 512) ?r 0 (s2, ?m)
        = Some (0, s', write_bytes (buf + count * 512) (sector_run store (l + count) (unat ?r)) ?m) \<and>
      dev9_keeps s2 s' \<and> todo (disk_view view s') = None \<and> intrq (disk_view view s')"
      using False s2(3,5) less.prems(1,5) dma_set_up_keeps [OF k] rest
      by (intro less.hyps [OF r(1) _ _ r(2,3)]) simp_all
    have "write_bytes (buf + count * 512) (sector_run store (l + count) (unat ?r)) ?m
        = write_bytes buf (sector_run store l (unat count) @ sector_run store (l + of_nat (unat count)) (unat ?r)) m"
      using D less.prems(4) rest c
      by (subst write_bytes_append) (simp_all add: length_sector_run ata_drive_def)
    also have "\<dots> = write_bytes buf (sector_run store l (unat blks)) m"
      unfolding sector_run_add [symmetric] rest using c(2) by simp
    finally show ?thesis using IH keeps_trans [OF k] unfolding step by auto
  qed
qed

section \<open>One command, and all of them\<close>

lemma check_status_ok:
  assumes D: "ata_drive bus view store" and idle: "todo (disk_view view s) = None"
  shows "\<exists>s'. check_status bus s = (0, s') \<and> dev9_keeps s s' \<and> todo (disk_view view s') = None"
proof -
  have s: "fst (reg_rd bus r_status t) AND 0x80 = 0 \<and> fst (reg_rd bus r_status t) AND 1 = 0" if "todo (disk_view view t) = None" for t
    by (intro conjI; rule and_sub [OF drive_idle_reads(3) [OF D that]]; simp)
  let ?s1 = "snd (reg_rd bus r_status s)" let ?s2 = "snd (reg_rd bus r_status ?s1)"
  have V1: "todo (disk_view view ?s1) = None" using idle by (simp add: V_rd_status [OF D])
  have "check_status bus s = cmd_finish bus 0 ?s2"
    using s [OF idle] s [OF V1] by (simp add: check_status_def split_def Let_def)
  then show ?thesis
    using V1 by (simp add: cmd_finish_def dev9LEDCtl_def V_wr [OF D] task_regs_def V_rd_status [OF D])
qed

lemma io_finish_ok:
  assumes D: "ata_drive bus view store" and set: "dma_set_up s" and todo: "todo (disk_view view s) = Some (l, unat len)"
    and len: "len \<noteq> 0" "unat len \<le> 16384" and ifc: "ifc (disk_view view s) AND 6 = 6"
    and cmd: "atad_cmd_state s = \<lparr>ata_type = 4, ata_buf = buf, blkcount = len, ata_dir = 0\<rparr>"
  shows "\<exists>s'. ata_io_finish bus (s, m) = Some (0, s', write_bytes buf (sector_run store l (unat len)) m) \<and>
    dev9_keeps s s' \<and> todo (disk_view view s') = None"
proof -
  obtain s1 where s1: "ata_dma_complete bus buf len 0 (s, m)
      = Some (0, s1, write_bytes buf (sector_run store l (unat len)) m)"
    "dev9_keeps s s1" "todo (disk_view view s1) = None" "intrq (disk_view view s1)"
    using dma_complete_moves [OF D set todo len ifc, of buf m] by blast
  let ?s2 = "snd (reg_rd bus SPD_R_INTR_STAT s1)"
  have V2: "todo (disk_view view ?s2) = None" using s1(3) by (simp add: V_rd [OF D])
  obtain s3 where s3: "check_status bus ?s2 = (0, s3)" "dev9_keeps ?s2 s3" "todo (disk_view view s3) = None"
    using check_status_ok [OF D V2] by blast
  have "fst (reg_rd bus SPD_R_INTR_STAT s1) AND 1 \<noteq> 0" by (rule drive_reads(1) [OF D s1(4)])
  then have "finish_dma bus s1 = Some (0, s3)"
    using s3(1) by (simp add: finish_dma_def poll_at_once split_def Let_def)
  moreover have "dev9_keeps s s3" using s1(2) s3(2) by (meson keeps_rd keeps_refl keeps_trans)
  ultimately show ?thesis
    using s1(1) s3(3) by (simp add: ata_io_finish_def cmd Let_def)
qed

lemma io_tries_ok:
  assumes D: "ata_drive bus view store" and set: "dma_set_up s" and idle: "todo (disk_view view s) = None"
    and t: "nameable l lba len"
  shows "\<exists>s'. io_tries (Suc k) bus buf len (io_task vmc l 0 lba len 0) 0 res (s, m)
      = Some (0, s', write_bytes buf (sector_run store lba (unat len)) m) \<and> dev9_keeps s s' \<and> todo (disk_view view s') = None"
proof -
  obtain s1 where s1: "ata_io_start bus buf len (io_task vmc l 0 lba len 0) s = (0, s1)" "dev9_keeps s s1"
    "todo (disk_view view s1) = Some (lba, unat len)"
    "atad_cmd_state s1 = \<lparr>ata_type = 4, ata_buf = buf, blkcount = len, ata_dir = 0\<rparr>"
    using io_start_issues [OF D idle t, of buf vmc] by blast
  let ?s2 = "ata_set_dir bus 0 s1"
  have V2: "todo (disk_view view ?s2) = todo (disk_view view s1)" "ifc (disk_view view ?s2) AND 6 = 6"
  proof -
    have "((x AND 1) OR 0x4e) AND 6 = (6 :: u16)" for x
      unfolding bit.conj_disj_distrib2 and.assoc by simp
    then show "ifc (disk_view view ?s2) AND 6 = 6"
      by (simp add: ata_set_dir_def split_def Let_def V_wr_ctrl [OF D])
    show "todo (disk_view view ?s2) = todo (disk_view view s1)"
      by (simp add: ata_set_dir_def split_def Let_def V_wr_ctrl [OF D] V_rd [OF D] V_wr [OF D] task_regs_def)
  qed
  have k2: "dev9_keeps s ?s2" "atad_cmd_state ?s2 = atad_cmd_state s1"
    using s1(2) by (simp_all add: ata_set_dir_def split_def Let_def)
  obtain s3 where s3: "ata_io_finish bus (?s2, m) = Some (0, s3, write_bytes buf (sector_run store lba (unat len)) m)"
    "dev9_keeps ?s2 s3" "todo (disk_view view s3) = None"
    using io_finish_ok [OF D, of ?s2 lba len buf m] set V2 k2 s1(3,4) nameable_len [OF t]
    by (auto simp: dma_set_up_keeps)
  let ?s4 = "reg_modify bus SPD_R_IF_CTRL (\<lambda>v. v AND NOT SPD_IF_DMA_ENABLE) s3"
  have "dev9_keeps s ?s4" "todo (disk_view view ?s4) = None"
    using keeps_trans [OF k2(1) s3(2)] s3(3)
    by (simp_all add: reg_modify_def split_def Let_def V_wr_ctrl [OF D] V_rd [OF D])
  then show ?thesis using s1(1) s3(1) by (simp add: Let_def)
qed

text \<open>The sectors an access may name: all of 32 bits, or the first \<open>2^28\<close>.\<close>

definition lba_limit :: "bool \<Rightarrow> nat" where
  "lba_limit l = (if l then 2 ^ 32 else 2 ^ 28)"

definition disk_idle :: "('h \<Rightarrow> drive) \<Rightarrow> 'h dev9 \<Rightarrow> bool" where
  "disk_idle view s \<longleftrightarrow> dma_set_up s \<and> todo (disk_view view s) = None"

lemma disk_idle_keeps: "disk_idle view s \<Longrightarrow> dev9_keeps s s' \<Longrightarrow> todo (disk_view view s') = None \<Longrightarrow> disk_idle view s'"
  by (simp add: disk_idle_def dma_set_up_keeps)

lemma sector_loop_delivers:
  assumes D: "ata_drive bus view store" and "disk_idle view s"
    and "unat lba + unat n \<le> lba_limit l" and "unat n * 512 \<le> 2 ^ 32"
  shows "\<exists>s'. sector_loop vmc l bus 0 buf lba n 0 (s, m) = Some (0, s', write_bytes buf (sector_run store lba (unat n)) m) \<and>
    dev9_keeps s s' \<and> disk_idle view s'"
  using assms(2-)
proof (induction "unat n" arbitrary: n lba buf s m rule: less_induct)
  case less
  show ?case
  proof (cases "n = 0")
    case True
    then show ?thesis using less.prems(1) by (simp add: sector_loop.simps)
  next
    case False
    define len where "len = io_len l n"
    note b = io_len_bounds [OF False, of l, folded len_def]
    note rest = io_len_rest [OF False, of l, folded len_def]
    let ?m = "write_bytes buf (sector_run store lba (unat len)) m"
    have name: "nameable l lba len"
      using b less.prems(2) by (auto simp: nameable_def lba_limit_def)
    have tries: "io_tries 3 = io_tries (Suc 2)" by simp
    obtain s1 where s1: "io_tries 3 bus buf len (io_task vmc l 0 lba len 0) 0 0 (s, m) = Some (0, s1, ?m)"
      "dev9_keeps s s1" "todo (disk_view view s1) = None"
    proof -
      have "dma_set_up s" "todo (disk_view view s) = None" using less.prems(1) by (simp_all add: disk_idle_def)
      from io_tries_ok [OF D this name, of 2 buf vmc 0 m] show ?thesis using that unfolding tries by blast
    qed
    have step: "sector_loop vmc l bus 0 buf lba n 0 (s, m)
        = sector_loop vmc l bus 0 (buf + len * 512) (lba + len) (n - len) 0 (s1, ?m)"
      using False s1(1) by (subst sector_loop.simps) (simp add: Let_def len_def [symmetric])
    have no_wrap: "unat (lba + len) + unat (n - len) \<le> lba_limit l"
    proof -
      have "unat (lba + len) \<le> unat lba + unat len" by (simp add: unat_word_ariths)
      then show ?thesis using rest(1) b(2) less.prems(2) by simp
    qed
    have "\<exists>s'. sector_loop vmc l bus 0 (buf + len * 512) (lba + len) (n - len) 0 (s1, ?m)
        = Some (0, s', write_bytes (buf + len * 512) (sector_run store (lba + len) (unat (n - len))) ?m) \<and>
      dev9_keeps s1 s' \<and> disk_idle view s'"
      using rest less.prems(3) disk_idle_keeps [OF less.prems(1) s1(2,3)] no_wrap by (intro less.hyps) simp_all
    moreover have "write_bytes (buf + len * 512) (sector_run store (lba + len) (unat (n - len))) ?m
        = write_bytes buf (sector_run store lba (unat len) @ sector_run store (lba + of_nat (unat len)) (unat (n - len))) m"
      using D less.prems(3) rest b
      by (subst write_bytes_append) (simp_all add: length_sector_run ata_drive_def)
    moreover have "\<dots> = write_bytes buf (sector_run store lba (unat n)) m"
      unfolding sector_run_add [symmetric] rest using b(2) by simp
    ultimately show ?thesis using keeps_trans [OF s1(2)] unfolding step by auto
  qed
qed

text \<open>The access itself; with \<open>VMC_DRIVER\<close> its semaphore is free before and after.\<close>

definition ata_idle :: "bool \<Rightarrow> ('h \<Rightarrow> drive) \<Rightarrow> 'h dev9 \<Rightarrow> bool" where
  "ata_idle vmc view s \<longleftrightarrow> disk_idle view s \<and> (vmc \<longrightarrow> ata_io_sema s = 1)"

lemma sector_io_delivers:
  assumes D: "ata_drive bus view store" and idle: "ata_idle vmc view s"
    and "unat lba + unat n \<le> lba_limit l" and "unat n * 512 \<le> 2 ^ 32"
  shows "\<exists>s'. ata_device_sector_io vmc l bus 0 buf lba n 0 (s, m)
      = Some (0, s', write_bytes buf (sector_run store lba (unat n)) m) \<and> ata_idle vmc view s'"
proof (cases vmc)
  case True
  have "disk_idle view (s\<lparr>ata_io_sema := 0\<rparr>)"
    using idle by (simp add: ata_idle_def disk_idle_def dma_set_up_def)
  then obtain s' where "sector_loop vmc l bus 0 buf lba n 0 (s\<lparr>ata_io_sema := 0\<rparr>, m)
      = Some (0, s', write_bytes buf (sector_run store lba (unat n)) m)" "disk_idle view s'"
    using sector_loop_delivers [OF D _ assms(3,4)] by blast
  moreover have "ata_idle vmc view (s'\<lparr>ata_io_sema := 1\<rparr>)" if "disk_idle view s'" for s'
    using that by (simp add: ata_idle_def disk_idle_def dma_set_up_def)
  ultimately show ?thesis using True idle by (simp add: ata_device_sector_io_def ata_idle_def)
next
  case False
  then show ?thesis
    using sector_loop_delivers [OF D _ assms(3,4)] idle by (fastforce simp: ata_device_sector_io_def ata_idle_def)
qed

end
