(* ===== verification/Device_Hdd.thy ===== *)
theory Device_Hdd
  imports Devctl
begin

text \<open>
  The driver for images in HDLoader partitions (cdvdman/device-hdd.c): a table of part
  specifications read at start-up says which run of disc sectors lies where on the hard disk.
  The disk access \<open>ata_device_sector_io\<close> is linked from one of two files (atad.c or
  hdpro_atad.c) and is an argument here.
\<close>

section \<open>State\<close>

record hdl_partspecs_t =
  part_offset :: u32
  data_start :: u32
  part_size :: u32

text \<open>\<open>ata_device_sector_io(0, buf, lba, nsectors, ATA_DIR_READ)\<close>: result, state and memory.\<close>

type_synonym 'a ata_rd = "u32 \<Rightarrow> u32 \<Rightarrow> u32 \<Rightarrow> 'a \<Rightarrow> mem \<Rightarrow> (int \<times> 'a \<times> mem) option"

record 'a hdd =
  cdvdman_partspecs :: "hdl_partspecs_t list"
  CurrentPart :: nat
  hdd_NumParts :: nat
  lba_48bit :: u8
  lba_start :: u32
  ata :: 'a

definition ENXIO :: u32 where [simp]: "ENXIO = 6"
definition HDD_EIO :: u32 where [simp]: "HDD_EIO = 5"

section \<open>Finding the part\<close>

definition part_end :: "hdl_partspecs_t \<Rightarrow> u32" where
  "part_end ps = part_offset ps + drop_bit 11 (part_size ps)"

definition in_part :: "hdl_partspecs_t \<Rightarrow> u32 \<Rightarrow> bool" where
  "in_part ps lsn \<longleftrightarrow> part_offset ps \<le> lsn \<and> lsn < part_end ps"

text \<open>The search stops at the first part that holds the sector; \<open>CurrentPart\<close> is an
  \<open>unsigned char\<close>. An index past the table of 65 entries would be read out of bounds: None.\<close>

fun search_part :: "nat \<Rightarrow> nat \<Rightarrow> u32 \<Rightarrow> 'a hdd \<Rightarrow> nat option option" where
  "search_part 0 i lsn h = Some None"
| "search_part (Suc k) i lsn h =
     (if i \<ge> length (cdvdman_partspecs h) then None
      else if in_part (cdvdman_partspecs h ! i) lsn then Some (Some i)
      else search_part k (Suc i) lsn h)"

definition cdvdman_get_part_specs :: "u32 \<Rightarrow> 'a hdd \<Rightarrow> (u32 \<times> 'a hdd) option" where
  "cdvdman_get_part_specs lsn h =
     map_option (\<lambda>r. case r of
         None \<Rightarrow> (- ENXIO, h)
       | Some i \<Rightarrow> (0, h\<lparr>CurrentPart := i\<rparr>))
       (search_part (hdd_NumParts h) 0 lsn h)"

lemma search_part_found:
  "search_part k i lsn h = Some (Some j) \<Longrightarrow>
     i \<le> j \<and> j < i + k \<and> j < length (cdvdman_partspecs h) \<and> in_part (cdvdman_partspecs h ! j) lsn"
  by (induction k arbitrary: i) (fastforce split: if_splits)+

lemma search_part_finds:
  assumes "\<exists>j. i \<le> j \<and> j < i + k \<and> in_part (cdvdman_partspecs h ! j) lsn"
    and "i + k \<le> length (cdvdman_partspecs h)"
  shows "\<exists>j. search_part k i lsn h = Some (Some j)"
  using assms
proof (induction k arbitrary: i)
  case (Suc k)
  then obtain j where j: "i \<le> j" "j < i + Suc k" "in_part (cdvdman_partspecs h ! j) lsn" by blast
  show ?case
  proof (cases "in_part (cdvdman_partspecs h ! i) lsn")
    case False
    with j have "Suc i \<le> j" by (metis not_less_eq_eq le_antisym)
    then have "\<exists>j. search_part k (Suc i) lsn h = Some (Some j)"
      using j Suc.prems(2) by (intro Suc.IH) auto
    with Suc.prems(2) False show ?thesis by simp
  qed (use Suc in simp)
qed auto

section \<open>\<open>DeviceReadSectors\<close>\<close>

text \<open>Each round reads what the current part has of the run; the buffer moves along.\<close>

definition hdd_current :: "'a hdd \<Rightarrow> hdl_partspecs_t" where
  "hdd_current h = cdvdman_partspecs h ! CurrentPart h"

definition hdd_select :: "u32 \<Rightarrow> 'a hdd \<Rightarrow> (u32 \<times> 'a hdd) option" where
  "hdd_select lsn h =
     (if CurrentPart h \<ge> length (cdvdman_partspecs h) then None
      else if in_part (hdd_current h) lsn then Some (0, h)
      else cdvdman_get_part_specs lsn h)"

lemma hdd_select_in:
  assumes "hdd_select lsn h = Some (0, h')"
  shows "in_part (hdd_current h') lsn \<and> CurrentPart h' < length (cdvdman_partspecs h') \<and>
    cdvdman_partspecs h' = cdvdman_partspecs h \<and> hdd_NumParts h' = hdd_NumParts h \<and> ata h' = ata h"
  using assms search_part_found [of "hdd_NumParts h" 0 lsn h]
  by (auto simp: hdd_select_def cdvdman_get_part_specs_def hdd_current_def
      split: if_splits option.splits)

definition hdd_count :: "hdl_partspecs_t \<Rightarrow> u32 \<Rightarrow> u32 \<Rightarrow> u32" where
  "hdd_count ps lsn sectors = (if sectors < part_end ps - lsn then sectors else part_end ps - lsn)"

lemma hdd_count_progress:
  assumes "in_part ps lsn" and "sectors \<noteq> 0"
  shows "unat (sectors - hdd_count ps lsn sectors) < unat sectors"
proof -
  have gap: "unat (part_end ps - lsn) = unat (part_end ps) - unat lsn" "unat lsn < unat (part_end ps)"
    using assms(1) by (simp_all add: in_part_def unat_sub order_less_imp_le word_less_nat_alt)
  have "hdd_count ps lsn sectors \<le> sectors"
    by (auto simp: hdd_count_def)
  moreover have "unat (hdd_count ps lsn sectors) > 0"
    using gap assms(2) by (auto simp: hdd_count_def unat_gt_0)
  ultimately show ?thesis by (simp add: unat_sub word_le_nat_alt)
qed

function hdd_loop ::
  "'a ata_rd \<Rightarrow> u32 \<Rightarrow> u32 \<Rightarrow> u32 \<Rightarrow> 'a hdd \<Rightarrow> mem \<Rightarrow> (u32 \<times> 'a hdd \<times> mem) option"
where
  "hdd_loop rd lsn p sectors h m =
     (if sectors = 0 then Some (0, h, m)
      else case hdd_select lsn h of
        None \<Rightarrow> None
      | Some (r, h1) \<Rightarrow>
          if r \<noteq> 0 then Some (- ENXIO, h1, m)
          else let ps = hdd_current h1;
                   nsectors = hdd_count ps lsn sectors;
                   lba = data_start ps + push_bit 2 (lsn - part_offset ps)
               in case rd p lba (push_bit 2 nsectors) (ata h1) m of
                    None \<Rightarrow> None
                  | Some (res, a, m') \<Rightarrow>
                      if res \<noteq> 0 then Some (- HDD_EIO, h1\<lparr>ata := a\<rparr>, m')
                      else hdd_loop rd (lsn + nsectors) (p + push_bit 11 nsectors) (sectors - nsectors)
                             (h1\<lparr>ata := a\<rparr>) m')"
  by pat_completeness auto
termination
  by (relation "measure (\<lambda>(_, _, _, n, _, _). unat n)")
    (auto dest!: hdd_select_in intro!: hdd_count_progress)

declare hdd_loop.simps [simp del]

definition DeviceReadSectors_hdd :: "'a ata_rd \<Rightarrow> ('a hdd) devread" where
  "DeviceReadSectors_hdd rd lsn buffer sectors h m = hdd_loop rd lsn buffer sectors h m"

section \<open>Start-up\<close>

text \<open>
  \<open>DeviceInit\<close> starts the disk (\<open>disk_start\<close>: the bay and the driver, of the file that is linked) and
  reads the partition header, again and again until the disk answers; \<open>header\<close> is the address
  of the structure on the stack. Its fields: the start of layer 1 at 232, the disc type at 236,
  the number of parts (kept in one byte) at 240, the table at 244.
\<close>

partial_function (option) read_apa_header ::
  "'a ata_rd \<Rightarrow> u32 \<Rightarrow> 'a hdd cdvdman \<Rightarrow> 'a hdd cdvdman option"
where
  "read_apa_header rd header s =
     Option.bind (rd header (lba_start (dev s)) 2 (ata (dev s)) (memory s)) (\<lambda>(r, a, m).
       let s' = s\<lparr>dev := (dev s)\<lparr>ata := a\<rparr>, memory := m\<rparr>
       in if r \<noteq> 0 then read_apa_header rd header (DelayThread 2000 s') else Some s')"

definition part_spec_at :: "mem \<Rightarrow> u32 \<Rightarrow> hdl_partspecs_t" where
  "part_spec_at m a = \<lparr>part_offset = get_u32 m a, data_start = get_u32 m (a + 4),
     part_size = get_u32 m (a + 8)\<rparr>"

definition part_specs_at :: "mem \<Rightarrow> u32 \<Rightarrow> hdl_partspecs_t list" where
  "part_specs_at m header = map (\<lambda>i. part_spec_at m (header + 244 + of_nat (12 * i))) [0..<65]"

definition num_partitions_at :: "mem \<Rightarrow> u32 \<Rightarrow> nat" where
  "num_partitions_at m header = unat (ucast (get_u32 m (header + 240)) :: u8)"

definition DeviceInit_hdd :: "('a \<Rightarrow> 'a) \<Rightarrow> 'a ata_rd \<Rightarrow> u32 \<Rightarrow> 'a hdd cdvdman \<Rightarrow> 'a hdd cdvdman option" where
  "DeviceInit_hdd disk_start rd header s =
     map_option (\<lambda>s'. let m = memory s' in
         s'\<lparr>settings := (settings s')\<lparr>media := ucast (get_u32 m (header + 236)),
              layer1_start := get_u32 m (header + 232)\<rparr>,
            dev := (dev s')\<lparr>cdvdman_partspecs := part_specs_at m header, hdd_NumParts := num_partitions_at m header\<rparr>\<rparr>)
       (read_apa_header rd header
         (s\<lparr>dev := (dev s)\<lparr>ata := disk_start (ata (dev s)), lba_48bit := media (settings s)\<rparr>\<rparr>))"

section \<open>The driver delivers the image\<close>

text \<open>
  A disk whose reads store its sectors: \<open>store\<close> gives the contents of each, \<open>ok\<close> is the
  invariant of the disk driver's state, \<open>lim\<close> the number of sectors an access may name.
\<close>

definition ata_reads :: "'a ata_rd \<Rightarrow> (u32 \<Rightarrow> u8 list) \<Rightarrow> ('a \<Rightarrow> bool) \<Rightarrow> nat \<Rightarrow> bool" where
  "ata_reads rd store ok lim \<longleftrightarrow>
     (\<forall>l. length (store l) = 512) \<and>
     (\<forall>p lba n a m. ok a \<and> unat lba + unat n \<le> lim \<and> unat n * 512 \<le> 2 ^ 32 \<longrightarrow>
        (\<exists>a'. rd p lba n a m = Some (0, a', write_bytes p (sector_run store lba (unat n)) m) \<and> ok a'))"

text \<open>The image: a sector of part \<open>i\<close> is a run of four disk sectors in that part.\<close>

definition hdd_sector :: "(u32 \<Rightarrow> u8 list) \<Rightarrow> hdl_partspecs_t \<Rightarrow> u32 \<Rightarrow> u8 list" where
  "hdd_sector store ps l = sector_run store (data_start ps + push_bit 2 (l - part_offset ps)) 4"

definition hdd_disc :: "(u32 \<Rightarrow> u8 list) \<Rightarrow> hdl_partspecs_t list \<Rightarrow> u32 \<Rightarrow> u8 list" where
  "hdd_disc store table l =
     (case find (\<lambda>ps. in_part ps l) table of
        Some ps \<Rightarrow> if \<forall>l. length (store l) = 512 then hdd_sector store ps l else replicate 2048 0
      | None \<Rightarrow> replicate 2048 0)"

text \<open>The parts do not overlap, and the current part is one of them.\<close>

definition disjoint_parts :: "hdl_partspecs_t list \<Rightarrow> bool" where
  "disjoint_parts table \<longleftrightarrow>
     (\<forall>p\<in>set table. \<forall>q\<in>set table. \<forall>l. in_part p l \<and> in_part q l \<longrightarrow> p = q)"

definition parts_fit :: "nat \<Rightarrow> hdl_partspecs_t list \<Rightarrow> bool" where
  "parts_fit lim table \<longleftrightarrow> (\<forall>ps\<in>set table.
     unat (data_start ps) + 4 * (unat (part_end ps) - unat (part_offset ps)) \<le> lim)"

definition hdd_state :: "('a \<Rightarrow> bool) \<Rightarrow> nat \<Rightarrow> hdl_partspecs_t list \<Rightarrow> 'a hdd \<Rightarrow> bool" where
  "hdd_state ok lim table h \<longleftrightarrow>
     ok (ata h) \<and> parts_fit lim table \<and> hdd_NumParts h = length table \<and>
     length table \<le> length (cdvdman_partspecs h) \<and> take (length table) (cdvdman_partspecs h) = table \<and>
     disjoint_parts table \<and> CurrentPart h < length table"

definition hdd_inv ::
  "'a ata_rd \<Rightarrow> (u32 \<Rightarrow> u8 list) \<Rightarrow> ('a \<Rightarrow> bool) \<Rightarrow> nat \<Rightarrow> hdl_partspecs_t list \<Rightarrow> 'a hdd \<Rightarrow> bool" where
  "hdd_inv rd store ok lim table h \<longleftrightarrow> ata_reads rd store ok lim \<and> hdd_state ok lim table h"

definition hdd_readable :: "hdl_partspecs_t list \<Rightarrow> u32 \<Rightarrow> nat \<Rightarrow> bool" where
  "hdd_readable table lsn n \<longleftrightarrow>
     (\<forall>i<n. \<exists>ps\<in>set table. in_part ps (lsn + of_nat i))"

lemma hdd_select_finds:
  assumes inv: "hdd_inv rd store ok lim table h" and ps: "ps \<in> set table" "in_part ps lsn"
  shows "\<exists>h1. hdd_select lsn h = Some (0, h1) \<and> hdd_inv rd store ok lim table h1 \<and> hdd_current h1 = ps"
proof -
  have nth: "cdvdman_partspecs h ! i = table ! i" if "i < length table" for i
    using inv that unfolding hdd_inv_def hdd_state_def by (metis nth_take)
  have same: "q = ps" if "q \<in> set table" "in_part q lsn" for q
    using inv ps that by (auto simp: hdd_inv_def hdd_state_def disjoint_parts_def)
  show ?thesis
  proof (cases "in_part (hdd_current h) lsn")
    case True
    then have "hdd_select lsn h = Some (0, h)" using inv by (simp add: hdd_select_def hdd_inv_def hdd_state_def)
    moreover have "hdd_current h = ps"
      using True inv nth by (intro same) (auto simp: hdd_current_def hdd_inv_def hdd_state_def)
    ultimately show ?thesis using inv by blast
  next
    case False
    obtain i where "i < length table" "table ! i = ps" using ps(1) by (metis in_set_conv_nth)
    then have "\<exists>j. 0 \<le> j \<and> j < 0 + hdd_NumParts h \<and> in_part (cdvdman_partspecs h ! j) lsn"
      using inv nth ps(2) by (intro exI [of _ i]) (simp add: hdd_inv_def hdd_state_def)
    then obtain j where j: "search_part (hdd_NumParts h) 0 lsn h = Some (Some j)"
      using search_part_finds inv by (metis add_0 hdd_inv_def hdd_state_def)
    then have jt: "j < length table" "in_part (table ! j) lsn"
      using search_part_found [OF j] inv nth by (auto simp: hdd_inv_def hdd_state_def)
    then have "table ! j = ps" by (intro same) simp_all
    then have "hdd_current (h\<lparr>CurrentPart := j\<rparr>) = ps" using nth jt by (simp add: hdd_current_def)
    moreover have "hdd_inv rd store ok lim table (h\<lparr>CurrentPart := j\<rparr>)" using inv jt by (simp add: hdd_inv_def hdd_state_def)
    ultimately show ?thesis
      using False inv j by (auto simp: hdd_select_def cdvdman_get_part_specs_def hdd_inv_def hdd_state_def)
  qed
qed

lemma hdd_disc_part:
  assumes "disjoint_parts table" and "ps \<in> set table" and "in_part ps l" and "\<forall>l. length (store l) = 512"
  shows "hdd_disc store table l = hdd_sector store ps l"
proof -
  obtain q where q: "find (\<lambda>q. in_part q l) table = Some q"
    using assms(2,3) by (cases "find (\<lambda>q. in_part q l) table") (auto simp: find_None_iff)
  then have "q \<in> set table" "in_part q l" by (auto simp: find_Some_iff)
  then have "q = ps" using assms(1-3) by (auto simp: disjoint_parts_def)
  with q assms(4) show ?thesis by (simp add: hdd_disc_def)
qed

text \<open>The sectors of one round lie in one part, and are one run of disk sectors.\<close>

lemma hdd_round:
  assumes "disjoint_parts table" and "ps \<in> set table" and "\<forall>l. length (store l) = 512"
    and "part_offset ps \<le> lsn" and "unat lsn + k \<le> unat (part_end ps)"
  shows "sector_run (hdd_disc store table) lsn k
    = sector_run store (data_start ps + push_bit 2 (lsn - part_offset ps)) (k * 4)"
proof -
  have four: "push_bit 2 x = x * 4" for x :: u32 by (simp add: push_bit_eq_mult)
  have "hdd_disc store table (lsn + of_nat i)
      = sector_run store ((data_start ps - part_offset ps * 4) + (lsn + of_nat i) * of_nat 4) 4"
    if i: "i < k" for i
  proof -
    have lt: "unat lsn + i < 2 ^ 32" using i assms(5) u32_bound [of "part_end ps"] by simp
    then have "unat (of_nat i :: u32) = i" by (intro unat_of_nat_u32) simp
    then have u: "unat (lsn + of_nat i) = unat lsn + i"
      using lt unat_add_le [where x = lsn and y = "of_nat i"] by simp
    then have "in_part ps (lsn + of_nat i)"
      using i assms(4,5) by (simp add: in_part_def word_le_nat_alt word_less_nat_alt)
    then have "hdd_disc store table (lsn + of_nat i) = hdd_sector store ps (lsn + of_nat i)"
      by (rule hdd_disc_part [OF assms(1,2) _ assms(3)])
    then show ?thesis by (simp add: hdd_sector_def four algebra_simps)
  qed
  then have "sector_run (hdd_disc store table) lsn k
      = sector_run (\<lambda>l. sector_run store ((data_start ps - part_offset ps * 4) + l * of_nat 4) 4) lsn k"
    by (auto simp: sector_run_def intro!: arg_cong [where f = concat])
  then show ?thesis unfolding sector_run_group by (simp add: four algebra_simps)
qed

lemma hdd_disc_length: "length (hdd_disc store table l) = 2048"
proof (cases "\<forall>l. length (store l) = 512")
  case True
  have "length (hdd_sector store ps l) = 4 * 512" for ps
    unfolding hdd_sector_def using True by (intro length_sector_run) simp
  then show ?thesis by (simp add: hdd_disc_def split: option.splits)
next
  case False
  then show ?thesis unfolding hdd_disc_def
    by (cases "find (\<lambda>ps. in_part ps l) table") (simp_all only: if_False length_replicate option.case)
qed

text \<open>What a turn reads lies inside the part it has selected, and inside the disk.\<close>

lemma hdd_count_bounds:
  assumes "in_part ps lsn"
  shows "unat (hdd_count ps lsn n) \<le> unat n"
    and "unat lsn + unat (hdd_count ps lsn n) \<le> unat (part_end ps)"
proof -
  have "unat (part_end ps - lsn) = unat (part_end ps) - unat lsn" "unat lsn < unat (part_end ps)"
    using assms by (simp_all add: in_part_def unat_sub order_less_imp_le word_less_nat_alt)
  then show "unat (hdd_count ps lsn n) \<le> unat n"
    "unat lsn + unat (hdd_count ps lsn n) \<le> unat (part_end ps)"
    by (auto simp: hdd_count_def word_less_nat_alt)
qed

lemma hdd_part_room:
  assumes "parts_fit lim table" and "ps \<in> set table" and "in_part ps lsn"
    and "unat lsn + j \<le> unat (part_end ps)"
  shows "unat (data_start ps + push_bit 2 (lsn - part_offset ps)) + j * 4 \<le> lim"
proof -
  have off: "unat (lsn - part_offset ps) = unat lsn - unat (part_offset ps)" "unat (part_offset ps) \<le> unat lsn"
    using assms(3) by (simp_all add: in_part_def unat_sub word_le_nat_alt)
  have "unat (push_bit 2 x) \<le> 4 * unat x" for x :: u32
    by (simp add: push_bit_eq_mult unat_word_ariths)
  from this [of "lsn - part_offset ps"]
  have "unat (data_start ps + push_bit 2 (lsn - part_offset ps))
      \<le> unat (data_start ps) + 4 * (unat lsn - unat (part_offset ps))"
    unfolding off(1) by (rule order_trans [OF unat_add_bound add_left_mono])
  moreover have "unat (data_start ps) + 4 * (unat (part_end ps) - unat (part_offset ps)) \<le> lim"
    using assms(1,2) by (simp add: parts_fit_def)
  ultimately show ?thesis using assms(4) off(2) by linarith
qed

lemma hdd_readable_rest:
  assumes "hdd_readable table lsn n" and "unat k \<le> n"
  shows "hdd_readable table (lsn + k) (n - unat k)"
  unfolding hdd_readable_def
proof (intro allI impI)
  fix i assume "i < n - unat k"
  then have "unat k + i < n" using assms(2) by simp
  then have "\<exists>ps\<in>set table. in_part ps (lsn + of_nat (unat k + i))"
    using assms(1) unfolding hdd_readable_def by blast
  then show "\<exists>ps\<in>set table. in_part ps (lsn + k + of_nat i)" by (simp add: add.assoc)
qed

lemma hdd_delivers:
  assumes "hdd_inv rd store ok lim table h" and "hdd_readable table lsn (unat n)" and "unat n * 2048 \<le> 2 ^ 32"
  shows "\<exists>h'. hdd_inv rd store ok lim table h' \<and> hdd_loop rd lsn p n h m
    = Some (0, h', write_bytes p (sector_run (hdd_disc store table) lsn (unat n)) m)"
  using assms
proof (induction rd lsn p n h m rule: hdd_loop.induct)
  case (1 rd lsn p n h m)
  show ?case
  proof (cases "n = 0")
    case True
    with 1 show ?thesis by (simp add: hdd_loop.simps)
  next
    case False
    let ?disc = "hdd_disc store table"
    have "unat n > 0" using False by (simp add: unat_gt_0)
    with "1.prems"(2) obtain ps where ps: "ps \<in> set table" "in_part ps lsn"
      by (auto simp: hdd_readable_def dest: spec [of _ 0])
    obtain h1 where h1: "hdd_select lsn h = Some (0, h1)" "hdd_inv rd store ok lim table h1" "hdd_current h1 = ps"
      using hdd_select_finds [OF "1.prems"(1) ps] by blast
    define k where "k = hdd_count ps lsn n"
    have k: "unat k \<le> unat n" "unat lsn + unat k \<le> unat (part_end ps)"
      unfolding k_def by (rule hdd_count_bounds [OF ps(2)])+
    have "unat k * 4 < 2 ^ 32" using k(1) "1.prems"(3) by simp
    then have k4: "unat (push_bit 2 k) = unat k * 4"
      by (simp add: push_bit_eq_mult unat_word_ariths)
    have store: "\<forall>l. length (store l) = 512" using "1.prems"(1) by (simp add: hdd_inv_def hdd_state_def ata_reads_def)
    let ?lba = "data_start ps + push_bit 2 (lsn - part_offset ps)"
    have run: "sector_run store ?lba (unat k * 4) = sector_run ?disc lsn (unat k)"
      using hdd_round [OF _ ps(1) store _ k(2)] "1.prems"(1) ps(2) by (simp add: hdd_inv_def hdd_state_def in_part_def)
    have room: "unat ?lba + unat (push_bit 2 k) \<le> lim"
      unfolding k4 using "1.prems"(1) by (intro hdd_part_room [OF _ ps k(2)]) (simp add: hdd_inv_def hdd_state_def)
    have "unat (push_bit 2 k) * 512 \<le> 2 ^ 32" unfolding k4 using k(1) "1.prems"(3) by linarith
    then obtain a where a: "rd p ?lba (push_bit 2 k) (ata h1) m
        = Some (0, a, write_bytes p (sector_run ?disc lsn (unat k)) m)" "ok a"
      using h1(2) room unfolding run [symmetric] k4 [symmetric] hdd_inv_def hdd_state_def ata_reads_def by blast
    let ?h = "h1\<lparr>ata := a\<rparr>" let ?m = "write_bytes p (sector_run ?disc lsn (unat k)) m"
    have inv: "hdd_inv rd store ok lim table ?h" using h1(2) a(2) by (simp add: hdd_inv_def hdd_state_def)
    have rest: "unat (n - k) = unat n - unat k" using k(1) by (simp add: unat_sub word_le_nat_alt)
    have "\<exists>h'. hdd_inv rd store ok lim table h' \<and> hdd_loop rd (lsn + k) (p + push_bit 11 k) (n - k) ?h ?m
      = Some (0, h', write_bytes (p + push_bit 11 k) (sector_run ?disc (lsn + k) (unat (n - k))) ?m)"
    proof (rule "1.IH" [OF False h1(1) refl _ refl refl refl a(1) [unfolded k_def, folded h1(3)] refl refl,
        unfolded h1(3), folded k_def])
      show "hdd_readable table (lsn + k) (unat (n - k))"
        unfolding rest by (rule hdd_readable_rest [OF "1.prems"(2) k(1)])
    qed (use inv a "1.prems"(3) rest in \<open>simp_all add: k_def\<close>)
    then obtain h' where h': "hdd_inv rd store ok lim table h'"
      "hdd_loop rd (lsn + k) (p + push_bit 11 k) (n - k) ?h ?m
      = Some (0, h', write_bytes (p + push_bit 11 k) (sector_run ?disc (lsn + k) (unat (n - k))) ?m)"
      by blast
    have len: "length (sector_run ?disc l j) = j * 2048" for l j
      by (rule length_sector_run) (rule hdd_disc_length)
    have "write_bytes (p + push_bit 11 k) (sector_run ?disc (lsn + k) (unat (n - k))) ?m
        = write_bytes p (sector_run ?disc lsn (unat k + (unat n - unat k))) m"
      unfolding rest using "1.prems"(3) k(1) sector_run_add [of ?disc lsn "unat k" "unat n - unat k"]
      by (simp add: len push_bit_11_eq write_bytes_append)
    moreover have "hdd_loop rd lsn p n h m = hdd_loop rd (lsn + k) (p + push_bit 11 k) (n - k) ?h ?m"
      using False h1(1,3) a
      by (subst hdd_loop.simps) (simp add: Let_def flip: k_def)
    ultimately show ?thesis using h' k(1) by auto
  qed
qed

interpretation hdd: disc_device "DeviceReadSectors_hdd rd" "hdd_inv rd store ok lim table"
    "hdd_disc store table" "hdd_readable table"
  for rd :: "'a ata_rd" and store ok lim table
proof unfold_locales
  show "length (hdd_disc store table l) = 2048" for l by (rule hdd_disc_length)
  show "hdd_readable table lsn j \<and> hdd_readable table (lsn + of_nat j) k"
    if "hdd_readable table lsn (j + k)" for lsn j k
  proof -
    have "\<exists>ps\<in>set table. in_part ps (lsn + of_nat j + of_nat i)" if "i < k" for i
      using \<open>hdd_readable table lsn (j + k)\<close> that unfolding hdd_readable_def
      by (metis add.assoc add_less_cancel_left of_nat_add)
    then show ?thesis using that by (auto simp: hdd_readable_def)
  qed
  show "\<exists>d'. hdd_inv rd store ok lim table d' \<and> DeviceReadSectors_hdd rd lsn a n d m
      = Some (0, d', write_bytes a (sector_run (hdd_disc store table) lsn (unat n)) m)"
    if "hdd_inv rd store ok lim table d" "hdd_readable table lsn (unat n)" "unat n * 2048 \<le> 2 ^ 32" for d lsn n a m
    using hdd_delivers [OF that] by (simp add: DeviceReadSectors_hdd_def)
qed

section \<open>The table comes from the disk\<close>

text \<open>The header's two sectors, and what they say: words, the lowest byte first, at fixed places.\<close>

definition apa_header :: "(u32 \<Rightarrow> u8 list) \<Rightarrow> u32 \<Rightarrow> u8 list" where
  "apa_header store lba = sector_run store lba 2"

definition header_u32 :: "u8 list \<Rightarrow> nat \<Rightarrow> u32" where
  "header_u32 bs k = ucast (bs ! k) OR push_bit 8 (ucast (bs ! (k + 1))) OR push_bit 16 (ucast (bs ! (k + 2)))
     OR push_bit 24 (ucast (bs ! (k + 3)))"

definition apa_count :: "(u32 \<Rightarrow> u8 list) \<Rightarrow> u32 \<Rightarrow> nat" where
  "apa_count store lba = unat (header_u32 (apa_header store lba) 240) mod 256"

definition apa_part :: "u8 list \<Rightarrow> nat \<Rightarrow> hdl_partspecs_t" where
  "apa_part bs i = \<lparr>part_offset = header_u32 bs (244 + 12 * i), data_start = header_u32 bs (248 + 12 * i),
     part_size = header_u32 bs (252 + 12 * i)\<rparr>"

definition apa_table :: "(u32 \<Rightarrow> u8 list) \<Rightarrow> u32 \<Rightarrow> hdl_partspecs_t list" where
  "apa_table store lba = map (apa_part (apa_header store lba)) [0..<apa_count store lba]"

lemma header_word:
  assumes "length bs \<le> 2 ^ 32" and "k + 4 \<le> length bs"
  shows "get_u32 (write_bytes a bs m) (a + of_nat k) = header_u32 bs k"
proof -
  have "write_bytes a bs m (a + of_nat k + of_nat j) = bs ! (k + j)" if "j < 4" for j
  proof -
    have "unat (of_nat (k + j) :: u32) = k + j" using assms that by (intro unat_of_nat_u32) simp
    then show ?thesis using assms(2) that by (simp add: write_bytes_def)
  qed
  from this [of 0] this [of 1] this [of 2] this [of 3] show ?thesis by (simp add: get_u32_def header_u32_def)
qed

lemma header_at:
  fixes header lba :: u32 and m :: mem
  assumes "\<And>l. length (store l) = 512"
  defines "m' \<equiv> write_bytes header (sector_run store lba 2) m"
  shows "n \<le> 65 \<Longrightarrow> take n (part_specs_at m' header) = map (apa_part (apa_header store lba)) [0..<n]"
    and "num_partitions_at m' header = apa_count store lba"
    and "get_u32 m' (header + 236) = header_u32 (apa_header store lba) 236"
    and "get_u32 m' (header + 232) = header_u32 (apa_header store lba) 232"
proof -
  have len: "length (sector_run store lba 2) = 1024" using assms(1) length_sector_run [of store 512 lba 2] by simp
  have word: "get_u32 m' (header + of_nat k) = header_u32 (apa_header store lba) k" if "k + 4 \<le> 1024" for k
    unfolding m'_def apa_header_def using len that by (intro header_word) simp_all
  have "part_spec_at m' (header + 244 + of_nat (12 * i)) = apa_part (apa_header store lba) i" if "i < 65" for i
    using word [of "244 + 12 * i"] word [of "248 + 12 * i"] word [of "252 + 12 * i"] that
    by (simp add: part_spec_at_def apa_part_def add.assoc add.commute add.left_commute)
  then show "take n (part_specs_at m' header) = map (apa_part (apa_header store lba)) [0..<n]" if "n \<le> 65"
    unfolding part_specs_at_def take_map using that by (intro map_cong) simp_all
  show "num_partitions_at m' header = apa_count store lba"
    using word [of 240] by (simp add: num_partitions_at_def apa_count_def unsigned_ucast_eq take_bit_eq_mod)
  show "get_u32 m' (header + 236) = header_u32 (apa_header store lba) 236"
    "get_u32 m' (header + 232) = header_u32 (apa_header store lba) 232"
    using word [of 236] word [of 232] by simp_all
qed

text \<open>A table a read can use: at least one part, none past the 65 entries, no overlap, on the disk.\<close>

definition table_ok :: "nat \<Rightarrow> (u32 \<Rightarrow> u8 list) \<Rightarrow> u32 \<Rightarrow> bool" where
  "table_ok lim store lba \<longleftrightarrow> 0 < apa_count store lba \<and> apa_count store lba \<le> 65 \<and>
     disjoint_parts (apa_table store lba) \<and> parts_fit lim (apa_table store lba) \<and> unat lba + 2 \<le> lim"

text \<open>What the start changes besides the driver's state: the memory of the header and two settings.\<close>

definition header_read :: "(u32 \<Rightarrow> u8 list) \<Rightarrow> u32 \<Rightarrow> u32 \<Rightarrow> 'd cdvdman \<Rightarrow> 'd cdvdman" where
  "header_read store lba header s = s\<lparr>memory := write_bytes header (sector_run store lba 2) (memory s),
     settings := (settings s)\<lparr>media := ucast (header_u32 (apa_header store lba) 236),
       layer1_start := header_u32 (apa_header store lba) 232\<rparr>\<rparr>"

lemma DeviceInit_table:
  assumes disk: "ata_reads rd store ok lim" and ok: "ok (disk_start (ata (dev s)))"
    and tab: "table_ok lim store (lba_start (dev s))" and "CurrentPart (dev s) = 0"
  shows "\<exists>h'. hdd_state ok lim (apa_table store (lba_start (dev s))) h' \<and>
    DeviceInit_hdd disk_start rd header s = Some (header_read store (lba_start (dev s)) header s\<lparr>dev := h'\<rparr>)"
proof -
  let ?h = "(dev s)\<lparr>ata := disk_start (ata (dev s)), lba_48bit := media (settings s)\<rparr>"
  let ?lba = "lba_start (dev s)"
  let ?m = "write_bytes header (sector_run store ?lba 2) (memory s)"
  have len: "\<And>l. length (store l) = 512" using disk by (simp add: ata_reads_def)
  have lim: "unat ?lba + unat (2 :: u32) \<le> lim" using tab by (simp add: table_ok_def Let_def)
  obtain a where a: "rd header ?lba 2 (disk_start (ata (dev s))) (memory s) = Some (0, a, ?m)" "ok a"
    using disk ok lim unfolding ata_reads_def by (fastforce dest: spec [of _ header])
  then have "read_apa_header rd header (s\<lparr>dev := ?h\<rparr>) = Some (s\<lparr>dev := ?h\<lparr>ata := a\<rparr>, memory := ?m\<rparr>)"
    by (subst read_apa_header.simps) simp
  moreover have "length (part_specs_at ?m header) = 65" by (simp add: part_specs_at_def)
  ultimately show ?thesis
    using tab a(2) header_at [of store, OF len] assms(4)
    by (intro exI [of _ "?h\<lparr>ata := a, cdvdman_partspecs := part_specs_at ?m header, hdd_NumParts := num_partitions_at ?m header\<rparr>"])
      (simp add: DeviceInit_hdd_def header_read_def Let_def hdd_state_def table_ok_def apa_table_def)
qed

section \<open>Sectors outside the image\<close>

lemma search_part_misses:
  assumes "i + k \<le> length (cdvdman_partspecs h)"
    and "\<forall>j. i \<le> j \<and> j < i + k \<longrightarrow> \<not> in_part (cdvdman_partspecs h ! j) lsn"
  shows "search_part k i lsn h = Some None"
  using assms by (induction k arbitrary: i) auto

text \<open>
  A read that starts outside every part stops before the disk is touched: the result is
  \<open>-ENXIO\<close>, and neither memory nor the driver's state has changed.
\<close>

theorem hdd_outside:
  assumes "hdd_NumParts h \<le> length (cdvdman_partspecs h)"
    and "CurrentPart h < length (cdvdman_partspecs h)"
    and "\<not> in_part (hdd_current h) lsn"
    and "\<forall>j < hdd_NumParts h. \<not> in_part (cdvdman_partspecs h ! j) lsn" and "n \<noteq> 0"
  shows "DeviceReadSectors_hdd rd lsn p n h m = Some (- ENXIO, h, m)"
proof -
  have "search_part (hdd_NumParts h) 0 lsn h = Some None"
    using assms(1,4) by (intro search_part_misses) auto
  then have "hdd_select lsn h = Some (- ENXIO, h)"
    using assms(2,3) by (simp add: hdd_select_def cdvdman_get_part_specs_def)
  then show ?thesis
    using assms(5) by (simp add: DeviceReadSectors_hdd_def hdd_loop.simps)
qed

end
