(* ===== verification/Hdd_Atad.thy ===== *)
theory Hdd_Atad
  imports Atad_Delivers Device_Hdd
begin

text \<open>
  The hard disk driver with the disk access of atad.c under it, and a concrete disk that keeps the
  register protocol.
\<close>

section \<open>The two drivers together\<close>

text \<open>Device 0, direction \<open>ATA_DIR_READ\<close>; \<open>l\<close> is the flag \<open>lba_48bit\<close>.\<close>

definition atad_rd :: "bool \<Rightarrow> bool \<Rightarrow> 'h bus \<Rightarrow> ('h dev9) ata_rd" where
  "atad_rd vmc l bus p lba n s m = ata_device_sector_io vmc l bus 0 p lba n 0 (s, m)"

lemma atad_reads:
  assumes "ata_drive bus view store"
  shows "ata_reads (atad_rd vmc l bus) store (ata_idle vmc view) (lba_limit l)"
  unfolding ata_reads_def
proof (intro conjI allI impI)
  fix p lba n a m
  assume "ata_idle vmc view a \<and> unat (lba :: u32) + unat (n :: u32) \<le> lba_limit l \<and> unat n * 512 \<le> 2 ^ 32"
  then show "\<exists>a'. atad_rd vmc l bus p lba n a m = Some (0, a', write_bytes p (sector_run store lba (unat n)) m) \<and>
      ata_idle vmc view a'"
    using sector_io_delivers [OF assms] unfolding atad_rd_def by blast
qed (use assms in \<open>simp add: ata_drive_def\<close>)

section \<open>The start\<close>

text \<open>What \<open>DeviceInit\<close> starts: the bay, then the driver.\<close>

definition atad_init :: "'h bus \<Rightarrow> 'h dev9 \<Rightarrow> 'h dev9" where
  "atad_init bus s = (snd (atad_start (snd (dev9d_init bus s))))\<lparr>atad_inited := True\<rparr>"

section \<open>A concrete disk\<close>

text \<open>The hardware's state is its own view; every access does at once what the protocol says.\<close>

definition disk_rd :: "ioreg \<Rightarrow> drive \<Rightarrow> u16 \<times> drive" where
  "disk_rd r h = (case r of
       r_control \<Rightarrow> (0x40, h)
     | r_status \<Rightarrow> (0x40, h\<lparr>intrq := False\<rparr>)
     | r_select \<Rightarrow> (now h r_select, h)
     | SPD_R_INTR_STAT \<Rightarrow> (if intrq h then 1 else 0, h)
     | SPD_R_38 \<Rightarrow> (if todo h = None then 0 else 8, h)
     | SPD_R_XFR_CTRL \<Rightarrow> (xfr h, h)
     | SPD_R_IF_CTRL \<Rightarrow> (ifc h, h)
     | _ \<Rightarrow> (0, h))"

definition disk_wr :: "ioreg \<Rightarrow> u16 \<Rightarrow> drive \<Rightarrow> drive" where
  "disk_wr r v h =
     (if r \<in> task_regs then put_reg r v h
      else if r = SPD_R_XFR_CTRL then h\<lparr>xfr := v\<rparr>
      else if r = SPD_R_IF_CTRL then h\<lparr>ifc := v\<rparr>
      else if r = r_command \<and> v = 0xC8 then h\<lparr>todo := Some (task28 h), intrq := False\<rparr>
      else if r = r_command \<and> v = 0x25 then h\<lparr>todo := Some (task48 h), intrq := False\<rparr>
      else h)"

definition disk_dma ::
  "(u32 \<Rightarrow> u8 list) \<Rightarrow> u32 \<Rightarrow> u32 \<Rightarrow> bool \<Rightarrow> drive \<Rightarrow> mem \<Rightarrow> (drive \<times> mem) option" where
  "disk_dma store a bcr out h m = (case todo h of
     None \<Rightarrow> None
   | Some (l, n) \<Rightarrow> let c = bcr_words bcr div 128 in Some (moved c h, write_bytes a (sector_run store l c) m))"

definition disk_bus :: "(u32 \<Rightarrow> u8 list) \<Rightarrow> drive bus" where
  "disk_bus store = \<lparr>rd_reg = disk_rd, wr_reg = disk_wr, wr_ssbus = (\<lambda>_ _ h. h), run_dma = disk_dma store,
     pass_time = (\<lambda>_ h. h), woken = (\<lambda>_. None), AIF_INTR_PCMCIA = 1, QueryBootMode6 = None,
     foreign_intr = (\<lambda>_ _ h. h), foreign_dma = (\<lambda>_ _ _ h. h), foreign_shutdown = (\<lambda>_ h. h)\<rparr>"

lemma disk_bus_drive:
  assumes "\<And>l. length (store l) = 512"
  shows "ata_drive (disk_bus store) (\<lambda>h. h) store"
proof -
  have "reads_keep (disk_bus store) (\<lambda>h. h)"
    by (auto simp: reads_keep_def disk_bus_def disk_rd_def split: ioreg.split)
  moreover have "reads_show (disk_bus store) (\<lambda>h. h)"
    by (simp add: reads_show_def disk_bus_def disk_rd_def)
  moreover have "writes_show (disk_bus store) (\<lambda>h. h)"
    by (auto simp: writes_show_def disk_bus_def disk_wr_def task_regs_def)
  moreover have "dma_moves (disk_bus store) (\<lambda>h. h) store"
    by (auto simp: dma_moves_def disk_bus_def disk_dma_def Let_def)
  ultimately show ?thesis using assms by (simp add: ata_drive_def)
qed

definition disk_at_rest :: drive where
  "disk_at_rest = \<lparr>now = (\<lambda>_. 0), before = (\<lambda>_. 0), todo = None, intrq = False, xfr = 0, ifc = 0\<rparr>"

definition demo_bay :: "drive dev9" where
  "demo_bay = \<lparr>hw = disk_at_rest, dev9type = 1, using_aif = False, intr_installed = True, dma_lock_sem = 1,
     eeprom_data = replicate 5 0, dev9_intr_cbs = (\<lambda>_. None), dev9_shutdown_cbs = (\<lambda>_. None),
     dev9_predma_cbs = (\<lambda>_. None), dev9_postdma_cbs = (\<lambda>_. None), atad_inited = False, ata_evflg = 0,
     ata_alarm = False, atad_cmd_state = \<lparr>ata_type = 0, ata_buf = 0, blkcount = 0, ata_dir = 0\<rparr>, ata_io_sema = 0\<rparr>"

text \<open>After \<open>atad_start\<close> the driver is ready.\<close>

lemma demo_bay_started: "ata_idle vmc (\<lambda>h. h) (snd (atad_start demo_bay))"
  by (simp add: ata_idle_def disk_idle_def dma_set_up_def atad_start_def demo_bay_def dev9RegisterPostDmaCb_def
      dev9RegisterPreDmaCb_def dev9RegisterIntrCb_def disk_view_def disk_at_rest_def)

end
