(* ===== verification/Boot_Hdd.thy ===== *)
theory Boot_Hdd
  imports Boot Instances Hdd_Atad
begin

text \<open>
  The module with the driver of device-hdd.c from \<open>_start\<close>, which reads the table of parts from the
  partition's header on the disk, to the sectors of the image.
\<close>

section \<open>From the start to the sectors\<close>


section \<open>A disk with a partition header\<close>

text \<open>
  The header in sectors 0 and 1: layer 1 at 0x20000, a DVD, one part of 0x100 disc sectors at disk
  sector 0x2000.
\<close>

definition demo_apa_fields :: "u8 list" where
  "demo_apa_fields = [0, 0, 2, 0, 0x14, 0, 0, 0, 1, 0, 0, 0, 0, 0, 0, 0, 0, 0x20, 0, 0, 0, 0, 8, 0]"

definition demo_apa_store :: "u32 \<Rightarrow> u8 list" where
  "demo_apa_store l =
     (if l = 0 then replicate 232 0 @ demo_apa_fields @ replicate 256 0
      else if l = 1 then replicate 512 0 else demo_store l)"

lemma demo_apa_length: "length (demo_apa_store l) = 512"
  by (simp add: demo_apa_store_def demo_apa_fields_def demo_store_def)

lemma demo_apa_header: "apa_header demo_apa_store 0 = replicate 232 0 @ demo_apa_fields @ replicate 768 0"
  by (simp add: apa_header_def sector_run_def demo_apa_store_def numeral_2_eq_2 replicate_add [symmetric])

lemma demo_apa_word: "i + 4 \<le> 24 \<Longrightarrow> header_u32 (apa_header demo_apa_store 0) (232 + i) = header_u32 demo_apa_fields i"
proof -
  assume "i + 4 \<le> 24"
  moreover have "length demo_apa_fields = 24" by (simp add: demo_apa_fields_def)
  ultimately show ?thesis by (simp add: demo_apa_header header_u32_def nth_append add.commute)
qed

definition demo_apa_part :: hdl_partspecs_t where
  "demo_apa_part = \<lparr>part_offset = 0, data_start = 0x2000, part_size = 0x80000\<rparr>"

lemma demo_apa_media: "header_u32 (apa_header demo_apa_store 0) 236 = 0x14"
  using demo_apa_word [of 4] by (simp add: header_u32_def demo_apa_fields_def)

lemma demo_apa_layer1: "header_u32 (apa_header demo_apa_store 0) 232 = 0x20000"
  using demo_apa_word [of 0] by (simp add: header_u32_def demo_apa_fields_def)

lemma demo_apa_count: "apa_count demo_apa_store 0 = 1"
  using demo_apa_word [of 8] by (simp add: apa_count_def header_u32_def demo_apa_fields_def)

lemma demo_apa_table: "apa_table demo_apa_store 0 = [demo_apa_part]"
  using demo_apa_word [of 12] demo_apa_word [of 16] demo_apa_word [of 20]
  by (simp add: apa_table_def demo_apa_count apa_part_def header_u32_def demo_apa_fields_def demo_apa_part_def)

lemma demo_apa_in_part: "in_part demo_apa_part l \<longleftrightarrow> l < 0x100"
  by (simp add: in_part_def part_end_def demo_apa_part_def)

lemma demo_apa_ok: "table_ok (lba_limit True) demo_apa_store 0"
  unfolding table_ok_def demo_apa_count demo_apa_table
  by (simp add: disjoint_parts_def parts_fit_def lba_limit_def part_end_def demo_apa_part_def)

definition demo_hdd_off :: "(drive dev9) hdd" where
  "demo_hdd_off = \<lparr>cdvdman_partspecs = [], CurrentPart = 0, hdd_NumParts = 0, lba_48bit = 0,
     lba_start = 0, ata = demo_bay\<rparr>"

lemma demo_apa_started:
  "ata_idle False (\<lambda>h. h) (atad_init (disk_bus demo_apa_store) (ata demo_hdd_off))"
  by (simp add: atad_init_def dev9d_init_def reg_rd_def disk_bus_def disk_rd_def ata_idle_def disk_idle_def
      dma_set_up_def atad_start_def demo_hdd_off_def demo_bay_def dev9RegisterPostDmaCb_def
      dev9RegisterPreDmaCb_def dev9RegisterIntrCb_def disk_view_def disk_at_rest_def)


end
