(* ===== verification/Smb.thy ===== *)
theory Smb
  imports Prelude
begin

text \<open>
  The SMB client (cdvdman/smb.c): the packets of the protocol, the session, and reads and writes
  of open files. The TCP stack (ps2ip) is another module and a record of functions on a state of
  its own. The packed structures are records with their bytes; a packet is built in the module's
  buffer \<open>SMB_buf\<close>, the answers are read from it by the offsets of the structures. An access
  outside an array is None.
\<close>

section \<open>The network\<close>

text \<open>
  \<open>ip_recvfrom sock index plen\<close>: without an index the bytes of the connection that have arrived, at
  most \<open>plen\<close>, are the payload; with an index the first bytes go to a header, whose length is
  found in the packet at that index. The answer is the number the call returns, the header and
  the payload; None when nothing ever arrives.
\<close>

record 'n ps2ip =
  ip_socket :: "'n \<Rightarrow> int \<times> 'n"
  ip_connect :: "int \<Rightarrow> u32 \<Rightarrow> u16 \<Rightarrow> 'n \<Rightarrow> int \<times> 'n"
  ip_send :: "int \<Rightarrow> u8 list \<Rightarrow> 'n \<Rightarrow> int \<times> 'n"
  ip_recvfrom :: "int \<Rightarrow> nat option \<Rightarrow> int \<Rightarrow> 'n \<Rightarrow> (int \<times> u8 list \<times> u8 list \<times> 'n) option"
  ip_close :: "int \<Rightarrow> 'n \<Rightarrow> 'n"
  ip_delay :: "nat \<Rightarrow> 'n \<Rightarrow> 'n"
  inet_addr :: "u8 list \<Rightarrow> u32"

section \<open>Packets\<close>

definition SMB_MAGIC :: u32 where "SMB_MAGIC = 0x424d53ff"
definition SMB_COM_OPEN_ANDX :: u8 where "SMB_COM_OPEN_ANDX = 0x2d"
definition SMB_COM_READ_ANDX :: u8 where "SMB_COM_READ_ANDX = 0x2e"
definition SMB_COM_WRITE_ANDX :: u8 where "SMB_COM_WRITE_ANDX = 0x2f"
definition SMB_COM_NEGOCIATE :: u8 where "SMB_COM_NEGOCIATE = 0x72"
definition SMB_COM_SESSION_SETUP_ANDX :: u8 where "SMB_COM_SESSION_SETUP_ANDX = 0x73"
definition SMB_COM_TREE_CONNECT_ANDX :: u8 where "SMB_COM_TREE_CONNECT_ANDX = 0x75"
definition SMB_COM_NONE :: u8 where "SMB_COM_NONE = 0xff"
definition SMB_FLAGS_CANONICAL_PATHNAMES :: u8 where "SMB_FLAGS_CANONICAL_PATHNAMES = 0x10"
definition SMB_FLAGS_CASELESS_PATHNAMES :: u8 where "SMB_FLAGS_CASELESS_PATHNAMES = 0x08"
definition SMB_FLAGS2_UNICODE_STRING :: u16 where "SMB_FLAGS2_UNICODE_STRING = 0x8000"
definition SMB_FLAGS2_32BIT_STATUS :: u16 where "SMB_FLAGS2_32BIT_STATUS = 0x4000"
definition SMB_FLAGS2_KNOWS_LONG_NAMES :: u16 where "SMB_FLAGS2_KNOWS_LONG_NAMES = 0x0001"
definition STATUS_LOGON_FAILURE :: u32 where "STATUS_LOGON_FAILURE = 0xc000006d"

text \<open>The field \<open>Extra\<close> is never anything but zeros.\<close>

record SMBHeader_t =
  sessionHeader :: u32
  h_Cmd :: u8
  h_Eclass :: u16
  h_Ecode :: u16
  h_Flags :: u8
  h_Flags2 :: u16
  h_TID :: u16
  h_PID :: u16
  h_UID :: u16
  h_MID :: u16

definition SMBHeader_bytes :: "SMBHeader_t \<Rightarrow> u8 list" where
  "SMBHeader_bytes h = bytes_u32 (sessionHeader h) @ bytes_u32 SMB_MAGIC @ [h_Cmd h] @ bytes_u16 (h_Eclass h) @
     bytes_u16 (h_Ecode h) @ [h_Flags h] @ bytes_u16 (h_Flags2 h) @ replicate 12 0 @ bytes_u16 (h_TID h) @
     bytes_u16 (h_PID h) @ bytes_u16 (h_UID h) @ bytes_u16 (h_MID h)"

text \<open>The header of a request in the zeroed buffer.\<close>

definition request_header :: "u8 \<Rightarrow> u8 \<Rightarrow> u16 \<Rightarrow> u16 \<Rightarrow> u16 \<Rightarrow> SMBHeader_t" where
  "request_header cmd flags flags2 tid uid = \<lparr>sessionHeader = 0, h_Cmd = cmd, h_Eclass = 0, h_Ecode = 0,
     h_Flags = flags, h_Flags2 = flags2, h_TID = tid, h_PID = 0, h_UID = uid, h_MID = 0\<rparr>"

record NegociateProtocolRequest_t =
  np_smbH :: SMBHeader_t
  np_smbWordcount :: u8
  np_ByteCount :: u16
  np_DialectFormat :: u8

definition NegociateProtocolRequest_bytes :: "NegociateProtocolRequest_t \<Rightarrow> u8 list" where
  "NegociateProtocolRequest_bytes r = SMBHeader_bytes (np_smbH r) @ [np_smbWordcount r] @ bytes_u16 (np_ByteCount r) @
     [np_DialectFormat r]"

text \<open>In the AndX requests the command, the reserved byte and the offset follow the word count.\<close>

definition andx_bytes :: "u8 \<Rightarrow> u8 list" where
  "andx_bytes cmd = [cmd, 0] @ bytes_u16 0"

record SessionSetupAndXRequest_t =
  ss_smbH :: SMBHeader_t
  ss_smbWordcount :: u8
  ss_smbAndxCmd :: u8
  ss_MaxBufferSize :: u16
  ss_MaxMpxCount :: u16
  ss_VCNumber :: u16
  ss_SessionKey :: u32
  ss_AnsiPasswordLength :: u16
  ss_UnicodePasswordLength :: u16
  ss_Capabilities :: u32
  ss_ByteCount :: u16

definition SessionSetupAndXRequest_bytes :: "SessionSetupAndXRequest_t \<Rightarrow> u8 list" where
  "SessionSetupAndXRequest_bytes r = SMBHeader_bytes (ss_smbH r) @ [ss_smbWordcount r] @ andx_bytes (ss_smbAndxCmd r) @
     bytes_u16 (ss_MaxBufferSize r) @ bytes_u16 (ss_MaxMpxCount r) @ bytes_u16 (ss_VCNumber r) @
     bytes_u32 (ss_SessionKey r) @ bytes_u16 (ss_AnsiPasswordLength r) @ bytes_u16 (ss_UnicodePasswordLength r) @
     bytes_u32 0 @ bytes_u32 (ss_Capabilities r) @ bytes_u16 (ss_ByteCount r)"

record TreeConnectAndXRequest_t =
  tc_smbH :: SMBHeader_t
  tc_smbWordcount :: u8
  tc_smbAndxCmd :: u8
  tc_PasswordLength :: u16
  tc_ByteCount :: u16

definition TreeConnectAndXRequest_bytes :: "TreeConnectAndXRequest_t \<Rightarrow> u8 list" where
  "TreeConnectAndXRequest_bytes r = SMBHeader_bytes (tc_smbH r) @ [tc_smbWordcount r] @ andx_bytes (tc_smbAndxCmd r) @
     bytes_u16 0 @ bytes_u16 (tc_PasswordLength r) @ bytes_u16 (tc_ByteCount r)"

record OpenAndXRequest_t =
  oa_smbH :: SMBHeader_t
  oa_smbWordcount :: u8
  oa_smbAndxCmd :: u8
  oa_AccessMask :: u16
  oa_FileAttributes :: u16
  oa_CreateOptions :: u16
  oa_ByteCount :: u16

definition OpenAndXRequest_bytes :: "OpenAndXRequest_t \<Rightarrow> u8 list" where
  "OpenAndXRequest_bytes r = SMBHeader_bytes (oa_smbH r) @ [oa_smbWordcount r] @ andx_bytes (oa_smbAndxCmd r) @
     bytes_u16 0 @ bytes_u16 (oa_AccessMask r) @ bytes_u16 0 @ bytes_u16 (oa_FileAttributes r) @
     replicate 4 0 @ bytes_u16 (oa_CreateOptions r) @ bytes_u32 0 @ bytes_u32 0 @ bytes_u32 0 @
     bytes_u16 (oa_ByteCount r)"

record ReadAndXRequest_t =
  rx_smbH :: SMBHeader_t
  rx_smbWordcount :: u8
  rx_smbAndxCmd :: u8
  rx_FID :: u16
  rx_OffsetLow :: u32
  rx_MaxCountLow :: u16
  rx_MinCount :: u16
  rx_MaxCountHigh :: u32
  rx_Remaining :: u16
  rx_OffsetHigh :: u32
  rx_ByteCount :: u16

definition ReadAndXRequest_bytes :: "ReadAndXRequest_t \<Rightarrow> u8 list" where
  "ReadAndXRequest_bytes r = SMBHeader_bytes (rx_smbH r) @ [rx_smbWordcount r] @ andx_bytes (rx_smbAndxCmd r) @
     bytes_u16 (rx_FID r) @ bytes_u32 (rx_OffsetLow r) @ bytes_u16 (rx_MaxCountLow r) @ bytes_u16 (rx_MinCount r) @
     bytes_u32 (rx_MaxCountHigh r) @ bytes_u16 (rx_Remaining r) @ bytes_u32 (rx_OffsetHigh r) @ bytes_u16 (rx_ByteCount r)"

record WriteAndXRequest_t =
  wx_smbH :: SMBHeader_t
  wx_smbWordcount :: u8
  wx_smbAndxCmd :: u8
  wx_FID :: u16
  wx_OffsetLow :: u32
  wx_WriteMode :: u16
  wx_Remaining :: u16
  wx_DataLengthHigh :: u16
  wx_DataLengthLow :: u16
  wx_DataOffset :: u16
  wx_OffsetHigh :: u32
  wx_ByteCount :: u16

definition WriteAndXRequest_bytes :: "WriteAndXRequest_t \<Rightarrow> u8 list" where
  "WriteAndXRequest_bytes r = SMBHeader_bytes (wx_smbH r) @ [wx_smbWordcount r] @ andx_bytes (wx_smbAndxCmd r) @
     bytes_u16 (wx_FID r) @ bytes_u32 (wx_OffsetLow r) @ bytes_u32 0 @ bytes_u16 (wx_WriteMode r) @
     bytes_u16 (wx_Remaining r) @ bytes_u16 (wx_DataLengthHigh r) @ bytes_u16 (wx_DataLengthLow r) @
     bytes_u16 (wx_DataOffset r) @ bytes_u32 (wx_OffsetHigh r) @ bytes_u16 (wx_ByteCount r)"

text \<open>The two requests prepared in advance. 0x3b000000 is the big-endian length 59 of the read.\<close>

definition initial_Read_Request :: ReadAndXRequest_t where
  "initial_Read_Request = \<lparr>rx_smbH = (request_header SMB_COM_READ_ANDX 0 SMB_FLAGS2_32BIT_STATUS 0 0)\<lparr>sessionHeader := 0x3b000000\<rparr>,
     rx_smbWordcount = 12, rx_smbAndxCmd = SMB_COM_NONE, rx_FID = 0, rx_OffsetLow = 0, rx_MaxCountLow = 0,
     rx_MinCount = 0, rx_MaxCountHigh = 0, rx_Remaining = 0, rx_OffsetHigh = 0, rx_ByteCount = 0\<rparr>"

definition initial_Write_Request :: WriteAndXRequest_t where
  "initial_Write_Request = \<lparr>wx_smbH = request_header SMB_COM_WRITE_ANDX 0 SMB_FLAGS2_32BIT_STATUS 0 0,
     wx_smbWordcount = 14, wx_smbAndxCmd = SMB_COM_NONE, wx_FID = 0, wx_OffsetLow = 0, wx_WriteMode = 1,
     wx_Remaining = 0, wx_DataLengthHigh = 0, wx_DataLengthLow = 0, wx_DataOffset = 0x3f, wx_OffsetHigh = 0,
     wx_ByteCount = 0\<rparr>"

section \<open>State\<close>

text \<open>\<open>server_specs_t\<close> of oplsmb.h without \<open>IOPaddr\<close>, the structure's own address for the other
  processor. Character arrays are lists of their bytes.\<close>

record server_specs_t =
  MaxBufferSize :: u32
  MaxMpxCount :: u32
  SessionKey :: u32
  StringsCF :: nat
  PrimaryDomainServerName :: "u8 list"
  EncryptionKey :: "u8 list"
  SecurityMode :: nat
  PasswordType :: nat
  specs_Username :: "u8 list"
  specs_Password :: "u8 list"
  PasswordLen :: nat
  HashedFlag :: int

record 'n smb =
  net :: 'n
  smb_io_sema :: nat
  server_specs :: server_specs_t
  smb_Read_Request :: ReadAndXRequest_t
  smb_Write_Request :: WriteAndXRequest_t
  smb_UID :: u16
  smb_TID :: u16
  main_socket :: int
  SMB_buf :: "u8 list"
  smb_union :: "u8 list"

text \<open>\<open>SMB_buf\<close> has 1024 bytes. A packet is built in the zeroed buffer; received bytes go to some
  place in it.\<close>

definition new_packet :: "u8 list \<Rightarrow> 'n smb \<Rightarrow> 'n smb option" where
  "new_packet bs s = (if length bs \<le> 1024 then Some (s\<lparr>SMB_buf := bs @ replicate (1024 - length bs) 0\<rparr>) else None)"

definition store_buf :: "nat \<Rightarrow> u8 list \<Rightarrow> 'n smb \<Rightarrow> 'n smb option" where
  "store_buf off bs s =
     (if off + length bs \<le> 1024
      then Some (s\<lparr>SMB_buf := take off (SMB_buf s) @ bs @ drop (off + length bs) (SMB_buf s)\<rparr>) else None)"

definition buf8 :: "nat \<Rightarrow> 'n smb \<Rightarrow> u8" where
  "buf8 i s = SMB_buf s ! i"

definition buf16 :: "nat \<Rightarrow> 'n smb \<Rightarrow> u16" where
  "buf16 i s = ucast (buf8 i s) OR push_bit 8 (ucast (buf8 (i + 1) s))"

definition buf32 :: "nat \<Rightarrow> 'n smb \<Rightarrow> u32" where
  "buf32 i s = ucast (buf8 i s) OR push_bit 8 (ucast (buf8 (i + 1) s)) OR push_bit 16 (ucast (buf8 (i + 2) s))
     OR push_bit 24 (ucast (buf8 (i + 3) s))"

section \<open>The transport\<close>

definition rawTCP_SetSessionHeader :: "u32 \<Rightarrow> 'n smb \<Rightarrow> 'n smb" where
  "rawTCP_SetSessionHeader len s =
     s\<lparr>SMB_buf := (SMB_buf s)[0 := 0, 1 := ucast (drop_bit 16 len), 2 := ucast (drop_bit 8 len), 3 := ucast len]\<rparr>"

definition rawTCP_GetSessionHeader :: "'n smb \<Rightarrow> u32" where
  "rawTCP_GetSessionHeader s = ucast (buf8 3 s) OR push_bit 8 (ucast (buf8 2 s)) OR push_bit 16 (ucast (buf8 1 s))"

definition packet_size :: "'n smb \<Rightarrow> int" where
  "packet_size s = int (unat (rawTCP_GetSessionHeader s)) + 4"

text \<open>Connecting is tried until it succeeds.\<close>

partial_function (option) connect_loop :: "'n ps2ip \<Rightarrow> int \<Rightarrow> u32 \<Rightarrow> u16 \<Rightarrow> 'n \<Rightarrow> 'n option" where
  "connect_loop ip sock addr port n =
     (let (ret, n1) = ip_connect ip sock addr port n
      in if ret \<ge> 0 then Some n1 else connect_loop ip sock addr port (ip_delay ip 500 n1))"

definition OpenTCPSession :: "'n ps2ip \<Rightarrow> u32 \<Rightarrow> u16 \<Rightarrow> 'n \<Rightarrow> (int \<times> 'n) option" where
  "OpenTCPSession ip dst_IP dst_port n =
     (let (sock, n1) = ip_socket ip n
      in if sock < 0 then Some (- 2, n1) else map_option (\<lambda>n2. (sock, n2)) (connect_loop ip sock dst_IP dst_port n1))"

text \<open>\<open>GetSMBServerReply\<close>: the rest of a packet that comes in fragments; then keep-alives of the
  session are dropped.\<close>

partial_function (option) reply_rest :: "'n ps2ip \<Rightarrow> int \<Rightarrow> int \<Rightarrow> 'n smb \<Rightarrow> (int \<times> 'n smb) option" where
  "reply_rest ip whole rcv s =
     (if rcv < whole
      then Option.bind (ip_recvfrom ip (main_socket s) None (1024 - rcv) (net s)) (\<lambda>(got, hdr, bs, n).
             if got \<le> 0 then Some (- 2, s\<lparr>net := n\<rparr>)
             else Option.bind (store_buf (nat rcv) bs (s\<lparr>net := n\<rparr>)) (reply_rest ip whole (rcv + got)))
      else Some (rcv, s))"

partial_function (option) reply_receive :: "'n ps2ip \<Rightarrow> 'n smb \<Rightarrow> (int \<times> 'n smb) option" where
  "reply_receive ip s =
     Option.bind (ip_recvfrom ip (main_socket s) None 1024 (net s)) (\<lambda>(got, hdr, bs, n).
       if got \<le> 0 then Some (- 2, s\<lparr>net := n\<rparr>)
       else Option.bind (store_buf 0 bs (s\<lparr>net := n\<rparr>)) (\<lambda>s1.
              if buf8 0 s1 \<noteq> 0 then reply_receive ip s1 else reply_rest ip (packet_size s1) got s1))"

text \<open>The packet sent is as long as its session header says; the buffer has 1024 bytes.\<close>

definition GetSMBServerReply :: "'n ps2ip \<Rightarrow> 'n smb \<Rightarrow> (int \<times> 'n smb) option" where
  "GetSMBServerReply ip s =
     (if packet_size s > 1024 then None
      else let (sent, n) = ip_send ip (main_socket s) (take (nat (packet_size s)) (SMB_buf s)) (net s)
        in if sent \<le> 0 then Some (- 1, s\<lparr>net := n\<rparr>) else reply_receive ip (s\<lparr>net := n\<rparr>))"

text \<open>Building a packet and sending it: its size is given without the session header.\<close>

definition exchange :: "'n ps2ip \<Rightarrow> u8 list \<Rightarrow> nat \<Rightarrow> 'n smb \<Rightarrow> 'n smb option" where
  "exchange ip bs len s =
     Option.bind (new_packet bs s) (\<lambda>s1. map_option snd (GetSMBServerReply ip (rawTCP_SetSessionHeader (of_nat len) s1)))"

section \<open>The session\<close>

text \<open>\<open>strncpy\<close> of a string without its terminator, and a string in an array.\<close>

definition strncpy_bytes :: "nat \<Rightarrow> u8 list \<Rightarrow> u8 list" where
  "strncpy_bytes k str = take k (str @ replicate k 0)"

definition text_of :: "u8 list \<Rightarrow> u8 list" where
  "text_of a = takeWhile (\<lambda>c. c \<noteq> 0) a"

definition dialect :: "u8 list" where
  "dialect = [0x4e, 0x54, 0x20, 0x4c, 0x4d, 0x20, 0x30, 0x2e, 0x31, 0x32]"

text \<open>What the answer to the negotiation says. The key is copied to an array of 8 bytes with the
  length the server gives.\<close>

definition negotiated :: "u8 list \<Rightarrow> u8 list \<Rightarrow> 'n smb \<Rightarrow> server_specs_t option" where
  "negotiated user password s =
     (let sp = server_specs s; klen = unat (buf8 70 s); enc = (buf8 39 s AND 2 \<noteq> 0)
      in if klen > 8 then None
         else Some (sp\<lparr>StringsCF := if buf32 56 s AND 4 \<noteq> 0 then 2 else 1,
           SecurityMode := if buf8 39 s AND 1 \<noteq> 0 then 1 else 0,
           PasswordType := if enc then 1 else 0,
           MaxBufferSize := buf32 44 s, MaxMpxCount := ucast (buf16 40 s), SessionKey := buf32 52 s,
           EncryptionKey := take klen (drop 73 (SMB_buf s)) @ drop klen (EncryptionKey sp),
           PrimaryDomainServerName := take 32 (drop (73 + klen) (SMB_buf s)),
           specs_Username := (strncpy_bytes 36 user)[35 := 0], specs_Password := (strncpy_bytes 48 password)[47 := 0],
           HashedFlag := if enc then 0 else - 1\<rparr>))"

partial_function (option) negotiate_loop :: "'n ps2ip \<Rightarrow> 'n smb \<Rightarrow> 'n smb option" where
  "negotiate_loop ip s =
     Option.bind (exchange ip
         (NegociateProtocolRequest_bytes \<lparr>np_smbH = request_header SMB_COM_NEGOCIATE SMB_FLAGS_CASELESS_PATHNAMES
              SMB_FLAGS2_KNOWS_LONG_NAMES 0 0,
            np_smbWordcount = 0, np_ByteCount = of_nat (length dialect + 2), np_DialectFormat = 2\<rparr> @ dialect @ [0])
         (37 + length dialect) s)
       (\<lambda>s1. if buf32 4 s1 \<noteq> SMB_MAGIC \<or> buf16 9 s1 \<noteq> 0 \<or> buf8 36 s1 \<noteq> 17 then negotiate_loop ip s1 else Some s1)"

definition smb_NegotiateProtocol ::
  "'n ps2ip \<Rightarrow> (server_specs_t \<Rightarrow> server_specs_t) \<Rightarrow> u8 list \<Rightarrow> u16 \<Rightarrow> u8 list \<Rightarrow> u8 list \<Rightarrow> 'n smb
    \<Rightarrow> (u32 \<times> 'n smb) option"
where
  "smb_NegotiateProtocol ip hash_callback server port user password s =
     Option.bind (OpenTCPSession ip (inet_addr ip server) port (net s)) (\<lambda>(sock, n).
     Option.bind (negotiate_loop ip (s\<lparr>smb_io_sema := 1, net := n, main_socket := sock\<rparr>)) (\<lambda>s1.
     map_option (\<lambda>sp. (buf32 56 s1 AND 0x404c, s1\<lparr>server_specs := hash_callback sp\<rparr>)) (negotiated user password s1)))"

text \<open>Strings are written with a stride of one or two bytes, and so is the name of the domain read.\<close>

definition wide :: "nat \<Rightarrow> u8 list \<Rightarrow> u8 list" where
  "wide cf str = concat (map (\<lambda>c. c # replicate (cf - 1) 0) str)"

function domain_chars :: "nat \<Rightarrow> u8 list \<Rightarrow> u8 list option" where
  "domain_chars cf name = (case name of
     [] \<Rightarrow> None
   | c # _ \<Rightarrow> if c = 0 then Some [] else if cf = 0 then None else map_option (Cons c) (domain_chars cf (drop cf name)))"
  by pat_completeness auto
termination by (relation "measure (length \<circ> snd)") auto

declare domain_chars.simps [simp del]

text \<open>The password of an authentication type (1: NTLM, 0: LM), in its part of the array.\<close>

definition password_bytes :: "nat \<Rightarrow> server_specs_t \<Rightarrow> u8 list option" where
  "password_bytes auth sp =
     (if 24 * auth + PasswordLen sp \<le> 48 then Some (take (PasswordLen sp) (drop (24 * auth) (specs_Password sp))) else None)"

definition unicode_pad :: "nat \<Rightarrow> nat \<Rightarrow> u8 list" where
  "unicode_pad cf len = (if cf = 2 \<and> even len then [0] else [])"

definition flags2_of :: "server_specs_t \<Rightarrow> u16" where
  "flags2_of sp = SMB_FLAGS2_KNOWS_LONG_NAMES OR SMB_FLAGS2_32BIT_STATUS OR (if StringsCF sp = 2 then SMB_FLAGS2_UNICODE_STRING else 0)"

definition setup_fields :: "server_specs_t \<Rightarrow> u8 list \<Rightarrow> u8 list option" where
  "setup_fields sp pw =
     (let cf = StringsCF sp
      in map_option (\<lambda>dom. pw @ unicode_pad cf (length pw) @ wide cf (text_of (specs_Username sp)) @ replicate cf 0 @
           wide cf dom @ replicate cf 0 @ replicate (2 * cf) 0)
         (domain_chars cf (PrimaryDomainServerName sp)))"

definition SessionSetup_packet :: "u32 \<Rightarrow> nat \<Rightarrow> nat \<Rightarrow> u8 list \<Rightarrow> server_specs_t \<Rightarrow> u8 list" where
  "SessionSetup_packet capabilities auth pwlen bfield sp =
     SessionSetupAndXRequest_bytes \<lparr>ss_smbH = request_header SMB_COM_SESSION_SETUP_ANDX SMB_FLAGS_CASELESS_PATHNAMES (flags2_of sp) 0 0,
        ss_smbWordcount = 13, ss_smbAndxCmd = SMB_COM_NONE,
        ss_MaxBufferSize = if MaxBufferSize sp > 65535 then 65535 else ucast (MaxBufferSize sp),
        ss_MaxMpxCount = if MaxMpxCount sp \<ge> 2 then 2 else ucast (MaxMpxCount sp), ss_VCNumber = 1,
        ss_SessionKey = SessionKey sp, ss_AnsiPasswordLength = if auth = 0 then of_nat pwlen else 0,
        ss_UnicodePasswordLength = if auth = 0 then 0 else of_nat pwlen, ss_Capabilities = capabilities,
        ss_ByteCount = of_nat (length bfield)\<rparr> @ bfield"

definition setup_try :: "'n ps2ip \<Rightarrow> u32 \<Rightarrow> nat \<Rightarrow> 'n smb \<Rightarrow> 'n smb option" where
  "setup_try ip capabilities auth s =
     (let sp = server_specs s
      in Option.bind (if SecurityMode sp = 1 then password_bytes auth sp else Some []) (\<lambda>pw.
         Option.bind (setup_fields sp pw) (\<lambda>bfield.
           exchange ip (SessionSetup_packet capabilities auth (length pw) bfield sp) (61 + length bfield) s)))"

text \<open>The status of an answer: two signed half words, put together as \<open>Eclass | Ecode << 16\<close>.\<close>

definition nt_status :: "'n smb \<Rightarrow> u32" where
  "nt_status s = scast (buf16 9 s) OR push_bit 16 (scast (buf16 11 s))"

definition setup_answer :: "'n smb \<Rightarrow> int \<times> 'n smb" where
  "setup_answer s =
     (if buf16 9 s OR buf16 11 s \<noteq> 0 then (- 1000, s) else (1, s\<lparr>smb_UID := buf16 32 s\<rparr>))"

text \<open>A refused NTLM password is tried once more the LM way.\<close>

definition smb_SessionSetupAndX :: "'n ps2ip \<Rightarrow> u32 \<Rightarrow> 'n smb \<Rightarrow> (int \<times> 'n smb) option" where
  "smb_SessionSetupAndX ip capabilities s =
     Option.bind (setup_try ip capabilities 1 s) (\<lambda>s1.
       if buf32 4 s1 \<noteq> SMB_MAGIC then Some (- 1, s1)
       else if SecurityMode (server_specs s1) = 1 \<and> nt_status s1 = STATUS_LOGON_FAILURE
       then map_option (\<lambda>s2. if buf32 4 s2 \<noteq> SMB_MAGIC then (- 1, s2) else setup_answer s2) (setup_try ip capabilities 0 s1)
       else Some (setup_answer s1))"

text \<open>Connecting to a share: of user-level security one zero byte is the password.\<close>

definition TreeConnect_packet :: "u8 list \<Rightarrow> u8 list \<Rightarrow> 'n smb \<Rightarrow> u8 list" where
  "TreeConnect_packet pw share s =
     (let sp = server_specs s; cf = StringsCF sp;
          bfield = pw @ unicode_pad cf (length pw) @ wide cf share @ replicate cf 0 @ [0x3f, 0x3f, 0x3f, 0x3f, 0x3f, 0]
      in TreeConnectAndXRequest_bytes \<lparr>tc_smbH = request_header SMB_COM_TREE_CONNECT_ANDX SMB_FLAGS_CASELESS_PATHNAMES
             (flags2_of sp) 0 (smb_UID s),
           tc_smbWordcount = 4, tc_smbAndxCmd = SMB_COM_NONE, tc_PasswordLength = of_nat (length pw),
           tc_ByteCount = of_nat (length bfield)\<rparr> @ bfield)"

definition smb_TreeConnectAndX :: "'n ps2ip \<Rightarrow> u8 list \<Rightarrow> 'n smb \<Rightarrow> (int \<times> 'n smb) option" where
  "smb_TreeConnectAndX ip share s =
     Option.bind (if SecurityMode (server_specs s) = 0 then password_bytes 1 (server_specs s) else Some [0]) (\<lambda>pw.
     let bs = TreeConnect_packet pw share s
     in map_option (\<lambda>s1.
          if buf32 4 s1 \<noteq> SMB_MAGIC then (- 1, s1)
          else if buf16 9 s1 OR buf16 11 s1 \<noteq> 0 then (- 1000, s1)
          else (1, s1\<lparr>smb_TID := buf16 28 s1\<rparr>))
        (exchange ip bs (length bs - 4) s))"

definition smb_Disconnect :: "'n ps2ip \<Rightarrow> 'n smb \<Rightarrow> 'n smb" where
  "smb_Disconnect ip s = s\<lparr>net := ip_close ip (main_socket s) (net s)\<rparr>"

end
