(* ===== verification/Usb_Bulk.thy ===== *)
theory Usb_Bulk
  imports Prelude
begin

text \<open>
  Bulk-only transport (cdvdman/mass_driver.c: the control requests, \<open>mass_scsi_cmd\<close>,
  \<open>scsi_cmd_callback\<close> and the command builders). A SCSI command is a list of bulk transfers
  that are queued with the USB stack; the stack calls back after each one, and the last
  callback releases the caller. The USB stack is another module: whether it takes a transfer,
  how many queued transfers end before the next one is queued, and what a transfer that runs
  returns are functions of a record, on a state of the stack's own.
\<close>

section \<open>The device and the stack\<close>

record mass_dev =
  controlEp :: u32
  bulkEpI :: u32
  bulkEpO :: u32
  packetSzI :: u16
  packetSzO :: u16
  devId :: u32
  configId :: u8
  mstatus :: u8
  interfaceNumber :: u8
  interfaceAlt :: u8
  sectorSize :: u32
  maxLBA :: u32

text \<open>Where the data of a transfer lies: in memory, in the driver's array \<open>ra_buffer\<close>, or in the
  structures on the stack of \<open>mass_stor_warmup\<close>.\<close>

datatype place = Ram u32 | Ra nat | Local nat

datatype request =
    Set_configuration u32 u8
  | Set_interface u32 u8 u8
  | Clear_halt u32 u32
  | Get_max_lun u32 u8

datatype transfer =
    Cbw u32 "u8 list"
  | Data_out u32 place nat
  | Data_in u32 place nat
  | Csw_in u32
  | Ctrl request

text \<open>What the stack sees of a transfer: the endpoint, and the bytes sent or the length asked for.\<close>

datatype packet = OUT u32 "u8 list" | IN u32 nat | CONTROL request

record 'u usb_stack =
  ub_submit :: "transfer \<Rightarrow> 'u \<Rightarrow> u32 \<times> 'u"
  ub_early :: "transfer \<Rightarrow> 'u \<Rightarrow> nat"
  ub_run :: "packet \<Rightarrow> 'u \<Rightarrow> u32 \<times> u8 list \<times> 'u"

definition USB_RC_OK :: u32 where [simp]: "USB_RC_OK = 0"
definition EIO :: u32 where [simp]: "EIO = 5"

text \<open>
  The transport's state: the device, \<open>cmd_count\<close> and \<open>returnCode\<close> of \<open>struct usbmass_cmd\<close> and
  whether its completion goes to \<open>scsi_read_async_cb\<close>, the result that \<open>usb_callback\<close> stored,
  the transfers under way, the two semaphores (\<open>dev->ioSema\<close> and \<open>io_sem\<close>), the command tag,
  \<open>ra_buffer\<close>, the local structures, the stack's state and memory.
\<close>

record 'u bulk =
  g_mass_device :: mass_dev
  cmd_count :: int
  returnCode :: u32
  cmd_async :: bool
  cb_data :: u32
  in_flight :: "transfer list"
  ioSema :: nat
  io_sem :: nat
  cmd_tag :: u32
  ra_buffer :: "u8 list"
  locals :: "u8 list"
  stack :: 'u
  ram :: mem

definition scsi_read_async_cb :: "'u bulk \<Rightarrow> 'u bulk" where
  "scsi_read_async_cb b = b\<lparr>io_sem := 1\<rparr>"

definition scsi_cmd_callback :: "u32 \<Rightarrow> 'u bulk \<Rightarrow> 'u bulk" where
  "scsi_cmd_callback resultCode b =
     (let b1 = b\<lparr>cmd_count := cmd_count b - 1\<rparr>
      in if resultCode \<noteq> USB_RC_OK \<or> cmd_count b1 = 0
         then let b2 = b1\<lparr>returnCode := resultCode\<rparr>
              in if cmd_async b2 then scsi_read_async_cb b2 else b2\<lparr>ioSema := 1\<rparr>
         else b1)"

definition usb_callback :: "u32 \<Rightarrow> 'u bulk \<Rightarrow> 'u bulk" where
  "usb_callback resultCode b = b\<lparr>cb_data := resultCode, ioSema := 1\<rparr>"

section \<open>The bus\<close>

definition splice :: "nat \<Rightarrow> 'a list \<Rightarrow> 'a list \<Rightarrow> 'a list" where
  "splice i bs xs = take i xs @ bs @ drop (i + length bs) xs"

fun place_store :: "place \<Rightarrow> u8 list \<Rightarrow> 'u bulk \<Rightarrow> 'u bulk" where
  "place_store (Ram a) bs b = b\<lparr>ram := write_bytes a bs (ram b)\<rparr>"
| "place_store (Ra i) bs b = b\<lparr>ra_buffer := splice i bs (ra_buffer b)\<rparr>"
| "place_store (Local i) bs b = b\<lparr>locals := splice i bs (locals b)\<rparr>"

fun place_bytes :: "place \<Rightarrow> nat \<Rightarrow> 'u bulk \<Rightarrow> u8 list" where
  "place_bytes (Ram a) n b = read_bytes (ram b) a n"
| "place_bytes (Ra i) n b = take n (drop i (ra_buffer b))"
| "place_bytes (Local i) n b = take n (drop i (locals b))"

fun place_add :: "place \<Rightarrow> nat \<Rightarrow> place" where
  "place_add (Ram a) n = Ram (a + of_nat n)"
| "place_add (Ra i) n = Ra (i + n)"
| "place_add (Local i) n = Local (i + n)"

fun packet_of :: "transfer \<Rightarrow> 'u bulk \<Rightarrow> packet" where
  "packet_of (Cbw ep bs) b = OUT ep bs"
| "packet_of (Data_out ep p n) b = OUT ep (place_bytes p n b)"
| "packet_of (Data_in ep p n) b = IN ep n"
| "packet_of (Csw_in ep) b = IN ep 13"
| "packet_of (Ctrl r) b = CONTROL r"

text \<open>The status wrapper is received and never looked at; \<open>Get_max_lun\<close> receives one byte.\<close>

fun take_reply :: "transfer \<Rightarrow> u8 list \<Rightarrow> 'u bulk \<Rightarrow> 'u bulk" where
  "take_reply (Data_in ep p n) bs b = place_store p (take n bs) b"
| "take_reply (Ctrl (Get_max_lun ep i)) bs b = place_store (Local 62) (take 1 bs) b"
| "take_reply t bs b = b"

definition is_ctrl :: "transfer \<Rightarrow> bool" where
  "is_ctrl t \<longleftrightarrow> (case t of Ctrl _ \<Rightarrow> True | _ \<Rightarrow> False)"

text \<open>The oldest transfer runs and its callback is called.\<close>

definition bus_step :: "'u usb_stack \<Rightarrow> 'u bulk \<Rightarrow> 'u bulk" where
  "bus_step usb b =
     (case in_flight b of
        [] \<Rightarrow> b
      | t # ts \<Rightarrow>
          let (rc, bs, u) = ub_run usb (packet_of t b) (stack b);
              b1 = take_reply t bs (b\<lparr>in_flight := ts, stack := u\<rparr>)
          in if is_ctrl t then usb_callback rc b1 else scsi_cmd_callback rc b1)"

lemma place_store_in_flight [simp]: "in_flight (place_store p bs b) = in_flight b"
  by (cases p) simp_all

lemma take_reply_in_flight [simp]: "in_flight (take_reply t bs b) = in_flight b"
  by (cases "(t, bs, b)" rule: take_reply.cases) simp_all

lemma bus_step_in_flight: "in_flight (bus_step usb b) = tl (in_flight b)"
  by (auto simp: bus_step_def scsi_cmd_callback_def scsi_read_async_cb_def usb_callback_def Let_def
      split: list.splits prod.splits)

text \<open>\<open>WaitSema\<close>: the bus runs until the semaphore is signalled.\<close>

function bus_wait :: "'u usb_stack \<Rightarrow> ('u bulk \<Rightarrow> nat) \<Rightarrow> 'u bulk \<Rightarrow> 'u bulk option" where
  "bus_wait usb count b =
     (if count b > 0 then Some b
      else if in_flight b = [] then None else bus_wait usb count (bus_step usb b))"
  by pat_completeness auto
termination
  by (relation "measure (\<lambda>(_, _, b). length (in_flight b))") (auto simp: bus_step_in_flight)

declare bus_wait.simps [simp del]

definition wait_ioSema :: "'u usb_stack \<Rightarrow> 'u bulk \<Rightarrow> 'u bulk option" where
  "wait_ioSema usb b = map_option (\<lambda>b'. b'\<lparr>ioSema := ioSema b' - 1\<rparr>) (bus_wait usb ioSema b)"

definition wait_io_sem :: "'u usb_stack \<Rightarrow> 'u bulk \<Rightarrow> 'u bulk option" where
  "wait_io_sem usb b = map_option (\<lambda>b'. b'\<lparr>io_sem := io_sem b' - 1\<rparr>) (bus_wait usb io_sem b)"

section \<open>Control requests\<close>

text \<open>A request that the stack takes is waited for; the result is that of the callback.\<close>

definition control_call :: "'u usb_stack \<Rightarrow> request \<Rightarrow> 'u bulk \<Rightarrow> (u32 \<times> 'u bulk) option" where
  "control_call usb r b =
     (let (rc, u) = ub_submit usb (Ctrl r) (stack b)
      in if rc = USB_RC_OK
         then map_option (\<lambda>b'. (cb_data b', b'))
                (wait_ioSema usb (b\<lparr>in_flight := in_flight b @ [Ctrl r], stack := u\<rparr>))
         else Some (rc, b\<lparr>stack := u\<rparr>))"

definition usb_set_configuration :: "'u usb_stack \<Rightarrow> u8 \<Rightarrow> 'u bulk \<Rightarrow> 'u bulk option" where
  "usb_set_configuration usb configNumber b =
     map_option snd (control_call usb (Set_configuration (controlEp (g_mass_device b)) configNumber) b)"

definition usb_set_interface :: "'u usb_stack \<Rightarrow> u8 \<Rightarrow> u8 \<Rightarrow> 'u bulk \<Rightarrow> 'u bulk option" where
  "usb_set_interface usb intf altSetting b =
     map_option snd (control_call usb (Set_interface (controlEp (g_mass_device b)) intf altSetting) b)"

definition usb_bulk_clear_halt :: "'u usb_stack \<Rightarrow> bool \<Rightarrow> 'u bulk \<Rightarrow> (u32 \<times> 'u bulk) option" where
  "usb_bulk_clear_halt usb ep_out b =
     (let d = g_mass_device b
      in control_call usb (Clear_halt (controlEp d) (if ep_out then bulkEpO d else bulkEpI d)) b)"

text \<open>A device that refuses the request has both its bulk pipes cleared.\<close>

definition usb_bulk_get_max_lun :: "'u usb_stack \<Rightarrow> 'u bulk \<Rightarrow> (u32 \<times> 'u bulk) option" where
  "usb_bulk_get_max_lun usb b =
     (case control_call usb
             (Get_max_lun (controlEp (g_mass_device b)) (interfaceNumber (g_mass_device b))) b of
        None \<Rightarrow> None
      | Some (ret, b1) \<Rightarrow>
          if ret = USB_RC_OK then Some (scast (locals b1 ! 62), b1)
          else (case usb_bulk_clear_halt usb False b1 of
                  None \<Rightarrow> None
                | Some (_, b2) \<Rightarrow> map_option (\<lambda>(_, b3). (- ret, b3)) (usb_bulk_clear_halt usb True b2)))"

section \<open>\<open>mass_scsi_cmd\<close>\<close>

text \<open>The command block wrapper; the flags say "data in" for every command.\<close>

definition cbw_bytes :: "u32 \<Rightarrow> nat \<Rightarrow> u8 list \<Rightarrow> u8 list" where
  "cbw_bytes tag data_len cmd =
     bytes_u32 0x43425355 @ bytes_u32 tag @ bytes_u32 (of_nat data_len) @
     [0x80, 0, of_nat (length cmd)] @ take 16 (cmd @ replicate 16 0)"

text \<open>Data in chunks of at most 4 KiB.\<close>

function data_chunks :: "bool \<Rightarrow> u32 \<Rightarrow> place \<Rightarrow> nat \<Rightarrow> transfer list" where
  "data_chunks data_wr ep data data_len =
     (if data_len = 0 then []
      else let tr_len = (if data_len < 4096 then data_len else 4096)
           in (if data_wr then Data_out ep data tr_len else Data_in ep data tr_len)
              # data_chunks data_wr ep (place_add data tr_len) (data_len - tr_len))"
  by pat_completeness auto
termination by (relation "measure (\<lambda>(_, _, _, n). n)") auto

declare data_chunks.simps [simp del]

text \<open>
  Queueing a transfer counts it first. A transfer that is not taken ends the command with
  \<open>-EIO\<close>, the ones before it stay queued. After a transfer is taken the bus may run for
  \<open>ub_early\<close> transfers before the next one is counted.
\<close>

definition submit :: "'u usb_stack \<Rightarrow> transfer \<Rightarrow> 'u bulk \<Rightarrow> u32 \<times> 'u bulk" where
  "submit usb t b =
     (let b1 = b\<lparr>cmd_count := cmd_count b + 1\<rparr>; (rc, u) = ub_submit usb t (stack b1)
      in (rc, if rc = USB_RC_OK
              then (bus_step usb ^^ ub_early usb t u) (b1\<lparr>in_flight := in_flight b1 @ [t], stack := u\<rparr>)
              else b1\<lparr>stack := u\<rparr>))"

primrec submit_all :: "'u usb_stack \<Rightarrow> transfer list \<Rightarrow> 'u bulk \<Rightarrow> bool \<times> 'u bulk" where
  "submit_all usb [] b = (True, b)"
| "submit_all usb (t # ts) b =
     (let (rc, b') = submit usb t b in if rc = USB_RC_OK then submit_all usb ts b' else (False, b'))"

definition mass_scsi_cmd ::
  "'u usb_stack \<Rightarrow> u8 list \<Rightarrow> place \<Rightarrow> nat \<Rightarrow> bool \<Rightarrow> bool \<Rightarrow> 'u bulk \<Rightarrow> (u32 \<times> 'u bulk) option"
where
  "mass_scsi_cmd usb cmd data data_len data_wr async b =
     (let tag = cmd_tag b + 1;
          b1 = b\<lparr>cmd_tag := tag, cmd_count := 0, cmd_async := async\<rparr>;
          epO = bulkEpO (g_mass_device b); epI = bulkEpI (g_mass_device b);
          ts = Cbw epO (cbw_bytes tag data_len cmd)
               # data_chunks data_wr (if data_wr then epO else epI) data data_len @ [Csw_in epI];
          (ok, b2) = submit_all usb ts b1
      in if \<not> ok then Some (- EIO, b2)
         else if async then Some (0, b2)
         else map_option (\<lambda>b3. (if returnCode b3 \<noteq> USB_RC_OK then - EIO else 0, b3))
                (wait_ioSema usb b2))"

section \<open>The commands\<close>

definition cbw_scsi_cmd ::
  "'u usb_stack \<Rightarrow> u8 \<Rightarrow> place \<Rightarrow> nat \<Rightarrow> nat \<Rightarrow> 'u bulk \<Rightarrow> (u32 \<times> 'u bulk) option" where
  "cbw_scsi_cmd usb cmd buffer buf_size cmd_size =
     mass_scsi_cmd usb [cmd, 0, 0, 0, of_nat cmd_size, 0, 0, 0, 0, 0, 0, 0] buffer buf_size False False"

definition cbw_scsi_test_unit_ready :: "'u usb_stack \<Rightarrow> 'u bulk \<Rightarrow> (u32 \<times> 'u bulk) option" where
  "cbw_scsi_test_unit_ready usb = cbw_scsi_cmd usb 0x00 (Ram 0) 0 0"

definition cbw_scsi_request_sense :: "'u usb_stack \<Rightarrow> place \<Rightarrow> nat \<Rightarrow> 'u bulk \<Rightarrow> (u32 \<times> 'u bulk) option"
where
  "cbw_scsi_request_sense usb buffer n = cbw_scsi_cmd usb 0x03 buffer n n"

definition cbw_scsi_inquiry :: "'u usb_stack \<Rightarrow> place \<Rightarrow> nat \<Rightarrow> 'u bulk \<Rightarrow> (u32 \<times> 'u bulk) option" where
  "cbw_scsi_inquiry usb buffer n = cbw_scsi_cmd usb 0x12 buffer n n"

definition cbw_scsi_start_stop_unit :: "'u usb_stack \<Rightarrow> 'u bulk \<Rightarrow> (u32 \<times> 'u bulk) option" where
  "cbw_scsi_start_stop_unit usb = cbw_scsi_cmd usb 0x1b (Ram 0) 0 1"

definition cbw_scsi_read_capacity :: "'u usb_stack \<Rightarrow> place \<Rightarrow> nat \<Rightarrow> 'u bulk \<Rightarrow> (u32 \<times> 'u bulk) option"
where
  "cbw_scsi_read_capacity usb buffer n = cbw_scsi_cmd usb 0x25 buffer n 0"

text \<open>READ(10) and WRITE(10): the sector number and the count are big-endian.\<close>

definition rw10_bytes :: "bool \<Rightarrow> u32 \<Rightarrow> u16 \<Rightarrow> u8 list" where
  "rw10_bytes dir lba sectorCount =
     [if dir then 0x2a else 0x28, 0,
      ucast (drop_bit 24 (lba AND 0xFF000000)), ucast (drop_bit 16 (lba AND 0xFF0000)),
      ucast (drop_bit 8 (lba AND 0xFF00)), ucast (lba AND 0xFF), 0,
      ucast (drop_bit 8 (sectorCount AND 0xFF00)), ucast (sectorCount AND 0xFF), 0, 0, 0]"

definition cbw_scsi_sector_io ::
  "'u usb_stack \<Rightarrow> bool \<Rightarrow> u32 \<Rightarrow> place \<Rightarrow> u16 \<Rightarrow> bool \<Rightarrow> 'u bulk \<Rightarrow> (u32 \<times> 'u bulk) option"
where
  "cbw_scsi_sector_io usb dir lba buffer sectorCount async b =
     mass_scsi_cmd usb (rw10_bytes dir lba sectorCount) buffer
       (unat (sectorSize (g_mass_device b) * ucast sectorCount)) dir async b"

text \<open>The bytes of the command determine sector number and count.\<close>

definition rw10_lba :: "u8 list \<Rightarrow> u32" where
  "rw10_lba c = push_bit 24 (ucast (c ! 2)) OR push_bit 16 (ucast (c ! 3))
     OR push_bit 8 (ucast (c ! 4)) OR ucast (c ! 5)"

definition rw10_count :: "u8 list \<Rightarrow> u16" where
  "rw10_count c = push_bit 8 (ucast (c ! 7)) OR ucast (c ! 8)"

lemma bit_255: "bit (255 :: int) i = (i < 8)" "bit (255 :: u32) i = (i < 8)"
proof -
  have ff: "(255 :: int) = mask 8" "(255 :: u32) = mask 8"
    by (simp_all add: mask_eq_exp_minus_1)
  show "bit (255 :: int) i = (i < 8)" "bit (255 :: u32) i = (i < 8)"
    unfolding ff bit_mask_iff by auto
qed

lemma rw10_lba_bytes: "rw10_lba (rw10_bytes dir lba n) = lba"
proof (rule bit_word_eqI)
  fix i assume "i < LENGTH(32)"
  then consider "i < 8" | "8 \<le> i \<and> i < 16" | "16 \<le> i \<and> i < 24" | "24 \<le> i \<and> i < 32"
    by fastforce
  then show "bit (rw10_lba (rw10_bytes dir lba n)) i = bit lba i"
    by cases (auto simp: rw10_lba_def rw10_bytes_def bit_simps bit_255)
qed

lemma rw10_count_bytes: "rw10_count (rw10_bytes dir lba n) = n"
proof (rule bit_word_eqI)
  fix i assume "i < LENGTH(16)"
  then consider "i < 8" | "8 \<le> i \<and> i < 16" by fastforce
  then show "bit (rw10_count (rw10_bytes dir lba n)) i = bit n i"
    by cases (auto simp: rw10_count_def rw10_bytes_def bit_simps bit_255)
qed

lemma length_rw10 [simp]: "length (rw10_bytes dir lba n) = 12"
  by (simp add: rw10_bytes_def)

lemma rw10_in_cbw:
  "rw10_lba (drop 15 (cbw_bytes tag k (rw10_bytes dir lba n))) = lba"
  "rw10_count (drop 15 (cbw_bytes tag k (rw10_bytes dir lba n))) = n"
proof -
  have d: "drop 15 (cbw_bytes tag k (rw10_bytes dir lba n)) = rw10_bytes dir lba n @ replicate 4 0"
    by (simp add: cbw_bytes_def)
  show "rw10_lba (drop 15 (cbw_bytes tag k (rw10_bytes dir lba n))) = lba"
    unfolding d using rw10_lba_bytes [of dir lba n] by (simp add: rw10_lba_def nth_append)
  show "rw10_count (drop 15 (cbw_bytes tag k (rw10_bytes dir lba n))) = n"
    unfolding d using rw10_count_bytes [of dir lba n] by (simp add: rw10_count_def nth_append)
qed

text \<open>
  C22. The command wrapper of a sector access is 31 bytes long and carries the request: sector
  number and count are read back from its command block whatever their value, and the data
  length is the one of the transfer.
\<close>

theorem cbw_names_the_sectors:
  "length (cbw_bytes tag k (rw10_bytes dir lba n)) = 31 \<and>
   rw10_lba (drop 15 (cbw_bytes tag k (rw10_bytes dir lba n))) = lba \<and>
   rw10_count (drop 15 (cbw_bytes tag k (rw10_bytes dir lba n))) = n \<and>
   take 4 (drop 8 (cbw_bytes tag k (rw10_bytes dir lba n))) = bytes_u32 (of_nat k) \<and>
   (cbw_bytes tag k (rw10_bytes dir lba n) ! 15 = 0x2a \<longleftrightarrow> dir)"
  unfolding rw10_in_cbw by (simp add: cbw_bytes_def) (simp add: bytes_u32_def rw10_bytes_def)

section \<open>A READ(10) stores the sectors\<close>

lemma place_store_upd [simp]:
  "place_store p bs (b\<lparr>in_flight := ts\<rparr>) = (place_store p bs b)\<lparr>in_flight := ts\<rparr>"
  "place_store p bs (b\<lparr>stack := u\<rparr>) = (place_store p bs b)\<lparr>stack := u\<rparr>"
  "place_store p bs (b\<lparr>cmd_count := c\<rparr>) = (place_store p bs b)\<lparr>cmd_count := c\<rparr>"
  "place_store p bs (b\<lparr>cmd_tag := g\<rparr>) = (place_store p bs b)\<lparr>cmd_tag := g\<rparr>"
  "place_store p bs (b\<lparr>cmd_async := a\<rparr>) = (place_store p bs b)\<lparr>cmd_async := a\<rparr>"
  by (cases p; simp)+

lemma place_store_sel [simp]:
  "cmd_count (place_store p bs b) = cmd_count b" "cmd_async (place_store p bs b) = cmd_async b"
  "ioSema (place_store p bs b) = ioSema b" "io_sem (place_store p bs b) = io_sem b"
  "stack (place_store p bs b) = stack b" "g_mass_device (place_store p bs b) = g_mass_device b"
  "cmd_tag (place_store p bs b) = cmd_tag b"
  by (cases p; simp)+

text \<open>A transfer of \<open>n\<close> bytes stays inside its target.\<close>

fun place_fits :: "place \<Rightarrow> nat \<Rightarrow> 'u bulk \<Rightarrow> bool" where
  "place_fits (Ram a) n b \<longleftrightarrow> n \<le> 2 ^ 32"
| "place_fits (Ra i) n b \<longleftrightarrow> i + n \<le> length (ra_buffer b)"
| "place_fits (Local i) n b \<longleftrightarrow> i + n \<le> length (locals b)"

lemma splice_splice:
  "i \<le> length xs \<Longrightarrow> splice (i + length bs) cs (splice i bs xs) = splice i (bs @ cs) xs"
  by (simp add: splice_def ac_simps)

lemma length_splice [simp]: "i + length bs \<le> length xs \<Longrightarrow> length (splice i bs xs) = length xs"
  by (simp add: splice_def)

lemma place_store_append:
  assumes "place_fits p (length bs + length cs) b"
  shows "place_store (place_add p (length bs)) cs (place_store p bs b) = place_store p (bs @ cs) b"
  using assms by (cases p) (simp_all add: write_bytes_append splice_splice)

lemma place_store_Nil: "place_fits p 0 b \<Longrightarrow> place_store p [] b = b"
  by (cases p) (simp_all add: splice_def)

lemma place_fits_rest:
  assumes "place_fits p (length bs + n) b"
  shows "place_fits (place_add p (length bs)) n (place_store p bs b)"
  using assms by (cases p) simp_all

lemma place_fits_upd [simp]:
  "place_fits p n (b\<lparr>in_flight := ts\<rparr>) = place_fits p n b"
  "place_fits p n (b\<lparr>stack := u\<rparr>) = place_fits p n b"
  "place_fits p n (b\<lparr>cmd_count := c\<rparr>) = place_fits p n b"
  "place_fits p n (b\<lparr>cmd_tag := g\<rparr>) = place_fits p n b"
  "place_fits p n (b\<lparr>cmd_async := a\<rparr>) = place_fits p n b"
  by (cases p; simp)+

text \<open>
  A disc behind the stack, as the bulk-only transport specifies it: with no command pending,
  a READ(10) wrapper makes the sectors it names pending; each data transfer returns the next
  bytes; a status transfer after the last byte ends the command. The stack takes every
  transfer and starts none before the command is queued.
\<close>

definition bot_disc ::
  "'u usb_stack \<Rightarrow> u32 \<Rightarrow> u32 \<Rightarrow> nat \<Rightarrow> (u32 \<Rightarrow> u8 list) \<Rightarrow> ('u \<Rightarrow> u8 list option) \<Rightarrow> bool"
where
  "bot_disc usb epO epI ss store pend \<longleftrightarrow>
     0 < ss \<and> ss \<le> 2048 \<and> (\<forall>l. length (store l) = ss) \<and>
     (\<forall>t u. fst (ub_submit usb t u) = USB_RC_OK \<and> pend (snd (ub_submit usb t u)) = pend u \<and>
        ub_early usb t u = 0) \<and>
     (\<forall>u tag lba n. pend u = None \<longrightarrow>
        (\<exists>u'. ub_run usb (OUT epO (cbw_bytes tag (ss * unat n) (rw10_bytes False lba n))) u
                = (USB_RC_OK, [], u') \<and> pend u' = Some (sector_run store lba (unat n)))) \<and>
     (\<forall>u bs n. pend u = Some bs \<and> 0 < n \<and> n \<le> length bs \<longrightarrow>
        (\<exists>u'. ub_run usb (IN epI n) u = (USB_RC_OK, take n bs, u') \<and> pend u' = Some (drop n bs))) \<and>
     (\<forall>u. pend u = Some [] \<longrightarrow>
        (\<exists>csw u'. ub_run usb (IN epI 13) u = (USB_RC_OK, csw, u') \<and> pend u' = None))"

lemma submit_all_quiet:
  assumes "\<forall>t u. fst (ub_submit usb t u) = USB_RC_OK \<and> pend (snd (ub_submit usb t u)) = pend u \<and>
      ub_early usb t u = 0"
  shows "\<exists>u'. pend u' = pend (stack b) \<and> submit_all usb ts b
    = (True, b\<lparr>cmd_count := cmd_count b + int (length ts), in_flight := in_flight b @ ts, stack := u'\<rparr>)"
proof (induction ts arbitrary: b)
  case Nil
  show ?case by (intro exI [of _ "stack b"]) simp
next
  case (Cons t ts)
  obtain u where u: "ub_submit usb t (stack b) = (USB_RC_OK, u)" "pend u = pend (stack b)"
    "ub_early usb t u = 0"
    using assms by (metis prod.collapse)
  let ?b = "b\<lparr>cmd_count := cmd_count b + 1, in_flight := in_flight b @ [t], stack := u\<rparr>"
  obtain u' where "pend u' = pend (stack ?b)" "submit_all usb ts ?b
      = (True, ?b\<lparr>cmd_count := cmd_count ?b + int (length ts), in_flight := in_flight ?b @ ts, stack := u'\<rparr>)"
    using Cons.IH [of ?b] by blast
  then show ?case using u by (intro exI [of _ u']) (simp add: submit_def add.assoc)
qed

text \<open>What waiting for a command's completion leaves behind, by the kind of completion.\<close>

definition completed :: "'u \<Rightarrow> 'u bulk \<Rightarrow> 'u bulk" where
  "completed u b =
     (let b1 = b\<lparr>cmd_count := 0, returnCode := USB_RC_OK, in_flight := [], stack := u\<rparr>
      in if cmd_async b then b1\<lparr>io_sem := 1\<rparr> else b1\<lparr>ioSema := 1\<rparr>)"

definition completion :: "'u bulk \<Rightarrow> nat" where
  "completion b = (if cmd_async b then io_sem b else ioSema b)"

lemma bus_wait_step:
  "count b = 0 \<Longrightarrow> in_flight b \<noteq> [] \<Longrightarrow> bus_wait usb count b = bus_wait usb count (bus_step usb b)"
  by (subst bus_wait.simps) simp

lemma bus_step_counts:
  assumes "in_flight b = t # ts" and "\<not> is_ctrl t" and "cmd_count b = int (length (t # ts))"
    and "ts \<noteq> []" and "ub_run usb (packet_of t b) (stack b) = (USB_RC_OK, bs, u)"
  shows "bus_step usb b
    = (take_reply t bs (b\<lparr>in_flight := ts, stack := u\<rparr>))\<lparr>cmd_count := int (length ts)\<rparr>"
proof -
  have "cmd_count (take_reply t bs (b\<lparr>in_flight := ts, stack := u\<rparr>)) = int (length (t # ts))"
    using assms(3) by (cases "(t, bs, b)" rule: take_reply.cases) simp_all
  then show ?thesis using assms by (simp add: bus_step_def scsi_cmd_callback_def Let_def)
qed

lemma data_phase:
  assumes disc: "bot_disc usb epO epI ss store pend"
    and "in_flight b = data_chunks False epI p n @ [Csw_in epI]"
    and "cmd_count b = int (length (in_flight b))" and "pend (stack b) = Some bs"
    and "n = length bs" and "completion b = 0" and "place_fits p n b"
  shows "\<exists>u'. pend u' = None \<and> bus_wait usb completion b = Some (completed u' (place_store p bs b))"
  using assms(2-)
proof (induction "length bs" arbitrary: b p bs n rule: less_induct)
  case less
  show ?case
  proof (cases "n = 0")
    case True
    then have fl: "in_flight b = [Csw_in epI]" using less.prems by (simp add: data_chunks.simps)
    obtain csw u' where run: "ub_run usb (IN epI 13) (stack b) = (USB_RC_OK, csw, u')" "pend u' = None"
      using disc less.prems True by (auto simp: bot_disc_def)
    have "bus_step usb b = completed u' b"
      using fl run less.prems(2)
      by (simp add: bus_step_def scsi_cmd_callback_def scsi_read_async_cb_def is_ctrl_def completed_def Let_def)
    moreover have "bus_wait usb completion (completed u' b) = Some (completed u' b)"
      by (subst bus_wait.simps) (simp add: completion_def completed_def Let_def)
    moreover have "place_store p bs b = b" using less.prems True by (simp add: place_store_Nil)
    ultimately show ?thesis using run fl less.prems by (intro exI [of _ u']) (simp add: bus_wait_step)
  next
    case False
    let ?k = "if n < 4096 then n else 4096"
    let ?ts = "data_chunks False epI (place_add p ?k) (n - ?k) @ [Csw_in epI]"
    have fl: "in_flight b = Data_in epI p ?k # ?ts"
      using less.prems(1) False by (subst (asm) data_chunks.simps) (simp add: Let_def)
    have k: "0 < ?k" "?k \<le> length bs" using False less.prems(4) by auto
    obtain u' where run: "ub_run usb (IN epI ?k) (stack b) = (USB_RC_OK, take ?k bs, u')"
      "pend u' = Some (drop ?k bs)"
      using disc less.prems(3) k unfolding bot_disc_def by blast
    let ?b = "(place_store p (take ?k bs) (b\<lparr>in_flight := ?ts, stack := u'\<rparr>))\<lparr>cmd_count := int (length ?ts)\<rparr>"
    have "bus_step usb b = (take_reply (Data_in epI p ?k) (take ?k bs) (b\<lparr>in_flight := ?ts, stack := u'\<rparr>))
        \<lparr>cmd_count := int (length ?ts)\<rparr>"
      by (rule bus_step_counts [OF fl])
        (use less.prems(2) run(1) fl in \<open>simp_all add: is_ctrl_def\<close>)
    then have step: "bus_step usb b = ?b" by simp
    have len: "length (take ?k bs) = ?k" using k by simp
    have total: "?k + (n - ?k) = n" using k less.prems(4) by auto
    have fits: "place_fits (place_add p ?k) (n - ?k) ?b"
      using place_fits_rest [of p "take ?k bs" "n - ?k" b] less.prems(6) len total by simp
    have "\<exists>u''. pend u'' = None \<and> bus_wait usb completion ?b
        = Some (completed u'' (place_store (place_add p ?k) (drop ?k bs) ?b))"
    proof (rule less.hyps)
      show "length (drop ?k bs) < length bs" using k by auto
      show "n - ?k = length (drop ?k bs)" using less.prems(4) by simp
      show "completion ?b = 0" using less.prems(5) by (simp add: completion_def split: if_splits)
      show "place_fits (place_add p ?k) (n - ?k) ?b" by (rule fits)
    qed (use run(2) in simp_all)
    moreover have "completed u'' (place_store (place_add p ?k) (drop ?k bs) ?b)
        = completed u'' (place_store p bs b)" for u''
    proof -
      have "place_store (place_add p ?k) (drop ?k bs) (place_store p (take ?k bs) b) = place_store p bs b"
        using place_store_append [of p "take ?k bs" "drop ?k bs" b] len less.prems(4,6) total
        by simp
      then show ?thesis by (simp add: completed_def)
    qed
    ultimately show ?thesis
      using fl less.prems(5) by (simp add: bus_wait_step step)
  qed
qed

definition unlocked :: "'u bulk \<Rightarrow> 'u bulk" where
  "unlocked b = (if cmd_async b then b\<lparr>io_sem := 0\<rparr> else b\<lparr>ioSema := 0\<rparr>)"

text \<open>The whole command, queued and waited for on either semaphore.\<close>

lemma read_command_runs:
  assumes disc: "bot_disc usb epO epI ss store pend" and idle: "pend (stack b) = None"
    and fl: "in_flight b = Cbw epO (cbw_bytes tag (ss * unat n) (rw10_bytes False lba n))
      # data_chunks False epI p (ss * unat n) @ [Csw_in epI]"
    and cnt: "cmd_count b = int (length (in_flight b))" and sem: "completion b = 0"
    and fits: "place_fits p (ss * unat n) b"
  shows "\<exists>u'. pend u' = None \<and> bus_wait usb completion b
    = Some (completed u' (place_store p (sector_run store lba (unat n)) b))"
proof -
  let ?bs = "sector_run store lba (unat n)"
  let ?ts = "data_chunks False epI p (ss * unat n) @ [Csw_in epI]"
  obtain u where run: "ub_run usb (OUT epO (cbw_bytes tag (ss * unat n) (rw10_bytes False lba n))) (stack b)
      = (USB_RC_OK, [], u)" and u: "pend u = Some ?bs"
    using disc idle unfolding bot_disc_def by blast
  have len: "ss * unat n = length ?bs"
    using disc length_sector_run [of store ss] by (simp add: bot_disc_def)
  let ?b = "b\<lparr>in_flight := ?ts, stack := u, cmd_count := int (length ?ts)\<rparr>"
  have "bus_step usb b = (take_reply (Cbw epO (cbw_bytes tag (ss * unat n) (rw10_bytes False lba n))) []
      (b\<lparr>in_flight := ?ts, stack := u\<rparr>))\<lparr>cmd_count := int (length ?ts)\<rparr>"
    by (rule bus_step_counts [OF fl]) (use cnt run fl in \<open>simp_all add: is_ctrl_def\<close>)
  then have step: "bus_step usb b = ?b" by simp
  have "\<exists>u'. pend u' = None \<and> bus_wait usb completion ?b = Some (completed u' (place_store p ?bs ?b))"
    by (rule data_phase [OF disc]) (use u len sem fits in \<open>simp_all add: completion_def split: if_splits\<close>)
  moreover have "completed u' (place_store p ?bs ?b) = completed u' (place_store p ?bs b)" for u'
    by (simp add: completed_def)
  ultimately show ?thesis using fl sem by (simp add: bus_wait_step step)
qed

lemma bus_step_async: "cmd_async (bus_step usb b) = cmd_async b"
proof -
  have "cmd_async (take_reply t bs c) = cmd_async c" for t bs and c :: "'a bulk"
    by (cases "(t, bs, c)" rule: take_reply.cases) simp_all
  then show ?thesis
    by (auto simp: bus_step_def scsi_cmd_callback_def scsi_read_async_cb_def usb_callback_def Let_def
        split: list.splits prod.splits)
qed

lemma bus_wait_completion:
  "bus_wait usb (if cmd_async b then io_sem else ioSema) b = bus_wait usb completion b"
proof (induction usb "completion :: 'a bulk \<Rightarrow> nat" b rule: bus_wait.induct)
  case (1 usb b)
  have here: "(if cmd_async b then io_sem else ioSema) b = completion b" by (simp add: completion_def)
  show ?case
    using 1 unfolding bus_wait.simps [of usb _ b] here by (simp add: bus_step_async)
qed

text \<open>
  A queued command whose last transfer has ended returns 0 to a caller that waited for
  it; a read-ahead leaves its transfers queued for the wait in the next read.
\<close>

definition read_queue :: "u32 \<Rightarrow> u32 \<Rightarrow> nat \<Rightarrow> u32 \<Rightarrow> u32 \<Rightarrow> place \<Rightarrow> u16 \<Rightarrow> transfer list" where
  "read_queue epO epI ss tag lba p n =
     Cbw epO (cbw_bytes tag (ss * unat n) (rw10_bytes False lba n))
     # data_chunks False epI p (ss * unat n) @ [Csw_in epI]"

lemma sector_io_queued:
  assumes disc: "bot_disc usb epO epI ss store pend"
    and dev: "bulkEpO (g_mass_device b) = epO" "bulkEpI (g_mass_device b) = epI"
      "sectorSize (g_mass_device b) = of_nat ss"
    and fl: "in_flight b = []"
  obtains u q where "pend u = pend (stack b)"
    and "q = b\<lparr>cmd_tag := cmd_tag b + 1, cmd_async := async,
      cmd_count := int (length (read_queue epO epI ss (cmd_tag b + 1) lba p n)),
      in_flight := read_queue epO epI ss (cmd_tag b + 1) lba p n, stack := u\<rparr>"
    and "cbw_scsi_sector_io usb False lba p n async b
      = (if async then Some (0, q)
         else map_option (\<lambda>b3. (if returnCode b3 \<noteq> USB_RC_OK then - EIO else 0, b3)) (wait_ioSema usb q))"
proof -
  let ?ts = "read_queue epO epI ss (cmd_tag b + 1) lba p n"
  let ?b1 = "b\<lparr>cmd_tag := cmd_tag b + 1, cmd_count := 0, cmd_async := async\<rparr>"
  have ss: "ss \<le> 2048" using disc by (simp add: bot_disc_def)
  have n: "unat n < 2 ^ 16" using unsigned_less [of n] by simp
  have "ss * unat n \<le> 2048 * 2 ^ 16" using ss n by (intro mult_le_mono) simp_all
  then have "unat (of_nat ss * ucast n :: u32) = ss * unat n"
    using ss by (simp add: unat_word_ariths unat_of_nat_u32)
  moreover obtain u where u: "pend u = pend (stack ?b1)" "submit_all usb ?ts ?b1
      = (True, ?b1\<lparr>cmd_count := cmd_count ?b1 + int (length ?ts), in_flight := in_flight ?b1 @ ?ts, stack := u\<rparr>)"
    using submit_all_quiet [of usb pend ?b1 ?ts] disc unfolding bot_disc_def by blast
  ultimately show thesis
    using dev fl
    by (intro that [OF _ refl, of u])
      (auto simp: cbw_scsi_sector_io_def mass_scsi_cmd_def read_queue_def Let_def)
qed

lemma sector_io_reads:
  assumes disc: "bot_disc usb epO epI ss store pend"
    and dev: "bulkEpO (g_mass_device b) = epO" "bulkEpI (g_mass_device b) = epI"
      "sectorSize (g_mass_device b) = of_nat ss"
    and fl: "in_flight b = []" and idle: "pend (stack b) = None" and sem: "ioSema b = 0"
    and fits: "place_fits p (ss * unat n) b"
  shows "\<exists>u'. pend u' = None \<and> cbw_scsi_sector_io usb False lba p n False b
    = Some (0, (place_store p (sector_run store lba (unat n)) b)
        \<lparr>cmd_tag := cmd_tag b + 1, cmd_async := False, cmd_count := 0, returnCode := 0, stack := u'\<rparr>)"
proof -
  obtain u q where q: "pend u = pend (stack b)"
    "q = b\<lparr>cmd_tag := cmd_tag b + 1, cmd_async := False,
      cmd_count := int (length (read_queue epO epI ss (cmd_tag b + 1) lba p n)),
      in_flight := read_queue epO epI ss (cmd_tag b + 1) lba p n, stack := u\<rparr>"
    "cbw_scsi_sector_io usb False lba p n False b
      = map_option (\<lambda>b3. (if returnCode b3 \<noteq> USB_RC_OK then - EIO else 0, b3)) (wait_ioSema usb q)"
    by (rule sector_io_queued [OF disc dev fl, where async = False]) auto
  have "\<exists>u'. pend u' = None \<and> bus_wait usb completion q
      = Some (completed u' (place_store p (sector_run store lba (unat n)) q))"
    by (rule read_command_runs [OF disc, where tag = "cmd_tag b + 1"])
      (use q(1) idle sem fits in \<open>simp_all add: q(2) read_queue_def completion_def\<close>)
  then obtain u' where u': "pend u' = None" "bus_wait usb completion q
      = Some (completed u' (place_store p (sector_run store lba (unat n)) q))" by blast
  have "bus_wait usb ioSema q = bus_wait usb completion q"
    using bus_wait_completion [of usb q] by (simp add: q(2))
  then show ?thesis
    using u' sem fl
    by (intro exI [of _ u']) (simp add: q(2,3) wait_ioSema_def completed_def)
qed

text \<open>
  Transfers that do not touch memory run the same whatever memory holds: the read-ahead may
  be under way while the rest of the system changes memory.
\<close>

fun off_ram :: "transfer \<Rightarrow> bool" where
  "off_ram (Data_out ep (Ram a) n) \<longleftrightarrow> False"
| "off_ram (Data_in ep (Ram a) n) \<longleftrightarrow> False"
| "off_ram t \<longleftrightarrow> True"

lemma off_ram_packet: "off_ram t \<Longrightarrow> packet_of t (b\<lparr>ram := m\<rparr>) = packet_of t b"
  by (cases t rule: off_ram.cases) simp_all

lemma off_ram_reply:
  assumes "off_ram t"
  shows "take_reply t bs (b\<lparr>ram := m\<rparr>) = (take_reply t bs b)\<lparr>ram := m\<rparr>"
proof (cases "(t, bs, b)" rule: take_reply.cases)
  case (1 ep p n bs' b')
  with assms show ?thesis by (cases p) simp_all
qed simp_all

lemma bus_step_ram:
  assumes "\<forall>t\<in>set (in_flight b). off_ram t"
  shows "bus_step usb (b\<lparr>ram := m\<rparr>) = (bus_step usb b)\<lparr>ram := m\<rparr>"
proof (cases "in_flight b")
  case Nil
  then show ?thesis by (simp add: bus_step_def)
next
  case (Cons t ts)
  then have t: "off_ram t" using assms by simp
  have "take_reply t bs (b\<lparr>ram := m, in_flight := ts, stack := u\<rparr>)
      = (take_reply t bs (b\<lparr>in_flight := ts, stack := u\<rparr>))\<lparr>ram := m\<rparr>" for bs u
  proof -
    have "b\<lparr>ram := m, in_flight := ts, stack := u\<rparr> = b\<lparr>in_flight := ts, stack := u, ram := m\<rparr>" by simp
    then show ?thesis
      using off_ram_reply [OF t, where b = "b\<lparr>in_flight := ts, stack := u\<rparr>"] by (simp only:)
  qed
  then show ?thesis
    using t Cons
    by (simp add: bus_step_def off_ram_packet scsi_cmd_callback_def scsi_read_async_cb_def
        usb_callback_def Let_def split: prod.splits)
qed

lemma bus_wait_ram:
  assumes "\<forall>t\<in>set (in_flight b). off_ram t"
  shows "bus_wait usb io_sem (b\<lparr>ram := m\<rparr>) = map_option (\<lambda>b'. b'\<lparr>ram := m\<rparr>) (bus_wait usb io_sem b)"
  using assms
proof (induction usb "io_sem :: 'a bulk \<Rightarrow> nat" b rule: bus_wait.induct)
  case (1 usb b)
  have "\<forall>t\<in>set (in_flight (bus_step usb b)). off_ram t"
    using 1(2) by (auto simp: bus_step_in_flight dest: list.set_sel(2) intro: list.set_sel(2))
      (metis list.sel(2) list.set_sel(2))
  with 1 show ?case
    by (subst (1 2) bus_wait.simps) (simp add: bus_step_ram)
qed

text \<open>A read-ahead: what it has queued, and what waiting for it leaves.\<close>

definition reading_ahead ::
  "'u usb_stack \<Rightarrow> ('u \<Rightarrow> u8 list option) \<Rightarrow> u8 list \<Rightarrow> nat \<Rightarrow> 'u bulk \<Rightarrow> bool" where
  "reading_ahead usb pend bs i b \<longleftrightarrow>
     (\<forall>t\<in>set (in_flight b). off_ram t) \<and>
     (\<exists>u'. pend u' = None \<and> wait_io_sem usb b
        = Some ((place_store (Ra i) bs b)\<lparr>cmd_count := 0, returnCode := 0, in_flight := [], stack := u'\<rparr>))"

lemma reading_ahead_ram:
  assumes "reading_ahead usb pend bs i b"
  shows "reading_ahead usb pend bs i (b\<lparr>ram := m\<rparr>)"
proof -
  from assms obtain u' where off: "\<forall>t\<in>set (in_flight b). off_ram t" and u': "pend u' = None"
    "wait_io_sem usb b
      = Some ((place_store (Ra i) bs b)\<lparr>cmd_count := 0, returnCode := 0, in_flight := [], stack := u'\<rparr>)"
    by (auto simp: reading_ahead_def)
  have "wait_io_sem usb (b\<lparr>ram := m\<rparr>) = map_option (\<lambda>b'. b'\<lparr>ram := m\<rparr>) (wait_io_sem usb b)"
    by (cases "bus_wait usb io_sem b") (simp_all add: wait_io_sem_def bus_wait_ram [OF off])
  then show ?thesis using off u' by (auto simp: reading_ahead_def intro!: exI [of _ u'])
qed

lemma data_chunks_off_ram:
  "t \<in> set (data_chunks False ep (Ra i) n) \<Longrightarrow> off_ram t"
proof (induction n arbitrary: i rule: less_induct)
  case (less n)
  show ?case
  proof (cases "n = 0")
    case True
    with less.prems show ?thesis by (simp add: data_chunks.simps)
  next
    case False
    let ?k = "if n < 4096 then n else 4096"
    have "t = Data_in ep (Ra i) ?k \<or> t \<in> set (data_chunks False ep (Ra (i + ?k)) (n - ?k))"
      using less.prems False by (subst (asm) data_chunks.simps) (simp add: Let_def)
    then show ?thesis using less.IH [of "n - ?k"] False by auto
  qed
qed

lemma sector_io_reads_ahead:
  assumes disc: "bot_disc usb epO epI ss store pend"
    and dev: "bulkEpO (g_mass_device b) = epO" "bulkEpI (g_mass_device b) = epI"
      "sectorSize (g_mass_device b) = of_nat ss"
    and fl: "in_flight b = []" and idle: "pend (stack b) = None" and sem: "io_sem b = 0"
    and fits: "place_fits (Ra i) (ss * unat n) b"
  shows "\<exists>q. cbw_scsi_sector_io usb False lba (Ra i) n True b = Some (0, q) \<and>
    reading_ahead usb pend (sector_run store lba (unat n)) i q \<and>
    ram q = ram b \<and> ra_buffer q = ra_buffer b \<and> ioSema q = ioSema b \<and> io_sem q = io_sem b \<and>
    g_mass_device q = g_mass_device b"
proof -
  obtain u q where q: "pend u = pend (stack b)"
    "q = b\<lparr>cmd_tag := cmd_tag b + 1, cmd_async := True,
      cmd_count := int (length (read_queue epO epI ss (cmd_tag b + 1) lba (Ra i) n)),
      in_flight := read_queue epO epI ss (cmd_tag b + 1) lba (Ra i) n, stack := u\<rparr>"
    "cbw_scsi_sector_io usb False lba (Ra i) n True b = Some (0, q)"
    by (rule sector_io_queued [OF disc dev fl, where async = True]) auto
  have "\<exists>u'. pend u' = None \<and> bus_wait usb completion q
      = Some (completed u' (place_store (Ra i) (sector_run store lba (unat n)) q))"
    by (rule read_command_runs [OF disc, where tag = "cmd_tag b + 1"])
      (use q(1) idle sem fits in \<open>simp_all add: q(2) read_queue_def completion_def\<close>)
  then obtain u' where u': "pend u' = None" "bus_wait usb completion q
      = Some (completed u' (place_store (Ra i) (sector_run store lba (unat n)) q))" by blast
  have "bus_wait usb io_sem q = bus_wait usb completion q"
    using bus_wait_completion [of usb q] by (simp add: q(2))
  then have "wait_io_sem usb q = Some ((place_store (Ra i) (sector_run store lba (unat n)) q)
      \<lparr>cmd_count := 0, returnCode := 0, in_flight := [], stack := u'\<rparr>)"
    using u'(2) sem by (simp add: wait_io_sem_def completed_def q(2))
  then have "reading_ahead usb pend (sector_run store lba (unat n)) i q"
    unfolding reading_ahead_def using u'(1) data_chunks_off_ram
    by (auto simp: q(2) read_queue_def)
  then show ?thesis using q(3) by (intro exI [of _ q]) (simp add: q(2))
qed

section \<open>A transfer that ends too soon\<close>

text \<open>
  The count of outstanding transfers grows as they are queued. When the command block ends
  before the next transfer is counted, the count is 0 in its callback, and the caller is
  released with the data still to come.
\<close>

lemma submit_all_accepting:
  assumes "\<forall>t\<in>set ts. \<forall>u. fst (ub_submit usb t u) = USB_RC_OK \<and> ub_early usb t (snd (ub_submit usb t u)) = 0"
  shows "\<exists>u'. submit_all usb ts b
    = (True, b\<lparr>cmd_count := cmd_count b + int (length ts), in_flight := in_flight b @ ts, stack := u'\<rparr>)"
  using assms
proof (induction ts arbitrary: b)
  case Nil
  show ?case by (intro exI [of _ "stack b"]) simp
next
  case (Cons t ts)
  obtain u where u: "ub_submit usb t (stack b) = (USB_RC_OK, u)" "ub_early usb t u = 0"
    using Cons.prems by (metis list.set_intros(1) prod.collapse snd_conv)
  let ?b = "b\<lparr>cmd_count := cmd_count b + 1, in_flight := in_flight b @ [t], stack := u\<rparr>"
  obtain u' where "submit_all usb ts ?b
      = (True, ?b\<lparr>cmd_count := cmd_count ?b + int (length ts), in_flight := in_flight ?b @ ts, stack := u'\<rparr>)"
    using Cons.IH [of ?b] Cons.prems by auto
  then show ?case using u by (intro exI [of _ u']) (simp add: submit_def add.assoc)
qed

text \<open>
  C39. A command can end before its data has been moved: when the transfer of the wrapper
  completes before the next transfer is queued, the count of transfers under way is back at 0,
  the callback releases the caller, and \<open>mass_scsi_cmd\<close> reports success with
  memory unchanged and every data transfer still queued.
\<close>

theorem early_completion:
  assumes cbw: "cbw = cbw_bytes (cmd_tag b + 1) n cmd"
    and fl: "in_flight b = []" and sem: "ioSema b = 0"
    and queued: "ub_submit usb (Cbw (bulkEpO (g_mass_device b)) cbw) (stack b) = (USB_RC_OK, u)"
      "ub_early usb (Cbw (bulkEpO (g_mass_device b)) cbw) u = 1"
    and ends: "ub_run usb (OUT (bulkEpO (g_mass_device b)) cbw) u = (USB_RC_OK, bs, u')"
    and rest: "\<forall>t u. (\<forall>ep c. t \<noteq> Cbw ep c) \<longrightarrow>
      fst (ub_submit usb t u) = USB_RC_OK \<and> ub_early usb t (snd (ub_submit usb t u)) = 0"
  shows "\<exists>b'. mass_scsi_cmd usb cmd p n False False b = Some (0, b') \<and> ram b' = ram b \<and>
    in_flight b' = data_chunks False (bulkEpI (g_mass_device b)) p n @ [Csw_in (bulkEpI (g_mass_device b))]"
proof -
  let ?d = "g_mass_device b"
  let ?ts = "data_chunks False (bulkEpI ?d) p n @ [Csw_in (bulkEpI ?d)]"
  define c where "c = b\<lparr>cmd_tag := cmd_tag b + 1, cmd_count := 0, cmd_async := False,
    in_flight := [], stack := u', returnCode := USB_RC_OK, ioSema := 1\<rparr>"
  have "submit usb (Cbw (bulkEpO ?d) cbw)
      (b\<lparr>cmd_tag := cmd_tag b + 1, cmd_count := 0, cmd_async := False\<rparr>) = (USB_RC_OK, c)"
    using queued ends fl
    by (simp add: submit_def bus_step_def is_ctrl_def scsi_cmd_callback_def Let_def c_def)
  moreover have "t \<noteq> Cbw ep x" if "t \<in> set ?ts" for t ep x
  proof -
    have "Cbw ep x \<notin> set (data_chunks False e q k)" for e q k
      by (induction "False" e q k rule: data_chunks.induct)
        (subst data_chunks.simps, simp add: Let_def)
    then show ?thesis using that by auto
  qed
  then have "\<forall>t\<in>set ?ts. \<forall>u. fst (ub_submit usb t u) = USB_RC_OK \<and>
      ub_early usb t (snd (ub_submit usb t u)) = 0"
    using rest by blast
  then obtain u2 where "submit_all usb ?ts c
      = (True, c\<lparr>cmd_count := cmd_count c + int (length ?ts), in_flight := in_flight c @ ?ts, stack := u2\<rparr>)"
    using submit_all_accepting by blast
  moreover have "bus_wait usb ioSema d = Some d" if "ioSema d = 1" for d
    using that by (subst bus_wait.simps) simp
  ultimately show ?thesis
    by (simp add: mass_scsi_cmd_def cbw [symmetric] Let_def wait_ioSema_def c_def)
qed

end
