(* ===== verification/Usb_Mass.thy ===== *)
theory Usb_Mass
  imports Usb_Bulk
begin

text \<open>
  The block layer of the USB driver (cdvdman/mass_driver.c): \<open>mass_stor_readSector\<close> with its
  read-ahead, \<open>mass_stor_writeSector\<close>, \<open>mass_stor_ReadCD\<close>, and the life of a device from
  \<open>mass_stor_probe\<close> to \<open>mass_stor_disconnect\<close>. The read-ahead buffer holds \<open>ra_count\<close> sectors
  from \<open>ra_sector\<close>; the theorems say when a read served from it equals a read of the disc.
\<close>

section \<open>State\<close>

text \<open>
  \<open>vmc\<close> says whether the module is built with \<open>VMC_DRIVER\<close>, which adds the semaphore \<open>io_sema\<close>
  around every sector access. \<open>ra_buffer_pointer\<close> is an index of \<open>ra_buffer\<close>.
\<close>

record 'u mass =
  bulk :: "'u bulk"
  vmc :: bool
  io_sema :: nat
  last_sector :: u32
  last_count :: u16
  ra_buffer_pointer :: nat
  ra_sector :: u32
  ra_count :: u16
  ra_active :: u16
  gSectorBuffer :: u32
  mass_LBAs :: "u32 list"

definition SCSI_RA_SECTORS :: nat where [simp]: "SCSI_RA_SECTORS = 64"
definition MAX_USB_SECTORS :: u32 where [simp]: "MAX_USB_SECTORS = 256"

definition WAITIOSEMA :: "'u mass \<Rightarrow> 'u mass option" where
  "WAITIOSEMA s =
     (if \<not> vmc s then Some s
      else if io_sema s = 0 then None else Some (s\<lparr>io_sema := io_sema s - 1\<rparr>))"

definition SIGNALIOSEMA :: "'u mass \<Rightarrow> 'u mass" where
  "SIGNALIOSEMA s = (if vmc s then s\<lparr>io_sema := 1\<rparr> else s)"

section \<open>\<open>mass_stor_readSector\<close>\<close>

definition sector_bytes :: "'u mass \<Rightarrow> u16 \<Rightarrow> nat" where
  "sector_bytes s count = unat (sectorSize (g_mass_device (bulk s)) * ucast count)"

definition ra_wait :: "'u usb_stack \<Rightarrow> 'u mass \<Rightarrow> 'u mass option" where
  "ra_wait usb s =
     (if ra_active s = 1
      then map_option (\<lambda>b. s\<lparr>bulk := b, ra_active := 0\<rparr>) (wait_io_sem usb (bulk s))
      else Some s)"

text \<open>
  The data comes from the buffer when it starts with the sector and is long enough, and from
  the disc otherwise; a failed command leaves the function (the semaphore stays taken). A copy
  that would leave \<open>ra_buffer\<close>, or a read-ahead that would be stored past its end, has no
  defined effect: None.
\<close>

definition ra_fetch ::
  "'u usb_stack \<Rightarrow> u32 \<Rightarrow> u16 \<Rightarrow> place \<Rightarrow> 'u mass \<Rightarrow> (bool \<times> 'u mass) option" where
  "ra_fetch usb sector count buffer s =
     (if ra_sector s = sector \<and> count \<le> ra_count s
      then if ra_buffer_pointer s + sector_bytes s count > 32768 then None
           else Some (True, s\<lparr>
             bulk := place_store buffer
               (take (sector_bytes s count) (drop (ra_buffer_pointer s) (ra_buffer (bulk s)))) (bulk s),
             ra_sector := ra_sector s + ucast count,
             ra_count := ra_count s - count,
             ra_buffer_pointer := ra_buffer_pointer s + unat count * 512\<rparr>)
      else map_option (\<lambda>(r, b). (\<not> r <s 0, s\<lparr>bulk := b\<rparr>))
             (cbw_scsi_sector_io usb False sector buffer count False (bulk s)))"

definition ra_start :: "'u usb_stack \<Rightarrow> u32 \<Rightarrow> u16 \<Rightarrow> 'u mass \<Rightarrow> 'u mass option" where
  "ra_start usb sector count s =
     (if last_sector s + ucast (last_count s) \<noteq> sector then Some s
      else if ra_sector s = sector + ucast count \<and> count \<le> ra_count s then Some s
      else if unat count > SCSI_RA_SECTORS then Some s
      else if sector_bytes s count > 32768 then None
      else map_option (\<lambda>(r, b).
             if r = 0 then s\<lparr>bulk := b, ra_active := 1, ra_sector := sector + ucast count,
                            ra_count := count, ra_buffer_pointer := 0\<rparr>
             else s\<lparr>bulk := b\<rparr>)
             (cbw_scsi_sector_io usb False (sector + ucast count) (Ra 0) count True (bulk s)))"

definition mass_stor_readSector ::
  "'u usb_stack \<Rightarrow> u32 \<Rightarrow> u16 \<Rightarrow> u32 \<Rightarrow> 'u mass \<Rightarrow> 'u mass option" where
  "mass_stor_readSector usb sector count buffer s =
     (case WAITIOSEMA s of
        None \<Rightarrow> None
      | Some s0 \<Rightarrow>
     (case ra_wait usb s0 of
        None \<Rightarrow> None
      | Some s1 \<Rightarrow>
     (case ra_fetch usb sector count (Ram buffer) s1 of
        None \<Rightarrow> None
      | Some (ok, s2) \<Rightarrow>
          if \<not> ok then Some s2
          else map_option
                 (\<lambda>s3. SIGNALIOSEMA (s3\<lparr>last_sector := sector, last_count := count\<rparr>))
                 (ra_start usb sector count s2))))"

definition mass_stor_writeSector ::
  "'u usb_stack \<Rightarrow> u32 \<Rightarrow> u16 \<Rightarrow> u32 \<Rightarrow> 'u mass \<Rightarrow> 'u mass option" where
  "mass_stor_writeSector usb lba nsectors buffer s =
     (case WAITIOSEMA s of
        None \<Rightarrow> None
      | Some s0 \<Rightarrow>
          map_option (\<lambda>(r, b). SIGNALIOSEMA (s0\<lparr>bulk := b\<rparr>))
            (cbw_scsi_sector_io usb True lba (Ram buffer) nsectors False (bulk s0)))"

section \<open>\<open>mass_stor_ReadCD\<close>\<close>

definition mass_ram :: "(mem \<Rightarrow> mem) \<Rightarrow> 'u mass \<Rightarrow> 'u mass" where
  "mass_ram f s = s\<lparr>bulk := (bulk s)\<lparr>ram := f (ram (bulk s))\<rparr>\<rparr>"

function ReadCD_loop :: "'u usb_stack \<Rightarrow> u32 \<Rightarrow> u32 \<Rightarrow> u32 \<Rightarrow> 'u mass \<Rightarrow> 'u mass option" where
  "ReadCD_loop usb lba nsectors p s =
     (if nsectors = 0 then Some s
      else let sectors = (if nsectors > MAX_USB_SECTORS then MAX_USB_SECTORS else nsectors);
               nbytes = sectors * 2048;
               DiskSectorsToRead = nbytes div sectorSize (g_mass_device (bulk s));
               r = (if DiskSectorsToRead = 0
                    then map_option (mass_ram (mips_memcpy p (gSectorBuffer s) 2048))
                           (mass_stor_readSector usb lba 1 (gSectorBuffer s) s)
                    else mass_stor_readSector usb lba (ucast DiskSectorsToRead) p s)
           in (case r of
                 None \<Rightarrow> None
               | Some s' \<Rightarrow>
                   ReadCD_loop usb (lba + DiskSectorsToRead) (nsectors - sectors) (p + nbytes) s'))"
  by pat_completeness auto
termination
  by (relation "measure (\<lambda>(_, _, n, _, _). unat n)")
    (auto simp: unat_sub word_less_nat_alt word_le_nat_alt unat_gt_0)

declare ReadCD_loop.simps [simp del]

text \<open>A sector size of 0 makes the division trap. The result is 1 whatever was read.\<close>

definition mass_stor_ReadCD ::
  "'u usb_stack \<Rightarrow> u32 \<Rightarrow> u32 \<Rightarrow> u32 \<Rightarrow> nat \<Rightarrow> 'u mass \<Rightarrow> (u32 \<times> 'u mass) option" where
  "mass_stor_ReadCD usb lsn nsectors p part_num s =
     (let ss = sectorSize (g_mass_device (bulk s))
      in if ss > 2048
         then let lba = mass_LBAs s ! part_num + lsn div 2
              in if lsn mod 2 > 0
                 then (case mass_stor_readSector usb lba 1 (gSectorBuffer s) s of
                         None \<Rightarrow> None
                       | Some s1 \<Rightarrow> map_option (Pair 1)
                           (ReadCD_loop usb (lba + 1) (nsectors - 1) (p + 2048)
                              (mass_ram (mips_memcpy p (gSectorBuffer s1 + 2048) 2048) s1)))
                 else map_option (Pair 1) (ReadCD_loop usb lba nsectors p s)
         else if ss = 0 then None
         else map_option (Pair 1)
                (ReadCD_loop usb (mass_LBAs s ! part_num + lsn * (2048 div ss)) nsectors p s))"

section \<open>Reads through the read-ahead are reads of the disc\<close>

text \<open>
  The driver's view of a working device of 512-byte sectors: the device is the one the stack
  serves, the semaphores are free, and the buffer holds what its sector and count say - or
  will, once the transfers queued for it have run.
\<close>

definition mass_device ::
  "'u usb_stack \<Rightarrow> u32 \<Rightarrow> u32 \<Rightarrow> (u32 \<Rightarrow> u8 list) \<Rightarrow> ('u \<Rightarrow> u8 list option) \<Rightarrow> 'u mass \<Rightarrow> bool" where
  "mass_device usb epO epI store pend s \<longleftrightarrow>
     bot_disc usb epO epI 512 store pend \<and>
     bulkEpO (g_mass_device (bulk s)) = epO \<and> bulkEpI (g_mass_device (bulk s)) = epI \<and>
     sectorSize (g_mass_device (bulk s)) = 512 \<and>
     length (ra_buffer (bulk s)) = 32768 \<and> ioSema (bulk s) = 0 \<and> io_sem (bulk s) = 0"

definition ra_holds :: "(u32 \<Rightarrow> u8 list) \<Rightarrow> 'u mass \<Rightarrow> bool" where
  "ra_holds store s \<longleftrightarrow>
     ra_buffer_pointer s + unat (ra_count s) * 512 \<le> 32768 \<and>
     take (unat (ra_count s) * 512) (drop (ra_buffer_pointer s) (ra_buffer (bulk s)))
       = sector_run store (ra_sector s) (unat (ra_count s))"

definition mass_settled ::
  "'u usb_stack \<Rightarrow> u32 \<Rightarrow> u32 \<Rightarrow> (u32 \<Rightarrow> u8 list) \<Rightarrow> ('u \<Rightarrow> u8 list option) \<Rightarrow> 'u mass \<Rightarrow> bool" where
  "mass_settled usb epO epI store pend s \<longleftrightarrow>
     mass_device usb epO epI store pend s \<and> in_flight (bulk s) = [] \<and>
     pend (stack (bulk s)) = None \<and> ra_active s = 0 \<and> ra_holds store s"

definition mass_coherent ::
  "'u usb_stack \<Rightarrow> u32 \<Rightarrow> u32 \<Rightarrow> (u32 \<Rightarrow> u8 list) \<Rightarrow> ('u \<Rightarrow> u8 list option) \<Rightarrow> 'u mass \<Rightarrow> bool" where
  "mass_coherent usb epO epI store pend s \<longleftrightarrow>
     mass_settled usb epO epI store pend s \<or>
     mass_device usb epO epI store pend s \<and> ra_active s = 1 \<and> ra_buffer_pointer s = 0 \<and>
     unat (ra_count s) \<le> 64 \<and>
     reading_ahead usb pend (sector_run store (ra_sector s) (unat (ra_count s))) 0 (bulk s)"

definition mass_inv ::
  "'u usb_stack \<Rightarrow> u32 \<Rightarrow> u32 \<Rightarrow> (u32 \<Rightarrow> u8 list) \<Rightarrow> ('u \<Rightarrow> u8 list option) \<Rightarrow> 'u mass \<Rightarrow> bool" where
  "mass_inv usb epO epI store pend s \<longleftrightarrow>
     (vmc s \<longrightarrow> io_sema s = 1) \<and> mass_coherent usb epO epI store pend s"

lemma length_store_run:
  "bot_disc usb epO epI ss store pend \<Longrightarrow> length (sector_run store l n) = n * ss"
  by (rule length_sector_run) (simp add: bot_disc_def)

lemma ra_wait_settles:
  assumes "mass_coherent usb epO epI store pend s"
  shows "\<exists>s1. ra_wait usb s = Some s1 \<and> mass_settled usb epO epI store pend s1 \<and>
    ram (bulk s1) = ram (bulk s) \<and> mass_LBAs s1 = mass_LBAs s \<and> vmc s1 = vmc s \<and> io_sema s1 = io_sema s"
proof (cases "mass_settled usb epO epI store pend s")
  case True
  then show ?thesis by (intro exI [of _ s]) (simp add: ra_wait_def mass_settled_def)
next
  case False
  let ?bs = "sector_run store (ra_sector s) (unat (ra_count s))"
  from assms False have act: "mass_device usb epO epI store pend s" "ra_active s = 1"
    "ra_buffer_pointer s = 0" "unat (ra_count s) \<le> 64" "reading_ahead usb pend ?bs 0 (bulk s)"
    by (simp_all add: mass_coherent_def)
  then obtain u' where u': "pend u' = None" "wait_io_sem usb (bulk s)
      = Some ((place_store (Ra 0) ?bs (bulk s))\<lparr>cmd_count := 0, returnCode := 0, in_flight := [], stack := u'\<rparr>)"
    by (auto simp: reading_ahead_def)
  have len: "length ?bs = unat (ra_count s) * 512"
    using act(1) length_store_run by (auto simp: mass_device_def)
  then show ?thesis
    using act u' by (simp add: ra_wait_def mass_settled_def mass_device_def ra_holds_def splice_def)
qed

lemma ra_fetch_delivers:
  assumes inv: "mass_settled usb epO epI store pend s"
  shows "\<exists>s2. ra_fetch usb sector count (Ram a) s = Some (True, s2) \<and>
    mass_settled usb epO epI store pend s2 \<and> mass_LBAs s2 = mass_LBAs s \<and>
    vmc s2 = vmc s \<and> io_sema s2 = io_sema s \<and>
    ram (bulk s2) = write_bytes a (sector_run store sector (unat count)) (ram (bulk s))"
proof (cases "ra_sector s = sector \<and> count \<le> ra_count s")
  case True
  let ?n = "unat count" let ?r = "unat (ra_count s)"
  have size: "sector_bytes s count = ?n * 512"
    using inv u16_bound [of count]
    by (simp add: sector_bytes_def mass_settled_def mass_device_def unat_word_ariths)
  have le: "?n \<le> ?r" using True by (simp add: word_le_nat_alt)
  have rest: "unat (ra_count s - count) = ?r - ?n" using True by (simp add: unat_sub)
  have holds: "ra_buffer_pointer s + ?r * 512 \<le> 32768"
    "take (?r * 512) (drop (ra_buffer_pointer s) (ra_buffer (bulk s))) = sector_run store sector ?r"
    using inv True by (simp_all add: mass_settled_def ra_holds_def)
  have run: "sector_run store sector ?r
      = sector_run store sector ?n @ sector_run store (sector + ucast count) (?r - ?n)"
    using le sector_run_add [of store sector ?n "?r - ?n"] by simp
  have len: "length (sector_run store sector ?n) = ?n * 512"
    using inv length_store_run by (auto simp: mass_settled_def mass_device_def)
  have front: "take (?n * 512) (drop (ra_buffer_pointer s) (ra_buffer (bulk s)))
      = sector_run store sector ?n"
  proof -
    have "take (?n * 512) (drop (ra_buffer_pointer s) (ra_buffer (bulk s)))
        = take (?n * 512) (take (?r * 512) (drop (ra_buffer_pointer s) (ra_buffer (bulk s))))"
      using le by (simp add: min_absorb1)
    then show ?thesis using holds(2) run len by simp
  qed
  have tail: "take ((?r - ?n) * 512) (drop (ra_buffer_pointer s + ?n * 512) (ra_buffer (bulk s)))
      = sector_run store (sector + ucast count) (?r - ?n)"
  proof -
    have "drop (?n * 512) (take (?r * 512) (drop (ra_buffer_pointer s) (ra_buffer (bulk s))))
        = take ((?r - ?n) * 512) (drop (ra_buffer_pointer s + ?n * 512) (ra_buffer (bulk s)))"
      by (simp add: drop_take diff_mult_distrib add.commute)
    then show ?thesis using holds(2) run len by simp
  qed
  have fits: "ra_buffer_pointer s + ?n * 512 \<le> 32768"
    "ra_buffer_pointer s + ?n * 512 + (?r - ?n) * 512 \<le> 32768"
    using holds(1) le by linarith+
  show ?thesis
    using inv True fits front tail rest
    by (simp add: ra_fetch_def size mass_settled_def mass_device_def ra_holds_def)
next
  case False
  from inv have dev: "bot_disc usb epO epI 512 store pend" "bulkEpO (g_mass_device (bulk s)) = epO"
    "bulkEpI (g_mass_device (bulk s)) = epI" "sectorSize (g_mass_device (bulk s)) = of_nat 512"
    "in_flight (bulk s) = []" "pend (stack (bulk s)) = None" "ioSema (bulk s) = 0"
    by (simp_all add: mass_settled_def mass_device_def)
  have fits: "place_fits (Ram a) (512 * unat count) (bulk s)" using u16_bound [of count] by simp
  obtain u' where u': "pend u' = None" "cbw_scsi_sector_io usb False sector (Ram a) count False (bulk s)
      = Some (0, (place_store (Ram a) (sector_run store sector (unat count)) (bulk s))
        \<lparr>cmd_tag := cmd_tag (bulk s) + 1, cmd_async := False, cmd_count := 0, returnCode := 0, stack := u'\<rparr>)"
    using sector_io_reads [OF dev fits] by blast
  show ?thesis
    using inv u' by (simp add: ra_fetch_def False mass_settled_def mass_device_def ra_holds_def)
qed

lemma ra_start_keeps:
  assumes inv: "mass_settled usb epO epI store pend s" and vmc: "vmc s \<longrightarrow> io_sema s = 0"
  shows "\<exists>s3. ra_start usb sector count s = Some s3 \<and>
    mass_inv usb epO epI store pend (SIGNALIOSEMA (s3\<lparr>last_sector := ls, last_count := lc\<rparr>)) \<and>
    ram (bulk s3) = ram (bulk s) \<and> mass_LBAs s3 = mass_LBAs s"
proof (cases "last_sector s + ucast (last_count s) \<noteq> sector \<or>
    ra_sector s = sector + ucast count \<and> count \<le> ra_count s \<or> unat count > SCSI_RA_SECTORS")
  case True
  then have "ra_start usb sector count s = Some s" by (auto simp: ra_start_def)
  with inv show ?thesis
    by (simp add: mass_inv_def mass_coherent_def SIGNALIOSEMA_def mass_settled_def mass_device_def ra_holds_def)
next
  case False
  from inv have dev: "bot_disc usb epO epI 512 store pend" "bulkEpO (g_mass_device (bulk s)) = epO"
    "bulkEpI (g_mass_device (bulk s)) = epI" "sectorSize (g_mass_device (bulk s)) = of_nat 512"
    "in_flight (bulk s) = []" "pend (stack (bulk s)) = None" "io_sem (bulk s) = 0"
    by (simp_all add: mass_settled_def mass_device_def)
  have size: "sector_bytes s count = unat count * 512"
    using inv u16_bound [of count]
    by (simp add: sector_bytes_def mass_settled_def mass_device_def unat_word_ariths)
  have n: "unat count \<le> 64" using False by simp
  then have fits: "place_fits (Ra 0) (512 * unat count) (bulk s)"
    using inv by (simp add: mass_settled_def mass_device_def)
  obtain q where q: "cbw_scsi_sector_io usb False (sector + ucast count) (Ra 0) count True (bulk s) = Some (0, q)"
    "reading_ahead usb pend (sector_run store (sector + ucast count) (unat count)) 0 q"
    "ram q = ram (bulk s)" "ra_buffer q = ra_buffer (bulk s)" "ioSema q = ioSema (bulk s)"
    "io_sem q = io_sem (bulk s)" "g_mass_device q = g_mass_device (bulk s)"
    using sector_io_reads_ahead [OF dev fits] by blast
  have "ra_start usb sector count s = Some (s\<lparr>bulk := q, ra_active := 1,
      ra_sector := sector + ucast count, ra_count := count, ra_buffer_pointer := 0\<rparr>)"
    using False n q(1) by (auto simp: ra_start_def size)
  then show ?thesis
    using inv q n vmc by (simp add: mass_inv_def mass_coherent_def SIGNALIOSEMA_def mass_settled_def mass_device_def)
qed

lemma readSector_delivers:
  assumes inv: "mass_inv usb epO epI store pend s"
  shows "\<exists>s'. mass_stor_readSector usb sector count a s = Some s' \<and>
    mass_inv usb epO epI store pend s' \<and> mass_LBAs s' = mass_LBAs s \<and>
    ram (bulk s') = write_bytes a (sector_run store sector (unat count)) (ram (bulk s))"
proof -
  define s0 where "s0 = (if vmc s then s\<lparr>io_sema := 0\<rparr> else s)"
  have w: "WAITIOSEMA s = Some s0" using inv by (simp add: WAITIOSEMA_def s0_def mass_inv_def)
  have "mass_coherent usb epO epI store pend s0"
    using inv
    by (simp add: s0_def mass_inv_def mass_coherent_def mass_settled_def mass_device_def ra_holds_def)
  then obtain s1 where s1: "ra_wait usb s0 = Some s1" "mass_settled usb epO epI store pend s1"
    "ram (bulk s1) = ram (bulk s0)" "mass_LBAs s1 = mass_LBAs s0" "vmc s1 = vmc s0"
    "io_sema s1 = io_sema s0"
    using ra_wait_settles by blast
  obtain s2 where s2: "ra_fetch usb sector count (Ram a) s1 = Some (True, s2)"
    "mass_settled usb epO epI store pend s2" "mass_LBAs s2 = mass_LBAs s1" "vmc s2 = vmc s1"
    "io_sema s2 = io_sema s1"
    "ram (bulk s2) = write_bytes a (sector_run store sector (unat count)) (ram (bulk s1))"
    using ra_fetch_delivers [OF s1(2)] by blast
  have "vmc s2 \<longrightarrow> io_sema s2 = 0" using s1(5,6) s2(4,5) by (simp add: s0_def)
  then obtain s3 where s3: "ra_start usb sector count s2 = Some s3"
    "mass_inv usb epO epI store pend (SIGNALIOSEMA (s3\<lparr>last_sector := sector, last_count := count\<rparr>))"
    "ram (bulk s3) = ram (bulk s2)" "mass_LBAs s3 = mass_LBAs s2"
    using ra_start_keeps [OF s2(2)] by blast
  let ?s' = "SIGNALIOSEMA (s3\<lparr>last_sector := sector, last_count := count\<rparr>)"
  have "mass_stor_readSector usb sector count a s = Some ?s'"
    by (simp add: mass_stor_readSector_def w s1(1) s2(1) s3(1))
  moreover have "ram (bulk ?s') = ram (bulk s3)" "mass_LBAs ?s' = mass_LBAs s3"
    by (simp_all add: SIGNALIOSEMA_def)
  moreover have "ram (bulk s0) = ram (bulk s)" "mass_LBAs s0 = mass_LBAs s" by (simp_all add: s0_def)
  ultimately show ?thesis using s1 s2 s3 by (intro exI [of _ ?s']) simp
qed

lemma mass_inv_device: "mass_inv usb epO epI store pend s \<Longrightarrow> mass_device usb epO epI store pend s"
  by (auto simp: mass_inv_def mass_coherent_def mass_settled_def)

text \<open>A history of sector reads, in the order of the calls.\<close>

fun mass_reads :: "'u usb_stack \<Rightarrow> (u32 \<times> u16 \<times> u32) list \<Rightarrow> 'u mass \<Rightarrow> 'u mass option" where
  "mass_reads usb [] s = Some s"
| "mass_reads usb ((sector, count, a) # rs) s =
     Option.bind (mass_stor_readSector usb sector count a s) (mass_reads usb rs)"

fun disc_reads :: "(u32 \<Rightarrow> u8 list) \<Rightarrow> (u32 \<times> u16 \<times> u32) list \<Rightarrow> mem \<Rightarrow> mem" where
  "disc_reads store [] m = m"
| "disc_reads store ((sector, count, a) # rs) m =
     disc_reads store rs (write_bytes a (sector_run store sector (unat count)) m)"

text \<open>
  C5. The read-ahead is transparent: on a device of 512-byte sectors every history of sector
  reads returns and leaves memory as if each read had been served by the device, whatever of it
  came from the buffer, from transfers still under way, or from the disc, and the driver's
  buffer goes on to agree with the disc.
\<close>

theorem read_ahead_transparent:
  assumes "mass_inv usb epO epI store pend s"
  shows "\<exists>s'. mass_reads usb rs s = Some s' \<and> mass_inv usb epO epI store pend s' \<and>
    ram (bulk s') = disc_reads store rs (ram (bulk s))"
  using assms
proof (induction rs arbitrary: s)
  case (Cons r rs)
  obtain sector count a where r: "r = (sector, count, a)" by (cases r)
  obtain s1 where "mass_stor_readSector usb sector count a s = Some s1" "mass_inv usb epO epI store pend s1"
    "ram (bulk s1) = write_bytes a (sector_run store sector (unat count)) (ram (bulk s))"
    using readSector_delivers [OF Cons.prems] by blast
  with Cons.IH [of s1] show ?case by (simp add: r)
qed simp

lemma ReadCD_loop_delivers:
  assumes "mass_inv usb epO epI store pend s" and "unat n * 2048 \<le> 2 ^ 32"
  shows "\<exists>s'. ReadCD_loop usb lba n p s = Some s' \<and>
    mass_inv usb epO epI store pend s' \<and> mass_LBAs s' = mass_LBAs s \<and>
    ram (bulk s') = write_bytes p (sector_run store lba (unat n * 4)) (ram (bulk s))"
  using assms
proof (induction usb lba n p s rule: ReadCD_loop.induct)
  case (1 usb lba n p s)
  show ?case
  proof (cases "n = 0")
    case True
    with 1 show ?thesis by (simp add: ReadCD_loop.simps)
  next
    case False
    define k where "k = (if n > MAX_USB_SECTORS then MAX_USB_SECTORS else n)"
    have k: "unat k \<le> 256" "unat k \<le> unat n" "k \<noteq> 0"
      using False by (auto simp: k_def word_less_nat_alt)
    have ss: "sectorSize (g_mass_device (bulk s)) = 512"
      using mass_inv_device [OF "1.prems"(1)] by (simp add: mass_device_def)
    have k2048: "unat (k * 2048) = unat k * 2048" using k(1) by (simp add: unat_word_ariths)
    have cnt: "unat (k * 2048 div 512) = unat k * 4" by (simp add: unat_div k2048)
    then have cnt16: "unat (ucast (k * 2048 div 512) :: u16) = unat k * 4"
      using k(1) unat_ucast_u16 [of "k * 2048 div 512"] by simp
    have nz: "k * 2048 div 512 \<noteq> 0" using cnt k(3) by (metis mult_eq_0_iff unat_eq_zero unat_0 zero_neq_numeral)
    obtain t where t: "mass_stor_readSector usb lba (ucast (k * 2048 div 512)) p s = Some t"
      "mass_inv usb epO epI store pend t" "mass_LBAs t = mass_LBAs s"
      "ram (bulk t) = write_bytes p (sector_run store lba (unat k * 4)) (ram (bulk s))"
      using readSector_delivers [OF "1.prems"(1), of lba "ucast (k * 2048 div 512)" p] cnt16 by auto
    have rest: "unat (n - k) = unat n - unat k" using k(2) by (simp add: unat_sub word_le_nat_alt)
    have "\<exists>s'. ReadCD_loop usb (lba + k * 2048 div 512) (n - k) (p + k * 2048) t = Some s' \<and>
        mass_inv usb epO epI store pend s' \<and> mass_LBAs s' = mass_LBAs t \<and>
        ram (bulk s') = write_bytes (p + k * 2048)
          (sector_run store (lba + k * 2048 div 512) (unat (n - k) * 4)) (ram (bulk t))"
    proof (rule "1.IH" [OF False k_def])
      show "(if k * 2048 div sectorSize (g_mass_device (bulk s)) = 0
          then map_option (mass_ram (mips_memcpy p (gSectorBuffer s) 2048))
            (mass_stor_readSector usb lba 1 (gSectorBuffer s) s)
          else mass_stor_readSector usb lba (ucast (k * 2048 div sectorSize (g_mass_device (bulk s)))) p s)
        = Some t"
        using t(1) nz by (simp add: ss)
      show "unat (n - k) * 2048 \<le> 2 ^ 32" using "1.prems"(2) rest by simp
    qed (use t(2) in \<open>simp_all add: ss\<close>)
    then obtain s' where s': "ReadCD_loop usb (lba + k * 2048 div 512) (n - k) (p + k * 2048) t = Some s'"
      "mass_inv usb epO epI store pend s'" "mass_LBAs s' = mass_LBAs t"
      "ram (bulk s') = write_bytes (p + k * 2048)
        (sector_run store (lba + k * 2048 div 512) (unat (n - k) * 4)) (ram (bulk t))" by blast
    have len: "length (sector_run store l m) = m * 512" for l m
      using mass_inv_device [OF "1.prems"(1)] length_store_run by (auto simp: mass_device_def)
    have at: "lba + k * 2048 div 512 = lba + of_nat (unat k * 4)" by (simp flip: cnt)
    have "p + k * 2048 = p + of_nat (unat k * 4 * 512)" by (simp add: mult.assoc)
    then have "write_bytes (p + k * 2048)
          (sector_run store (lba + k * 2048 div 512) (unat (n - k) * 4)) (ram (bulk t))
        = write_bytes p (sector_run store lba (unat k * 4 + (unat n - unat k) * 4)) (ram (bulk s))"
      unfolding t(4) at rest sector_run_add
      using "1.prems"(2) k(2) by (intro write_bytes_append) (simp_all add: len)
    moreover have "unat k * 4 + (unat n - unat k) * 4 = unat n * 4" using k(2) by simp
    ultimately have m: "ram (bulk s') = write_bytes p (sector_run store lba (unat n * 4)) (ram (bulk s))"
      using s'(4) by simp
    have "ReadCD_loop usb lba n p s = Some s'"
      using False t(1) s'(1) nz by (subst ReadCD_loop.simps) (simp add: Let_def ss del: MAX_USB_SECTORS_def flip: k_def)
    with s' t m show ?thesis by simp
  qed
qed

section \<open>What the block layer gets wrong\<close>

text \<open>
  On a device of 4096-byte sectors \<open>mass_stor_ReadCD\<close> of 2 to 256 sectors
  from an even one is a single access to \<open>n / 2\<close> device sectors: when
  \<open>n\<close> is odd the last disc sector is not read, and the result is 1 all the same.
\<close>

theorem ReadCD_4k:
  assumes ss: "sectorSize (g_mass_device (bulk s)) = 4096" and even: "lsn mod 2 = 0"
    and n: "2 \<le> unat n" "unat n \<le> 256"
  shows "mass_stor_ReadCD usb lsn n p i s = map_option (Pair 1)
    (mass_stor_readSector usb (mass_LBAs s ! i + lsn div 2) (ucast (n div 2)) p s)"
proof -
  have nz: "n \<noteq> 0" using n by auto
  have k: "(if n > MAX_USB_SECTORS then MAX_USB_SECTORS else n) = n"
    using n(2) by (simp add: word_less_nat_alt)
  have "unat (n * 2048 div 4096) = unat (n div 2)"
    using n(2) by (simp add: unat_div unat_word_ariths)
  then have d: "n * 2048 div 4096 = n div 2" by (simp add: word_unat_eq_iff)
  have "unat (n div 2) \<noteq> 0" using n(1) by (simp add: unat_div)
  then have "n div 2 \<noteq> 0" by auto
  then have "ReadCD_loop usb (mass_LBAs s ! i + lsn div 2) n p s
      = mass_stor_readSector usb (mass_LBAs s ! i + lsn div 2) (ucast (n div 2)) p s"
    using nz by (subst ReadCD_loop.simps)
      (simp add: k Let_def ss d ReadCD_loop.simps [of _ _ 0] del: MAX_USB_SECTORS_def split: option.splits)
  then show ?thesis using ss even by (simp add: mass_stor_ReadCD_def)
qed

text \<open>
  C38. In a module built with \<open>VMC_DRIVER\<close>, a sector read whose command fails
  returns without giving \<open>io_sema\<close> back, so that every later sector read blocks
  for ever.
\<close>

theorem failed_read_locks:
  assumes "vmc s" and "WAITIOSEMA s = Some s0" and "io_sema s = 1" and "ra_wait usb s0 = Some s1"
    and "ra_fetch usb sector count (Ram a) s1 = Some (False, s2)"
  shows "mass_stor_readSector usb sector count a s = Some s2 \<and>
    mass_stor_readSector usb sector' count' a' s2 = None"
proof -
  have "io_sema s0 = 0 \<and> vmc s0" using assms(1-3) by (auto simp: WAITIOSEMA_def split: if_splits)
  then have "io_sema s1 = 0 \<and> vmc s1" using assms(4) by (auto simp: ra_wait_def split: if_splits)
  then have "io_sema s2 = 0 \<and> vmc s2"
    using assms(5) by (auto simp: ra_fetch_def split: if_splits prod.splits)
  then show ?thesis
    using assms by (simp add: mass_stor_readSector_def WAITIOSEMA_def [of s2])
qed

section \<open>The life of a device\<close>

text \<open>Descriptors, with the fields the driver looks at; \<open>pUsbGetDeviceStaticDescriptor\<close> gives
  the device, configuration and first endpoint descriptor, each possibly none.\<close>

record UsbInterfaceDescriptor =
  bInterfaceNumber :: u8
  bAlternateSetting :: u8
  bNumEndpoints :: u8
  bInterfaceClass :: u8
  bInterfaceSubClass :: u8
  bInterfaceProtocol :: u8

record UsbEndpointDescriptor =
  bEndpointAddress :: u8
  bmAttributes :: u8
  wMaxPacketSizeLB :: u8
  wMaxPacketSizeHB :: u8

record UsbConfigDescriptor =
  wTotalLength :: u16
  bNumInterfaces :: u8
  bConfigurationValue :: u8
  first_interface :: UsbInterfaceDescriptor

record usb_descriptors =
  bNumConfigurations :: "u8 option"
  config_descr :: "UsbConfigDescriptor option"
  endpoint_descr :: "(nat \<Rightarrow> UsbEndpointDescriptor) option"

record 'u usb_ports =
  ub_open :: "u32 \<Rightarrow> UsbEndpointDescriptor option \<Rightarrow> 'u \<Rightarrow> u32 \<times> 'u"
  ub_close :: "u32 \<Rightarrow> 'u \<Rightarrow> 'u"

definition DEVICE_DETECTED :: u8 where [simp]: "DEVICE_DETECTED = 0x01"
definition DEVICE_CONFIGURED :: u8 where [simp]: "DEVICE_CONFIGURED = 0x02"

definition has_status :: "u8 \<Rightarrow> mass_dev \<Rightarrow> bool" where
  "has_status f d \<longleftrightarrow> mstatus d AND f \<noteq> 0"

definition usb_bulk_probeEndpoint ::
  "'u usb_ports \<Rightarrow> u32 \<Rightarrow> UsbEndpointDescriptor \<Rightarrow> 'u bulk \<Rightarrow> 'u bulk" where
  "usb_bulk_probeEndpoint ports devid e b =
     (let d = g_mass_device b;
          packet = push_bit 8 (ucast (wMaxPacketSizeHB e)) OR ucast (wMaxPacketSizeLB e)
      in if bmAttributes e \<noteq> 2 then b
         else if bEndpointAddress e AND 0x80 = 0 \<and> bulkEpO d <s 0
         then let (ep, u) = ub_open ports devid (Some e) (stack b)
              in b\<lparr>g_mass_device := d\<lparr>bulkEpO := ep, packetSzO := packet\<rparr>, stack := u\<rparr>
         else if bEndpointAddress e AND 0x80 = 0x80 \<and> bulkEpI d <s 0
         then let (ep, u) = ub_open ports devid (Some e) (stack b)
              in b\<lparr>g_mass_device := d\<lparr>bulkEpI := ep, packetSzI := packet\<rparr>, stack := u\<rparr>
         else b)"

text \<open>Only the first interface of a bulk-only SCSI device with two endpoints is accepted.\<close>

definition mass_stor_probe :: "usb_descriptors \<Rightarrow> 'u bulk \<Rightarrow> u32" where
  "mass_stor_probe ds b =
     (if has_status DEVICE_DETECTED (g_mass_device b) then 0
      else case bNumConfigurations ds of
        None \<Rightarrow> 0
      | Some nc \<Rightarrow>
          if nc < 1 then 0
          else case config_descr ds of
            None \<Rightarrow> 0
          | Some c \<Rightarrow>
              let i = first_interface c
              in if bNumInterfaces c < 1 \<or> wTotalLength c < 9 + 9 then 0
                 else if bInterfaceClass i \<noteq> 0x08 \<or>
                   (bInterfaceSubClass i \<noteq> 0x06 \<and> bInterfaceSubClass i \<noteq> 0x05) \<or>
                   bInterfaceProtocol i \<noteq> 0x50 \<or> bNumEndpoints i < 2 then 0
                 else 1)"

definition mass_stor_release :: "'u usb_ports \<Rightarrow> 'u mass \<Rightarrow> 'u mass" where
  "mass_stor_release ports s =
     (let b = bulk s; d = g_mass_device b;
          u1 = (if 0 \<le>s bulkEpI d then ub_close ports (bulkEpI d) (stack b) else stack b);
          u2 = (if 0 \<le>s bulkEpO d then ub_close ports (bulkEpO d) u1 else u1)
      in s\<lparr>bulk := b\<lparr>stack := u2,
             g_mass_device := d\<lparr>bulkEpI := - 1, bulkEpO := - 1, controlEp := - 1, mstatus := 0\<rparr>\<rparr>,
           gSectorBuffer := 0\<rparr>)"

text \<open>
  \<open>new_sema\<close> is the kernel's answer to \<open>CreateSema\<close>. The descriptors are not checked here: a
  missing one is followed as a null pointer (None).
\<close>

definition mass_stor_connect ::
  "'u usb_ports \<Rightarrow> u32 \<Rightarrow> u32 \<Rightarrow> usb_descriptors \<Rightarrow> 'u mass \<Rightarrow> (u32 \<times> 'u mass) option" where
  "mass_stor_connect ports new_sema devid ds s =
     (let b = bulk s; d = g_mass_device b
      in if devId d \<noteq> - 1 then Some (1, s)
         else let (ep, u) = ub_open ports devid None (stack b);
                  d1 = d\<lparr>mstatus := 0, sectorSize := 0, bulkEpI := - 1, bulkEpO := - 1, controlEp := ep\<rparr>
              in case (config_descr ds, endpoint_descr ds) of
                   (Some c, Some eps) \<Rightarrow>
                     let i = first_interface c;
                         b1 = b\<lparr>stack := u, g_mass_device := d1\<lparr>
                           interfaceNumber := bInterfaceNumber i, interfaceAlt := bAlternateSetting i\<rparr>\<rparr>;
                         b2 = fold (\<lambda>j. usb_bulk_probeEndpoint ports devid (eps j))
                                (0 # [1..<unat (bNumEndpoints i)]) b1;
                         d2 = g_mass_device b2
                     in if bulkEpI d2 <s 0 \<or> bulkEpO d2 <s 0
                        then Some (- 1, mass_stor_release ports (s\<lparr>bulk := b2\<rparr>))
                        else if new_sema <s 0 then Some (- 1, s\<lparr>bulk := b2\<rparr>)
                        else Some (0, s\<lparr>bulk := b2\<lparr>ioSema := 0, g_mass_device := d2\<lparr>
                               devId := devid, configId := bConfigurationValue c,
                               mstatus := DEVICE_DETECTED\<rparr>\<rparr>\<rparr>)
                 | _ \<Rightarrow> None)"

definition mass_stor_disconnect :: "'u usb_ports \<Rightarrow> u32 \<Rightarrow> 'u mass \<Rightarrow> u32 \<times> 'u mass" where
  "mass_stor_disconnect ports devid s =
     (0, if has_status DEVICE_DETECTED (g_mass_device (bulk s)) \<and> devid = devId (g_mass_device (bulk s))
         then let s1 = mass_stor_release ports s
              in s1\<lparr>bulk := (bulk s1)\<lparr>g_mass_device := (g_mass_device (bulk s1))\<lparr>devId := - 1\<rparr>\<rparr>\<rparr>
         else s)"

section \<open>Warm-up\<close>

definition getBI32 :: "nat \<Rightarrow> u8 list \<Rightarrow> u32" where
  "getBI32 i bs = ucast (bs ! (i + 3)) OR push_bit 8 (ucast (bs ! (i + 2)))
     OR push_bit 16 (ucast (bs ! (i + 1))) OR push_bit 24 (ucast (bs ! i))"

text \<open>The structures on the stack: \<open>id\<close> (36 bytes) at 0, \<open>sd\<close> (18) at 36, \<open>rcd\<close> (8) at 54.\<close>

text \<open>One round of the loop after a failed TEST UNIT READY: the result says whether to go on.\<close>

definition warmup_sense :: "'u usb_stack \<Rightarrow> 'u bulk \<Rightarrow> (bool \<times> 'u bulk) option" where
  "warmup_sense usb b =
     (case cbw_scsi_request_sense usb (Local 36) 18 b of
        None \<Rightarrow> None
      | Some (_, b1) \<Rightarrow>
          let sd = (\<lambda>i. locals b1 ! (36 + i))
          in if sd 0 = 0x70 \<and> sd 2 \<noteq> 0 \<and> sd 2 = 0x02 \<and> sd 12 = 0x04 \<and> sd 13 = 0x02
             then map_option (\<lambda>(r, b2). (r = 0, b2)) (cbw_scsi_start_stop_unit usb b1)
             else Some (True, b1))"

partial_function (option) warmup_ready :: "'u usb_stack \<Rightarrow> 'u bulk \<Rightarrow> (bool \<times> 'u bulk) option" where
  "warmup_ready usb b =
     (case cbw_scsi_test_unit_ready usb b of
        None \<Rightarrow> None
      | Some (r, b1) \<Rightarrow>
          if r = 0 then Some (True, b1)
          else (case warmup_sense usb b1 of
                  None \<Rightarrow> None
                | Some (go, b2) \<Rightarrow> if go then warmup_ready usb b2 else Some (False, b2)))"

definition mass_stor_warmup :: "'u usb_stack \<Rightarrow> u32 \<Rightarrow> 'u mass \<Rightarrow> (u32 \<times> 'u mass) option" where
  "mass_stor_warmup usb heap s =
     (if \<not> has_status DEVICE_DETECTED (g_mass_device (bulk s)) then Some (- 1, s)
      else case usb_bulk_get_max_lun usb (bulk s) of
        None \<Rightarrow> None
      | Some (_, b1) \<Rightarrow>
     (case cbw_scsi_inquiry usb (Local 0) 36 (place_store (Local 0) (replicate 36 0) b1) of
        None \<Rightarrow> None
      | Some (r, b2) \<Rightarrow>
          if r <s 0 then Some (- 1, s\<lparr>bulk := b2\<rparr>)
          else (case warmup_ready usb b2 of
                  None \<Rightarrow> None
                | Some (ok, b3) \<Rightarrow>
                    if \<not> ok then Some (- 1, s\<lparr>bulk := b3\<rparr>)
                    else (case cbw_scsi_read_capacity usb (Local 54) 8 b3 of
                            None \<Rightarrow> None
                          | Some (r4, b4) \<Rightarrow>
                              if r4 \<noteq> 0 then Some (- 1, s\<lparr>bulk := b4\<rparr>)
                              else let ss = getBI32 58 (locals b4)
                                   in Some (0, s\<lparr>bulk := b4\<lparr>g_mass_device := (g_mass_device b4)\<lparr>
                                          sectorSize := ss, maxLBA := getBI32 54 (locals b4)\<rparr>\<rparr>,
                                        gSectorBuffer := (if ss > 2048 then heap else 0)\<rparr>)))))"

definition mass_stor_configureDevice ::
  "'u usb_stack \<Rightarrow> 'u usb_ports \<Rightarrow> u32 \<Rightarrow> 'u mass \<Rightarrow> (u32 \<times> 'u mass) option" where
  "mass_stor_configureDevice usb ports heap s =
     (let d = g_mass_device (bulk s)
      in if devId d \<noteq> - 1 \<and> has_status DEVICE_DETECTED d \<and> \<not> has_status DEVICE_CONFIGURED d
         then (case usb_set_configuration usb (configId d) (bulk s) of
                 None \<Rightarrow> None
               | Some b1 \<Rightarrow>
              (case usb_set_interface usb (interfaceNumber d) (interfaceAlt d) b1 of
                 None \<Rightarrow> None
               | Some b2 \<Rightarrow>
                   let b3 = b2\<lparr>g_mass_device := (g_mass_device b2)\<lparr>
                         mstatus := mstatus (g_mass_device b2) OR DEVICE_CONFIGURED\<rparr>\<rparr>
                   in (case mass_stor_warmup usb heap (s\<lparr>bulk := b3\<rparr>) of
                         None \<Rightarrow> None
                       | Some (r, s4) \<Rightarrow>
                           if r <s 0 then Some (- 1, mass_stor_release ports s4) else Some (1, s4))))
         else Some (0, s))"

text \<open>\<open>registered\<close> is the answer of \<open>pUsbRegisterDriver\<close>.\<close>

definition mass_stor_init :: "u32 \<Rightarrow> 'u mass \<Rightarrow> u32 \<times> 'u mass" where
  "mass_stor_init registered s =
     (if registered <s 0 then - 1 else 0,
      s\<lparr>bulk := (bulk s)\<lparr>g_mass_device := (g_mass_device (bulk s))\<lparr>devId := - 1\<rparr>, io_sem := 0\<rparr>,
        io_sema := (if vmc s then 1 else io_sema s)\<rparr>)"

section \<open>A device that is exchanged\<close>

text \<open>Neither removing a device nor connecting one touches the read-ahead.\<close>

definition ahead_of :: "'u mass \<Rightarrow> nat \<times> u32 \<times> u16 \<times> u8 list" where
  "ahead_of s = (ra_buffer_pointer s, ra_sector s, ra_count s, ra_buffer (bulk s))"

lemma release_ahead: "ahead_of (mass_stor_release ports s) = ahead_of s"
  by (simp add: mass_stor_release_def ahead_of_def Let_def)

lemma disconnect_ahead: "ahead_of (snd (mass_stor_disconnect ports devid s)) = ahead_of s"
  by (simp add: mass_stor_disconnect_def ahead_of_def mass_stor_release_def Let_def)

lemma probeEndpoint_ra [simp]: "ra_buffer (usb_bulk_probeEndpoint ports devid e b) = ra_buffer b"
  by (simp add: usb_bulk_probeEndpoint_def Let_def split: prod.splits)

lemma probe_all_ra: "ra_buffer (fold (\<lambda>j. usb_bulk_probeEndpoint ports devid (eps j)) js b) = ra_buffer b"
  by (induction js arbitrary: b) simp_all

lemma connect_ahead:
  assumes "mass_stor_connect ports new_sema devid ds s = Some (r, s')"
  shows "ahead_of s' = ahead_of s"
  using assms release_ahead unfolding mass_stor_connect_def ahead_of_def
  by (auto simp: Let_def probe_all_ra mass_stor_release_def
      split: if_splits option.splits prod.splits)

text \<open>
  The read-ahead outlives the device: after a device is disconnected and another one
  connected, a read that starts where the buffer starts is answered with the sectors of the
  first device.
\<close>

theorem stale_read_ahead:
  assumes old: "mass_settled usb epO epI store pend s" and hit: "count \<le> ra_count s"
    and gone: "s1 = snd (mass_stor_disconnect ports devid s)"
    and new: "mass_stor_connect ports new_sema devid' ds s1 = Some (r, s2)"
    and ss: "sectorSize (g_mass_device (bulk s3)) = 512" and s3: "ahead_of s3 = ahead_of s2"
  shows "\<exists>s4. ra_fetch usb' (ra_sector s) count (Ram a) s3 = Some (True, s4) \<and>
    ram (bulk s4) = write_bytes a (sector_run store (ra_sector s) (unat count)) (ram (bulk s3))"
proof -
  have same: "ahead_of s3 = ahead_of s"
    using s3 connect_ahead [OF new] disconnect_ahead [of ports devid s] gone by simp
  define t where "t = s\<lparr>bulk := (bulk s)\<lparr>ram := ram (bulk s3)\<rparr>\<rparr>"
  have t: "mass_settled usb epO epI store pend t" "ra_sector t = ra_sector s" "count \<le> ra_count t"
    "ahead_of t = ahead_of s3" "sectorSize (g_mass_device (bulk t)) = 512" "ram (bulk t) = ram (bulk s3)"
    using old hit same by (simp_all add: t_def mass_settled_def mass_device_def ra_holds_def ahead_of_def)
  obtain t2 where t2: "ra_fetch usb (ra_sector s) count (Ram a) t = Some (True, t2)"
    "ram (bulk t2) = write_bytes a (sector_run store (ra_sector s) (unat count)) (ram (bulk t))"
    using ra_fetch_delivers [OF t(1)] by blast
  have "sector_bytes s3 count = sector_bytes t count" using ss t(5) by (simp add: sector_bytes_def)
  then show ?thesis
    using t2 t ss unfolding ra_fetch_def ahead_of_def by (auto split: if_splits)
qed

end
