(* ===== verification/Device_Usb.thy ===== *)
theory Device_Usb
  imports Devctl Usb_Mass
begin

text \<open>
  The drivers for images split into parts (cdvdman/device-usb.c and cdvdman/device-smb.c).
  Both have the same \<open>DeviceReadSectors\<close> around a part reader of their own
  (\<open>mass_stor_ReadCD\<close>, \<open>smb_ReadCD\<close>), so the loop takes the reader as an argument. A part
  holds 0x80000 sectors. A locale states what a part reader promises, for the
  reads that lie inside what the reader has (\<open>inside\<close>); the loop then delivers every read that
  stays inside one part.
\<close>

section \<open>\<open>DeviceReadSectors\<close>\<close>

text \<open>\<open>rd offslsn sectors address part\<close> reads from one part.\<close>

type_synonym 's part_rd = "u32 \<Rightarrow> u32 \<Rightarrow> u32 \<Rightarrow> nat \<Rightarrow> 's \<Rightarrow> mem \<Rightarrow> ('s \<times> mem) option"

text \<open>The loop over the parts: the first argument counts the parts left, \<open>i\<close> is the part.\<close>

primrec parts_loop ::
  "nat \<Rightarrow> 's part_rd \<Rightarrow> nat \<Rightarrow> u32 \<Rightarrow> u32 \<Rightarrow> u32 \<Rightarrow> u32 \<Rightarrow> u32 \<Rightarrow> u32 \<Rightarrow> u32 \<Rightarrow> 's \<Rightarrow> mem
    \<Rightarrow> ('s \<times> mem) option"
where
  "parts_loop 0 rd i lbound ubound offslsn lsn sectors nlsn p s m = Some (s, m)"
| "parts_loop (Suc k) rd i lbound ubound offslsn lsn sectors nlsn p s m =
     (if lbound \<le> lsn \<and> lsn < ubound
      then if lsn + sectors > ubound - 1
           then let sectors_to_read = ubound - lsn
                in (case rd offslsn sectors_to_read p i s m of
                      None \<Rightarrow> None
                    | Some (s', m') \<Rightarrow>
                        parts_loop k rd (Suc i) ubound (ubound + 0x80000) (offslsn - 0x80000) ubound
                          (sectors - sectors_to_read) ubound (p + push_bit 11 sectors_to_read) s' m')
           else rd offslsn sectors p i s m
      else parts_loop k rd (Suc i) ubound (ubound + 0x80000) (offslsn - 0x80000) lsn sectors nlsn p s m)"

definition first_ubound :: "u8 \<Rightarrow> u32" where
  "first_ubound parts = (if parts > 1 then 0x80000 else 0xFFFFFFFF)"

definition DeviceReadSectors_parts :: "u8 \<Rightarrow> 's part_rd \<Rightarrow> 's devread" where
  "DeviceReadSectors_parts parts rd lsn buffer sectors s m =
     (case parts_loop (unat parts) rd 0 0 (first_ubound parts) lsn lsn sectors 0 buffer s m of
        None \<Rightarrow> None
      | Some (s', m') \<Rightarrow> Some (0, s', m'))"

section \<open>Part readers\<close>

lemma unat_before:
  assumes "(l :: u32) < u"
  shows "unat (u - 1) = unat u - 1"
proof -
  have "1 \<le> u" using assms by (metis word_gt_0 le_less_trans word_zero_le inc_le add_0)
  then show ?thesis by (simp add: unat_sub)
qed

lemma not_past_last: "(l :: u32) < u \<Longrightarrow> \<not> u - 1 < l"
  using unat_before [of l u] by (simp add: word_less_nat_alt)

text \<open>\<open>inside i lsn n\<close>: the reader can read \<open>n\<close> sectors of part \<open>i\<close> from \<open>lsn\<close> on.\<close>

locale part_reader =
  fixes parts :: u8
    and rd :: "'s part_rd"
    and inv :: "'s \<Rightarrow> bool"
    and part :: "nat \<Rightarrow> u32 \<Rightarrow> u8 list"
    and inside :: "nat \<Rightarrow> u32 \<Rightarrow> nat \<Rightarrow> bool"
  assumes part_sector: "\<And>i l. length (part i l) = 2048"
    and inside_nothing: "\<And>i lsn. inside i lsn 0"
    and inside_split: "\<And>i lsn j k. inside i lsn (j + k) \<Longrightarrow> inside i lsn j \<and> inside i (lsn + of_nat j) k"
    and part_delivers:
      "\<And>s lsn n p i m. inv s \<Longrightarrow> inside i lsn (unat n) \<Longrightarrow> unat n * 2048 \<le> 2 ^ 32 \<Longrightarrow>
         \<exists>s'. inv s' \<and> rd lsn n p i s m = Some (s', write_bytes p (sector_run (part i) lsn (unat n)) m)"
begin

lemma read_nothing:
  "inv s \<Longrightarrow> \<exists>s'. inv s' \<and> parts_loop k rd i lb ub off lsn 0 nlsn p s m = Some (s', m)"
proof (induction k arbitrary: i lb ub off nlsn s)
  case (Suc k)
  show ?case
  proof (cases "lb \<le> lsn \<and> lsn < ub")
    case True
    then have "\<not> lsn > ub - 1" by (simp add: not_past_last)
    with True Suc.prems part_delivers [of s i off 0 p m] inside_nothing show ?thesis by simp
  next
    case False
    then show ?thesis using Suc by auto
  qed
qed simp

text \<open>A read that stays in the part where it starts, the loop being at that part.\<close>

lemma read_here:
  assumes "inv s" and "lb \<le> lsn" and "lsn < ub" and "unat lsn + unat n \<le> unat ub"
    and "unat n * 2048 \<le> 2 ^ 32" and "inside i off (unat n)"
  shows "\<exists>s'. inv s' \<and> parts_loop (Suc k) rd i lb ub off lsn n nlsn p s m
    = Some (s', write_bytes p (sector_run (part i) off (unat n)) m)"
proof -
  have "unat ub < 2 ^ 32" using unsigned_less [of ub] by simp
  then have sum: "unat (lsn + n) = unat lsn + unat n"
    using assms(4) by (intro unat_add_le) simp
  obtain s1 where s1: "inv s1" "rd off n p i s m = Some (s1, write_bytes p (sector_run (part i) off (unat n)) m)"
    using part_delivers [OF assms(1,6,5)] by blast
  show ?thesis
  proof (cases "lsn + n > ub - 1")
    case False
    with assms(2,3) s1 show ?thesis by auto
  next
    case True
    then have "unat lsn + unat n = unat ub"
      using assms(3,4) sum by (simp add: word_less_nat_alt unat_before)
    then have n: "ub - lsn = n" using assms(3) by (simp add: word_unat_eq_iff unat_sub word_le_nat_alt word_less_nat_alt)
    obtain s2 where "inv s2" "parts_loop k rd (Suc i) ub (ub + 0x80000) (off - 0x80000) ub 0 ub
        (p + push_bit 11 n) s1 (write_bytes p (sector_run (part i) off (unat n)) m)
      = Some (s2, write_bytes p (sector_run (part i) off (unat n)) m)"
      using read_nothing [OF s1(1)] by blast
    with True assms(2,3) s1(2) n show ?thesis by (auto simp: Let_def)
  qed
qed

text \<open>The parts before the one where the read starts are passed over.\<close>

lemma skip_parts:
  assumes "j * 0x80000 \<le> unat lsn" and "j \<le> 256"
  shows "parts_loop (j + k) rd 0 0 0x80000 lsn lsn n 0 p s m
    = parts_loop k rd j (of_nat (j * 0x80000)) (of_nat (j * 0x80000) + 0x80000)
        (lsn - of_nat (j * 0x80000)) lsn n 0 p s m"
  using assms
proof (induction j arbitrary: k)
  case (Suc j)
  have j: "unat (of_nat (j * 0x80000) :: u32) = j * 0x80000"
    by (rule unat_of_nat_u32) (use Suc.prems in simp)
  have u: "unat (of_nat (j * 0x80000) + 0x80000 :: u32) = (j + 1) * 0x80000"
    using Suc.prems unat_add_le [where x = "of_nat (j * 0x80000)" and y = "0x80000 :: u32"]
    unfolding j by simp
  have "\<not> lsn < of_nat (j * 0x80000) + 0x80000"
    using Suc.prems(1) u by (simp add: word_less_nat_alt)
  moreover have "parts_loop (j + Suc k) rd 0 0 0x80000 lsn lsn n 0 p s m
    = parts_loop (Suc k) rd j (of_nat (j * 0x80000)) (of_nat (j * 0x80000) + 0x80000)
        (lsn - of_nat (j * 0x80000)) lsn n 0 p s m"
    using Suc.prems by (intro Suc.IH) simp_all
  ultimately show ?case by (simp add: algebra_simps)
qed simp

lemma parts_loop_delivers:
  assumes "inv s" and "unat n * 2048 \<le> 2 ^ 32" and "j < unat parts"
    and "j = unat lsn div 0x80000" and "unat lsn mod 0x80000 + unat n \<le> 0x80000"
    and "inside j (of_nat (unat lsn mod 0x80000)) (unat n)"
  shows "\<exists>s'. inv s' \<and> parts_loop (unat parts) rd 0 0 0x80000 lsn lsn n 0 p s m
    = Some (s', write_bytes p (sector_run (part j) (of_nat (unat lsn mod 0x80000)) (unat n)) m)"
proof -
  have j: "j < 256" using assms(3) u8_bound [of parts] by simp
  then have lb: "unat (of_nat (j * 0x80000) :: u32) = j * 0x80000"
    by (intro unat_of_nat_u32) simp
  have ub: "unat (of_nat (j * 0x80000) + 0x80000 :: u32) = j * 0x80000 + 0x80000"
    using j unat_add_le [where x = "of_nat (j * 0x80000)" and y = "0x80000 :: u32"] unfolding lb by simp
  have split: "unat lsn = j * 0x80000 + unat lsn mod 0x80000" using assms(4) by simp
  have "lsn = of_nat (unat lsn)" by simp
  also have "\<dots> = of_nat (j * 0x80000) + of_nat (unat lsn mod 0x80000)"
    by (subst split) (rule of_nat_add)
  finally have off: "lsn - of_nat (j * 0x80000) = of_nat (unat lsn mod 0x80000)"
    by (simp add: diff_eq_eq add.commute)
  obtain k where k: "unat parts = j + Suc k" using less_imp_Suc_add [OF assms(3)] by auto
  have "j * 0x80000 \<le> unat lsn" using split by linarith
  then have "parts_loop (unat parts) rd 0 0 0x80000 lsn lsn n 0 p s m
    = parts_loop (Suc k) rd j (of_nat (j * 0x80000)) (of_nat (j * 0x80000) + 0x80000)
        (lsn - of_nat (j * 0x80000)) lsn n 0 p s m"
    unfolding k by (rule skip_parts) (use j in simp)
  then have "parts_loop (unat parts) rd 0 0 0x80000 lsn lsn n 0 p s m
    = parts_loop (Suc k) rd j (of_nat (j * 0x80000)) (of_nat (j * 0x80000) + 0x80000)
        (of_nat (unat lsn mod 0x80000)) lsn n 0 p s m"
    unfolding off .
  moreover have "of_nat (j * 0x80000) \<le> lsn" using lb split by (simp only: word_le_nat_alt)
  moreover have "lsn < of_nat (j * 0x80000) + 0x80000"
    unfolding word_less_nat_alt ub using split mod_less_divisor [of "0x80000" "unat lsn"] by linarith
  moreover have "unat lsn + unat n \<le> unat (of_nat (j * 0x80000) + 0x80000 :: u32)"
    unfolding ub using split assms(5) by linarith
  ultimately show ?thesis using read_here [OF assms(1) _ _ _ assms(2,6)] by (simp only:)
qed

end

text \<open>The image that the parts make up, and the reads that stay in one part.\<close>

definition parts_disc :: "u8 \<Rightarrow> (nat \<Rightarrow> u32 \<Rightarrow> u8 list) \<Rightarrow> u32 \<Rightarrow> u8 list" where
  "parts_disc parts part l =
     (if parts > 1 then part (unat l div 0x80000) (of_nat (unat l mod 0x80000)) else part 0 l)"

definition parts_readable :: "u8 \<Rightarrow> u32 \<Rightarrow> nat \<Rightarrow> bool" where
  "parts_readable parts lsn n \<longleftrightarrow>
     n = 0 \<or>
     (if parts > 1
      then unat lsn div 0x80000 < unat parts \<and> unat lsn mod 0x80000 + n \<le> 0x80000
      else parts = 1 \<and> unat lsn + n < 0xFFFFFFFF)"

lemma sector_run_cong:
  "(\<And>i. i < n \<Longrightarrow> f (a + of_nat i) = g (b + of_nat i)) \<Longrightarrow> sector_run f a n = sector_run g b n"
  by (auto simp: sector_run_def intro!: arg_cong [where f = concat])

lemma within_part:
  assumes "(x :: nat) mod d + i < d"
  shows "(x + i) div d = x div d" and "(x + i) mod d = x mod d + i"
proof -
  have "x + i = (x mod d + i) + (x div d) * d" by simp
  moreover have "((x mod d + i) + (x div d) * d) div d = x div d"
    using assms by (subst div_mult_self1) auto
  moreover have "((x mod d + i) + (x div d) * d) mod d = x mod d + i"
    using assms by (subst mod_mult_self1) simp
  ultimately show "(x + i) div d = x div d" "(x + i) mod d = x mod d + i" by simp_all
qed

text \<open>The place in its part of a later sector of a run that lies in one part.\<close>

lemma later_in_part:
  assumes "parts > 1" and "parts_readable parts lsn (j + k)" and "k \<noteq> 0"
  shows "unat (lsn + of_nat j) div 0x80000 = unat lsn div 0x80000"
    and "unat (lsn + of_nat j) mod 0x80000 = unat lsn mod 0x80000 + j"
proof -
  have a: "unat lsn div 0x80000 < unat parts" "unat lsn mod 0x80000 + (j + k) \<le> 0x80000"
    using assms by (simp_all add: parts_readable_def)
  have in_part: "unat lsn mod 0x80000 + j < 0x80000" using a(2) assms(3) by simp
  have "unat lsn < 256 * 0x80000"
    using a(1) u8_bound [of parts] by (simp add: div_less_iff_less_mult)
  then have "unat (lsn + of_nat j) = unat lsn + j"
    using in_part unat_add_le [where x = lsn and y = "of_nat j"] by (simp add: unat_of_nat_u32)
  then show "unat (lsn + of_nat j) div 0x80000 = unat lsn div 0x80000"
    "unat (lsn + of_nat j) mod 0x80000 = unat lsn mod 0x80000 + j"
    using within_part [OF in_part] by simp_all
qed

lemma parts_readable_split:
  assumes "parts_readable parts lsn (j + k)"
  shows "parts_readable parts lsn j \<and> parts_readable parts (lsn + of_nat j) k"
proof (cases "k = 0")
  case True
  with assms show ?thesis by (auto simp: parts_readable_def split: if_splits)
next
  case k: False
  show ?thesis
  proof (cases "parts > 1")
    case False
    then have one: "parts = 1" "unat lsn + (j + k) < 0xFFFFFFFF"
      using assms k by (simp_all add: parts_readable_def)
    then have "unat (lsn + of_nat j) = unat lsn + j"
      using unat_add_le [where x = lsn and y = "of_nat j"] by (simp add: unat_of_nat_u32)
    then show ?thesis using one by (simp add: parts_readable_def)
  next
    case True
    then show ?thesis
      using assms k later_in_part [OF True assms k] by (simp add: parts_readable_def)
  qed
qed

text \<open>Reads that the reader of the part allows.\<close>

definition parts_inside :: "u8 \<Rightarrow> (nat \<Rightarrow> u32 \<Rightarrow> nat \<Rightarrow> bool) \<Rightarrow> u32 \<Rightarrow> nat \<Rightarrow> bool" where
  "parts_inside parts inside lsn n \<longleftrightarrow> parts_readable parts lsn n \<and>
     (n = 0 \<or> (if parts > 1 then inside (unat lsn div 0x80000) (of_nat (unat lsn mod 0x80000)) n else inside 0 lsn n))"

lemma parts_inside_all [simp]: "parts_inside parts (\<lambda>_ _ _. True) = parts_readable parts"
  by (simp add: parts_inside_def fun_eq_iff)

context part_reader
begin

lemma parts_inside_split:
  assumes "parts_inside parts inside lsn (j + k)"
  shows "parts_inside parts inside lsn j \<and> parts_inside parts inside (lsn + of_nat j) k"
proof -
  have r: "parts_readable parts lsn (j + k)" using assms by (simp add: parts_inside_def)
  show ?thesis
  proof (cases "k = 0")
    case True
    then show ?thesis using assms by (auto simp: parts_inside_def parts_readable_def)
  next
    case k: False
    show ?thesis
    proof (cases "parts > 1")
      case True
      have "inside (unat lsn div 0x80000) (of_nat (unat lsn mod 0x80000)) (j + k)"
        using assms True k by (simp add: parts_inside_def)
      from inside_split [OF this] show ?thesis
        using True k parts_readable_split [OF r] later_in_part [OF True r k] by (simp add: parts_inside_def)
    next
      case False
      have "inside 0 lsn (j + k)" using assms False k by (simp add: parts_inside_def)
      from inside_split [OF this] show ?thesis
        using False k parts_readable_split [OF r] by (simp add: parts_inside_def)
    qed
  qed
qed

lemma parts_deliver:
  assumes "inv s" and inside: "parts_inside parts inside lsn (unat n)" and "unat n * 2048 \<le> 2 ^ 32"
  shows "\<exists>s'. inv s' \<and> DeviceReadSectors_parts parts rd lsn a n s m
    = Some (0, s', write_bytes a (sector_run (parts_disc parts part) lsn (unat n)) m)"
proof (cases "n = 0")
  case True
  obtain s' where "inv s'" "parts_loop (unat parts) rd 0 0 (first_ubound parts) lsn lsn 0 0 a s m = Some (s', m)"
    using read_nothing [OF assms(1)] by blast
  then show ?thesis by (simp add: True DeviceReadSectors_parts_def)
next
  case n: False
  then have n0: "unat n > 0" by (simp add: unat_gt_0)
  have readable: "parts_readable parts lsn (unat n)" using inside by (simp add: parts_inside_def)
  show ?thesis
  proof (cases "parts > 1")
    case False
    then have p: "parts = 1" "unat lsn + unat n < 0xFFFFFFFF"
      using readable n0 by (simp_all add: parts_readable_def)
    have in0: "inside 0 lsn (unat n)" using inside n0 False by (simp add: parts_inside_def)
    have "lsn < 0xFFFFFFFF" using p(2) by (simp add: word_less_nat_alt)
    moreover have "unat lsn + unat n \<le> unat (0xFFFFFFFF :: u32)" using p(2) by simp
    ultimately obtain s' where "inv s'" "parts_loop (Suc 0) rd 0 0 0xFFFFFFFF lsn lsn n 0 a s m
        = Some (s', write_bytes a (sector_run (part 0) lsn (unat n)) m)"
      using read_here [OF assms(1) word_zero_le _ _ assms(3) in0] by blast
    moreover have "parts_disc parts part = part 0" by (simp add: parts_disc_def p(1) fun_eq_iff)
    ultimately show ?thesis using p(1) by (simp add: DeviceReadSectors_parts_def first_ubound_def)
  next
    case True
    let ?j = "unat lsn div 0x80000" and ?r = "unat lsn mod 0x80000"
    have a: "?j < unat parts" "?r + unat n \<le> 0x80000"
      using readable True n0 by (simp_all add: parts_readable_def)
    have "inside ?j (of_nat ?r) (unat n)" using inside True n0 by (simp add: parts_inside_def)
    then obtain s' where s': "inv s'" "parts_loop (unat parts) rd 0 0 0x80000 lsn lsn n 0 a s m
        = Some (s', write_bytes a (sector_run (part ?j) (of_nat ?r) (unat n)) m)"
      using parts_loop_delivers [OF assms(1,3) a(1) refl a(2)] by blast
    have "sector_run (parts_disc parts part) lsn (unat n) = sector_run (part ?j) (of_nat ?r) (unat n)"
    proof (rule sector_run_cong)
      fix i assume i: "i < unat n"
      then have in_part: "?r + i < 0x80000" using a(2) by simp
      have "unat lsn < 256 * 0x80000"
        using a(1) u8_bound [of parts] by (simp add: div_less_iff_less_mult)
      moreover have "unat (of_nat i :: u32) = i" using in_part by (intro unat_of_nat_u32) simp
      ultimately have "unat (lsn + of_nat i) = unat lsn + i"
        using in_part unat_add_le [where x = lsn and y = "of_nat i"] by simp
      then show "parts_disc parts part (lsn + of_nat i) = part ?j (of_nat ?r + of_nat i)"
        using True within_part [OF in_part] by (simp add: parts_disc_def)
    qed
    with s' True show ?thesis by (simp add: DeviceReadSectors_parts_def first_ubound_def)
  qed
qed

end

sublocale part_reader \<subseteq> image: disc_device "DeviceReadSectors_parts parts rd" inv
    "parts_disc parts part" "parts_inside parts inside"
proof unfold_locales
  show "length (parts_disc parts part l) = 2048" for l by (simp add: parts_disc_def part_sector)
  show "parts_inside parts inside lsn j \<and> parts_inside parts inside (lsn + of_nat j) k"
    if "parts_inside parts inside lsn (j + k)" for lsn j k
    using that by (rule parts_inside_split)
  show "\<exists>d'. inv d' \<and> DeviceReadSectors_parts parts rd lsn a n d m
      = Some (0, d', write_bytes a (sector_run (parts_disc parts part) lsn (unat n)) m)"
    if "inv d" "parts_inside parts inside lsn (unat n)" "unat n * 2048 \<le> 2 ^ 32" for d lsn n a m
    using that by (rule parts_deliver)
qed

section \<open>The USB driver\<close>

text \<open>
  The USB driver's state has its own memory; a read runs on the system's memory. The
  variables \<open>mass_LBAs\<close> are the part addresses of \<open>cdvdman_settings\<close>.
\<close>

definition mass_on :: "mem \<Rightarrow> 'u mass \<Rightarrow> 'u mass" where
  "mass_on m s = s\<lparr>bulk := (bulk s)\<lparr>ram := m\<rparr>\<rparr>"

definition usb_part_rd :: "'u usb_stack \<Rightarrow> ('u mass) part_rd" where
  "usb_part_rd usb lsn n p i s m =
     map_option (\<lambda>(_, s'). (s', ram (bulk s'))) (mass_stor_ReadCD usb lsn n p i (mass_on m s))"

definition DeviceReadSectors_usb :: "u8 \<Rightarrow> 'u usb_stack \<Rightarrow> ('u mass) devread" where
  "DeviceReadSectors_usb parts usb = DeviceReadSectors_parts parts (usb_part_rd usb)"

text \<open>
  \<open>DeviceFSInit\<close>: the driver is registered, then the device is configured as soon as one is
  connected. \<open>connects\<close> lists what happens in the pauses of 200 microseconds.
\<close>

fun DeviceFSInit_usb_loop ::
  "'u usb_stack \<Rightarrow> 'u usb_ports \<Rightarrow> u32 \<Rightarrow> ('u mass \<Rightarrow> 'u mass) list \<Rightarrow> 'u mass \<Rightarrow> 'u mass option" where
  "DeviceFSInit_usb_loop usb ports heap connects s =
     (case mass_stor_configureDevice usb ports heap s of
        None \<Rightarrow> None
      | Some (r, s') \<Rightarrow>
          if 0 <s r then Some s'
          else case connects of
                 [] \<Rightarrow> None
               | f # fs \<Rightarrow> DeviceFSInit_usb_loop usb ports heap fs (f s'))"

declare DeviceFSInit_usb_loop.simps [simp del]

definition DeviceFSInit_usb ::
  "'u usb_stack \<Rightarrow> 'u usb_ports \<Rightarrow> u32 \<Rightarrow> u32 \<Rightarrow> ('u mass \<Rightarrow> 'u mass) list \<Rightarrow> 'u mass \<Rightarrow> 'u mass option"
where
  "DeviceFSInit_usb usb ports heap registered connects s =
     DeviceFSInit_usb_loop usb ports heap connects (snd (mass_stor_init registered s))"

definition usb_part :: "(u32 \<Rightarrow> u8 list) \<Rightarrow> u32 list \<Rightarrow> nat \<Rightarrow> u32 \<Rightarrow> u8 list" where
  "usb_part store lbas i l =
     (if \<forall>l. length (store l) = 512 then sector_run store (lbas ! i + l * 4) 4
      else replicate 2048 0)"

definition usb_inv ::
  "'u usb_stack \<Rightarrow> u32 \<Rightarrow> u32 \<Rightarrow> (u32 \<Rightarrow> u8 list) \<Rightarrow> ('u \<Rightarrow> u8 list option) \<Rightarrow> u32 list \<Rightarrow> 'u mass \<Rightarrow> bool"
where
  "usb_inv usb epO epI store pend lbas s \<longleftrightarrow>
     mass_inv usb epO epI store pend s \<and> mass_LBAs s = lbas"

lemma mass_inv_on:
  assumes "mass_inv usb epO epI store pend s"
  shows "mass_inv usb epO epI store pend (mass_on m s)"
proof -
  have "mass_settled usb epO epI store pend (mass_on m s) = mass_settled usb epO epI store pend s"
    by (simp add: mass_settled_def mass_device_def ra_holds_def mass_on_def)
  moreover have "mass_device usb epO epI store pend (mass_on m s) = mass_device usb epO epI store pend s"
    by (simp add: mass_device_def mass_on_def)
  ultimately show ?thesis
    using assms reading_ahead_ram by (auto simp: mass_inv_def mass_coherent_def mass_on_def)
qed

lemma usb_part_delivers:
  assumes inv: "usb_inv usb epO epI store pend lbas s" and n: "unat n * 2048 \<le> 2 ^ 32"
  shows "\<exists>s'. usb_inv usb epO epI store pend lbas s' \<and> usb_part_rd usb lsn n p i s m
    = Some (s', write_bytes p (sector_run (usb_part store lbas i) lsn (unat n)) m)"
proof -
  let ?s = "mass_on m s"
  have inv': "mass_inv usb epO epI store pend ?s" and lbas: "mass_LBAs ?s = lbas"
    using inv mass_inv_on by (auto simp: usb_inv_def mass_on_def)
  have dev: "sectorSize (g_mass_device (bulk ?s)) = 512" "\<forall>l. length (store l) = 512"
    using mass_inv_device [OF inv'] by (simp_all add: mass_device_def bot_disc_def)
  obtain s' where s': "ReadCD_loop usb (lbas ! i + lsn * 4) n p ?s = Some s'"
    "mass_inv usb epO epI store pend s'" "mass_LBAs s' = lbas"
    "ram (bulk s') = write_bytes p (sector_run store (lbas ! i + lsn * 4) (unat n * 4)) (ram (bulk ?s))"
    using ReadCD_loop_delivers [OF inv' n] lbas by metis
  have "usb_part store lbas i = (\<lambda>l. sector_run store (lbas ! i + l * of_nat 4) 4)"
    using dev(2) by (simp add: usb_part_def fun_eq_iff)
  then have "sector_run (usb_part store lbas i) lsn (unat n)
      = sector_run store (lbas ! i + lsn * 4) (unat n * 4)"
    by (simp only: sector_run_group) simp
  moreover have "usb_part_rd usb lsn n p i s m = Some (s', ram (bulk s'))"
    using dev(1) s'(1) lbas by (simp add: usb_part_rd_def mass_stor_ReadCD_def)
  moreover have "ram (bulk ?s) = m" by (simp add: mass_on_def)
  ultimately show ?thesis using s' by (auto simp: usb_inv_def)
qed

interpretation usb: part_reader parts "usb_part_rd usb" "usb_inv usb epO epI store pend lbas"
    "usb_part store lbas" "\<lambda>_ _ _. True"
  for parts and usb :: "'u usb_stack" and epO epI store pend lbas
proof unfold_locales
  show "length (usb_part store lbas i l) = 2048" for i l
  proof (cases "\<forall>l. length (store l) = 512")
    case True
    then have "length (sector_run store (lbas ! i + l * 4) 4) = 4 * 512"
      by (intro length_sector_run) simp
    with True show ?thesis by (simp add: usb_part_def)
  next
    case False
    then show ?thesis by (simp only: usb_part_def if_False length_replicate)
  qed
  show "\<exists>s'. usb_inv usb epO epI store pend lbas s' \<and> usb_part_rd usb lsn n p i s m
      = Some (s', write_bytes p (sector_run (usb_part store lbas i) lsn (unat n)) m)"
    if "usb_inv usb epO epI store pend lbas s" "unat n * 2048 \<le> 2 ^ 32" for s lsn n p i m
    using that by (intro usb_part_delivers)
qed (rule TrueI | rule conjI)+

section \<open>A read across a part boundary\<close>

text \<open>
  A read that crosses from the first part of a split image to the second reads the second
  part at \<open>lsn - 0x80000\<close>, computed from the first sector of the whole read, and
  not at its beginning, and still reports success.
\<close>

theorem parts_boundary:
  assumes "parts > 1" and "lsn < 0x80000" and "unat lsn + unat n > 0x80000"
    and "unat lsn + unat n < 2 * 0x80000"
    and first: "rd lsn (0x80000 - lsn) p 0 s m = Some (s1, m1)"
    and second: "rd (lsn - 0x80000) (n - (0x80000 - lsn)) (p + push_bit 11 (0x80000 - lsn)) 1 s1 m1
      = Some (s2, m2)"
  shows "DeviceReadSectors_parts parts rd lsn p n s m = Some (0, s2, m2)"
proof -
  have "unat parts > 1" using assms(1) by (simp add: word_less_nat_alt)
  then obtain k where k: "unat parts = Suc (Suc k)"
    using less_imp_Suc_add [of 1 "unat parts"] by auto
  have sum: "unat (lsn + n) = unat lsn + unat n" using assms(4) by (intro unat_add_le) simp
  define k1 where "k1 = 0x80000 - lsn"
  have k1: "unat k1 = 0x80000 - unat lsn"
    using unat_sub [where a = "0x80000 :: u32" and b = lsn] assms(2) by (simp add: k1_def order_less_imp_le)
  have rest: "unat (n - k1) = unat n - unat k1"
    by (rule unat_sub) (use assms(3) k1 in \<open>simp add: word_le_nat_alt\<close>)
  have "unat (0x80000 + (n - k1)) = unat (0x80000 :: u32) + unat (n - k1)"
    by (rule unat_add_le) (use assms(2-4) k1 rest in \<open>simp add: word_less_nat_alt\<close>)
  then have "\<not> 0x80000 + (n - k1) > 0xFFFFF"
    using assms(2-4) k1 rest by (simp add: word_less_nat_alt)
  moreover have "lsn + n > 0x7FFFF" using assms(3) sum by (simp add: word_less_nat_alt)
  ultimately show ?thesis
    using assms(1,2) first second unfolding k1_def [symmetric]
    by (simp add: Let_def DeviceReadSectors_parts_def first_ubound_def k k1_def [symmetric])
qed

end
