(* ===== verification/Smb_Files.thy ===== *)
theory Smb_Files
  imports Smb Device_Usb Dev9
begin

text \<open>
  Files of the SMB client (cdvdman/smb.c) and the driver on top of it (cdvdman/device-smb.c):
  opening, reading and writing, the reads of disc sectors, and the start-up that opens the parts
  of the image. \<open>with_sema\<close> says whether the module is built with \<open>VMC_DRIVER\<close>. In the settings of
  the module the file numbers share their memory with the strings of the connection (a union),
  kept here as the bytes of that union.
\<close>

section \<open>The settings\<close>

text \<open>Address, port, share, prefix, user and password; the ten file numbers lie over the first 20 bytes.\<close>

definition smb_ip :: "'n smb \<Rightarrow> u8 list" where
  "smb_ip s = text_of (take 16 (smb_union s))"

definition smb_port :: "'n smb \<Rightarrow> u16" where
  "smb_port s = ucast (smb_union s ! 16) OR push_bit 8 (ucast (smb_union s ! 17))"

definition smb_share :: "'n smb \<Rightarrow> u8 list" where
  "smb_share s = text_of (take 32 (drop 18 (smb_union s)))"

definition smb_prefix :: "'n smb \<Rightarrow> u8 list" where
  "smb_prefix s = text_of (take 32 (drop 50 (smb_union s)))"

definition smb_user :: "'n smb \<Rightarrow> u8 list" where
  "smb_user s = text_of (take 32 (drop 82 (smb_union s)))"

definition smb_password :: "'n smb \<Rightarrow> u8 list" where
  "smb_password s = text_of (take 32 (drop 114 (smb_union s)))"

definition FIDs :: "'n smb \<Rightarrow> nat \<Rightarrow> u16" where
  "FIDs s i = ucast (smb_union s ! (2 * i)) OR push_bit 8 (ucast (smb_union s ! (2 * i + 1)))"

definition set_FID :: "nat \<Rightarrow> u16 \<Rightarrow> 'n smb \<Rightarrow> 'n smb" where
  "set_FID i v s = s\<lparr>smb_union := (smb_union s)[2 * i := ucast v, 2 * i + 1 := ucast (drop_bit 8 v)]\<rparr>"

section \<open>Opening a file\<close>

definition Open_packet :: "bool \<Rightarrow> u8 list \<Rightarrow> bool \<Rightarrow> 'n smb \<Rightarrow> u8 list" where
  "Open_packet with_sema filename wr s =
     (let cf = StringsCF (server_specs s);
          bfield = (if cf = 2 then [0] else []) @ wide cf filename @ replicate cf 0
      in OpenAndXRequest_bytes \<lparr>oa_smbH = request_header SMB_COM_OPEN_ANDX SMB_FLAGS_CANONICAL_PATHNAMES
             (flags2_of (server_specs s)) (smb_TID s) (smb_UID s),
           oa_smbWordcount = 15, oa_smbAndxCmd = SMB_COM_NONE,
           oa_AccessMask = if wr \<and> with_sema then 2 else 0, oa_FileAttributes = if wr \<and> with_sema then 0x80 else 1,
           oa_CreateOptions = 1, oa_ByteCount = of_nat (length bfield)\<rparr> @ bfield)"

text \<open>\<open>FID\<close> is the index of the file number that is set. The early returns keep the semaphore. The
  length sent is one more than that of the packet.\<close>

definition smb_OpenAndX :: "bool \<Rightarrow> 'n ps2ip \<Rightarrow> u8 list \<Rightarrow> nat \<Rightarrow> bool \<Rightarrow> 'n smb \<Rightarrow> (int \<times> 'n smb) option" where
  "smb_OpenAndX with_sema ip filename FID wr s =
     (if with_sema \<and> smb_io_sema s = 0 then None
      else let s0 = (if with_sema then s\<lparr>smb_io_sema := smb_io_sema s - 1\<rparr> else s); bs = Open_packet with_sema filename wr s0
        in map_option (\<lambda>s1.
             if buf32 4 s1 \<noteq> SMB_MAGIC then (- 1, s1)
             else if buf16 9 s1 \<noteq> 0 then (- 1000, s1)
             else let s2 = set_FID FID (buf16 41 s1) s1;
                      hdr = (\<lambda>h. h\<lparr>h_UID := smb_UID s, h_TID := smb_TID s\<rparr>);
                      s3 = s2\<lparr>smb_Read_Request := (smb_Read_Request s2)\<lparr>rx_smbH := hdr (rx_smbH (smb_Read_Request s2))\<rparr>\<rparr>;
                      s4 = s3\<lparr>smb_Write_Request := (smb_Write_Request s3)\<lparr>wx_smbH := hdr (wx_smbH (smb_Write_Request s3))\<rparr>\<rparr>
                  in (1, if with_sema then s4\<lparr>smb_io_sema := 1\<rparr> else s3))
           (exchange ip bs (length bs - 3) s0))"

section \<open>Reading and writing\<close>

text \<open>
  The answer to a read: its header, up to the offset of the data, goes to \<open>SMB_buf\<close>, the data to
  the reader's buffer; further fragments follow what has come. A fragment's place is computed
  from the byte at 49 of the header, the lower byte of \<open>DataOffset\<close>.
\<close>

partial_function (option) read_rest :: "'n ps2ip \<Rightarrow> u32 \<Rightarrow> int \<Rightarrow> int \<Rightarrow> 'n smb \<times> mem \<Rightarrow> ('n smb \<times> mem) option" where
  "read_rest ip readbuf expected rcv q =
     (if rcv < expected
      then Option.bind (ip_recvfrom ip (main_socket (fst q)) None (expected - rcv) (net (fst q))) (\<lambda>(got, hdr, bs, n).
             read_rest ip readbuf expected (rcv + got)
               ((fst q)\<lparr>net := n\<rparr>, write_bytes (readbuf + of_int (rcv - int (unat (buf8 49 (fst q))) - 4)) bs (snd q)))
      else Some q)"

partial_function (option) read_receive :: "'n ps2ip \<Rightarrow> u32 \<Rightarrow> u16 \<Rightarrow> 'n smb \<times> mem \<Rightarrow> ('n smb \<times> mem) option" where
  "read_receive ip readbuf nbytes q =
     Option.bind (ip_recvfrom ip (main_socket (fst q)) (Some 49) (int (unat nbytes)) (net (fst q))) (\<lambda>(got, hdr, bs, n).
     Option.bind (store_buf 0 hdr ((fst q)\<lparr>net := n\<rparr>)) (\<lambda>s1.
       let q1 = (s1, write_bytes readbuf bs (snd q))
       in if buf8 0 s1 \<noteq> 0 then read_receive ip readbuf nbytes q1
          else read_rest ip readbuf (packet_size s1) got q1))"

definition smb_ReadFile ::
  "bool \<Rightarrow> 'n ps2ip \<Rightarrow> u16 \<Rightarrow> u32 \<Rightarrow> u32 \<Rightarrow> u32 \<Rightarrow> u16 \<Rightarrow> 'n smb \<times> mem \<Rightarrow> (int \<times> 'n smb \<times> mem) option"
where
  "smb_ReadFile with_sema ip FID offsetlow offsethigh readbuf nbytes q =
     (let s = fst q;
          RR = (smb_Read_Request s)\<lparr>rx_FID := FID, rx_OffsetLow := offsetlow, rx_OffsetHigh := offsethigh, rx_MaxCountLow := nbytes\<rparr>;
          n = snd (ip_send ip (main_socket s) (ReadAndXRequest_bytes RR) (net s));
          s1 = s\<lparr>smb_io_sema := if with_sema then smb_io_sema s - 1 else smb_io_sema s, smb_Read_Request := RR, net := n\<rparr>
      in if with_sema \<and> smb_io_sema s = 0 then None
         else map_option (\<lambda>(s2, m2). (1, if with_sema then s2\<lparr>smb_io_sema := 1\<rparr> else s2, m2))
                (read_receive ip readbuf nbytes (s1, snd q)))"

text \<open>Writes exist with \<open>VMC_DRIVER\<close> only; the data follow the structure in the buffer, and the
  answer is not looked at.\<close>

definition smb_WriteFile ::
  "'n ps2ip \<Rightarrow> u16 \<Rightarrow> u32 \<Rightarrow> u32 \<Rightarrow> u32 \<Rightarrow> u16 \<Rightarrow> 'n smb \<Rightarrow> mem \<Rightarrow> (int \<times> 'n smb) option"
where
  "smb_WriteFile ip FID offsetlow offsethigh writebuf nbytes s m =
     (let WR = (smb_Write_Request s)\<lparr>wx_FID := FID, wx_OffsetLow := offsetlow, wx_OffsetHigh := offsethigh,
            wx_Remaining := nbytes, wx_DataLengthLow := nbytes, wx_ByteCount := nbytes\<rparr>
      in if smb_io_sema s = 0 then None
         else Option.bind (store_buf 0 (WriteAndXRequest_bytes WR) (s\<lparr>smb_io_sema := smb_io_sema s - 1\<rparr>)) (\<lambda>s1.
              Option.bind (store_buf (4 + unat (wx_DataOffset WR)) (read_bytes m writebuf (unat nbytes)) s1) (\<lambda>s2.
                map_option (\<lambda>(_, s3). (1, s3\<lparr>smb_io_sema := 1\<rparr>))
                  (GetSMBServerReply ip (rawTCP_SetSessionHeader (63 + ucast nbytes) s2)))))"

section \<open>Disc sectors\<close>

text \<open>At most two sectors a request; the offset in the file is a 64-bit number in two halves.\<close>

definition cd_sectors :: "u32 \<Rightarrow> u32" where
  "cd_sectors nsectors = (if nsectors > 2 then 2 else nsectors)"

lemma cd_sectors_less: "n \<noteq> 0 \<Longrightarrow> unat (n - cd_sectors n) < unat n"
  by (auto simp: cd_sectors_def unat_sub word_le_nat_alt word_less_nat_alt unat_gt_0)

function smb_ReadCD ::
  "bool \<Rightarrow> 'n ps2ip \<Rightarrow> u32 \<Rightarrow> u32 \<Rightarrow> u32 \<Rightarrow> nat \<Rightarrow> 'n smb \<times> mem \<Rightarrow> ('n smb \<times> mem) option"
where
  "smb_ReadCD with_sema ip lsn nsectors p part_num q =
     (if nsectors = 0 then Some q
      else if part_num \<ge> 10 then None
      else let sectors = cd_sectors nsectors; nbytes = push_bit 11 sectors
           in case smb_ReadFile with_sema ip (FIDs (fst q) part_num) (push_bit 11 lsn) (drop_bit 21 lsn) p (ucast nbytes) q of
                None \<Rightarrow> None
              | Some (_, q') \<Rightarrow> smb_ReadCD with_sema ip (lsn + sectors) (nsectors - sectors) (p + nbytes) part_num q')"
  by pat_completeness auto
termination
  by (relation "measure (\<lambda>(_, _, _, n, _, _, _). unat n)") (auto simp: cd_sectors_less)

declare smb_ReadCD.simps [simp del]

definition smb_part_rd :: "bool \<Rightarrow> 'n ps2ip \<Rightarrow> ('n smb) part_rd" where
  "smb_part_rd with_sema ip lsn n p i s m = smb_ReadCD with_sema ip lsn n p i (s, m)"

definition DeviceReadSectors_smb :: "u8 \<Rightarrow> bool \<Rightarrow> 'n ps2ip \<Rightarrow> ('n smb) devread" where
  "DeviceReadSectors_smb parts with_sema ip = DeviceReadSectors_parts parts (smb_part_rd with_sema ip)"

section \<open>Start-up\<close>

text \<open>\<open>smb_NegotiateProt\<close> (the functions of ps2ip are looked up first), \<open>DeviceFSInit\<close> and
  \<open>DeviceDeinit\<close>. The second returns nothing: results of the calls are not looked at.\<close>

definition smb_NegotiateProt ::
  "'n ps2ip \<Rightarrow> (server_specs_t \<Rightarrow> server_specs_t) \<Rightarrow> 'n smb \<Rightarrow> (u32 \<times> 'n smb) option" where
  "smb_NegotiateProt ip hash_callback s =
     smb_NegotiateProtocol ip hash_callback (smb_ip s) (smb_port s) (smb_user s) (smb_password s) s"

definition hex_digit :: "nat \<Rightarrow> u8" where
  "hex_digit d = (if d < 10 then 0x30 + of_nat d else 0x57 + of_nat d)"

text \<open>\<open>\\prefix\file.%02x\<close>, and \<open>\\prefix\CD\file\<close> or \<open>\\prefix\DVD\file\<close>; without a prefix its
  component is left out.\<close>

definition prefixed :: "u8 list \<Rightarrow> u8 list \<Rightarrow> u8 list" where
  "prefixed prefix rest = (if prefix = [] then [] else 0x5c # prefix) @ 0x5c # rest"

definition part_path :: "u8 list \<Rightarrow> u8 list \<Rightarrow> nat \<Rightarrow> u8 list" where
  "part_path prefix filename i = prefixed prefix (filename @ [0x2e, hex_digit (i div 16), hex_digit (i mod 16)])"

definition image_path :: "u8 list \<Rightarrow> bool \<Rightarrow> u8 list \<Rightarrow> u8 list" where
  "image_path prefix cd filename =
     prefixed prefix ((if cd then [0x43, 0x44] else [0x44, 0x56, 0x44]) @ 0x5c # filename)"

definition share_path :: "u8 list \<Rightarrow> u8 list \<Rightarrow> u8 list" where
  "share_path host share = [0x5c, 0x5c] @ host @ 0x5c # share"

primrec open_parts :: "bool \<Rightarrow> 'n ps2ip \<Rightarrow> u8 list \<Rightarrow> nat \<Rightarrow> nat \<Rightarrow> 'n smb \<Rightarrow> 'n smb option" where
  "open_parts with_sema ip filename 0 i s = Some s"
| "open_parts with_sema ip filename (Suc k) i s =
     (if i \<ge> 10 then None
      else Option.bind (smb_OpenAndX with_sema ip (part_path (smb_prefix s) filename i) i False s) (\<lambda>(_, s').
             open_parts with_sema ip filename k (Suc i) s'))"

text \<open>\<open>usbld\<close> is the flag \<open>IOPCORE_SMB_FORMAT_USBLD\<close>, \<open>cd\<close> the test of the medium against 0x12.\<close>

definition DeviceFSInit_smb ::
  "bool \<Rightarrow> 'n ps2ip \<Rightarrow> u32 \<Rightarrow> bool \<Rightarrow> bool \<Rightarrow> u8 \<Rightarrow> u8 list \<Rightarrow> 'n smb \<Rightarrow> 'n smb option"
where
  "DeviceFSInit_smb with_sema ip caps usbld cd parts filename s =
     Option.bind (smb_SessionSetupAndX ip caps s) (\<lambda>(_, s1).
     Option.bind (smb_TreeConnectAndX ip (share_path (smb_ip s1) (smb_share s1)) s1) (\<lambda>(_, s2).
       if \<not> usbld
       then map_option snd (smb_OpenAndX with_sema ip (image_path (smb_prefix s2) cd filename) 0 False s2)
       else open_parts with_sema ip filename (unat parts) 0 s2))"

text \<open>\<open>DeviceInit\<close> starts the expansion bay, which the network adapter is in; the tables of exports it
  registers are no state of the module.\<close>

definition DeviceInit_smb :: "'h bus \<Rightarrow> 'h dev9 \<Rightarrow> 'h dev9" where
  "DeviceInit_smb bus s = snd (dev9d_init bus s)"

definition DeviceDeinit_smb :: "'n ps2ip \<Rightarrow> 'n smb \<Rightarrow> 'n smb" where
  "DeviceDeinit_smb ip s = smb_Disconnect ip s"

end
