(* ===== verification/Smb_Delivers.thy ===== *)
theory Smb_Delivers
  imports Smb_Files
begin

text \<open>
  Reads over SMB against a server. The server is described from its own side: what it makes of
  the bytes of a request (\<open>parse_read\<close>), and that it answers a request inside an open file with
  the bytes of the file, after any number of keep-alives and in any fragments. The client then
  reads the parts of the image, so that the loop over the parts of \<open>Device_Usb\<close> delivers it.
\<close>

section \<open>Requests as the server reads them\<close>

definition le16 :: "u8 list \<Rightarrow> nat \<Rightarrow> u16" where
  "le16 bs i = ucast (bs ! i) OR push_bit 8 (ucast (bs ! (i + 1)))"

definition le32 :: "u8 list \<Rightarrow> nat \<Rightarrow> u32" where
  "le32 bs i = ucast (bs ! i) OR push_bit 8 (ucast (bs ! (i + 1))) OR push_bit 16 (ucast (bs ! (i + 2)))
     OR push_bit 24 (ucast (bs ! (i + 3)))"

text \<open>The length in front of a packet: 24 bits, the highest byte first.\<close>

definition be24 :: "u8 list \<Rightarrow> nat" where
  "be24 bs = unat (bs ! 1) * 65536 + unat (bs ! 2) * 256 + unat (bs ! 3)"

record read_req =
  rq_tid :: u16
  rq_uid :: u16
  rq_fid :: u16
  rq_offset :: nat
  rq_count :: nat

definition parse_read :: "u8 list \<Rightarrow> read_req option" where
  "parse_read bs =
     (if length bs = 63 \<and> bs ! 0 = 0 \<and> be24 bs + 4 = 63 \<and> le32 bs 4 = 0x424d53ff \<and> bs ! 8 = 0x2e \<and> bs ! 36 = 12
      then Some \<lparr>rq_tid = le16 bs 28, rq_uid = le16 bs 32, rq_fid = le16 bs 41,
        rq_offset = unat (le32 bs 43) + unat (le32 bs 57) * 2 ^ 32, rq_count = unat (le16 bs 47)\<rparr>
      else None)"

text \<open>The client's request: the one prepared in advance with the numbers of the session and the file.\<close>

definition read_request :: "u16 \<Rightarrow> u16 \<Rightarrow> u16 \<Rightarrow> u32 \<Rightarrow> u32 \<Rightarrow> u16 \<Rightarrow> ReadAndXRequest_t" where
  "read_request tid uid fid lo hi n =
     initial_Read_Request\<lparr>rx_smbH := (rx_smbH initial_Read_Request)\<lparr>h_UID := uid, h_TID := tid\<rparr>,
       rx_FID := fid, rx_OffsetLow := lo, rx_OffsetHigh := hi, rx_MaxCountLow := n\<rparr>"

lemma join_bytes32: "ucast (ucast w :: u8) OR push_bit 8 (ucast (ucast (drop_bit 8 w) :: u8))
    OR push_bit 16 (ucast (ucast (drop_bit 16 w) :: u8)) OR push_bit 24 (ucast (ucast (drop_bit 24 w) :: u8)) = (w :: u32)"
proof (rule bit_word_eqI)
  fix n assume "n < LENGTH(32)"
  then consider "n < 8" | "8 \<le> n \<and> n < 16" | "16 \<le> n \<and> n < 24" | "24 \<le> n \<and> n < 32" by fastforce
  then show "bit (ucast (ucast w :: u8) OR push_bit 8 (ucast (ucast (drop_bit 8 w) :: u8))
      OR push_bit 16 (ucast (ucast (drop_bit 16 w) :: u8)) OR push_bit 24 (ucast (ucast (drop_bit 24 w) :: u8)) :: u32) n = bit w n"
    by cases (auto simp: bit_simps)
qed

lemma request_bytes:
  "ReadAndXRequest_bytes (read_request tid uid fid lo hi n) =
     [0, 0, 0, 0x3b] @ [0xff, 0x53, 0x4d, 0x42, 0x2e, 0, 0, 0, 0, 0, 0, 0x40, 0, 0, 0, 0, 0, 0, 0, 0, 0, 0, 0, 0] @
     [ucast tid, ucast (drop_bit 8 tid), 0, 0, ucast uid, ucast (drop_bit 8 uid), 0, 0, 12, 0xff, 0, 0, 0] @
     [ucast fid, ucast (drop_bit 8 fid)] @ bytes_u32 lo @ [ucast n, ucast (drop_bit 8 n), 0, 0, 0, 0, 0, 0, 0, 0] @
     bytes_u32 hi @ [0, 0]"
proof -
  have "bytes_u32 0x3b000000 = [0, 0, 0, 0x3b]" "bytes_u32 SMB_MAGIC = [0xff, 0x53, 0x4d, 0x42]" "bytes_u32 0 = [0, 0, 0, 0]"
    "bytes_u16 SMB_FLAGS2_32BIT_STATUS = [0, 0x40]" "bytes_u16 0 = [0, 0]" "replicate 12 (0 :: u8) = [0,0,0,0,0,0,0,0,0,0,0,0]"
    by code_simp+
  then show ?thesis
    by (simp add: ReadAndXRequest_bytes_def SMBHeader_bytes_def andx_bytes_def read_request_def initial_Read_Request_def
        request_header_def SMB_COM_READ_ANDX_def SMB_COM_NONE_def bytes_u16_def)
qed

lemma parse_request:
  "parse_read (ReadAndXRequest_bytes (read_request tid uid fid lo hi n)) =
     Some \<lparr>rq_tid = tid, rq_uid = uid, rq_fid = fid, rq_offset = unat lo + unat hi * 2 ^ 32, rq_count = unat n\<rparr>"
  unfolding request_bytes by (simp add: parse_read_def le16_def le32_def be24_def bytes_u32_def join_bytes join_bytes32)

lemma sector_offset: "unat (push_bit 11 (lsn :: u32)) + unat (drop_bit 21 lsn) * 2 ^ 32 = unat lsn * 2048"
proof -
  have "unat (push_bit 11 lsn) = take_bit 32 (unat lsn * 2048)"
    by (simp add: push_bit_eq_mult unat_word_ariths take_bit_eq_mod)
  moreover have "unat (drop_bit 21 lsn) = (unat lsn * 2048) div 2 ^ 32"
    by (simp add: unsigned_drop_bit_eq drop_bit_eq_div unat_div)
  ultimately show ?thesis by (simp only: take_bit_eq_mod mod_div_mult_eq)
qed


section \<open>The server\<close>

text \<open>The fragments of \<open>d\<close>, as the stack hands them out.\<close>

inductive arrives :: "'n ps2ip \<Rightarrow> int \<Rightarrow> 'n \<Rightarrow> u8 list \<Rightarrow> 'n \<Rightarrow> bool" for ip sock where
  all: "arrives ip sock n [] n"
| more: "arrives ip sock n (p @ d) n'"
    if "ip_recvfrom ip sock None (int (length (p @ d))) n = Some (int (length p), h, p, n1)" and "p \<noteq> []"
      and "arrives ip sock n1 d n'"

text \<open>The header of an answer with \<open>cnt\<close> bytes of data: its own length is named at 49.\<close>

definition read_header :: "u8 list \<Rightarrow> nat \<Rightarrow> bool" where
  "read_header h cnt \<longleftrightarrow> 50 \<le> length h \<and> length h = 4 + unat (h ! 49) \<and> h ! 0 = 0 \<and> be24 h + 4 = length h + cnt"

inductive replies :: "'n ps2ip \<Rightarrow> int \<Rightarrow> nat \<Rightarrow> 'n \<Rightarrow> u8 list \<Rightarrow> 'n \<Rightarrow> bool" for ip sock cnt where
  keep_alive: "replies ip sock cnt n d n'"
    if "ip_recvfrom ip sock (Some 49) (int cnt) n = Some (got, h, [], n1)" and "h \<noteq> []" and "length h \<le> 1024"
      and "h ! 0 \<noteq> 0" and "replies ip sock cnt n1 d n'"
| answer: "replies ip sock cnt n (p @ d) n'"
    if "ip_recvfrom ip sock (Some 49) (int cnt) n = Some (int (length h + length p), h, p, n1)" and "read_header h cnt"
      and "length (p @ d) = cnt" and "arrives ip sock n1 d n'"

text \<open>Between requests the server is \<open>serving\<close>: a request inside a file is answered with its bytes.\<close>

definition smb_server ::
  "'n ps2ip \<Rightarrow> int \<Rightarrow> ('n \<Rightarrow> bool) \<Rightarrow> u16 \<Rightarrow> u16 \<Rightarrow> (u16 \<Rightarrow> nat) \<Rightarrow> (u16 \<Rightarrow> nat \<Rightarrow> u8) \<Rightarrow> bool"
where
  "smb_server ip sock serving tid uid file_size file_byte \<longleftrightarrow>
     (\<forall>n bs r. serving n \<and> parse_read bs = Some r \<and> rq_tid r = tid \<and> rq_uid r = uid \<and> 0 < rq_count r \<and>
        rq_offset r + rq_count r \<le> file_size (rq_fid r) \<longrightarrow>
        (\<exists>n'. replies ip sock (rq_count r) (snd (ip_send ip sock bs n))
            (map (file_byte (rq_fid r)) [rq_offset r..<rq_offset r + rq_count r]) n' \<and> serving n'))"

section \<open>One request\<close>

lemma rest_delivers:
  assumes "arrives ip sock n d n'"
  shows "main_socket s = sock \<Longrightarrow> net s = n \<Longrightarrow> rcv = int (4 + unat (buf8 49 s) + k) \<Longrightarrow> k + length d \<le> 2 ^ 32 \<Longrightarrow>
    read_rest ip buf (rcv + int (length d)) rcv (s, m)
      = Some (s\<lparr>net := n'\<rparr>, write_bytes (buf + of_nat k) d m)"
  using assms
proof (induction arbitrary: s m rcv k rule: arrives.induct)
  case (all n)
  then show ?case by (cases s) (simp add: read_rest.simps)
next
  case (more p d n h n1 n')
  let ?s1 = "s\<lparr>net := n1\<rparr>" and ?m1 = "write_bytes (buf + of_nat k) p m"
  have b: "buf8 49 ?s1 = buf8 49 s" by (simp add: buf8_def)
  define w where "w = rcv + int (length (p @ d))"
  have w: "rcv < w" "w - rcv = int (length (p @ d))" "w = rcv + int (length p) + int (length d)"
    using more.hyps(2) by (simp_all add: w_def add_pos_nonneg)
  have place: "buf + of_int (rcv - int (unat (buf8 49 s)) - 4) = buf + of_nat k"
    using more.prems(3) by simp
  have "read_rest ip buf w rcv (s, m) = read_rest ip buf w (rcv + int (length p)) (?s1, ?m1)"
    using more.hyps(1) more.prems(1,2) place w(1,2) by (subst read_rest.simps) simp
  also have "\<dots> = read_rest ip buf ((rcv + int (length p)) + int (length d)) (rcv + int (length p)) (?s1, ?m1)"
    by (simp only: w(3))
  also have "\<dots> = Some (?s1\<lparr>net := n'\<rparr>, write_bytes (buf + of_nat (k + length p)) d ?m1)"
    using more.prems b by (intro more.IH) simp_all
  also have "write_bytes (buf + of_nat (k + length p)) d ?m1 = write_bytes (buf + of_nat k) (p @ d) m"
    using more.prems(4) by (intro write_bytes_append) simp_all
  finally show ?case unfolding w_def by simp
qed

lemma store_buf_ok: "length h \<le> 1024 \<Longrightarrow> store_buf 0 h s = Some (s\<lparr>SMB_buf := h @ drop (length h) (SMB_buf s)\<rparr>)"
  by (simp add: store_buf_def)

lemma join_bytes24:
  "unat (ucast (a :: u8) OR push_bit 8 (ucast (b :: u8)) OR push_bit 16 (ucast (c :: u8)) :: u32)
     = unat c * 65536 + unat b * 256 + unat a"
proof -
  have bc: "unat (push_bit 8 (ucast b) :: u32) = unat b * 256" "unat (push_bit 16 (ucast c) :: u32) = unat c * 65536"
    using u8_bound [of b] u8_bound [of c] by (simp_all add: push_bit_eq_mult unat_word_ariths unsigned_ucast_eq take_bit_eq_mod)
  have small: "\<not> bit w n" if "n \<ge> 8" for w :: u8 and n using that bit_imp_le_length [of w n] by auto
  have "ucast a AND (push_bit 8 (ucast b) :: u32) = 0"
    "(ucast a OR push_bit 8 (ucast b) :: u32) AND push_bit 16 (ucast c) = 0"
    by (rule bit_word_eqI, use small in \<open>auto simp: bit_simps\<close>)+
  then have "(ucast a OR push_bit 8 (ucast b) OR push_bit 16 (ucast c) :: u32)
      = ucast a + push_bit 8 (ucast b) + push_bit 16 (ucast c)"
    by (simp add: disjunctive_add_eq_or or.assoc)
  then show ?thesis
    using bc u8_bound [of a] u8_bound [of b] u8_bound [of c] by (simp add: unat_word_ariths unsigned_ucast_eq take_bit_eq_mod)
qed

lemma packet_size_header:
  assumes "read_header h cnt"
  shows "packet_size (s\<lparr>SMB_buf := h @ t\<rparr>) = int (length h + cnt)"
proof -
  have l: "50 \<le> length h" using assms by (simp add: read_header_def)
  have "rawTCP_GetSessionHeader (s\<lparr>SMB_buf := h @ t\<rparr>)
      = ucast (h ! 3) OR push_bit 8 (ucast (h ! 2)) OR push_bit 16 (ucast (h ! 1))"
    using l by (simp add: rawTCP_GetSessionHeader_def buf8_def nth_append)
  then have "unat (rawTCP_GetSessionHeader (s\<lparr>SMB_buf := h @ t\<rparr>)) = be24 h"
    by (simp add: join_bytes24 be24_def)
  moreover have "be24 h + 4 = length h + cnt" using assms by (simp add: read_header_def)
  ultimately show ?thesis by (simp add: packet_size_def)
qed

lemma net_buf_commute: "s\<lparr>SMB_buf := b, net := n\<rparr> = (s\<lparr>net := n, SMB_buf := b\<rparr> :: 'n smb)"
  by simp

lemma receive_delivers:
  assumes "replies ip sock cnt n d n'"
  shows "main_socket s = sock \<Longrightarrow> net s = n \<Longrightarrow> cnt = unat nbytes \<Longrightarrow>
    \<exists>b. read_receive ip buf nbytes (s, m) = Some (s\<lparr>net := n', SMB_buf := b\<rparr>, write_bytes buf d m)"
  using assms
proof (induction arbitrary: s rule: replies.induct)
  case (keep_alive n got h n1 d n')
  let ?s1 = "s\<lparr>net := n1, SMB_buf := h @ drop (length h) (SMB_buf s)\<rparr>"
  have "buf8 0 ?s1 = h ! 0" using keep_alive.hyps(2) by (simp add: buf8_def nth_append)
  then have "read_receive ip buf nbytes (s, m) = read_receive ip buf nbytes (?s1, m)"
    using keep_alive.hyps(1,3,4) keep_alive.prems
    by (subst read_receive.simps) (simp add: store_buf_ok Let_def)
  moreover obtain b where "read_receive ip buf nbytes (?s1, m) = Some (?s1\<lparr>net := n', SMB_buf := b\<rparr>, write_bytes buf d m)"
    using keep_alive.IH [of ?s1] keep_alive.prems by auto
  ultimately show ?case by auto
next
  case (answer n h p n1 d n')
  let ?b = "h @ drop (length h) (SMB_buf s)"
  let ?s1 = "s\<lparr>net := n1, SMB_buf := ?b\<rparr>"
  have h: "50 \<le> length h" "length h = 4 + unat (h ! 49)" "h ! 0 = 0"
    using answer.hyps(2) by (simp_all add: read_header_def)
  have b: "buf8 0 ?s1 = 0" "buf8 49 ?s1 = h ! 49" using h(1,3) by (auto simp: buf8_def nth_append)
  have short: "length h \<le> 1024" using h(2) u8_bound [of "h ! 49"] by simp
  have sz: "packet_size ?s1 = int (length h + length p) + int (length d)"
    using packet_size_header [OF answer.hyps(2), where s = "s\<lparr>net := n1\<rparr>"] answer.hyps(3) by simp
  have "read_receive ip buf nbytes (s, m)
      = read_rest ip buf (int (length h + length p) + int (length d)) (int (length h + length p)) (?s1, write_bytes buf p m)"
    using answer.hyps(1) answer.prems short b(1) sz
    by (subst read_receive.simps) (simp add: store_buf_ok Let_def)
  also have "\<dots> = Some (?s1\<lparr>net := n'\<rparr>, write_bytes (buf + of_nat (length p)) d (write_bytes buf p m))"
    using answer.hyps(3) answer.prems b(2) h(2) u16_bound [of nbytes]
    by (intro rest_delivers [OF answer.hyps(4)]) simp_all
  also have "write_bytes (buf + of_nat (length p)) d (write_bytes buf p m) = write_bytes buf (p @ d) m"
    using answer.hyps(3) answer.prems(3) u16_bound [of nbytes] by (intro write_bytes_append) simp_all
  finally show ?case by (auto simp: net_buf_commute)
qed

text \<open>The state between requests: a session on \<open>sock\<close> with the files \<open>fids\<close> open.\<close>

definition smb_session ::
  "bool \<Rightarrow> int \<Rightarrow> ('n \<Rightarrow> bool) \<Rightarrow> u16 \<Rightarrow> u16 \<Rightarrow> (nat \<Rightarrow> u16) \<Rightarrow> 'n smb \<Rightarrow> bool"
where
  "smb_session with_sema sock serving tid uid fids s \<longleftrightarrow>
     serving (net s) \<and> main_socket s = sock \<and> (with_sema \<longrightarrow> smb_io_sema s = 1) \<and>
     (\<forall>i < 10. FIDs s i = fids i) \<and>
     (\<exists>f lo hi n. smb_Read_Request s = read_request tid uid f lo hi n)"

lemma session_again:
  assumes "smb_session with_sema sock serving tid uid fids s" and "serving (net t)" and "main_socket t = main_socket s"
    and "with_sema \<Longrightarrow> smb_io_sema t = 1" and "smb_union t = smb_union s"
    and "smb_Read_Request t = read_request tid uid f lo hi n"
  shows "smb_session with_sema sock serving tid uid fids t"
  using assms unfolding smb_session_def FIDs_def by metis

lemma request_set:
  "(read_request tid uid f lo hi n)\<lparr>rx_FID := f', rx_OffsetLow := lo', rx_OffsetHigh := hi', rx_MaxCountLow := n'\<rparr>
     = read_request tid uid f' lo' hi' n'"
  by (simp add: read_request_def)

lemma ReadFile_delivers:
  assumes server: "smb_server ip sock serving tid uid file_size file_byte"
    and session: "smb_session with_sema sock serving tid uid fids s"
    and inside: "0 < unat nbytes" "unat lo + unat hi * 2 ^ 32 + unat nbytes \<le> file_size fid"
  shows "\<exists>s'. smb_session with_sema sock serving tid uid fids s' \<and>
    smb_ReadFile with_sema ip fid lo hi buf nbytes (s, m) = Some (1, s', write_bytes buf
      (map (file_byte fid) [unat lo + unat hi * 2 ^ 32..<unat lo + unat hi * 2 ^ 32 + unat nbytes]) m)"
proof -
  obtain f0 lo0 hi0 n0 where rr: "smb_Read_Request s = read_request tid uid f0 lo0 hi0 n0"
    using session by (auto simp: smb_session_def)
  let ?RR = "read_request tid uid fid lo hi nbytes"
  let ?d = "map (file_byte fid) [unat lo + unat hi * 2 ^ 32..<unat lo + unat hi * 2 ^ 32 + unat nbytes]"
  let ?r = "\<lparr>rq_tid = tid, rq_uid = uid, rq_fid = fid, rq_offset = unat lo + unat hi * 2 ^ 32, rq_count = unat nbytes\<rparr>"
  have "\<exists>n'. replies ip sock (rq_count ?r) (snd (ip_send ip sock (ReadAndXRequest_bytes ?RR) (net s)))
      (map (file_byte (rq_fid ?r)) [rq_offset ?r..<rq_offset ?r + rq_count ?r]) n' \<and> serving n'"
    by (rule server [unfolded smb_server_def, rule_format])
       (use session inside in \<open>simp add: parse_request smb_session_def\<close>)
  then obtain n' where n': "replies ip sock (unat nbytes) (snd (ip_send ip sock (ReadAndXRequest_bytes ?RR) (net s))) ?d n'"
    "serving n'"
    by auto
  let ?s1 = "s\<lparr>smb_io_sema := if with_sema then smb_io_sema s - 1 else smb_io_sema s, smb_Read_Request := ?RR,
    net := snd (ip_send ip sock (ReadAndXRequest_bytes ?RR) (net s))\<rparr>"
  obtain b where b: "read_receive ip buf nbytes (?s1, m) = Some (?s1\<lparr>net := n', SMB_buf := b\<rparr>, write_bytes buf ?d m)"
    using receive_delivers [OF n'(1), of ?s1 nbytes buf m] session by (auto simp: smb_session_def)
  let ?s2 = "?s1\<lparr>net := n', SMB_buf := b\<rparr>"
  let ?s3 = "if with_sema then ?s2\<lparr>smb_io_sema := 1\<rparr> else ?s2"
  have "smb_session with_sema sock serving tid uid fids ?s3"
    by (rule session_again [OF session]) (simp_all add: n'(2))
  moreover have "\<not> (with_sema \<and> smb_io_sema s = 0)" "main_socket s = sock"
    using session by (simp_all add: smb_session_def)
  then have "smb_ReadFile with_sema ip fid lo hi buf nbytes (s, m) = Some (1, ?s3, write_bytes buf ?d m)"
    unfolding smb_ReadFile_def Let_def fst_conv snd_conv rr request_set by (simp add: b)
  ultimately show ?thesis by blast
qed

section \<open>Sectors\<close>

definition smb_part :: "(u16 \<Rightarrow> nat \<Rightarrow> u8) \<Rightarrow> (nat \<Rightarrow> u16) \<Rightarrow> nat \<Rightarrow> u32 \<Rightarrow> u8 list" where
  "smb_part file_byte fids i l = map (file_byte (fids i)) [unat l * 2048..<unat l * 2048 + 2048]"

definition smb_inside :: "(u16 \<Rightarrow> nat) \<Rightarrow> (nat \<Rightarrow> u16) \<Rightarrow> nat \<Rightarrow> u32 \<Rightarrow> nat \<Rightarrow> bool" where
  "smb_inside file_size fids i lsn n \<longleftrightarrow>
     n = 0 \<or> i < 10 \<and> unat lsn + n \<le> 2 ^ 32 \<and> (unat lsn + n) * 2048 \<le> file_size (fids i)"

lemma smb_inside_split:
  assumes "smb_inside file_size fids i lsn (j + k)"
  shows "smb_inside file_size fids i lsn j \<and> smb_inside file_size fids i (lsn + of_nat j) k"
proof (cases "k = 0")
  case True
  then show ?thesis using assms by (simp add: smb_inside_def)
next
  case False
  then have a: "i < 10" "unat lsn + (j + k) \<le> 2 ^ 32" "(unat lsn + (j + k)) * 2048 \<le> file_size (fids i)"
    using assms by (simp_all add: smb_inside_def)
  have "unat (lsn + of_nat j) = unat lsn + j"
    using a(2) False unat_add_le [where x = lsn and y = "of_nat j"] by (simp add: unat_of_nat_u32)
  then show ?thesis using a by (simp add: smb_inside_def)
qed

lemma smb_part_run:
  "unat lsn + n \<le> 2 ^ 32 \<Longrightarrow>
   sector_run (smb_part file_byte fids i) lsn n = map (file_byte (fids i)) [unat lsn * 2048..<unat lsn * 2048 + n * 2048]"
proof (induction n)
  case (Suc n)
  have "unat (lsn + of_nat n) = unat lsn + n"
    using Suc.prems unat_add_le [where x = lsn and y = "of_nat n"] by (simp add: unat_of_nat_u32)
  then have "smb_part file_byte fids i (lsn + of_nat n)
      = map (file_byte (fids i)) [unat lsn * 2048 + n * 2048..<unat lsn * 2048 + n * 2048 + 2048]"
    by (simp add: smb_part_def add_mult_distrib)
  moreover have "sector_run (smb_part file_byte fids i) lsn (n + Suc 0)
      = sector_run (smb_part file_byte fids i) lsn n @ smb_part file_byte fids i (lsn + of_nat n)"
    by (simp only: sector_run_add sector_run_1)
  ultimately show ?case
    using Suc upt_add_eq_append [of "unat lsn * 2048" "unat lsn * 2048 + n * 2048" 2048]
    by (simp add: add.assoc add.commute [of 2048])
qed simp

lemma cd_sectors_bounds:
  assumes "n \<noteq> 0"
  shows "0 < unat (cd_sectors n)" and "unat (cd_sectors n) \<le> 2" and "unat (cd_sectors n) \<le> unat n"
  using assms by (auto simp: cd_sectors_def word_less_nat_alt unat_gt_0)

text \<open>One request of the loop, then the whole of it.\<close>

lemma ReadCD_step:
  assumes server: "smb_server ip sock serving tid uid file_size file_byte"
    and session: "smb_session with_sema sock serving tid uid fids s"
    and inside: "smb_inside file_size fids i lsn (unat n)" and n: "n \<noteq> 0"
  obtains s1 where "smb_session with_sema sock serving tid uid fids s1"
    and "smb_ReadCD with_sema ip lsn n p i (s, m)
      = smb_ReadCD with_sema ip (lsn + cd_sectors n) (n - cd_sectors n) (p + push_bit 11 (cd_sectors n)) i
          (s1, write_bytes p (sector_run (smb_part file_byte fids i) lsn (unat (cd_sectors n))) m)"
proof -
  let ?k = "cd_sectors n"
  note k = cd_sectors_bounds [OF n]
  have i: "i < 10" and top: "unat lsn + unat n \<le> 2 ^ 32" and size: "(unat lsn + unat n) * 2048 \<le> file_size (fids i)"
    using inside n by (simp_all add: smb_inside_def unat_eq_0)
  have kb: "unat (push_bit 11 ?k) = unat ?k * 2048" using k(2) by (intro unat_push_bit_11) simp
  have kh: "unat (ucast (push_bit 11 ?k) :: u16) = unat ?k * 2048"
    using k(2) kb unat_ucast_u16 [of "push_bit 11 ?k"] by simp
  have "(unat lsn + unat ?k) * 2048 \<le> (unat lsn + unat n) * 2048" using k(3) by simp
  then have "unat (push_bit 11 lsn) + unat (drop_bit 21 lsn) * 2 ^ 32 + unat (ucast (push_bit 11 ?k) :: u16)
      \<le> file_size (fids i)"
    using size unfolding sector_offset kh by (simp add: add_mult_distrib)
  from ReadFile_delivers [OF server session _ this, unfolded sector_offset kh] k(1)
  obtain s1 where s1: "smb_session with_sema sock serving tid uid fids s1"
    "smb_ReadFile with_sema ip (fids i) (push_bit 11 lsn) (drop_bit 21 lsn) p (ucast (push_bit 11 ?k)) (s, m)
      = Some (1, s1, write_bytes p (map (file_byte (fids i)) [unat lsn * 2048..<unat lsn * 2048 + unat ?k * 2048]) m)"
    by auto
  have run: "map (file_byte (fids i)) [unat lsn * 2048..<unat lsn * 2048 + unat ?k * 2048]
      = sector_run (smb_part file_byte fids i) lsn (unat ?k)"
    using top k(3) by (subst smb_part_run) simp_all
  have "FIDs s i = fids i" using session i by (simp add: smb_session_def)
  then have "smb_ReadCD with_sema ip lsn n p i (s, m)
      = smb_ReadCD with_sema ip (lsn + ?k) (n - ?k) (p + push_bit 11 ?k) i
          (s1, write_bytes p (sector_run (smb_part file_byte fids i) lsn (unat ?k)) m)"
    using n i s1(2) unfolding run by (subst smb_ReadCD.simps) (simp add: Let_def)
  with s1(1) show thesis by (rule that)
qed

lemma ReadCD_delivers:
  assumes server: "smb_server ip sock serving tid uid file_size file_byte"
  shows "smb_session with_sema sock serving tid uid fids s \<Longrightarrow> smb_inside file_size fids i lsn (unat n) \<Longrightarrow>
    unat n * 2048 \<le> 2 ^ 32 \<Longrightarrow>
    \<exists>s'. smb_session with_sema sock serving tid uid fids s' \<and> smb_ReadCD with_sema ip lsn n p i (s, m)
      = Some (s', write_bytes p (sector_run (smb_part file_byte fids i) lsn (unat n)) m)"
proof (induction "unat n" arbitrary: n lsn p s m rule: less_induct)
  case less
  show ?case
  proof (cases "n = 0")
    case True
    then show ?thesis using less.prems by (simp add: smb_ReadCD.simps)
  next
    case n: False
    let ?k = "cd_sectors n" and ?run = "sector_run (smb_part file_byte fids i)"
    note k = cd_sectors_bounds [OF n]
    let ?m1 = "write_bytes p (?run lsn (unat ?k)) m"
    obtain s1 where s1: "smb_session with_sema sock serving tid uid fids s1"
      "smb_ReadCD with_sema ip lsn n p i (s, m)
        = smb_ReadCD with_sema ip (lsn + ?k) (n - ?k) (p + push_bit 11 ?k) i (s1, ?m1)"
      using ReadCD_step [OF server less.prems(1,2) n] by metis
    have rest: "unat (n - ?k) = unat n - unat ?k" using k(3) by (intro unat_sub_le) (simp add: word_le_nat_alt)
    have fewer: "unat (n - ?k) < unat n" using rest k(1,3) by simp
    have whole: "unat n = unat ?k + unat (n - ?k)" using rest k(3) by simp
    have "smb_inside file_size fids i (lsn + of_nat (unat ?k)) (unat (n - ?k))"
      using less.prems(2) smb_inside_split whole by metis
    then obtain s2 where s2: "smb_session with_sema sock serving tid uid fids s2"
      "smb_ReadCD with_sema ip (lsn + ?k) (n - ?k) (p + push_bit 11 ?k) i (s1, ?m1)
        = Some (s2, write_bytes (p + push_bit 11 ?k) (?run (lsn + ?k) (unat (n - ?k))) ?m1)"
      using less.hyps [OF fewer s1(1), of "lsn + ?k" "p + push_bit 11 ?k" ?m1] fewer less.prems(3) by auto
    have len: "length (?run l j) = j * 2048" for l j by (rule length_sector_run) (simp add: smb_part_def)
    have fits: "length (?run lsn (unat ?k)) + length (?run (lsn + ?k) (unat (n - ?k))) \<le> 2 ^ 32"
      using less.prems(3) k(3) unfolding len rest by simp
    have next_p: "p + push_bit 11 ?k = p + of_nat (length (?run lsn (unat ?k)))"
      unfolding len by (simp add: push_bit_11_eq)
    have "?run lsn (unat ?k) @ ?run (lsn + ?k) (unat (n - ?k)) = ?run lsn (unat n)"
      unfolding whole sector_run_add by simp
    then show ?thesis unfolding s1(2) s2(2) write_bytes_append [OF fits next_p] using s2(1) by simp
  qed
qed

interpretation smb: part_reader parts "smb_part_rd with_sema ip"
    "\<lambda>s. smb_server ip sock serving tid uid file_size file_byte \<and> smb_session with_sema sock serving tid uid fids s"
    "smb_part file_byte fids" "smb_inside file_size fids"
  for parts with_sema and ip :: "'n ps2ip" and sock serving tid uid file_size file_byte fids
proof unfold_locales
  show "length (smb_part file_byte fids i l) = 2048" for i l by (simp add: smb_part_def)
  show "smb_inside file_size fids i lsn 0" for i lsn by (simp add: smb_inside_def)
  show "smb_inside file_size fids i lsn j \<and> smb_inside file_size fids i (lsn + of_nat j) k"
    if "smb_inside file_size fids i lsn (j + k)" for i lsn j k
    using that by (rule smb_inside_split)
  show "\<exists>s'. (smb_server ip sock serving tid uid file_size file_byte \<and> smb_session with_sema sock serving tid uid fids s') \<and>
      smb_part_rd with_sema ip lsn n p i s m
        = Some (s', write_bytes p (sector_run (smb_part file_byte fids i) lsn (unat n)) m)"
    if "smb_server ip sock serving tid uid file_size file_byte \<and> smb_session with_sema sock serving tid uid fids s"
      "smb_inside file_size fids i lsn (unat n)" "unat n * 2048 \<le> 2 ^ 32" for s lsn n p i m
    using that ReadCD_delivers [of ip sock serving tid uid file_size file_byte with_sema fids s i lsn n p m]
    by (auto simp: smb_part_rd_def)
qed

end
