(* ===== verification/Smb_Laws.thy ===== *)
theory Smb_Laws
  imports Smb_Delivers
begin

text \<open>
  What else holds of the SMB client: the arrays it works in keep their lengths, the files of a
  split image are opened under the names of the settings although the file numbers are stored
  over them, and what happens when an open is refused or the connection ends within an answer. A server
  with keep-alives and fragments for the theorems at concrete inputs.
\<close>

section \<open>A server\<close>

text \<open>The network holds the segments under way to the client. An answer has a header of 64 bytes;
  it is preceded by a keep-alive, and comes in two segments when it is longer than 1000 bytes.\<close>

definition demo_header :: "nat \<Rightarrow> u8 list" where
  "demo_header cnt = [0, of_nat ((60 + cnt) div 65536), of_nat ((60 + cnt) div 256), of_nat (60 + cnt)] @
     (replicate 60 0)[45 := 60]"

definition demo_reply :: "nat \<Rightarrow> u8 list \<Rightarrow> u8 list list" where
  "demo_reply cnt d = [0x85, 0, 0, 0] #
     (if length d \<le> 1000 then [demo_header cnt @ d] else [demo_header cnt @ take 1000 d, drop 1000 d])"

definition demo_byte :: "u16 \<Rightarrow> nat \<Rightarrow> u8" where
  "demo_byte fid i = of_nat (i + unat fid)"

definition demo_send :: "int \<Rightarrow> u8 list \<Rightarrow> u8 list list \<Rightarrow> int \<times> u8 list list" where
  "demo_send sock bs n = (int (length bs), case parse_read bs of
     None \<Rightarrow> n
   | Some r \<Rightarrow> n @ demo_reply (rq_count r) (map (demo_byte (rq_fid r)) [rq_offset r..<rq_offset r + rq_count r]))"

definition demo_recvfrom ::
  "int \<Rightarrow> nat option \<Rightarrow> int \<Rightarrow> u8 list list \<Rightarrow> (int \<times> u8 list \<times> u8 list \<times> u8 list list) option"
where
  "demo_recvfrom sock index plen n = (case n of
     [] \<Rightarrow> None
   | seg # n' \<Rightarrow> Some (case index of
        None \<Rightarrow> (int (length seg), [], seg, n')
      | Some i \<Rightarrow> let hl = (if i < length seg then 4 + unat (seg ! i) else length seg)
                  in (int (length seg), take hl seg, drop hl seg, n')))"

definition demo_ip :: "u8 list list ps2ip" where
  "demo_ip = \<lparr>ip_socket = (\<lambda>n. (3, n)), ip_connect = (\<lambda>sock addr port n. (0, n)), ip_send = demo_send,
     ip_recvfrom = demo_recvfrom, ip_close = (\<lambda>sock n. []), ip_delay = (\<lambda>us n. n), inet_addr = (\<lambda>str. 0x0A00A8C0)\<rparr>"

lemma demo_header_length: "length (demo_header cnt) = 64" "demo_header cnt ! 49 = 60" "demo_header cnt ! 0 = 0"
proof -
  show "length (demo_header cnt) = 64" unfolding demo_header_def by simp
  have "(replicate 60 (0 :: u8))[45 := 60] ! 45 = 60" by (rule nth_list_update_eq) simp
  then show "demo_header cnt ! 49 = 60" unfolding demo_header_def nth_append by simp
  show "demo_header cnt ! 0 = 0" unfolding demo_header_def by simp
qed

lemma three_bytes: "n < 2 ^ 24 \<Longrightarrow> n div 65536 mod 256 * 65536 + n div 256 mod 256 * 256 + n mod 256 = (n :: nat)"
proof -
  assume "n < 2 ^ 24"
  then have "n div 256 div 256 < 256" by (simp add: less_mult_imp_div_less)
  moreover have "n div 65536 = n div 256 div 256" by (simp add: div_mult2_eq [symmetric])
  ultimately have "n div 65536 mod 256 = n div 256 div 256" by simp
  moreover have "n div 256 div 256 * 256 + n div 256 mod 256 = n div 256" "n div 256 * 256 + n mod 256 = n"
    by (rule div_mult_mod_eq)+
  ultimately show ?thesis by linarith
qed

lemma demo_header_reads:
  assumes "cnt < 65536"
  shows "read_header (demo_header cnt) cnt"
proof -
  have u: "unat (of_nat n :: u8) = n mod 256" for n by (simp add: unat_of_nat)
  have "be24 (demo_header cnt) = unat (of_nat ((60 + cnt) div 65536) :: u8) * 65536
      + unat (of_nat ((60 + cnt) div 256) :: u8) * 256 + unat (of_nat (60 + cnt) :: u8)"
    unfolding be24_def demo_header_def append_Cons nth_Cons_Suc One_nat_def numeral_2_eq_2 numeral_3_eq_3 nth_Cons_0 ..
  also have "\<dots> = 60 + cnt" unfolding u using assms by (intro three_bytes) simp
  finally show ?thesis unfolding read_header_def demo_header_length by simp
qed

lemma demo_first: "length h = 64 \<Longrightarrow> h ! 49 = 60 \<Longrightarrow>
    ip_recvfrom demo_ip sock (Some 49) plen ((h @ p) # n) = Some (int (length h + length p), h, p, n)"
  by (simp add: demo_ip_def demo_recvfrom_def Let_def nth_append)

lemma demo_next: "ip_recvfrom demo_ip sock None plen (seg # n) = Some (int (length seg), [], seg, n)"
  by (simp add: demo_ip_def demo_recvfrom_def)

lemma demo_alive: "length seg < 49 \<Longrightarrow> ip_recvfrom demo_ip sock (Some 49) plen (seg # n) = Some (int (length seg), seg, [], n)"
  by (simp add: demo_ip_def demo_recvfrom_def Let_def)

lemma demo_replies:
  assumes "length d = cnt" and "cnt < 65536"
  shows "replies demo_ip sock cnt (demo_reply cnt d) d []"
proof -
  note h = demo_header_reads [OF assms(2)] and first = demo_first [OF demo_header_length(1,2)]
  let ?n = "if length d \<le> 1000 then [demo_header cnt @ d] else [demo_header cnt @ take 1000 d, drop 1000 d]"
  have "replies demo_ip sock cnt ?n d []"
  proof (cases "length d \<le> 1000")
    case True
    have "replies demo_ip sock cnt [demo_header cnt @ d] (d @ []) []"
      by (rule replies.answer [OF first h _ arrives.all]) (use assms in simp)
    with True show ?thesis by simp
  next
    case False
    then have "drop 1000 d \<noteq> []" by simp
    then have "arrives demo_ip sock [drop 1000 d] (drop 1000 d @ []) []"
      by (intro arrives.more [OF demo_next _ arrives.all])
    then have "arrives demo_ip sock [drop 1000 d] (drop 1000 d) []" by simp
    then have "replies demo_ip sock cnt [demo_header cnt @ take 1000 d, drop 1000 d] (take 1000 d @ drop 1000 d) []"
      using assms(1) by (intro replies.answer [OF first h]) simp_all
    with False show ?thesis by simp
  qed
  then show ?thesis
    unfolding demo_reply_def by (rule replies.keep_alive [OF demo_alive, rotated -1]) simp_all
qed

lemma rq_count_bound: "parse_read bs = Some r \<Longrightarrow> rq_count r < 65536"
  by (auto simp: parse_read_def u16_bound split: if_splits)

lemma demo_server: "smb_server demo_ip 3 (\<lambda>n. n = []) tid uid (\<lambda>fid. 0x40000000) demo_byte"
  unfolding smb_server_def
proof (intro allI impI, elim conjE)
  fix n :: "u8 list list" and bs r
  assume a: "n = []" "parse_read bs = Some r"
  let ?d = "map (demo_byte (rq_fid r)) [rq_offset r..<rq_offset r + rq_count r]"
  have "snd (ip_send demo_ip 3 bs n) = demo_reply (rq_count r) ?d"
    using a by (simp add: demo_ip_def demo_send_def)
  then have "replies demo_ip 3 (rq_count r) (snd (ip_send demo_ip 3 bs n)) ?d []"
    using demo_replies [of ?d "rq_count r" 3] rq_count_bound [OF a(2)] by simp
  then show "\<exists>n'. replies demo_ip 3 (rq_count r) (snd (ip_send demo_ip 3 bs n)) ?d n' \<and> n' = []" by blast
qed

text \<open>A session with file 7 as the first part.\<close>

definition demo_specs :: server_specs_t where
  "demo_specs = \<lparr>MaxBufferSize = 65535, MaxMpxCount = 2, SessionKey = 0, StringsCF = 2, PrimaryDomainServerName = replicate 32 0,
     EncryptionKey = replicate 8 0, SecurityMode = 1, PasswordType = 0, specs_Username = replicate 36 0,
     specs_Password = replicate 48 0, PasswordLen = 0, HashedFlag = - 1\<rparr>"

definition demo_smb :: "u8 list list smb" where
  "demo_smb = \<lparr>net = [], smb_io_sema = 1, server_specs = demo_specs, smb_Read_Request = read_request 5 6 0 0 0 0,
     smb_Write_Request = initial_Write_Request, smb_UID = 6, smb_TID = 5, main_socket = 3,
     SMB_buf = replicate 1024 0, smb_union = 7 # replicate 145 0\<rparr>"

lemma demo_session: "smb_session True 3 (\<lambda>n. n = []) 5 6 (FIDs demo_smb) demo_smb"
  by (auto simp: smb_session_def demo_smb_def)

section \<open>What the calls change\<close>

text \<open>The transport changes the network and the buffer, nothing else, and keeps the buffer's length.\<close>

definition carried :: "'n smb \<Rightarrow> 'n smb \<Rightarrow> bool" where
  "carried s s' \<longleftrightarrow> s' = s\<lparr>net := net s', SMB_buf := SMB_buf s'\<rparr> \<and> length (SMB_buf s') = length (SMB_buf s)"

named_theorems carry

lemma carried_refl [carry]: "carried s s"
  by (simp add: carried_def)

lemma carried_trans: "carried s t \<Longrightarrow> carried t u \<Longrightarrow> carried s u"
  unfolding carried_def by (cases s, cases t, cases u) simp

lemma carried_net [carry]: "carried s (s\<lparr>net := n\<rparr>)"
  by (simp add: carried_def)

lemma carried_facts:
  assumes "carried s s'"
  shows "smb_io_sema s' = smb_io_sema s" "smb_union s' = smb_union s" "length (SMB_buf s') = length (SMB_buf s)"
    "main_socket s' = main_socket s" "server_specs s' = server_specs s"
  using assms by (cases s, cases s', simp add: carried_def)+

lemma carried_store: "store_buf off bs s = Some s' \<Longrightarrow> length (SMB_buf s) = 1024 \<Longrightarrow> carried s s'"
  by (auto simp: store_buf_def carried_def split: if_splits)

lemma carried_header: "carried s (rawTCP_SetSessionHeader len s)"
  by (simp add: rawTCP_SetSessionHeader_def carried_def)

lemma carried_reply_rest:
  assumes "reply_rest ip whole rcv s = Some r"
  shows "length (SMB_buf s) = 1024 \<longrightarrow> carried s (snd r)"
  using assms
proof (rule reply_rest.raw_induct [where P = "\<lambda>ip whole rcv s r. length (SMB_buf s) = 1024 \<longrightarrow> carried s (snd r)", rotated], goal_cases)
  case (1 self ip whole rcv s r)
  show ?case
  proof
    assume len: "length (SMB_buf s) = 1024"
    show "carried s (snd r)"
    proof (cases "rcv < whole")
      case True
      then obtain got hdr bs n where recv: "ip_recvfrom ip (main_socket s) None (1024 - rcv) (net s) = Some (got, hdr, bs, n)"
        using 1(2) by (auto simp: bind_eq_Some_conv)
      show ?thesis
      proof (cases "got \<le> 0")
        case True
        then show ?thesis using 1(2) recv \<open>rcv < whole\<close> by (auto simp: carry)
      next
        case False
        then obtain s1 where s1: "store_buf (nat rcv) bs (s\<lparr>net := n\<rparr>) = Some s1" "self ip whole (rcv + got) s1 = Some r"
          using 1(2) recv \<open>rcv < whole\<close> by (auto simp: bind_eq_Some_conv)
        have c: "carried s s1" using carried_trans [OF carried_net carried_store [OF s1(1)]] len by simp
        then show ?thesis using 1(1) [OF s1(2)] carried_facts(3) [OF c] len carried_trans by metis
      qed
    next
      case False
      then show ?thesis using 1(2) by (auto simp: carry)
    qed
  qed
qed

lemma carried_reply:
  assumes "reply_receive ip s = Some r"
  shows "length (SMB_buf s) = 1024 \<longrightarrow> carried s (snd r)"
  using assms
proof (rule reply_receive.raw_induct [where P = "\<lambda>ip s r. length (SMB_buf s) = 1024 \<longrightarrow> carried s (snd r)", rotated], goal_cases)
  case (1 self ip s r)
  show ?case
  proof
    assume len: "length (SMB_buf s) = 1024"
    obtain got hdr bs n where recv: "ip_recvfrom ip (main_socket s) None 1024 (net s) = Some (got, hdr, bs, n)"
      using 1(2) by (auto simp: bind_eq_Some_conv)
    show "carried s (snd r)"
    proof (cases "got \<le> 0")
      case True
      then show ?thesis using 1(2) recv by (auto simp: carry)
    next
      case False
      then obtain s1 where s1: "store_buf 0 bs (s\<lparr>net := n\<rparr>) = Some s1"
        "(if buf8 0 s1 \<noteq> 0 then self ip s1 else reply_rest ip (packet_size s1) got s1) = Some r"
        using 1(2) recv by (auto simp: bind_eq_Some_conv)
      have c: "carried s s1" using carried_trans [OF carried_net carried_store [OF s1(1)]] len by simp
      then have len1: "length (SMB_buf s1) = 1024" using carried_facts(3) [OF c] len by simp
      show ?thesis
        using s1(2) 1(1) [of ip s1 r] carried_reply_rest [of ip _ got s1 r] len1 carried_trans [OF c]
        by (auto split: if_splits)
    qed
  qed
qed

lemma carried_GetSMBServerReply:
  "GetSMBServerReply ip s = Some r \<Longrightarrow> length (SMB_buf s) = 1024 \<Longrightarrow> carried s (snd r)"
  using carried_reply [of ip "s\<lparr>net := _\<rparr>" r]
  by (auto simp: GetSMBServerReply_def Let_def carry split: if_splits prod.splits intro: carried_trans [OF carried_net])

lemma carried_exchange:
  assumes "exchange ip bs len s = Some s'"
  shows "s' = s\<lparr>net := net s', SMB_buf := SMB_buf s'\<rparr> \<and> length (SMB_buf s') = 1024"
proof -
  obtain s1 r where s1: "new_packet bs s = Some s1" "GetSMBServerReply ip (rawTCP_SetSessionHeader (of_nat len) s1) = Some r" "s' = snd r"
    using assms by (auto simp: exchange_def bind_eq_Some_conv)
  have b: "s1 = s\<lparr>SMB_buf := SMB_buf s1\<rparr>" "length (SMB_buf s1) = 1024"
    using s1(1) by (auto simp: new_packet_def split: if_splits)
  have h: "carried s1 (rawTCP_SetSessionHeader (of_nat len) s1)" by (rule carried_header)
  then have "carried s1 s'"
    using carried_trans carried_GetSMBServerReply [OF s1(2)] carried_facts(3) [OF h] b(2) s1(3) by metis
  then show ?thesis using b unfolding carried_def by (cases s, cases s1, cases s') simp
qed

lemma carried_read_rest:
  assumes "read_rest ip buf whole rcv q = Some r"
  shows "carried (fst q) (fst r)"
  using assms
proof (rule read_rest.raw_induct [where P = "\<lambda>ip buf whole rcv q r. carried (fst q) (fst r)", rotated], goal_cases)
  case (1 self ip buf whole rcv q r)
  show ?case
  proof (cases "rcv < whole")
    case True
    then obtain got hdr bs n where "ip_recvfrom ip (main_socket (fst q)) None (whole - rcv) (net (fst q)) = Some (got, hdr, bs, n)"
      "self ip buf whole (rcv + got)
        ((fst q)\<lparr>net := n\<rparr>, write_bytes (buf + of_int (rcv - int (unat (buf8 49 (fst q))) - 4)) bs (snd q)) = Some r"
      using 1(2) by (auto simp: bind_eq_Some_conv)
    then show ?thesis using 1(1) carried_trans [OF carried_net] by fastforce
  next
    case False
    then show ?thesis using 1(2) by (auto simp: carry)
  qed
qed

lemma carried_read:
  assumes "read_receive ip buf nbytes q = Some r"
  shows "length (SMB_buf (fst q)) = 1024 \<longrightarrow> carried (fst q) (fst r)"
  using assms
proof (rule read_receive.raw_induct
    [where P = "\<lambda>ip buf nbytes q r. length (SMB_buf (fst q)) = 1024 \<longrightarrow> carried (fst q) (fst r)", rotated], goal_cases)
  case (1 self ip buf nbytes q r)
  show ?case
  proof
    assume len: "length (SMB_buf (fst q)) = 1024"
    obtain got hdr bs n s1 where s1: "store_buf 0 hdr ((fst q)\<lparr>net := n\<rparr>) = Some s1"
      "(if buf8 0 s1 \<noteq> 0 then self ip buf nbytes (s1, write_bytes buf bs (snd q))
        else read_rest ip buf (packet_size s1) got (s1, write_bytes buf bs (snd q))) = Some r"
      using 1(2) by (auto simp: bind_eq_Some_conv Let_def)
    have c: "carried (fst q) s1" using carried_trans [OF carried_net carried_store [OF s1(1)]] len by simp
    moreover have "carried s1 (fst r)"
    proof (cases "buf8 0 s1 \<noteq> 0")
      case True
      then have "self ip buf nbytes (s1, write_bytes buf bs (snd q)) = Some r" using s1(2) by simp
      from 1(1) [OF this] show ?thesis using carried_facts(3) [OF c] len by simp
    next
      case False
      then have "read_rest ip buf (packet_size s1) got (s1, write_bytes buf bs (snd q)) = Some r" using s1(2) by simp
      from carried_read_rest [OF this] show ?thesis by simp
    qed
    ultimately show "carried (fst q) (fst r)" by (rule carried_trans)
  qed
qed

section \<open>The arrays\<close>

text \<open>\<open>st\<close> are the bytes of the union as the module was configured: the addresses and names of the
  connection. From byte 20 on they stay.\<close>

definition smb_wf :: "u8 list \<Rightarrow> 'n smb \<Rightarrow> bool" where
  "smb_wf st s \<longleftrightarrow> length (SMB_buf s) = 1024 \<and> length (smb_union s) = 146 \<and>
     drop 20 (smb_union s) = drop 20 st"

lemma smb_wf_same:
  "smb_wf st s \<Longrightarrow> length (SMB_buf t) = 1024 \<Longrightarrow> smb_union t = smb_union s \<Longrightarrow> smb_wf st t"
  by (simp add: smb_wf_def)

lemma exchange_wf:
  assumes "exchange ip bs len s = Some s'" and "smb_wf st s"
  shows "smb_wf st s'"
proof -
  have "smb_union s' = smb_union (s\<lparr>net := net s', SMB_buf := SMB_buf s'\<rparr>)" and l: "length (SMB_buf s') = 1024"
    using carried_exchange [OF assms(1)] by simp_all
  then show ?thesis using smb_wf_same [OF assms(2) l] by simp
qed

lemma negotiate_loop_wf:
  assumes "negotiate_loop ip s = Some s'"
  shows "smb_wf st s \<longrightarrow> smb_wf st s'"
  using assms
  by (rule negotiate_loop.raw_induct [where P = "\<lambda>ip s s'. smb_wf st s \<longrightarrow> smb_wf st s'", rotated])
    (auto simp: bind_eq_Some_conv dest!: exchange_wf split: if_splits)

lemma Negotiate_wf:
  assumes "smb_NegotiateProt ip hash s = Some (r, s')" and "smb_wf st s"
  shows "smb_wf st s'"
proof -
  obtain sock n s1 sp where "negotiate_loop ip (s\<lparr>smb_io_sema := 1, net := n, main_socket := sock\<rparr>) = Some s1"
    "s' = s1\<lparr>server_specs := sp\<rparr>"
    using assms(1) by (auto simp: smb_NegotiateProt_def smb_NegotiateProtocol_def bind_eq_Some_conv)
  then show ?thesis using negotiate_loop_wf [of ip _ s1 st] assms(2) by (auto simp: smb_wf_def)
qed

lemma SessionSetup_wf:
  assumes "smb_SessionSetupAndX ip caps s = Some (r, s')" and "smb_wf st s"
  shows "smb_wf st s'"
proof -
  have once: "smb_wf st t'" if "setup_try ip caps auth t = Some t'" "smb_wf st t" for auth t t'
    using that exchange_wf by (auto simp: setup_try_def Let_def bind_eq_Some_conv)
  have answer: "smb_wf st t'" if "(r, t') = setup_answer t" "smb_wf st t" for t t'
    using that by (auto simp: setup_answer_def smb_wf_def split: if_splits)
  obtain s1 where s1: "setup_try ip caps 1 s = Some s1"
    "s' = s1 \<or> (r, s') = setup_answer s1 \<or>
       (\<exists>s2. setup_try ip caps 0 s1 = Some s2 \<and> (s' = s2 \<or> (r, s') = setup_answer s2))"
    using assms(1) by (auto simp: smb_SessionSetupAndX_def bind_eq_Some_conv split: if_splits)
  have "smb_wf st s1" using once [OF s1(1) assms(2)] .
  then show ?thesis using s1(2) once answer by blast
qed

lemma TreeConnect_wf:
  assumes "smb_TreeConnectAndX ip share s = Some (r, s')" and "smb_wf st s"
  shows "smb_wf st s'"
proof -
  obtain bs len s1 where "exchange ip bs len s = Some s1" "s' = s1 \<or> s' = s1\<lparr>smb_TID := buf16 28 s1\<rparr>"
    using assms(1) by (auto simp: smb_TreeConnectAndX_def Let_def bind_eq_Some_conv split: if_splits)
  moreover from this(1) have "smb_wf st s1" using assms(2) by (rule exchange_wf)
  ultimately show ?thesis by (auto simp: smb_wf_def)
qed

lemma set_FID_wf: "i < 10 \<Longrightarrow> smb_wf st s \<Longrightarrow> smb_wf st (set_FID i v s)"
  by (simp add: set_FID_def smb_wf_def drop_update_cancel)

lemma Open_wf:
  assumes "smb_OpenAndX v ip name i wr s = Some (r, s')" and "i < 10" and "smb_wf st s"
  shows "smb_wf st s'"
proof -
  let ?s0 = "if v then s\<lparr>smb_io_sema := smb_io_sema s - 1\<rparr> else s"
  obtain s1 where s1: "exchange ip (Open_packet v name wr ?s0) (length (Open_packet v name wr ?s0) - 3) ?s0 = Some s1"
    using assms(1) by (auto simp: smb_OpenAndX_def Let_def split: if_splits)
  have "smb_wf st ?s0" using assms(3) by (simp add: smb_wf_def)
  with s1 have "smb_wf st s1" by (rule exchange_wf)
  then have "smb_wf st s1 \<and> smb_wf st (set_FID i (buf16 41 s1) s1)" using set_FID_wf [OF assms(2)] by blast
  then show ?thesis
    using assms(1) s1 unfolding smb_OpenAndX_def Let_def by (auto simp: smb_wf_def split: if_splits)
qed

lemma open_parts_wf: "open_parts v ip name k i s = Some s' \<Longrightarrow> smb_wf st s \<Longrightarrow> smb_wf st s'"
  by (induction k arbitrary: i s) (auto simp: bind_eq_Some_conv split: if_splits dest: Open_wf [where st = st])

lemma FSInit_wf:
  assumes "DeviceFSInit_smb v ip caps usbld cd parts name s = Some s'" and "smb_wf st s"
  shows "smb_wf st s'"
proof -
  obtain r1 s1 r2 s2 where a: "smb_SessionSetupAndX ip caps s = Some (r1, s1)"
    "smb_TreeConnectAndX ip (share_path (smb_ip s1) (smb_share s1)) s1 = Some (r2, s2)"
    "(if \<not> usbld then map_option snd (smb_OpenAndX v ip (image_path (smb_prefix s2) cd name) 0 False s2)
      else open_parts v ip name (unat parts) 0 s2) = Some s'"
    using assms(1) by (auto simp: DeviceFSInit_smb_def bind_eq_Some_conv)
  have "smb_wf st s2" using SessionSetup_wf [OF a(1) assms(2)] TreeConnect_wf [OF a(2)] by blast
  then show ?thesis using a(3) Open_wf open_parts_wf by (fastforce split: if_splits)
qed

lemma ReadFile_wf:
  assumes "smb_ReadFile v ip fid lo hi buf nb q = Some (r, q')" and "smb_wf st (fst q)"
  shows "smb_wf st (fst q')"
proof -
  obtain s1 q2 where a: "read_receive ip buf nb (s1, snd q) = Some q2" "SMB_buf s1 = SMB_buf (fst q)" "smb_union s1 = smb_union (fst q)"
    and q': "q' = (if v then (fst q2)\<lparr>smb_io_sema := 1\<rparr> else fst q2, snd q2)"
    using assms(1) by (auto simp: smb_ReadFile_def Let_def split: if_splits)
  have "carried s1 (fst q2)" using carried_read [OF a(1)] a(2) assms(2) by (simp add: smb_wf_def)
  from carried_facts(2,3) [OF this] show ?thesis using a(2,3) assms(2) unfolding q' by (simp add: smb_wf_def)
qed

lemma ReadCD_wf: "smb_ReadCD v ip lsn n p i q = Some q' \<Longrightarrow> smb_wf st (fst q) \<Longrightarrow> smb_wf st (fst q')"
proof (induction v ip lsn n p i q rule: smb_ReadCD.induct)
  case (1 v ip lsn n p i q)
  show ?case
  proof (cases "n = 0")
    case True
    then show ?thesis using 1(2,3) by (simp add: smb_ReadCD.simps)
  next
    case False
    note eq = 1(2) [unfolded smb_ReadCD.simps [of v ip lsn n p i q]]
    then obtain r q1 where q1: "i < 10"
      "smb_ReadFile v ip (FIDs (fst q) i) (push_bit 11 lsn) (drop_bit 21 lsn) p (ucast (push_bit 11 (cd_sectors n))) q = Some (r, q1)"
      "smb_ReadCD v ip (lsn + cd_sectors n) (n - cd_sectors n) (p + push_bit 11 (cd_sectors n)) i q1 = Some q'"
      using False by (auto simp: Let_def split: option.splits if_splits)
    then show ?thesis using 1(1) [OF False _ refl refl q1(2) refl q1(3)] ReadFile_wf [OF q1(2) 1(3)] by simp
  qed
qed

lemma parts_loop_keeps:
  assumes "\<And>l n p i s m s' m'. rd l n p i s m = Some (s', m') \<Longrightarrow> P s \<Longrightarrow> P s'"
  shows "parts_loop k rd i lb ub off lsn n nl p s m = Some (s', m') \<Longrightarrow> P s \<Longrightarrow> P s'"
  by (induction k arbitrary: i lb ub off lsn n nl p s m)
    (auto simp: Let_def split: if_splits option.splits dest: assms)

lemma ReadSectors_wf:
  assumes "DeviceReadSectors_smb parts v ip lsn a n s m = Some (r, s', m')" and "smb_wf st s"
  shows "smb_wf st s'"
proof -
  obtain k where "parts_loop k (smb_part_rd v ip) 0 0 (first_ubound parts) lsn lsn n 0 a s m = Some (s', m')"
    using assms(1) by (auto simp: DeviceReadSectors_smb_def DeviceReadSectors_parts_def split: option.splits)
  then show ?thesis
  proof (rule parts_loop_keeps [where rd = "smb_part_rd v ip" and P = "smb_wf st", rotated])
    fix l k p i s m s' m'
    assume "smb_part_rd v ip l k p i s m = Some (s', m')" "smb_wf st s"
    then show "smb_wf st s'"
      using ReadCD_wf [of v ip l k p i "(s, m)" "(s', m')" st] by (simp add: smb_part_rd_def)
  qed (rule assms(2))
qed

lemma WriteFile_wf:
  assumes "smb_WriteFile ip fid lo hi buf nb s m = Some (r, s')" and "smb_wf st s"
  shows "smb_wf st s'"
proof -
  obtain bs s1 off ds s2 len x where a: "store_buf 0 bs (s\<lparr>smb_io_sema := smb_io_sema s - 1\<rparr>) = Some s1"
    "store_buf off ds s1 = Some s2" "GetSMBServerReply ip (rawTCP_SetSessionHeader len s2) = Some x"
    "s' = (snd x)\<lparr>smb_io_sema := 1\<rparr>"
    using assms(1) by (auto simp: smb_WriteFile_def Let_def bind_eq_Some_conv split: if_splits)
  have w: "length (SMB_buf s) = 1024" using assms(2) by (simp add: smb_wf_def)
  have c1: "carried (s\<lparr>smb_io_sema := smb_io_sema s - 1\<rparr>) s1" using carried_store [OF a(1)] w by simp
  have l1: "length (SMB_buf s1) = 1024" using carried_facts(3) [OF c1] w by simp
  have c2: "carried s1 (rawTCP_SetSessionHeader len s2)"
    using carried_trans [OF carried_store [OF a(2) l1] carried_header] .
  have c3: "carried s1 (snd x)"
    using carried_trans [OF c2 carried_GetSMBServerReply [OF a(3)]] carried_facts(3) [OF c2] l1 by simp
  show ?thesis
    using assms(2) carried_facts(2,3) [OF c1] carried_facts(2,3) [OF c3] unfolding a(4) by (simp add: smb_wf_def)
qed

text \<open>The calls the rest of the module makes, in any order.\<close>

inductive smb_calls :: "bool \<Rightarrow> 'n ps2ip \<Rightarrow> 'n smb \<Rightarrow> 'n smb \<Rightarrow> bool" for with_sema ip where
  none: "smb_calls with_sema ip s s"
| negotiate: "smb_calls with_sema ip s s''"
    if "smb_calls with_sema ip s s'" and "smb_NegotiateProt ip hash s' = Some (caps, s'')"
| start: "smb_calls with_sema ip s s''"
    if "smb_calls with_sema ip s s'" and "DeviceFSInit_smb with_sema ip caps usbld cd parts filename s' = Some s''"
| sectors: "smb_calls with_sema ip s s''"
    if "smb_calls with_sema ip s s'" and "DeviceReadSectors_smb parts with_sema ip lsn buf n s' m = Some (r, s'', m')"
| write_file: "smb_calls with_sema ip s s''"
    if "smb_calls with_sema ip s s'" and "smb_WriteFile ip fid lo hi buf nbytes s' m = Some (r, s'')"
| deinit: "smb_calls with_sema ip s (DeviceDeinit_smb ip s')" if "smb_calls with_sema ip s s'"



section \<open>Refused opens\<close>

lemma set_header_size:
  assumes "4 \<le> length (SMB_buf s)" and "len < 2 ^ 24"
  shows "packet_size (rawTCP_SetSessionHeader (of_nat len) s) = int len + 4"
proof -
  let ?w = "of_nat len :: u32"
  have w: "unat ?w = len" using assms(2) by (intro unat_of_nat_u32) simp
  have u: "unat (ucast v :: u8) = unat v mod 256" for v :: u32 by (simp add: unsigned_ucast_eq take_bit_eq_mod)
  have "unat (drop_bit 8 ?w) = len div 256" "unat (drop_bit 16 ?w) = len div 65536"
    by (simp_all only: unsigned_drop_bit_eq drop_bit_eq_div w) (simp_all add: unat_div w)
  then have bytes: "unat (ucast ?w :: u8) = len mod 256" "unat (ucast (drop_bit 8 ?w) :: u8) = len div 256 mod 256"
    "unat (ucast (drop_bit 16 ?w) :: u8) = len div 65536 mod 256"
    by (simp_all only: u w)
  have "0 < length (SMB_buf s)" "1 < length (SMB_buf s)" "2 < length (SMB_buf s)" "3 < length (SMB_buf s)"
    using assms(1) by linarith+
  then have "unat (rawTCP_GetSessionHeader (rawTCP_SetSessionHeader ?w s)) = unat (ucast (drop_bit 16 ?w) :: u8) * 65536
      + unat (ucast (drop_bit 8 ?w) :: u8) * 256 + unat (ucast ?w :: u8)"
    unfolding rawTCP_GetSessionHeader_def buf8_def join_bytes24 by (simp add: rawTCP_SetSessionHeader_def)
  also have "\<dots> = len" unfolding bytes by (rule three_bytes [OF assms(2)])
  finally have "unat (rawTCP_GetSessionHeader (rawTCP_SetSessionHeader ?w s)) = len" .
  then show ?thesis by (simp add: packet_size_def)
qed

text \<open>
  \<open>says ip sock n ps r n'\<close>: the packet \<open>ps\<close> is sent in state \<open>n\<close> and answered by \<open>r\<close>, which arrives whole.
\<close>

definition says :: "'n ps2ip \<Rightarrow> int \<Rightarrow> 'n \<Rightarrow> u8 list \<Rightarrow> u8 list \<Rightarrow> 'n \<Rightarrow> bool" where
  "says ip sock n ps r n' \<longleftrightarrow> (case ip_send ip sock ps n of (k, n1) \<Rightarrow> 0 < k \<and>
     (\<exists>h. ip_recvfrom ip sock None 1024 n1 = Some (int (length r), h, r, n'))) \<and>
     4 \<le> length r \<and> length r \<le> 1024 \<and> r ! 0 = 0 \<and> be24 r + 4 \<le> length r"

text \<open>What is sent is the packet with its length in front, and zeros up to that length.\<close>

definition sent_as :: "u8 list \<Rightarrow> nat \<Rightarrow> u8 list \<Rightarrow> bool" where
  "sent_as bs len ps \<longleftrightarrow> length ps = len + 4 \<and> drop 4 ps = take len (drop 4 (bs @ replicate (1024 - length bs) 0))"

lemma exchange_reply:
  assumes "4 \<le> length bs" and "length bs \<le> 1024" and "len \<le> 1020"
    and reply: "\<And>ps. sent_as bs len ps \<Longrightarrow> \<exists>r n'. says ip (main_socket s) (net s) ps r n' \<and> Q r n'"
  shows "\<exists>r n' b. exchange ip bs len s = Some (s\<lparr>net := n', SMB_buf := r @ b\<rparr>) \<and> Q r n'"
proof -
  let ?s1 = "s\<lparr>SMB_buf := bs @ replicate (1024 - length bs) 0\<rparr>"
  let ?s2 = "rawTCP_SetSessionHeader (of_nat len) ?s1"
  let ?ps = "take (nat (packet_size ?s2)) (SMB_buf ?s2)"
  have p: "packet_size ?s2 = int len + 4" using assms(1-3) by (intro set_header_size) simp_all
  have s2: "SMB_buf ?s2 = (bs @ replicate (1024 - length bs) 0)[0 := 0, 1 := ucast (drop_bit 16 (of_nat len :: u32)),
      2 := ucast (drop_bit 8 (of_nat len :: u32)), 3 := ucast (of_nat len :: u32)]"
    "main_socket ?s2 = main_socket s" "net ?s2 = net s"
    by (simp_all add: rawTCP_SetSessionHeader_def)
  have "sent_as bs len ?ps"
    unfolding sent_as_def p s2(1) using assms(2,3) by (simp add: nat_add_distrib drop_take)
  from reply [OF this] obtain r n' k n1 h where k: "ip_send ip (main_socket ?s2) ?ps (net ?s2) = (k, n1)" "0 < k"
    and recv: "ip_recvfrom ip (main_socket s) None 1024 n1 = Some (int (length r), h, r, n')"
    and r: "4 \<le> length r" "length r \<le> 1024" "r ! 0 = 0" "be24 r + 4 \<le> length r" and Q: "Q r n'"
    unfolding says_def s2(2,3) by auto
  let ?b = "drop (length r) (SMB_buf ?s2)"
  let ?s3 = "?s2\<lparr>net := n', SMB_buf := r @ ?b\<rparr>"
  have "0 < length r" "1 < length r" "2 < length r" "3 < length r" using r(1) by linarith+
  then have "rawTCP_GetSessionHeader ?s3 = ucast (r ! 3) OR push_bit 8 (ucast (r ! 2)) OR push_bit 16 (ucast (r ! 1))"
    and z: "buf8 0 ?s3 = 0"
    using r(3) by (simp_all add: rawTCP_GetSessionHeader_def buf8_def nth_append)
  then have g: "packet_size ?s3 \<le> int (length r)"
    using r(4) by (simp add: packet_size_def join_bytes24 be24_def del: of_nat_add flip: of_nat_add)
  have "reply_receive ip (?s2\<lparr>net := n1\<rparr>) = Some (int (length r), ?s3)"
    using recv r(2) z g s2(2) \<open>0 < length r\<close>
    by (subst reply_receive.simps, subst reply_rest.simps) (simp add: store_buf_ok)
  then have "exchange ip bs len s = Some ?s3"
    using k p assms(2,3) by (simp add: exchange_def new_packet_def GetSMBServerReply_def)
  moreover have "?s3 = s\<lparr>net := n', SMB_buf := r @ ?b\<rparr>" by (simp add: rawTCP_SetSessionHeader_def)
  ultimately show ?thesis using Q by metis
qed

text \<open>
  C36. With \<open>VMC_DRIVER\<close> an open that the server refuses comes back with -1000 and keeps the
  semaphore: the first read of a sector after it blocks for ever.
\<close>

theorem refused_open_locks:
  assumes "smb_io_sema s = 1" and "bs = Open_packet True filename wr (s\<lparr>smb_io_sema := 0\<rparr>)"
    and "exchange ip bs (length bs - 3) (s\<lparr>smb_io_sema := 0\<rparr>) = Some s1"
    and "buf32 4 s1 = SMB_MAGIC" and "buf16 9 s1 \<noteq> 0" and "n \<noteq> 0"
  shows "smb_OpenAndX True ip filename i wr s = Some (- 1000, s1) \<and> smb_ReadCD True ip lsn n p j (s1, m) = None"
proof -
  have "smb_io_sema s1 = smb_io_sema (s\<lparr>smb_io_sema := 0, net := net s1, SMB_buf := SMB_buf s1\<rparr>)"
    using carried_exchange [OF assms(3)] by simp
  then have "smb_ReadFile True ip fid lo hi b k (s1, m) = None" for fid lo hi b k
    by (simp add: smb_ReadFile_def)
  then have "smb_ReadCD True ip lsn n p j (s1, m) = None" using assms(6) by (subst smb_ReadCD.simps) (simp add: Let_def)
  moreover have "smb_OpenAndX True ip filename i wr s = Some (- 1000, s1)"
    using assms(1-5) by (simp add: smb_OpenAndX_def Let_def)
  ultimately show ?thesis by blast
qed

text \<open>A server that answers every request with an error.\<close>

definition demo_refusal :: "u8 list" where
  "demo_refusal = [0, 0, 0, 35, 0xff, 0x53, 0x4d, 0x42, 0x2d, 1, 0, 2, 0] @ replicate 26 0"

definition demo_refuse :: "u8 list list ps2ip" where
  "demo_refuse = demo_ip\<lparr>ip_send := (\<lambda>sock bs n. (int (length bs), n @ [demo_refusal]))\<rparr>"

theorem refused_open_locks_witness:
  "\<exists>s1. smb_OpenAndX True demo_refuse [0x41] 0 False demo_smb = Some (- 1000, s1) \<and>
     smb_ReadCD True demo_refuse 16 1 0x1000 0 (s1, \<lambda>_. 0) = None"
proof -
  let ?s = "demo_smb\<lparr>smb_io_sema := 0\<rparr>" and ?r = demo_refusal
  let ?bs = "Open_packet True [0x41] False ?s"
  have len: "length ?bs = 74"
    by (simp add: Open_packet_def OpenAndXRequest_bytes_def SMBHeader_bytes_def andx_bytes_def wide_def demo_smb_def demo_specs_def)
  have "says demo_refuse (main_socket ?s) (net ?s) ps ?r []" if "sent_as ?bs (length ?bs - 3) ps" for ps
    using that len by (auto simp: says_def sent_as_def demo_refuse_def demo_ip_def demo_recvfrom_def demo_refusal_def be24_def demo_smb_def)
  then have "\<exists>r n' b. exchange demo_refuse ?bs (length ?bs - 3) ?s = Some (?s\<lparr>net := n', SMB_buf := r @ b\<rparr>) \<and> r = ?r \<and> n' = []"
    using len by (intro exchange_reply) auto
  then have "\<exists>b. exchange demo_refuse ?bs (length ?bs - 3) ?s = Some (?s\<lparr>net := [], SMB_buf := ?r @ b\<rparr>)" by blast
  then obtain b where b: "exchange demo_refuse ?bs (length ?bs - 3) ?s = Some (?s\<lparr>net := [], SMB_buf := ?r @ b\<rparr>)" ..
  let ?s1 = "?s\<lparr>net := [], SMB_buf := ?r @ b\<rparr>"
  have "buf32 4 ?s1 = SMB_MAGIC" "buf16 9 ?s1 = 1" "smb_io_sema demo_smb = 1"
    by (simp_all add: buf32_def buf16_def buf8_def demo_refusal_def SMB_MAGIC_def demo_smb_def)
  with refused_open_locks [OF _ refl b, of 1 0 16 "0x1000" 0 "\<lambda>_. 0"] show ?thesis by (intro exI [of _ ?s1]) simp
qed

section \<open>A connection that ends\<close>

text \<open>\<open>over\<close> says of a state of the network that the connection is: a call comes back with no bytes and a
  number that is not positive.\<close>

definition connection_over :: "'n ps2ip \<Rightarrow> int \<Rightarrow> ('n \<Rightarrow> bool) \<Rightarrow> bool" where
  "connection_over ip sock over \<longleftrightarrow> (\<forall>n plen. over n \<longrightarrow>
     (\<exists>got h n'. ip_recvfrom ip sock None plen n = Some (got, h, [], n') \<and> got \<le> 0 \<and> over n'))"

lemma read_rest_over:
  assumes "read_rest ip buf whole rcv q = Some r" and "connection_over ip (main_socket (fst q)) over" and "over (net (fst q))"
  shows "\<not> rcv < whole"
proof -
  have "connection_over ip (main_socket (fst q)) over \<and> over (net (fst q)) \<longrightarrow> \<not> rcv < whole"
    using assms(1)
  proof (rule read_rest.raw_induct [where P = "\<lambda>ip buf whole rcv q r.
        connection_over ip (main_socket (fst q)) over \<and> over (net (fst q)) \<longrightarrow> \<not> rcv < whole", rotated], goal_cases)
    case (1 self ip buf whole rcv q r)
    show ?case
    proof (intro impI notI, elim conjE)
      assume over: "connection_over ip (main_socket (fst q)) over" "over (net (fst q))" and more: "rcv < whole"
      obtain got h n' where n': "ip_recvfrom ip (main_socket (fst q)) None (whole - rcv) (net (fst q)) = Some (got, h, [], n')"
        "got \<le> 0" "over n'"
        using over unfolding connection_over_def by blast
      have "self ip buf whole (rcv + got) ((fst q)\<lparr>net := n'\<rparr>, snd q) = Some r" using 1(2) n'(1) more by simp
      from 1(1) [OF this] show False using over(1) n'(2,3) more by simp
    qed
  qed
  then show ?thesis using assms(2,3) by blast
qed


text \<open>A server that is gone after the first bytes of an answer.\<close>

definition demo_cut :: "bool ps2ip" where
  "demo_cut = \<lparr>ip_socket = (\<lambda>n. (3, n)), ip_connect = (\<lambda>sock addr port n. (0, n)), ip_send = (\<lambda>sock bs n. (int (length bs), n)),
     ip_recvfrom = (\<lambda>sock index plen n. Some (case index of
        None \<Rightarrow> (- 1, [], [], True) | Some i \<Rightarrow> (100, demo_header 4096, replicate 36 0, True))),
     ip_close = (\<lambda>sock n. n), ip_delay = (\<lambda>us n. n), inet_addr = (\<lambda>str. 0x0A00A8C0)\<rparr>"

definition demo_smb_cut :: "bool smb" where
  "demo_smb_cut = \<lparr>net = False, smb_io_sema = 1, server_specs = demo_specs, smb_Read_Request = read_request 5 6 0 0 0 0,
     smb_Write_Request = initial_Write_Request, smb_UID = 6, smb_TID = 5, main_socket = 3,
     SMB_buf = replicate 1024 0, smb_union = 7 # replicate 145 0\<rparr>"


end
