(* ===== verification/Smb_Start.thy ===== *)
theory Smb_Start
  imports Smb_Laws Instances
begin

text \<open>
  The start of the SMB driver (\<open>DeviceFSInit\<close> of device-smb.c): against a server that grants the
  login, the share and the files, what its three kinds of requests leave in the module is a
  session on the files named by the settings, from which the reads of \<open>Smb_Delivers\<close> deliver.
\<close>

section \<open>The requests as the server reads them\<close>

text \<open>
  In a packet: the command at 8, the flags at 14, the connection to the share at 28 and the
  user at 32. The name in an open has its number of bytes at 67 and starts at 69; in wide
  characters, of which the lower byte comes first, it is aligned by one byte.
\<close>

fun narrow :: "u8 list \<Rightarrow> u8 list" where
  "narrow (a # b # cs) = a # narrow cs"
| "narrow _ = []"

definition open_name :: "u8 list \<Rightarrow> u8 list" where
  "open_name ps = (let name = take (unat (le16 ps 67)) (drop 69 ps)
     in text_of (if le16 ps 14 AND 0x8000 \<noteq> 0 then narrow (drop 1 name) else name))"

text \<open>An answer without an error, long enough for the fields that are read from it.\<close>

definition granted :: "u8 list \<Rightarrow> bool" where
  "granted r \<longleftrightarrow> 43 \<le> length r \<and> le32 r 4 = 0x424d53ff \<and> le16 r 9 = 0 \<and> le16 r 11 = 0"

text \<open>The server: the login gives the user's number, the share its own, a file that it has the file's.\<close>

definition smb_door :: "'n ps2ip \<Rightarrow> int \<Rightarrow> ('n \<Rightarrow> bool) \<Rightarrow> u16 \<Rightarrow> u16 \<Rightarrow> (u8 list \<Rightarrow> u16 option) \<Rightarrow> bool" where
  "smb_door ip sock serving tid uid fid_of \<longleftrightarrow> (\<forall>n ps. serving n \<and> 36 \<le> length ps \<longrightarrow>
     (ps ! 8 = 0x73 \<longrightarrow> (\<exists>r n'. says ip sock n ps r n' \<and> granted r \<and> le16 r 32 = uid \<and> serving n')) \<and>
     (ps ! 8 = 0x75 \<and> le16 ps 32 = uid \<longrightarrow> (\<exists>r n'. says ip sock n ps r n' \<and> granted r \<and> le16 r 28 = tid \<and> serving n')) \<and>
     (\<forall>fid. ps ! 8 = 0x2d \<and> le16 ps 28 = tid \<and> le16 ps 32 = uid \<and> fid_of (open_name ps) = Some fid \<longrightarrow>
        (\<exists>r n'. says ip sock n ps r n' \<and> granted r \<and> le16 r 41 = fid \<and> serving n')))"

section \<open>What the packets hold\<close>

lemma sent_nth:
  assumes "sent_as bs len ps" and "4 \<le> i" and "i < length bs" and "i < len + 4"
  shows "ps ! i = bs ! i"
proof -
  have "4 \<le> length ps" using assms(1) by (simp add: sent_as_def)
  then have "ps ! i = drop 4 ps ! (i - 4)" using assms(2) by simp
  also have "drop 4 ps = take len (drop 4 (bs @ replicate (1024 - length bs) 0))" using assms(1) by (simp add: sent_as_def)
  also have "\<dots> ! (i - 4) = bs ! i" using assms(2-4) by (auto simp: nth_append)
  finally show ?thesis .
qed

lemma sent_le16:
  "sent_as bs len ps \<Longrightarrow> 4 \<le> i \<Longrightarrow> i + 1 < length bs \<Longrightarrow> i + 1 < len + 4 \<Longrightarrow> le16 ps i = le16 bs i"
  by (simp add: le16_def sent_nth)

lemma sent_part:
  assumes "sent_as bs len ps" and "4 \<le> i" and "i + k \<le> length bs" and "i + k \<le> len + 4"
  shows "take k (drop i ps) = take k (drop i bs)"
  using assms by (intro nth_equalityI) (auto simp: sent_as_def intro!: sent_nth [OF assms(1)])

lemma header_fields:
  "le16 (SMBHeader_bytes h @ bs) 14 = h_Flags2 h" "le16 (SMBHeader_bytes h @ bs) 28 = h_TID h"
  "le16 (SMBHeader_bytes h @ bs) 32 = h_UID h" "(SMBHeader_bytes h @ bs) ! 8 = h_Cmd h" "length (SMBHeader_bytes h) = 36"
  by (simp_all add: SMBHeader_bytes_def bytes_u32_def bytes_u16_def le16_def join_bytes nth_append)

lemma buf_fields:
  assumes "granted r"
  shows "buf32 4 (s\<lparr>net := n, SMB_buf := r @ b\<rparr>) = SMB_MAGIC" "buf16 9 (s\<lparr>net := n, SMB_buf := r @ b\<rparr>) = 0"
    "buf16 11 (s\<lparr>net := n, SMB_buf := r @ b\<rparr>) = 0"
    "i < 42 \<Longrightarrow> buf16 i (s\<lparr>net := n, SMB_buf := r @ b\<rparr>) = le16 r i"
  using assms by (simp_all add: granted_def buf32_def buf16_def buf8_def le16_def le32_def nth_append SMB_MAGIC_def)

lemma granted_status: "granted r \<Longrightarrow> le16 r 9 = 0 \<and> le16 r 11 = 0"
  by (simp add: granted_def)

lemma length_wide: "0 < cf \<Longrightarrow> length (wide cf str) = cf * length str"
  by (induction str) (simp_all add: wide_def)

lemma narrow_wide: "narrow (wide 2 str @ replicate 2 0) = str @ [0]"
  by (induction str) (simp_all add: wide_def numeral_2_eq_2)

lemma wide_1: "wide (Suc 0) str = str"
  by (induction str) (simp_all add: wide_def)

lemma text_of_string: "0 \<notin> set str \<Longrightarrow> text_of (str @ [0]) = str"
  unfolding text_of_def by (induction str) auto

section \<open>The module before and after\<close>

text \<open>The answer to the negotiation, as far as the requests depend on it.\<close>

definition specs_ok :: "server_specs_t \<Rightarrow> bool" where
  "specs_ok sp \<longleftrightarrow> (StringsCF sp = 1 \<or> StringsCF sp = 2) \<and> PasswordLen sp \<le> 24 \<and> length (specs_Username sp) = 36 \<and>
     length (PrimaryDomainServerName sp) = 32 \<and> domain_chars (StringsCF sp) (PrimaryDomainServerName sp) \<noteq> None"

text \<open>\<open>on_files\<close>: the read request prepared in advance is one of this user on this share.\<close>

definition on_files :: "u16 \<Rightarrow> u16 \<Rightarrow> 'n smb \<Rightarrow> bool" where
  "on_files tid uid s \<longleftrightarrow> (\<exists>f lo hi n. smb_Read_Request s = read_request tid uid f lo hi n)"

definition connected :: "bool \<Rightarrow> int \<Rightarrow> ('n \<Rightarrow> bool) \<Rightarrow> 'n smb \<Rightarrow> bool" where
  "connected with_sema sock serving s \<longleftrightarrow> serving (net s) \<and> main_socket s = sock \<and> (with_sema \<longrightarrow> smb_io_sema s = 1) \<and>
     specs_ok (server_specs s) \<and> length (smb_union s) = 146 \<and>
     (\<exists>t u. on_files t u s)"

lemma domain_chars_length: "domain_chars cf name = Some dm \<Longrightarrow> length dm \<le> length name"
proof (induction cf name arbitrary: dm rule: domain_chars.induct)
  case (1 cf name)
  show ?case
  proof (cases name)
    case (Cons c cs)
    show ?thesis
    proof (cases "c = 0 \<or> cf = 0")
      case False
      with Cons 1(2) obtain d where d: "domain_chars cf (drop cf name) = Some d" "dm = c # d"
        by (subst (asm) domain_chars.simps) auto
      then have "length d \<le> length name - cf" using 1(1) [OF Cons, of d] False by simp
      moreover have "0 < cf" "0 < length name" "length dm = Suc (length d)" using False Cons d(2) by simp_all
      ultimately show ?thesis by arith
    qed (use Cons 1(2) in \<open>auto simp: domain_chars.simps split: if_splits\<close>)
  qed (use 1(2) in \<open>simp add: domain_chars.simps\<close>)
qed

lemma text_of_length: "length (text_of a) \<le> length a"
  by (simp add: text_of_def length_takeWhile_le)

lemma setup_fields_fit:
  assumes "specs_ok sp" and "length pw \<le> 24"
  shows "\<exists>bfield. setup_fields sp pw = Some bfield \<and> length bfield \<le> 200"
proof -
  obtain dm where dm: "domain_chars (StringsCF sp) (PrimaryDomainServerName sp) = Some dm"
    using assms(1) by (auto simp: specs_ok_def)
  have "length dm \<le> 32" "length (text_of (specs_Username sp)) \<le> 36"
    using domain_chars_length [OF dm] text_of_length [of "specs_Username sp"] assms(1) by (simp_all add: specs_ok_def)
  then show ?thesis
    using assms dm by (auto simp: setup_fields_def Let_def specs_ok_def length_wide wide_1 unicode_pad_def)
qed

lemma password_fits:
  assumes "specs_ok sp"
  shows "\<exists>pw. (if b then password_bytes 1 sp else Some ds) = Some pw \<and> (length ds \<le> 24 \<longrightarrow> length pw \<le> 24)"
  using assms by (auto simp: password_bytes_def specs_ok_def)

section \<open>Login and share\<close>

lemma login_granted:
  assumes door: "smb_door ip sock serving tid uid fid_of" and s: "connected with_sema sock serving s"
  shows "\<exists>n b. smb_SessionSetupAndX ip caps s = Some (1, s\<lparr>net := n, SMB_buf := b, smb_UID := uid\<rparr>) \<and> serving n"
proof -
  let ?sp = "server_specs s"
  have sp: "specs_ok ?sp" and here: "serving (net s)" "main_socket s = sock" using s by (simp_all add: connected_def)
  obtain pw where pw: "(if SecurityMode ?sp = 1 then password_bytes 1 ?sp else Some []) = Some pw" "length pw \<le> 24"
    using password_fits [OF sp, of "SecurityMode ?sp = 1" "[]"] by auto
  obtain bfield where bf: "setup_fields ?sp pw = Some bfield" "length bfield \<le> 200"
    using setup_fields_fit [OF sp pw(2)] by blast
  let ?bs = "SessionSetup_packet caps 1 (length pw) bfield ?sp"
  obtain h rest where bs: "?bs = SMBHeader_bytes h @ rest" "h_Cmd h = 0x73" "length rest = 29 + length bfield"
    by (simp add: SessionSetup_packet_def SessionSetupAndXRequest_bytes_def request_header_def andx_bytes_def
        SMB_COM_SESSION_SETUP_ANDX_def bytes_u16_def bytes_u32_def)
  have len: "length ?bs = 65 + length bfield" using bs by (simp add: header_fields)
  have "\<exists>r n' b. exchange ip ?bs (61 + length bfield) s = Some (s\<lparr>net := n', SMB_buf := r @ b\<rparr>) \<and>
    granted r \<and> le16 r 32 = uid \<and> serving n'"
  proof (rule exchange_reply)
    fix ps assume ps: "sent_as ?bs (61 + length bfield) ps"
    have "ps ! 8 = 0x73" using sent_nth [OF ps, of 8] len bs by (simp add: header_fields)
    moreover have "36 \<le> length ps" using ps by (simp add: sent_as_def)
    ultimately show "\<exists>r n'. says ip (main_socket s) (net s) ps r n' \<and> granted r \<and> le16 r 32 = uid \<and> serving n'"
      using door here by (simp add: smb_door_def)
  qed (use len bf(2) in simp_all)
  then obtain r n b where x: "exchange ip ?bs (61 + length bfield) s = Some (s\<lparr>net := n, SMB_buf := r @ b\<rparr>)"
    "granted r" "le16 r 32 = uid" "serving n"
    by blast
  then have "setup_try ip caps 1 s = Some (s\<lparr>net := n, SMB_buf := r @ b\<rparr>)"
    unfolding setup_try_def Let_def pw(1) using bf(1) by simp
  then show ?thesis
    using x(2-4) by (auto simp: smb_SessionSetupAndX_def setup_answer_def nt_status_def buf_fields granted_status STATUS_LOGON_FAILURE_def)
qed

lemma share_granted:
  assumes door: "smb_door ip sock serving tid uid fid_of" and s: "connected with_sema sock serving s"
    and uid: "smb_UID s = uid" and share: "length share \<le> 60"
  shows "\<exists>n b. smb_TreeConnectAndX ip share s = Some (1, s\<lparr>net := n, SMB_buf := b, smb_TID := tid\<rparr>) \<and> serving n"
proof -
  let ?sp = "server_specs s"
  have sp: "specs_ok ?sp" and here: "serving (net s)" "main_socket s = sock" using s by (simp_all add: connected_def)
  obtain pw where pw: "(if SecurityMode ?sp = 0 then password_bytes 1 ?sp else Some [0]) = Some pw" "length pw \<le> 24"
    using password_fits [OF sp, of "SecurityMode ?sp = 0" "[0]"] by auto
  let ?bs = "TreeConnect_packet pw share s"
  have cf: "StringsCF ?sp = 1 \<or> StringsCF ?sp = 2" using sp by (simp add: specs_ok_def)
  obtain h rest where bs: "?bs = SMBHeader_bytes h @ rest" "h_Cmd h = 0x75" "h_UID h = uid"
    and small: "length rest \<le> 200"
    using pw(2) share cf uid
    by (auto simp: TreeConnect_packet_def Let_def TreeConnectAndXRequest_bytes_def request_header_def andx_bytes_def
        SMB_COM_TREE_CONNECT_ANDX_def bytes_u16_def length_wide wide_1 unicode_pad_def)
  have len: "36 \<le> length ?bs" "length ?bs \<le> 236" using bs small by (simp_all add: header_fields)
  have "\<exists>r n' b. exchange ip ?bs (length ?bs - 4) s = Some (s\<lparr>net := n', SMB_buf := r @ b\<rparr>) \<and>
    granted r \<and> le16 r 28 = tid \<and> serving n'"
  proof (rule exchange_reply)
    fix ps assume ps: "sent_as ?bs (length ?bs - 4) ps"
    have "ps ! 8 = 0x75" "le16 ps 32 = uid"
      using sent_nth [OF ps, of 8] sent_le16 [OF ps, of 32] len bs by (simp_all add: header_fields)
    moreover have "36 \<le> length ps" using ps len by (simp add: sent_as_def)
    ultimately show "\<exists>r n'. says ip (main_socket s) (net s) ps r n' \<and> granted r \<and> le16 r 28 = tid \<and> serving n'"
      using door here by (simp add: smb_door_def)
  qed (use len in simp_all)
  then obtain r n b where "exchange ip ?bs (length ?bs - 4) s = Some (s\<lparr>net := n, SMB_buf := r @ b\<rparr>)"
    "granted r" "le16 r 28 = tid" "serving n"
    by blast
  then show ?thesis using pw(1) by (auto simp: smb_TreeConnectAndX_def buf_fields granted_status)
qed

section \<open>The files\<close>

lemma le16_at: "i = length xs \<Longrightarrow> le16 (xs @ bytes_u16 k @ ys) i = k"
  by (simp add: le16_def bytes_u16_def join_bytes nth_append)

lemma wide_flag: "cf = 1 \<or> cf = 2 \<Longrightarrow> StringsCF sp = cf \<Longrightarrow> flags2_of sp AND 0x8000 \<noteq> 0 \<longleftrightarrow> cf = 2"
  by (auto simp: flags2_of_def SMB_FLAGS2_KNOWS_LONG_NAMES_def SMB_FLAGS2_32BIT_STATUS_def SMB_FLAGS2_UNICODE_STRING_def)

lemma open_packet:
  assumes sp: "specs_ok (server_specs s)" and name: "0 \<notin> set name" "length name \<le> 400"
    and bs: "bs = Open_packet with_sema name wr s"
  shows "bs ! 8 = 0x2d" "le16 bs 28 = smb_TID s" "le16 bs 32 = smb_UID s" "open_name bs = name"
    "length bs = 69 + unat (le16 bs 67)" "length bs \<le> 1000"
proof -
  let ?cf = "StringsCF (server_specs s)"
  let ?field = "(if ?cf = 2 then [0] else []) @ wide ?cf name @ replicate ?cf 0"
  have cf: "?cf = 1 \<or> ?cf = 2" using sp by (simp add: specs_ok_def)
  obtain h mid where b: "bs = SMBHeader_bytes h @ mid @ bytes_u16 (of_nat (length ?field)) @ ?field" "length mid = 31"
    and h: "h_Cmd h = 0x2d" "h_TID h = smb_TID s" "h_UID h = smb_UID s" "h_Flags2 h = flags2_of (server_specs s)"
    unfolding bs Open_packet_def Let_def OpenAndXRequest_bytes_def
    by (simp add: request_header_def andx_bytes_def SMB_COM_OPEN_ANDX_def bytes_u16_def bytes_u32_def)
  have fit: "length ?field \<le> 803" using name(2) cf by (auto simp: length_wide wide_1)
  have count: "le16 bs 67 = of_nat (length ?field)"
    using le16_at [of 67 "SMBHeader_bytes h @ mid" "of_nat (length ?field)" ?field] b by (simp add: header_fields)
  show "bs ! 8 = 0x2d" "le16 bs 28 = smb_TID s" "le16 bs 32 = smb_UID s" unfolding b(1) by (simp_all add: header_fields h)
  have flags: "le16 bs 14 = flags2_of (server_specs s)" unfolding b(1) by (simp add: header_fields h)
  have u: "unat (le16 bs 67) = length ?field" unfolding count using fit by (intro unat_of_nat_u16) simp
  show "length bs = 69 + unat (le16 bs 67)" "length bs \<le> 1000" unfolding u using b fit by (simp_all add: header_fields bytes_u16_def)
  have "drop 69 bs = ?field" unfolding b(1) using b(2) by (simp add: header_fields bytes_u16_def)
  then have "take (unat (le16 bs 67)) (drop 69 bs) = ?field" unfolding u by simp
  then show "open_name bs = name"
    unfolding open_name_def flags using cf name(1)
    by (auto simp: wide_flag [OF cf refl] wide_1 narrow_wide text_of_string)
qed

lemma open_name_sent:
  assumes "sent_as bs (length bs - 3) ps" and "length bs = 69 + unat (le16 bs 67)"
  shows "open_name ps = open_name bs"
proof -
  have l: "le16 ps 67 = le16 bs 67" "le16 ps 14 = le16 bs 14" using sent_le16 [OF assms(1)] assms(2) by simp_all
  have "take (unat (le16 bs 67)) (drop 69 ps) = take (unat (le16 bs 67)) (drop 69 bs)"
    using assms(2) by (intro sent_part [OF assms(1)]) simp_all
  then show ?thesis by (simp add: open_name_def l)
qed

lemma set_FID_fields:
  assumes "length (smb_union s) = 146" and "i < 10"
  shows "FIDs (set_FID i v s) i = v" and "j \<noteq> i \<Longrightarrow> FIDs (set_FID i v s) j = FIDs s j"
    and "smb_prefix (set_FID i v s) = smb_prefix s" and "length (smb_union (set_FID i v s)) = 146"
  using assms by (simp_all add: FIDs_def set_FID_def smb_prefix_def join_bytes drop_update_cancel)

lemma file_granted:
  assumes door: "smb_door ip sock serving tid uid fid_of" and s: "connected with_sema sock serving s"
    and here: "smb_UID s = uid" "smb_TID s = tid" and name: "0 \<notin> set name" "length name \<le> 400" "fid_of name = Some fid"
    and i: "i < 10"
  shows "\<exists>s'. smb_OpenAndX with_sema ip name i wr s = Some (1, s') \<and> connected with_sema sock serving s' \<and>
    on_files tid uid s' \<and> smb_UID s' = uid \<and> smb_TID s' = tid \<and> smb_prefix s' = smb_prefix s \<and>
    FIDs s' i = fid \<and> (\<forall>j. j \<noteq> i \<longrightarrow> FIDs s' j = FIDs s j)"
proof -
  let ?s0 = "if with_sema then s\<lparr>smb_io_sema := smb_io_sema s - 1\<rparr> else s"
  have sp: "specs_ok (server_specs ?s0)" and net: "serving (net ?s0)" "main_socket ?s0 = sock"
    and ids: "smb_UID ?s0 = uid" "smb_TID ?s0 = tid" and union: "smb_union ?s0 = smb_union s" "length (smb_union s) = 146"
    using s here by (simp_all add: connected_def)
  obtain t u f lo hi n where rr: "smb_Read_Request s = read_request t u f lo hi n" using s by (auto simp: connected_def on_files_def)
  let ?bs = "Open_packet with_sema name wr ?s0"
  note bs = open_packet [OF sp name(1,2) refl, of with_sema wr]
  have "\<exists>r n' b. exchange ip ?bs (length ?bs - 3) ?s0 = Some (?s0\<lparr>net := n', SMB_buf := r @ b\<rparr>) \<and>
    granted r \<and> le16 r 41 = fid \<and> serving n'"
  proof (rule exchange_reply)
    fix ps assume ps: "sent_as ?bs (length ?bs - 3) ps"
    have "ps ! 8 = 0x2d" "le16 ps 28 = tid" "le16 ps 32 = uid" "fid_of (open_name ps) = Some fid"
      using sent_nth [OF ps, of 8] sent_le16 [OF ps, of 28] sent_le16 [OF ps, of 32] open_name_sent [OF ps bs(5)] bs ids name(3)
      by simp_all
    moreover have "36 \<le> length ps" using ps bs(5) by (simp add: sent_as_def)
    ultimately show "\<exists>r n'. says ip (main_socket ?s0) (net ?s0) ps r n' \<and> granted r \<and> le16 r 41 = fid \<and> serving n'"
      using door net unfolding smb_door_def by metis
  qed (use bs(5,6) in simp_all)
  then obtain r n' b where x: "exchange ip ?bs (length ?bs - 3) ?s0 = Some (?s0\<lparr>net := n', SMB_buf := r @ b\<rparr>)"
    "granted r" "le16 r 41 = fid" "serving n'"
    by blast
  let ?s1 = "?s0\<lparr>net := n', SMB_buf := r @ b\<rparr>"
  let ?s2 = "set_FID i fid ?s1"
  let ?s4 = "?s2\<lparr>smb_Read_Request := read_request tid uid f lo hi n,
    smb_Write_Request := (smb_Write_Request ?s2)\<lparr>wx_smbH := (wx_smbH (smb_Write_Request ?s2))\<lparr>h_UID := uid, h_TID := tid\<rparr>\<rparr>\<rparr>"
  let ?s5 = "if with_sema then ?s4\<lparr>smb_io_sema := 1\<rparr> else ?s2\<lparr>smb_Read_Request := read_request tid uid f lo hi n\<rparr>"
  have "\<not> (with_sema \<and> smb_io_sema s = 0)" using s by (simp add: connected_def)
  then have "smb_OpenAndX with_sema ip name i wr s = Some (1, ?s5)"
    unfolding smb_OpenAndX_def Let_def x(1) using x(2,3) here rr
    by (simp add: buf_fields granted_status set_FID_def read_request_def initial_Read_Request_def)
  moreover have u: "length (smb_union ?s1) = 146" using union by simp
  moreover have files: "on_files tid uid ?s5" by (auto simp: on_files_def)
  moreover have "connected with_sema sock serving ?s5"
    using s x(4) set_FID_fields(4) [OF u i] exI [of "\<lambda>t. \<exists>u. on_files t u ?s5", OF exI, OF files]
    by (auto simp: connected_def set_FID_def)
  moreover have "FIDs ?s5 j = FIDs ?s2 j" "smb_prefix ?s5 = smb_prefix ?s2" "smb_prefix ?s1 = smb_prefix s" "FIDs ?s1 j = FIDs s j" for j
    by (simp_all add: FIDs_def smb_prefix_def)
  ultimately show ?thesis
    using set_FID_fields [OF u i] here by (intro exI [of _ ?s5]) (auto simp: set_FID_def)
qed

section \<open>The whole start\<close>

text \<open>The paths of the image's files, in the order of the file numbers.\<close>

definition smb_paths :: "bool \<Rightarrow> bool \<Rightarrow> u8 \<Rightarrow> u8 list \<Rightarrow> u8 list \<Rightarrow> u8 list list" where
  "smb_paths usbld cd parts prefix filename =
     (if usbld then map (part_path prefix filename) [0..<unat parts] else [image_path prefix cd filename])"

lemma hex_digit_text: "d < 16 \<Longrightarrow> hex_digit d \<noteq> 0"
proof -
  assume "d < 16"
  have "hex_digit d = of_nat (if d < 10 then 48 + d else 87 + d)" by (simp add: hex_digit_def)
  then have "unat (hex_digit d) = (if d < 10 then 48 + d else 87 + d)" using \<open>d < 16\<close> by (simp add: unat_of_nat del: of_nat_add)
  then show ?thesis by (auto split: if_splits)
qed

lemma text_of_text: "0 \<notin> set (text_of a)"
  by (auto simp: text_of_def dest: set_takeWhileD)

lemma path_text:
  assumes "0 \<notin> set filename" and "length filename \<le> 300" and "0 \<notin> set prefix" and "length prefix \<le> 32"
  shows "i < 256 \<Longrightarrow> 0 \<notin> set (part_path prefix filename i) \<and> length (part_path prefix filename i) \<le> 400"
    and "0 \<notin> set (image_path prefix cd filename) \<and> length (image_path prefix cd filename) \<le> 400"
  using assms hex_digit_text [of "i div 16"] hex_digit_text [of "i mod 16"]
  by (auto simp: part_path_def image_path_def prefixed_def)

lemma parts_granted:
  assumes door: "smb_door ip sock serving tid uid fid_of" and "connected with_sema sock serving s"
    and "smb_UID s = uid" and "smb_TID s = tid" and "i + k \<le> 10" and prefix: "smb_prefix s = prefix"
    and paths: "\<And>j. i \<le> j \<Longrightarrow> j < i + k \<Longrightarrow> 0 \<notin> set (part_path prefix filename j) \<and> length (part_path prefix filename j) \<le> 400 \<and>
      fid_of (part_path prefix filename j) = Some (fids j)"
  shows "\<exists>s'. open_parts with_sema ip filename k i s = Some s' \<and> connected with_sema sock serving s' \<and>
    (0 < k \<or> on_files tid uid s \<longrightarrow> on_files tid uid s') \<and> (\<forall>j. i \<le> j \<and> j < i + k \<longrightarrow> FIDs s' j = fids j) \<and>
    (\<forall>j<i. FIDs s' j = FIDs s j)"
  using assms(2-7)
proof (induction k arbitrary: i s)
  case 0
  then show ?case by auto
next
  case (Suc k)
  have i: "i < 10" "0 \<notin> set (part_path prefix filename i)" "length (part_path prefix filename i) \<le> 400"
    "fid_of (part_path prefix filename i) = Some (fids i)"
    using Suc.prems(4) Suc.prems(6) [of i] by simp_all
  from file_granted [OF door Suc.prems(1-3) i(2-4,1), of False]
  obtain s1 where s1: "smb_OpenAndX with_sema ip (part_path prefix filename i) i False s = Some (1, s1)"
    "connected with_sema sock serving s1" "on_files tid uid s1" "smb_UID s1 = uid" "smb_TID s1 = tid"
    "smb_prefix s1 = prefix" "FIDs s1 i = fids i" "\<forall>j. j \<noteq> i \<longrightarrow> FIDs s1 j = FIDs s j"
    using Suc.prems(5) by auto
  have "\<exists>s'. open_parts with_sema ip filename k (Suc i) s1 = Some s' \<and> connected with_sema sock serving s' \<and>
    (0 < k \<or> on_files tid uid s1 \<longrightarrow> on_files tid uid s') \<and> (\<forall>j. Suc i \<le> j \<and> j < Suc i + k \<longrightarrow> FIDs s' j = fids j) \<and>
    (\<forall>j<Suc i. FIDs s' j = FIDs s1 j)"
    using Suc.prems(4,6) by (intro Suc.IH s1(2,4-6)) simp_all
  then obtain s' where s': "open_parts with_sema ip filename k (Suc i) s1 = Some s'" "connected with_sema sock serving s'"
    "on_files tid uid s'" "\<forall>j. Suc i \<le> j \<and> j < Suc i + k \<longrightarrow> FIDs s' j = fids j" "\<forall>j<Suc i. FIDs s' j = FIDs s1 j"
    using s1(3) by blast
  have "FIDs s' j = fids j" if "i \<le> j" "j < i + Suc k" for j
    using that s'(4,5) s1(7) by (cases "j = i") simp_all
  then show ?case using s' s1 i(1) Suc.prems(5) by (intro exI [of _ s']) simp
qed

lemma FSInit_session:
  assumes door: "smb_door ip sock serving tid uid fid_of" and s: "connected with_sema sock serving s"
    and filename: "0 \<notin> set filename" "length filename \<le> 300" and parts: "usbld \<Longrightarrow> 0 < unat parts \<and> unat parts \<le> 10"
    and paths: "paths = smb_paths usbld cd parts (smb_prefix s) filename"
      "\<forall>i<length paths. fid_of (paths ! i) = Some (fids i)"
  shows "\<exists>s'. DeviceFSInit_smb with_sema ip caps usbld cd parts filename s = Some s' \<and>
    smb_session with_sema sock serving tid uid (FIDs s') s' \<and> (\<forall>i<length paths. FIDs s' i = fids i)"
proof -
  obtain n b where login: "smb_SessionSetupAndX ip caps s = Some (1, s\<lparr>net := n, SMB_buf := b, smb_UID := uid\<rparr>)" "serving n"
    using login_granted [OF door s] by blast
  let ?s1 = "s\<lparr>net := n, SMB_buf := b, smb_UID := uid\<rparr>"
  have s1: "connected with_sema sock serving ?s1" using s login(2) by (simp add: connected_def on_files_def)
  have "length (share_path (smb_ip ?s1) (smb_share ?s1)) \<le> 60"
    using text_of_length [of "take 16 (smb_union s)"] text_of_length [of "take 32 (drop 18 (smb_union s))"]
    by (simp add: share_path_def smb_ip_def smb_share_def)
  from share_granted [OF door s1 _ this]
  obtain n' b' where share: "smb_TreeConnectAndX ip (share_path (smb_ip ?s1) (smb_share ?s1)) ?s1
      = Some (1, ?s1\<lparr>net := n', SMB_buf := b', smb_TID := tid\<rparr>)" "serving n'"
    by auto
  let ?s2 = "?s1\<lparr>net := n', SMB_buf := b', smb_TID := tid\<rparr>"
  have s2: "connected with_sema sock serving ?s2" "smb_UID ?s2 = uid" "smb_TID ?s2 = tid" "smb_prefix ?s2 = smb_prefix s"
    using s share(2) by (simp_all add: connected_def on_files_def smb_prefix_def)
  have prefix: "0 \<notin> set (smb_prefix s)" "length (smb_prefix s) \<le> 32"
    using text_of_length [of "take 32 (drop 50 (smb_union s))"] by (simp_all add: smb_prefix_def text_of_text)
  note path = path_text [OF filename prefix]
  let ?opened = "if \<not> usbld then map_option snd (smb_OpenAndX with_sema ip (image_path (smb_prefix ?s2) cd filename) 0 False ?s2)
    else open_parts with_sema ip filename (unat parts) 0 ?s2"
  have "\<exists>s'. ?opened = Some s' \<and>
    connected with_sema sock serving s' \<and> on_files tid uid s' \<and> (\<forall>i<length paths. FIDs s' i = fids i)"
  proof (cases usbld)
    case True
    have fid: "fid_of (part_path (smb_prefix s) filename j) = Some (fids j)" if "j < 0 + unat parts" for j
      using paths that True by (simp add: smb_paths_def)
    have "0 \<notin> set (part_path (smb_prefix s) filename j) \<and> length (part_path (smb_prefix s) filename j) \<le> 400 \<and>
        fid_of (part_path (smb_prefix s) filename j) = Some (fids j)" if "0 \<le> j" "j < 0 + unat parts" for j
      using path(1) [of j] fid [of j] that parts True by simp
    from parts_granted [where i = 0 and k = "unat parts", OF door s2(1-3) _ s2(4) this] show ?thesis
      using parts True paths(1) by (auto simp: smb_paths_def)
  next
    case False
    then have "fid_of (image_path (smb_prefix s) cd filename) = Some (fids 0)" using paths by (simp add: smb_paths_def)
    from file_granted [OF door s2(1-3) path(2) [THEN conjunct1] path(2) [THEN conjunct2] this, of 0 False]
    show ?thesis using False paths(1) s2(4) by (auto simp: smb_paths_def)
  qed
  then obtain s' where s': "?opened = Some s'" "connected with_sema sock serving s'" "on_files tid uid s'"
    "\<forall>i<length paths. FIDs s' i = fids i"
    by blast
  have "DeviceFSInit_smb with_sema ip caps usbld cd parts filename s = ?opened"
    unfolding DeviceFSInit_smb_def login(1) Option.bind.simps prod.case share(1) ..
  then show ?thesis using s' by (intro exI [of _ s']) (auto simp: smb_session_def connected_def on_files_def)
qed

text \<open>
  C10. From the login to the sectors: against a server that grants the user, the share and the
  files of the paths in the settings, \<open>DeviceFSInit\<close> returns with the server's file numbers in
  their places, one file for the image or one for each part; and every read afterwards comes back
  and stores the bytes of these files.
\<close>

theorem smb_start_read:
  assumes "smb_server ip sock serving tid uid file_size file_byte" and "smb_door ip sock serving tid uid fid_of"
    and "connected with_sema sock serving d" and "0 \<notin> set filename" and "length filename \<le> 300"
    and "usbld \<Longrightarrow> 0 < unat parts \<and> unat parts \<le> 10"
    and "paths = smb_paths usbld cd parts (smb_prefix d) filename" and "\<forall>i<length paths. fid_of (paths ! i) = Some (fids i)"
  shows "\<exists>d'. DeviceFSInit_smb with_sema ip caps usbld cd parts filename d = Some d' \<and>
    (\<forall>i<length paths. FIDs d' i = fids i) \<and>
    (\<forall>s lsn n buf. dev s = d' \<and> parts_inside parts (smb_inside file_size (FIDs d')) lsn (unat n) \<and>
        read_ready s lsn n buf \<and> drive_idle s \<longrightarrow>
      (\<exists>s'. read_and_sync (DeviceReadSectors_smb parts with_sema ip) lsn n buf s = Some (1, s') \<and>
        (\<forall>x. \<not> scratch s buf x \<longrightarrow> memory s' x = write_bytes buf
          (sector_run (parts_disc parts (smb_part file_byte (FIDs d'))) lsn (unat n)) (memory s) x)))"
proof -
  obtain d' where d': "DeviceFSInit_smb with_sema ip caps usbld cd parts filename d = Some d'"
    "smb_session with_sema sock serving tid uid (FIDs d') d'" "\<forall>i<length paths. FIDs d' i = fids i"
    using FSInit_session [OF assms(2-8)] by blast
  have "\<exists>s'. read_and_sync (DeviceReadSectors_smb parts with_sema ip) lsn n buf s = Some (1, s') \<and>
      (\<forall>x. \<not> scratch s buf x \<longrightarrow> memory s' x = write_bytes buf
        (sector_run (parts_disc parts (smb_part file_byte (FIDs d'))) lsn (unat n)) (memory s) x)"
    if "dev s = d'" "parts_inside parts (smb_inside file_size (FIDs d')) lsn (unat n)" "read_ready s lsn n buf" "drive_idle s"
    for s lsn n buf
    using smb.image.read_and_sync_delivers [OF conjI [OF assms(1) d'(2) [folded that(1)]]] that
    unfolding DeviceReadSectors_smb_def by blast
  with d'(1,3) show ?thesis by blast
qed

section \<open>A server that grants everything\<close>

text \<open>One answer for the three requests: share 5, user 6, file 7.\<close>

definition demo_welcome :: "u8 list" where
  "demo_welcome = [0, 0, 0, 39, 0xff, 0x53, 0x4d, 0x42, 0, 0, 0, 0, 0, 0, 0, 0, 0, 0, 0, 0, 0, 0, 0, 0, 0, 0, 0, 0,
     5, 0, 0, 0, 6, 0, 0, 0, 0, 0, 0, 0, 0, 7, 0]"

definition demo_door_ip :: "u8 list list ps2ip" where
  "demo_door_ip = demo_ip\<lparr>ip_send := (\<lambda>sock bs n.
     if parse_read bs = None then (int (length bs), n @ [demo_welcome]) else demo_send sock bs n)\<rparr>"

definition demo_fresh :: "u8 list list smb" where
  "demo_fresh = demo_smb\<lparr>smb_UID := 0, smb_TID := 0, smb_union := replicate 146 0\<rparr>"

lemma arrives_same: "arrives ip sock n d n' \<Longrightarrow> ip_recvfrom ip' = ip_recvfrom ip \<Longrightarrow> arrives ip' sock n d n'"
  by (induction rule: arrives.induct) (auto intro: arrives.intros)

lemma replies_same: "replies ip sock cnt n d n' \<Longrightarrow> ip_recvfrom ip' = ip_recvfrom ip \<Longrightarrow> replies ip' sock cnt n d n'"
  by (induction rule: replies.induct) (fastforce intro: replies.intros arrives_same)+

lemma demo_door_server: "smb_server demo_door_ip 3 (\<lambda>n. n = []) tid uid (\<lambda>fid. 0x40000000) demo_byte"
proof -
  have same: "ip_recvfrom demo_door_ip = ip_recvfrom demo_ip" by (simp add: demo_door_ip_def)
  have "ip_send demo_door_ip 3 bs n = ip_send demo_ip 3 bs n" if "parse_read bs = Some r" for bs n r
    using that by (simp add: demo_door_ip_def demo_ip_def)
  then show ?thesis
    using demo_server [of tid uid] replies_same [OF _ same] unfolding smb_server_def by metis
qed

lemma demo_says: "36 \<le> length ps \<Longrightarrow> ps ! 8 \<noteq> 0x2e \<Longrightarrow> says demo_door_ip 3 [] ps demo_welcome []"
  by (auto simp: says_def demo_door_ip_def demo_ip_def demo_recvfrom_def parse_read_def demo_welcome_def be24_def)

lemma demo_grants: "granted demo_welcome" "le16 demo_welcome 32 = 6" "le16 demo_welcome 28 = 5" "le16 demo_welcome 41 = 7"
  by (simp_all add: granted_def demo_welcome_def le16_def le32_def)

lemma demo_door: "smb_door demo_door_ip 3 (\<lambda>n. n = []) 5 6 (\<lambda>name. Some 7)"
  unfolding smb_door_def using demo_says demo_grants by (fastforce intro!: exI [of _ demo_welcome])

lemma demo_fresh_connected: "connected True 3 (\<lambda>n. n = []) demo_fresh"
proof -
  have "replicate 32 (0 :: u8) = 0 # replicate 31 0" by (simp add: numeral_eq_Suc)
  then have "specs_ok demo_specs" by (simp add: specs_ok_def demo_specs_def domain_chars.simps)
  moreover have "on_files 5 6 demo_fresh" by (auto simp: on_files_def demo_fresh_def demo_smb_def)
  moreover have "server_specs demo_fresh = demo_specs" "net demo_fresh = []" "main_socket demo_fresh = 3" "smb_io_sema demo_fresh = 1"
    "length (smb_union demo_fresh) = 146"
    by (simp_all add: demo_fresh_def demo_smb_def)
  ultimately show ?thesis unfolding connected_def by metis
qed

theorem smb_start_read_witness:
  "\<exists>d' s'. DeviceFSInit_smb True demo_door_ip 0 False True 1 [0x41] demo_fresh = Some d' \<and> FIDs d' 0 = 7 \<and>
     read_and_sync (DeviceReadSectors_smb 1 True demo_door_ip) 16 3 0x100000 (demo_state d') = Some (1, s') \<and>
     (\<forall>x. memory s' x = write_bytes 0x100000 (sector_run (parts_disc 1 (smb_part demo_byte (FIDs d'))) 16 3) (\<lambda>_. 0) x)"
proof -
  let ?ip = demo_door_ip and ?disc = "\<lambda>d'. parts_disc 1 (smb_part demo_byte (FIDs d'))"
  let ?paths = "smb_paths False True 1 (smb_prefix demo_fresh) [0x41]"
  have one: "length ?paths = 1" by (simp add: smb_paths_def)
  obtain d' where d': "DeviceFSInit_smb True ?ip 0 False True 1 [0x41] demo_fresh = Some d'" "\<forall>i<length ?paths. FIDs d' i = 7"
    and reads: "\<forall>s lsn n buf. dev s = d' \<and> parts_inside 1 (smb_inside (\<lambda>fid. 0x40000000) (FIDs d')) lsn (unat n) \<and>
        read_ready s lsn n buf \<and> drive_idle s \<longrightarrow>
      (\<exists>s'. read_and_sync (DeviceReadSectors_smb 1 True ?ip) lsn n buf s = Some (1, s') \<and>
        (\<forall>x. \<not> scratch s buf x \<longrightarrow> memory s' x = write_bytes buf (sector_run (?disc d') lsn (unat n)) (memory s) x))"
    using smb_start_read [OF demo_door_server demo_door demo_fresh_connected, of "[0x41]" False 1 ?paths True "\<lambda>i. 7" 0] by auto
  let ?s = "demo_state d'"
  have "dev ?s = d'" "read_ready ?s 16 3 0x100000" "drive_idle ?s"
    by (simp_all add: demo_state_def read_ready_def drive_idle_def)
  moreover have "parts_inside 1 (smb_inside (\<lambda>fid. 0x40000000) (FIDs d')) 16 (unat (3 :: u32))"
    by (simp add: parts_inside_def parts_readable_def smb_inside_def)
  ultimately obtain s' where "read_and_sync (DeviceReadSectors_smb 1 True ?ip) 16 3 0x100000 ?s = Some (1, s')"
    "\<forall>x. \<not> scratch ?s 0x100000 x \<longrightarrow> memory s' x = write_bytes 0x100000 (sector_run (?disc d') 16 (unat (3 :: u32))) (memory ?s) x"
    using reads by blast
  then show ?thesis
    using d' one by (intro exI [of _ d'] exI [of _ s']) (simp add: scratch_def demo_state_def)
qed

end
