(* ===== verification/Demo_Drive.thy ===== *)
theory Demo_Drive
  imports Instances
begin

text \<open>
  The theorems of the drive, of streaming and of the file system at concrete inputs: the
  demonstration machine with a ring of four sectors in banks of two, a busy and a dry stream, a
  driver that fails, an open file and a directory sector of one entry.
\<close>

section \<open>The ring\<close>

definition demo_full_ring :: SteamingData where
  "demo_full_ring = \<lparr>StBufmax = 4, StBankmax = 2, StBanksize = 2, StWritePtr = 2, StReadPtr = 0,
     StStreamed = 2, StStat = 1, StIsReading = 0, StIOP_bufaddr = 0x40000, Stlsn = 18\<rparr>"

lemma demo_full_ring_inv: "ring_inv demo_full_ring"
  by (simp add: ring_inv_def demo_full_ring_def)

text \<open>A bank arrives, then a reader takes three sectors.\<close>

definition demo_ops :: "(u32, u8 list) queue_op list" where
  "demo_ops = [Put [replicate 2048 1, replicate 2048 2], Take 0x80000 3]"

theorem ring_fifo_witness:
  "fst (queue_run ring_put ring_tk demo_ops (demo_full_ring, \<lambda>_. 0))
     @ ring_holds (snd (queue_run ring_put ring_tk demo_ops (demo_full_ring, \<lambda>_. 0)))
   = ring_holds (demo_full_ring, \<lambda>_. 0) @ puts demo_ops"
proof (rule ring_fifo)
  show "ring_inv (fst (demo_full_ring, (\<lambda>_. 0) :: mem))" by (simp add: demo_full_ring_inv)
  show "queue_ok ring_room ring_safe ring_put ring_tk demo_ops (demo_full_ring, \<lambda>_. 0)"
    by (simp add: demo_ops_def ring_room_def ring_safe_def ring_put_def demo_full_ring_def AllocBank_def
        bank_arrived_def ring_takes_def ring_size_def disjoint_runsI)
qed

theorem EE_and_IOP_agree_witness:
  "\<exists>k sd' ds bs. ReadSectorsEE 1 0x100000 demo_full_ring = (k, ds, sd') \<and>
     ReadSectors 1 0x80000 (demo_full_ring, \<lambda>_. 0) = (k, sd', write_bytes 0x80000 bs (\<lambda>_. 0)) \<and>
     (\<forall>ee. run_dma (\<lambda>_. 0) ds ee = write_bytes 0x100000 bs ee)"
  by (rule EE_and_IOP_agree [OF demo_full_ring_inv])
    (simp_all add: demo_full_ring_def ring_size_def ring_takes_def disjoint_runsI)

theorem StInit_ring_witness:
  "\<exists>s'. sceCdStInit 17 4 0x40000 (demo_state ()) = Some (1, s') \<and> ring_inv (SD s') \<and> N_of (SD s') = 16"
proof -
  have "1 \<le> unat (4 :: u32)" "unat (4 :: u32) \<le> unat (17 :: u32)" "unat (17 :: u32) < 2 ^ 16" by simp_all
  from StInit_ring [OF this, of "0x40000" "demo_state ()"] show ?thesis by auto
qed

section \<open>Streams\<close>

text \<open>A stream at sector 16 that holds nothing and fills nothing, and one whose bank is under way.\<close>

definition demo_dry :: "bdm_state cdvdman" where
  "demo_dry = (demo_state demo_dev)\<lparr>Stm0Callback := True, StreamingData := demo_ring\<lparr>StBufmax := 4,
     StBankmax := 2, StBanksize := 2, StIOP_bufaddr := 0x40000, Stlsn := 16, StStat := 1\<rparr>\<rparr>"

definition demo_busy :: "bdm_state cdvdman" where
  "demo_busy = demo_dry\<lparr>StreamingData := (StreamingData demo_dry)\<lparr>StIsReading := 1\<rparr>, sync_flag := True,
     intr_ef := 8, semas := (\<lambda>_. 1), cdread_lba := 16, cdread_sectors := 2, cdread_buf := 0x40000\<rparr>"

lemma demo_dry_inv: "stream_inv disc 16 demo_dry"
  by (simp add: stream_inv_def ring_inv_def bank_under_way_def demo_dry_def demo_state_def demo_ring_def
      ring_contents_def disc_sectors_def)

lemma demo_busy_inv: "stream_inv disc 16 demo_busy"
  by (simp add: stream_inv_def ring_inv_def bank_under_way_def demo_dry_def demo_busy_def demo_state_def
      demo_ring_def ring_contents_def disc_sectors_def ring_addr_def)

theorem StRead_stuck_witness:
  "sceCdStRead DeviceReadSectors_bdm 1 0x100000 1 (demo_dry, \<lambda>_. 0) = None"
proof (rule StRead_stuck [OF demo_dry_inv bdm_disc_length])
  show "S_of (SD demo_dry) < unat (1 :: u32)" "StIsReading (SD demo_dry) = 0" "stm_alarm demo_dry = None"
    by (simp_all add: demo_dry_def demo_state_def demo_ring_def)
  show "reader_buffer demo_dry 0x100000 1"
    by (simp add: reader_buffer_def demo_dry_def demo_state_def demo_ring_def ring_size_def disjoint_runs_def in_run_def)
qed simp_all


section \<open>Failing reads\<close>

text \<open>A driver that fails its first read and serves the others with zeros.\<close>

definition demo_flaky :: "nat devread" where
  "demo_flaky lsn buf n d m =
     (if d = 0 then Some (- 5, 1, m)
      else Some (0, Suc d, write_bytes buf (replicate (unat n * 2048) 0) m))"

theorem read_error_reported_witness:
  "cdvdman_read demo_flaky 16 4 0x100000 (demo_state 0) = Some (1, (demo_state 0)\<lparr>dev := 1,
     memory := (\<lambda>_. 0), err := CDVD_ERR_READ, ReadPos := 0, status := CDVD_STAT_PAUSE\<rparr>)"
  by (rule read_error_reported [where r = "- 5"])
    (simp_all add: demo_flaky_def demo_state_def accu_reads_def has_flag_def demo_settings_def)

theorem unaligned_error_masked_witness:
  "\<exists>s'. cdvdman_read demo_flaky 16 4 0x100001 (demo_state 0) = Some (1, s') \<and> err s' = CDVD_ERR_NO"
  by (rule unaligned_error_masked [where r = "- 5" and d = 1])
    (simp_all add: demo_flaky_def demo_state_def accu_reads_def has_flag_def demo_settings_def)

section \<open>Files\<close>

definition demo_file :: "bdm_state cdvdman" where
  "demo_file = (demo_state demo_dev)\<lparr>cdvdman_fdhandles :=
     \<lparr>fh_f = 0x1000, fh_lsn = 100, filesize = 5000, position = 100\<rparr> # replicate 63 no_handle\<rparr>"

definition demo_f :: iop_file_t where
  "demo_f = \<lparr>f_addr = 0x1000, f_mode = 1, f_unit = 0, f_privdata = 0\<rparr>"

lemma demo_file_fields [simp]:
  "semas demo_file x = (if x = cdrom_rthread_sema then 0 else 1)" "dev demo_file = demo_dev"
  "length (cdvdman_fdhandles demo_file) = 64" "f_privdata demo_f = 0"
  "get_fh 0 demo_file = \<lparr>fh_f = 0x1000, fh_lsn = 100, filesize = 5000, position = 100\<rparr>"
  by (simp_all add: demo_file_def demo_state_def demo_f_def get_fh_def)

theorem first_free_slot_witness:
  "\<exists>i. cdvdman_getfilefreeslot demo_file = Some i \<and> i < 64 \<and> fh_f (get_fh i demo_file) = 0"
proof -
  have "cdvdman_getfilefreeslot demo_file \<noteq> None"
    by (simp add: cdvdman_getfilefreeslot_def demo_file_def demo_state_def no_handle_def numeral_eq_Suc)
  moreover have "length (cdvdman_fdhandles demo_file) = MAX_FDHANDLES" by simp
  ultimately show ?thesis using first_free_slot [of demo_file] by (auto split: option.splits)
qed

theorem lseek_inside_witness:
  "\<exists>r. cdrom_lseek demo_f 9000 SEEK_SET demo_file
      = Some (r, set_fh 0 ((get_fh 0 demo_file)\<lparr>position := r\<rparr>) demo_file) \<and> r \<le> 5000"
  using lseek_inside [of demo_file demo_f 9000 SEEK_SET] by auto

section \<open>A directory sector\<close>

text \<open>An entry \<open>A.C\<close> of 40 bytes at 0x1000, and an entry with a length and no name at 0x3000.\<close>

definition demo_dir :: mem where
  "demo_dir x = (if x = 0x1000 then 40 else if x = 0x1020 then 3 else if x = 0x1021 then 0x41
     else if x = 0x1022 then 0x2E else if x = 0x1023 then 0x43 else if x = 0x3000 then 40 else 0)"

theorem scan_sector_stuck_witness: "scan_sector demo_dir 0x3000 [0x41] False 0 = None"
  by (rule scan_sector_stuck)
    (simp_all add: dirTocEntry_at_def get_u16_def demo_dir_def word_sless_alt)

section \<open>Positions and control\<close>

text \<open>Sector 1234 is 18 seconds and 34 frames (with the lead-in): the tens are lost.\<close>

theorem PosToInt_IntToPos_witness:
  "sceCdPosToInt (sceCdIntToPos 1234 \<lparr>minute = 0, second = 0, sector = 0, track = 0\<rparr>) = 454"
  using PosToInt_IntToPos [of 1234 "\<lparr>minute = 0, second = 0, sector = 0, track = 0\<rparr>"] by simp

text \<open>A mechacon: the parameters so far, or an answer to come after some busy polls.\<close>

type_synonym demo_mecha = "nat \<times> bool \<times> u8 list"

definition demo_answer :: "u8 \<Rightarrow> u8 list \<Rightarrow> u8 list" where
  "demo_answer cmd inp = cmd # inp"

definition demo_regs :: "demo_mecha scmd_regs" where
  "demo_regs = \<lparr>
     rd_SDATAIN = (\<lambda>(n, w, bs).
       if \<not> w then (0x40, (n, w, bs)) else if n > 0 then (0x80, (n - 1, w, bs))
       else if bs = [] then (0x40, (0, False, [])) else (0, (n, w, bs))),
     rd_SDATAOUT = (\<lambda>(n, w, bs). (hd bs, (n, w, tl bs))),
     wr_SDATAIN = (\<lambda>b (n, w, bs). (n, w, bs @ [b])),
     wr_SCOMMAND = (\<lambda>c (n, w, bs). (2, True, demo_answer c bs)),
     rd_SCOMMAND = (\<lambda>h. (0, h))\<rparr>"

definition demo_listening :: "demo_mecha \<Rightarrow> u8 list \<Rightarrow> bool" where
  "demo_listening h ps \<longleftrightarrow> h = (0, False, ps)"

definition demo_working :: "demo_mecha \<Rightarrow> nat \<Rightarrow> u8 list \<Rightarrow> bool" where
  "demo_working h n out \<longleftrightarrow> h = (n, True, out) \<or> n = 0 \<and> out = [] \<and> h = (0, False, [])"

lemma demo_mechacon: "mechacon demo_regs demo_listening demo_working demo_answer"
  by (auto simp: mechacon_def demo_regs_def demo_listening_def demo_working_def)

theorem writeSCmd_answers_witness:
  "\<exists>h'. cdvdman_writeSCmd demo_regs 0x12 [1, 2] 2 (demo_file, (0, False, [])) = Some (1, [0x12, 1], demo_file, h')"
proof -
  have "demo_listening (0, False, []) []" by (simp add: demo_listening_def)
  from writeSCmd_answers [OF demo_mechacon this, of demo_file "0x12" "[1, 2]" 2] show ?thesis
    by (auto simp: demo_answer_def)
qed

theorem devctl_unknown_witness:
  "cdrom_devctl DeviceReadSectors_bdm demo_regs [] 0x4399 0 0 (demo_file, (0, False, []))
     = Some (-5, demo_file, (0, False, []))"
  by (rule devctl_unknown) (simp_all add: CDIOC_table_def)


theorem sendSCmd_busy_witness:
  "\<exists>h'. cdvdman_sendSCmd (demo_regs\<lparr>rd_SDATAIN := (\<lambda>h. (0x80, h))\<rparr>) 0x12 [] 9 (demo_file, (0, False, []))
    = Some (1, [], demo_file\<lparr>slept := slept demo_file + 2502 * 2000\<rparr>, h')"
  by (rule sendSCmd_busy) simp_all

end
