(* ===== verification/Hdpro.thy ===== *)
theory Hdpro
  imports Atad
begin

text \<open>
  The disk driver for the HD Pro kit (cdvdman/hdpro_atad.c). The kit has no registers of its own
  in the address space: it listens on the first byte of the ROM, and an access to a register of
  the disk is a sequence of bytes written and read there, each followed by a write to a register
  of the CD drive. The kit, the kernel's alarm and the passing of time are the functions of a
  record. The driver has the interface of atad.c and shares its numbers, its task file and the
  intervals of its polls; its definitions end in \<open>_hp\<close> where atad.c has the name too.
\<close>

section \<open>The port\<close>

text \<open>
  \<open>strobe\<close> is the write of 0 to \<open>CDVDreg_STATUS\<close>; \<open>SetAlarm_result\<close> is the kernel's answer to
  \<open>SetAlarm\<close>, \<open>alarm_due\<close> says whether the alarm's time is over.
\<close>

record 'h port =
  wr_io8 :: "u8 \<Rightarrow> 'h \<Rightarrow> 'h"
  rd_io8 :: "'h \<Rightarrow> u8 \<times> 'h"
  rd_io32 :: "'h \<Rightarrow> u32 \<times> 'h"
  strobe :: "'h \<Rightarrow> 'h"
  hp_delay :: "nat \<Rightarrow> 'h \<Rightarrow> 'h"
  SetAlarm_result :: "'h \<Rightarrow> int"
  alarm_due :: "'h \<Rightarrow> bool"

definition out8 :: "'h port \<Rightarrow> u8 \<Rightarrow> 'h \<Rightarrow> 'h" where
  "out8 port v h = strobe port (wr_io8 port v h)"

definition in8 :: "'h port \<Rightarrow> 'h \<Rightarrow> u8 \<times> 'h" where
  "in8 port h = (let (v, h1) = rd_io8 port h in (v, strobe port h1))"

text \<open>Two bytes, the low one first.\<close>

definition in16 :: "'h port \<Rightarrow> 'h \<Rightarrow> u16 \<times> 'h" where
  "in16 port h = (let (v0, h1) = in8 port h; (v1, h2) = in8 port h1 in (ucast v0 OR push_bit 8 (ucast v1), h2))"

text \<open>The sequences on the port, apart from the state of the driver.\<close>

definition wire_read :: "'h port \<Rightarrow> u8 \<Rightarrow> 'h \<Rightarrow> u16 \<times> 'h" where
  "wire_read port cmd h = in16 port (out8 port cmd h)"

definition wire_write :: "'h port \<Rightarrow> u8 \<Rightarrow> u16 \<Rightarrow> 'h \<Rightarrow> 'h" where
  "wire_write port cmd v h = out8 port (ucast (drop_bit 8 v)) (out8 port (ucast v) (out8 port cmd h))"

definition wire_start :: "'h port \<Rightarrow> 'h \<Rightarrow> u8 \<times> 'h" where
  "wire_start port h = in8 port (out8 port 0x61 (out8 port 0x34 (out8 port 0x72 h)))"

definition wire_ack :: "'h port \<Rightarrow> 'h \<Rightarrow> u8 \<times> 'h" where
  "wire_ack port h = in8 port (out8 port 0x21 h)"

section \<open>Numbers\<close>

definition ATAreg_CONTROL_RD :: u8 where "ATAreg_CONTROL_RD = 0x68"
definition ATAreg_SELECT_RD :: u8 where "ATAreg_SELECT_RD = 0x70"
definition ATAreg_STATUS_RD :: u8 where "ATAreg_STATUS_RD = 0xf0"
definition ATAreg_ERROR_RD :: u8 where "ATAreg_ERROR_RD = 0x90"
definition ATAreg_DATA_RD :: u8 where "ATAreg_DATA_RD = 0x41"
definition ATAreg_CONTROL_WR :: u8 where "ATAreg_CONTROL_WR = 0x6a"
definition ATAreg_SELECT_WR :: u8 where "ATAreg_SELECT_WR = 0x72"
definition ATAreg_COMMAND_WR :: u8 where "ATAreg_COMMAND_WR = 0xf2"
definition ATAreg_FEATURE_WR :: u8 where "ATAreg_FEATURE_WR = 0x92"
definition ATAreg_NSECTOR_WR :: u8 where "ATAreg_NSECTOR_WR = 0x52"
definition ATAreg_SECTOR_WR :: u8 where "ATAreg_SECTOR_WR = 0xd2"
definition ATAreg_LCYL_WR :: u8 where "ATAreg_LCYL_WR = 0x32"
definition ATAreg_HCYL_WR :: u8 where "ATAreg_HCYL_WR = 0xb2"
definition ATAreg_DATA_WR :: u8 where "ATAreg_DATA_WR = 0x12"

definition ATA_RES_ERR_NODATA :: int where [simp]: "ATA_RES_ERR_NODATA = - 504"
definition ATA_C_READ_SECTOR :: u16 where [simp]: "ATA_C_READ_SECTOR = 0x20"
definition ATA_C_READ_SECTOR_EXT :: u16 where [simp]: "ATA_C_READ_SECTOR_EXT = 0x24"
definition ATA_C_WRITE_SECTOR :: u16 where [simp]: "ATA_C_WRITE_SECTOR = 0x30"
definition ATA_C_WRITE_SECTOR_EXT :: u16 where [simp]: "ATA_C_WRITE_SECTOR_EXT = 0x34"
definition ATA_STAT_DRQ :: u16 where [simp]: "ATA_STAT_DRQ = 8"

text \<open>Type 2 is PIO in, 3 PIO out.\<close>

definition ata_cmd_table_hp :: "(u8 \<times> u8) list" where
  "ata_cmd_table_hp = [(0xEC, 0x02), (0xA1, 0x02), (0xB0, 0x07), (0xEF, 0x01), (0xE3, 0x01),
     (0x20, 0x02), (0x24, 0x82), (0x30, 0x03), (0x34, 0x83)]"

definition smart_cmd_table_hp :: "(u8 \<times> u8) list" where
  "smart_cmd_table_hp = [(0xD8, 0x01)]"

section \<open>State and register access\<close>

text \<open>\<open>cmd_buf\<close> is the pointer of the union, which a transfer moves along.\<close>

record hp_cmd_state =
  cmd_type_hp :: u32
  cmd_buf :: u32
  cmd_blkcount :: u32

record 'h hdpro =
  hp_hw :: 'h
  hdpro_io_active :: bool
  intr_suspended :: bool
  hp_evflg :: u32
  hp_alarm :: bool
  hp_cmd :: hp_cmd_state
  hp_io_sema :: nat

definition suspend_intr :: "'h hdpro \<Rightarrow> 'h hdpro" where
  "suspend_intr s = (if \<not> intr_suspended s then s\<lparr>intr_suspended := True\<rparr> else s)"

definition resume_intr :: "'h hdpro \<Rightarrow> 'h hdpro" where
  "resume_intr s = (if intr_suspended s then s\<lparr>intr_suspended := False\<rparr> else s)"

text \<open>A sequence with the interrupts off.\<close>

definition on_port :: "('h \<Rightarrow> 'v \<times> 'h) \<Rightarrow> 'h hdpro \<Rightarrow> 'v \<times> 'h hdpro" where
  "on_port f s = (let s1 = suspend_intr s; (v, h) = f (hp_hw s1) in (v, resume_intr (s1\<lparr>hp_hw := h\<rparr>)))"

definition DelayThread_hp :: "'h port \<Rightarrow> nat \<Rightarrow> 'h hdpro \<Rightarrow> 'h hdpro" where
  "DelayThread_hp port n s = s\<lparr>hp_hw := hp_delay port n (hp_hw s)\<rparr>"

definition hdpro_io_write :: "'h port \<Rightarrow> u8 \<Rightarrow> u16 \<Rightarrow> 'h hdpro \<Rightarrow> 'h hdpro" where
  "hdpro_io_write port cmd v s = snd (on_port (\<lambda>h. ((), wire_write port cmd v h)) s)"

definition hdpro_io_read :: "'h port \<Rightarrow> u8 \<Rightarrow> 'h hdpro \<Rightarrow> u16 \<times> 'h hdpro" where
  "hdpro_io_read port cmd s = on_port (wire_read port cmd) s"

text \<open>True: the kit answered. When it is in use already the answer is 0 all the same.\<close>

definition hdpro_io_start :: "'h port \<Rightarrow> 'h hdpro \<Rightarrow> bool \<times> 'h hdpro" where
  "hdpro_io_start port s =
     (if hdpro_io_active s then (False, s)
      else let (v, s1) = on_port (wire_start port) s; s2 = s1\<lparr>hdpro_io_active := (v = 0xe7)\<rparr>
           in (hdpro_io_active s2, s2))"

definition hdpro_io_finish :: "'h port \<Rightarrow> 'h hdpro \<Rightarrow> bool \<times> 'h hdpro" where
  "hdpro_io_finish port s =
     (if \<not> hdpro_io_active s then (False, s)
      else let s1 = DelayThread_hp port 200 (snd (on_port (\<lambda>h. ((), out8 port 0xf3 h)) s));
               (v, h) = rd_io32 port (hp_hw s1);
               s2 = s1\<lparr>hp_hw := h, hdpro_io_active := v \<noteq> 0x401a7800\<rparr>
           in (\<not> hdpro_io_active s2, s2))"

definition ata_get_error_hp :: "'h port \<Rightarrow> 'h hdpro \<Rightarrow> u16 \<times> 'h hdpro" where
  "ata_get_error_hp port s = (let (v, s1) = hdpro_io_read port ATAreg_ERROR_RD s in (v AND 0xff, s1))"

section \<open>Waiting for the device\<close>

text \<open>Every poll opens and closes the port; a device that is not there reads as all ones, and the
  port is left closed.\<close>

primrec wait_busy_hp :: "'h port \<Rightarrow> u16 \<Rightarrow> nat list \<Rightarrow> 'h hdpro \<Rightarrow> int \<times> 'h hdpro" where
  "wait_busy_hp port bits [] s = (ATA_RES_ERR_TIMEOUT, snd (hdpro_io_start port s))"
| "wait_busy_hp port bits (d # ds) s =
     (let (v, s1) = hdpro_io_read port ATAreg_CONTROL_RD (snd (hdpro_io_start port s));
          s2 = snd (hdpro_io_finish port s1)
      in if v = 0xffff then (ATA_RES_ERR_TIMEOUT, s2)
         else if v AND bits = 0 then (0, snd (hdpro_io_start port s2))
         else wait_busy_hp port bits ds (if d = 0 then s2 else DelayThread_hp port d s2))"

definition gen_ata_wait_busy_hp :: "'h port \<Rightarrow> u16 \<Rightarrow> 'h hdpro \<Rightarrow> int \<times> 'h hdpro" where
  "gen_ata_wait_busy_hp port bits = wait_busy_hp port bits busy_delays"

definition ata_bus_reset_hp :: "'h port \<Rightarrow> 'h hdpro \<Rightarrow> int \<times> 'h hdpro" where
  "ata_bus_reset_hp port s =
     (let pulse = (\<lambda>v. snd \<circ> on_port (\<lambda>h. ((), out8 port v (out8 port 0x13 h))));
          s1 = DelayThread_hp port 100 (pulse 0 s)
      in gen_ata_wait_busy_hp port 0x80 (DelayThread_hp port 3000 (pulse 1 s1)))"

definition ata_device_select_hp :: "'h port \<Rightarrow> u16 \<Rightarrow> 'h hdpro \<Rightarrow> int \<times> 'h hdpro" where
  "ata_device_select_hp port device s =
     (let (res, s1) = gen_ata_wait_busy_hp port 0x88 s
      in if res < 0 then (res, s1)
         else let (v, s2) = hdpro_io_read port ATAreg_SELECT_RD s1
              in if drop_bit 4 v AND 1 = device then (0, s2)
                 else let s3 = hdpro_io_write port ATAreg_SELECT_WR (push_bit 4 (device AND 1)) s2;
                          s4 = snd (hdpro_io_read port ATAreg_CONTROL_RD s3)
                      in gen_ata_wait_busy_hp port 0x88 s4)"

text \<open>\<open>atad_start\<close>: \<open>ev\<close> is what \<open>CreateEventFlag\<close> gives.\<close>

definition atad_start_hp :: "'h port \<Rightarrow> int \<Rightarrow> 'h hdpro \<Rightarrow> int \<times> 'h hdpro" where
  "atad_start_hp port ev s =
     (if ev < 0 then (1, snd (hdpro_io_finish port s))
      else let s1 = snd (hdpro_io_start port (s\<lparr>hp_evflg := 0\<rparr>));
               s2 = s1\<lparr>hp_hw := out8 port 0xe3 (hp_hw s1)\<rparr>;
               (r, s3) = ata_bus_reset_hp port s2
           in if r \<noteq> 0 then (1, snd (hdpro_io_finish port s3))
              else (0, snd (hdpro_io_finish port (s3\<lparr>hp_io_sema := 1\<rparr>))))"

section \<open>\<open>ata_io_start\<close>\<close>

definition cmd_type_of :: "taskfile \<Rightarrow> u8" where
  "cmd_type_of t =
     (let (table, cmd) = (if t_command t = ATA_C_SMART then (smart_cmd_table_hp, ucast (t_feature t))
                          else (ata_cmd_table_hp, ucast (t_command t)))
      in case map_of table cmd of Some ty \<Rightarrow> ty | None \<Rightarrow> 0)"

definition write_task_hp :: "'h port \<Rightarrow> bool \<Rightarrow> taskfile \<Rightarrow> 'h hdpro \<Rightarrow> 'h hdpro" where
  "write_task_hp port ext t s =
     (let wr = hdpro_io_write port;
          s1 = (if ext
            then wr ATAreg_HCYL_WR (drop_bit 8 (t_hcyl t)) (wr ATAreg_LCYL_WR (drop_bit 8 (t_lcyl t))
                   (wr ATAreg_SECTOR_WR (drop_bit 8 (t_sector t)) (wr ATAreg_NSECTOR_WR (drop_bit 8 (t_nsector t))
                     (wr ATAreg_FEATURE_WR (drop_bit 8 (t_feature t)) s))))
            else s)
      in wr ATAreg_COMMAND_WR (t_command t AND 0xff) (wr ATAreg_SELECT_WR ((t_select t OR ATA_SEL_LBA) AND 0xff)
           (wr ATAreg_HCYL_WR (t_hcyl t AND 0xff) (wr ATAreg_LCYL_WR (t_lcyl t AND 0xff)
             (wr ATAreg_SECTOR_WR (t_sector t AND 0xff) (wr ATAreg_NSECTOR_WR (t_nsector t AND 0xff)
               (wr ATAreg_FEATURE_WR (t_feature t AND 0xff) s1)))))))"

text \<open>Only a command without data has a timeout; the kernel may refuse the alarm.\<close>

definition ata_io_start_hp :: "'h port \<Rightarrow> u32 \<Rightarrow> u32 \<Rightarrow> taskfile \<Rightarrow> 'h hdpro \<Rightarrow> int \<times> 'h hdpro" where
  "ata_io_start_hp port buf blks t s =
     (let (res, s1) = ata_device_select_hp port (drop_bit 4 (t_select t) AND 1) (s\<lparr>hp_evflg := 0\<rparr>);
          type = cmd_type_of t; ty = type AND 0x7F;
          s2 = s1\<lparr>hp_cmd := (hp_cmd s1)\<lparr>cmd_type_hp := ucast ty\<rparr>\<rparr>
      in if res \<noteq> 0 then (res, s1)
         else if ty = 0 then (ATA_RES_ERR_CMD, s2)
         else let (v, s3) = hdpro_io_read port ATAreg_CONTROL_RD
                    (s2\<lparr>hp_cmd := (hp_cmd s2)\<lparr>cmd_buf := buf, cmd_blkcount := blks\<rparr>\<rparr>)
           in if v AND 0x40 = 0 \<and> t_command t \<notin> set sent_unready then (ATA_RES_ERR_NOTREADY, s3)
              else let using_timeout = (ty = 1 \<or> ty = 6); r = SetAlarm_result port (hp_hw s3)
                   in if using_timeout \<and> r < 0 then (r, s3)
                      else let s4 = (if using_timeout then s3\<lparr>hp_alarm := True\<rparr> else s3);
                               s5 = snd (on_port (wire_ack port) s4);
                               s6 = hdpro_io_write port ATAreg_CONTROL_WR (if using_timeout then 0 else 2) s5
                           in (0, write_task_hp port (type AND 0x80 \<noteq> 0) t s6))"

section \<open>PIO transfers\<close>

text \<open>The loops over the words of a block, with the checksum so far and the buffer.\<close>

primrec pio_in :: "'h port \<Rightarrow> nat \<Rightarrow> u32 \<Rightarrow> u32 \<Rightarrow> u32 \<Rightarrow> 'h \<times> mem \<Rightarrow> u32 \<times> u32 \<times> 'h \<times> mem" where
  "pio_in port 0 i chk buf q = (chk, buf, q)"
| "pio_in port (Suc n) i chk buf q =
     (let (w, h) = in16 port (fst q)
      in pio_in port n (i + 1) (chk XOR (ucast w + i)) (buf + 2) (h, write_bytes buf (bytes_u16 w) (snd q)))"

primrec pio_out :: "'h port \<Rightarrow> nat \<Rightarrow> u32 \<Rightarrow> u32 \<Rightarrow> u32 \<Rightarrow> mem \<Rightarrow> 'h hdpro \<Rightarrow> u32 \<times> u32 \<times> 'h hdpro" where
  "pio_out port 0 i chk buf m s = (chk, buf, s)"
| "pio_out port (Suc n) i chk buf m s =
     (let w = get_u16 m buf
      in pio_out port n (i + 1) (chk XOR (ucast w + i)) (buf + 2) m (hdpro_io_write port ATAreg_DATA_WR w s))"

text \<open>Type 8 sends four more bytes after the block.\<close>

primrec pio_tail :: "'h port \<Rightarrow> nat \<Rightarrow> u32 \<Rightarrow> mem \<Rightarrow> 'h hdpro \<Rightarrow> u32 \<times> 'h hdpro" where
  "pio_tail port 0 buf m s = (buf, s)"
| "pio_tail port (Suc n) buf m s = pio_tail port n (buf + 1) m (hdpro_io_write port ATAreg_DATA_WR (ucast (m buf)) s)"

definition set_cmd_buf :: "u32 \<Rightarrow> 'h hdpro \<Rightarrow> 'h hdpro" where
  "set_cmd_buf b s = s\<lparr>hp_cmd := (hp_cmd s)\<lparr>cmd_buf := b\<rparr>\<rparr>"

definition pio_block_out :: "'h port \<Rightarrow> 'h hdpro \<times> mem \<Rightarrow> int \<times> 'h hdpro \<times> mem" where
  "pio_block_out port q =
     (let s = fst q; m = snd q;
          (chk, b, s1) = pio_out port 256 0 0 (cmd_buf (hp_cmd s)) m (s\<lparr>hp_hw := out8 port 0x43 (hp_hw s)\<rparr>);
          (out, s2) = hdpro_io_read port ATAreg_DATA_RD (set_cmd_buf b s1)
      in if out \<noteq> ucast chk then (ATA_RES_ERR_NODATA, s2, m)
         else if cmd_type_hp (hp_cmd s) = 8
         then let (b', s3) = pio_tail port 4 b m s2 in (0, set_cmd_buf b' s3, m)
         else (0, s2, m))"

text \<open>The whole block is read with the interrupts off; the last strobe of 0x53 and of 0x51 is
  given twice.\<close>

definition pio_block_in :: "'h port \<Rightarrow> 'h hdpro \<times> mem \<Rightarrow> int \<times> 'h hdpro \<times> mem" where
  "pio_block_in port q =
     (let s = suspend_intr (fst q);
          (chk, b, h, m) = pio_in port 256 0 0 (cmd_buf (hp_cmd s)) (strobe port (out8 port 0x53 (hp_hw s)), snd q);
          s1 = resume_intr (set_cmd_buf b (s\<lparr>hp_hw := strobe port (out8 port 0x51 h)\<rparr>));
          (r_data, s2) = hdpro_io_read port ATAreg_DATA_RD s1
      in (if r_data \<noteq> ucast chk then ATA_RES_ERR_NODATA else 0, s2, m))"

definition ata_pio_transfer_hp :: "'h port \<Rightarrow> 'h hdpro \<times> mem \<Rightarrow> int \<times> 'h hdpro \<times> mem" where
  "ata_pio_transfer_hp port q =
     (let (status, s1) = hdpro_io_read port ATAreg_STATUS_RD (fst q); ty = cmd_type_hp (hp_cmd s1)
      in if status AND ATA_STAT_ERR \<noteq> 0 then (ATA_RES_ERR_IO, s1, snd q)
         else if status AND ATA_STAT_DRQ = 0 then (ATA_RES_ERR_NODATA, s1, snd q)
         else if ty = 3 \<or> ty = 8 then pio_block_out port (s1, snd q)
         else if ty = 2 then pio_block_in port (s1, snd q)
         else (0, s1, snd q))"

section \<open>\<open>ata_io_finish\<close>\<close>

text \<open>\<open>ata_alarm_cb\<close>, which the kernel calls when the alarm's time is over, and the poll of the
  event flag (0: some bit was set).\<close>

definition ata_alarm_cb_hp :: "'h hdpro \<Rightarrow> 'h hdpro" where
  "ata_alarm_cb_hp s = s\<lparr>hp_evflg := hp_evflg s OR ATA_EV_TIMEOUT, hp_alarm := False\<rparr>"

definition PollEventFlag_hp :: "'h port \<Rightarrow> 'h hdpro \<Rightarrow> u32 \<times> 'h hdpro" where
  "PollEventFlag_hp port s =
     (let s1 = (if hp_alarm s \<and> alarm_due port (hp_hw s) then ata_alarm_cb_hp s else s)
      in if hp_evflg s1 AND (ATA_EV_TIMEOUT OR ATA_EV_COMPLETE) \<noteq> 0 then (hp_evflg s1, s1\<lparr>hp_evflg := 0\<rparr>)
         else (0, s1))"

partial_function (option) poll_nondata :: "'h port \<Rightarrow> 'h hdpro \<Rightarrow> (int \<times> 'h hdpro) option" where
  "poll_nondata port s =
     (let (ret, s1) = on_port (wire_ack port) s
      in if ret AND 1 \<noteq> 0 then Some (0, s1)
         else let (bits, s2) = PollEventFlag_hp port s1
              in if bits AND ATA_EV_TIMEOUT \<noteq> 0 then Some (ATA_RES_ERR_TIMEOUT, s2)
                 else poll_nondata port (DelayThread_hp port 500 s2))"

definition set_blkcount :: "u32 \<Rightarrow> 'h hdpro \<Rightarrow> 'h hdpro" where
  "set_blkcount n s = s\<lparr>hp_cmd := (hp_cmd s)\<lparr>cmd_blkcount := n\<rparr>\<rparr>"

primrec pio_blocks :: "'h port \<Rightarrow> nat \<Rightarrow> 'h hdpro \<times> mem \<Rightarrow> int \<times> 'h hdpro \<times> mem" where
  "pio_blocks port 0 q = (0, set_blkcount (- 1) (fst q), snd q)"
| "pio_blocks port (Suc n) q =
     (let (r, s1, m1) = ata_pio_transfer_hp port (set_blkcount (of_nat n) (fst q), snd q)
      in if r < 0 then (r, s1, m1)
         else let (r', s2) = gen_ata_wait_busy_hp port 0x80 s1
              in if r' < 0 then (r', s2, m1) else pio_blocks port n (s2, m1))"

definition check_status_hp :: "'h port \<Rightarrow> 'h hdpro \<Rightarrow> int \<times> 'h hdpro" where
  "check_status_hp port s =
     (let (v, s1) = hdpro_io_read port ATAreg_STATUS_RD s;
          (res, s2) = (if v AND ATA_STAT_BUSY \<noteq> 0 then gen_ata_wait_busy_hp port 0x80 s1 else (0, s1));
          (stat, s3) = hdpro_io_read port ATAreg_STATUS_RD s2
      in (if stat AND ATA_STAT_ERR \<noteq> 0 then ATA_RES_ERR_IO else res, s3))"

text \<open>A timed-out command without data returns before the alarm is cancelled (it has gone off).\<close>

definition ata_io_finish_hp :: "'h port \<Rightarrow> 'h hdpro \<times> mem \<Rightarrow> (int \<times> 'h hdpro \<times> mem) option" where
  "ata_io_finish_hp port q =
     (let s = fst q; m = snd q; ty = cmd_type_hp (hp_cmd s);
          fin = (\<lambda>(res, s). (res, s\<lparr>hp_alarm := False\<rparr>))
      in if ty = 1 \<or> ty = 6
         then map_option (\<lambda>(r, s1).
                if r < 0 then (r, s1, m)
                else let (r', s2) = fin (check_status_hp port s1) in (r', s2, m)) (poll_nondata port s)
         else let (r, s1) = gen_ata_wait_busy_hp port 0x80 (snd (hdpro_io_read port ATAreg_CONTROL_RD s))
           in if r < 0 then let (r', s2) = fin (r, s1) in Some (r', s2, m)
              else let (r1, s2, m2) = pio_blocks port (unat (cmd_blkcount (hp_cmd s1))) (s1, m);
                       (r', s3) = fin (if r1 < 0 then (r1, s2) else check_status_hp port s2)
                   in Some (r', s3, m2))"

section \<open>\<open>ata_device_sector_io\<close>\<close>

definition io_task_hp :: "bool \<Rightarrow> bool \<Rightarrow> u16 \<Rightarrow> u32 \<Rightarrow> u32 \<Rightarrow> u32 \<Rightarrow> taskfile" where
  "io_task_hp vmc lba48 device lba len dir =
     (if lba48
      then \<lparr>t_feature = 0, t_nsector = ucast len, t_sector = ucast ((drop_bit 16 lba AND 0xff00) OR (lba AND 0xff)),
             t_lcyl = ucast (drop_bit 8 lba AND 0xff), t_hcyl = ucast (drop_bit 16 lba AND 0xff),
             t_select = push_bit 4 device,
             t_command = if dir = 1 \<and> vmc then ATA_C_WRITE_SECTOR_EXT else ATA_C_READ_SECTOR_EXT\<rparr>
      else \<lparr>t_feature = 0, t_nsector = ucast len, t_sector = ucast (lba AND 0xff),
             t_lcyl = ucast (drop_bit 8 lba AND 0xff), t_hcyl = ucast (drop_bit 16 lba AND 0xff),
             t_select = push_bit 4 device OR ucast (drop_bit 24 lba AND 0xf),
             t_command = if dir = 1 \<and> vmc then ATA_C_WRITE_SECTOR else ATA_C_READ_SECTOR\<rparr>)"

text \<open>A run that fails, when it is issued or later, is tried again for as long as it fails.\<close>

definition sector_run_hp ::
  "bool \<Rightarrow> bool \<Rightarrow> 'h port \<Rightarrow> u16 \<Rightarrow> u32 \<Rightarrow> u32 \<Rightarrow> u32 \<Rightarrow> u32 \<Rightarrow> 'h hdpro \<times> mem \<Rightarrow> (int \<times> 'h hdpro \<times> mem) option"
where
  "sector_run_hp vmc lba48 port device buf lba len dir q =
     (let (res, s1) = ata_io_start_hp port buf len (io_task_hp vmc lba48 device lba len dir) (fst q)
      in if res \<noteq> 0 then Some (res, s1, snd q) else ata_io_finish_hp port (s1, snd q))"

definition run_len :: "u32 \<Rightarrow> u32" where
  "run_len nsectors = (if nsectors > 256 then 256 else nsectors)"

partial_function (option) sector_loop_hp ::
  "bool \<Rightarrow> bool \<Rightarrow> 'h port \<Rightarrow> u16 \<Rightarrow> u32 \<Rightarrow> u32 \<Rightarrow> u32 \<Rightarrow> u32 \<Rightarrow> 'h hdpro \<times> mem \<Rightarrow> ('h hdpro \<times> mem) option"
where
  "sector_loop_hp vmc lba48 port device buf lba nsectors dir q =
     (if nsectors = 0 then Some q
      else Option.bind (sector_run_hp vmc lba48 port device buf lba (run_len nsectors) dir q) (\<lambda>(res, q').
             if res \<noteq> 0 then sector_loop_hp vmc lba48 port device buf lba nsectors dir q'
             else sector_loop_hp vmc lba48 port device (buf + run_len nsectors * 512) (lba + run_len nsectors)
                    (nsectors - run_len nsectors) dir q'))"

text \<open>The two early returns leave the semaphore of \<open>VMC_DRIVER\<close> taken.\<close>

definition ata_device_sector_io_hp ::
  "bool \<Rightarrow> bool \<Rightarrow> 'h port \<Rightarrow> u16 \<Rightarrow> u32 \<Rightarrow> u32 \<Rightarrow> u32 \<Rightarrow> u32 \<Rightarrow> 'h hdpro \<times> mem \<Rightarrow> (int \<times> 'h hdpro \<times> mem) option"
where
  "ata_device_sector_io_hp vmc lba48 port device buf lba nsectors dir q =
     (let s = fst q
      in if vmc \<and> hp_io_sema s = 0 then None
         else let (ok, s1) = hdpro_io_start port (if vmc then s\<lparr>hp_io_sema := hp_io_sema s - 1\<rparr> else s)
           in if \<not> ok then Some (- 1, s1, snd q)
              else Option.bind (sector_loop_hp vmc lba48 port device buf lba nsectors dir (s1, snd q)) (\<lambda>(s2, m2).
                     let (ok', s3) = hdpro_io_finish port s2
                     in if \<not> ok' then Some (- 2, s3, m2)
                        else Some (0, if vmc then s3\<lparr>hp_io_sema := 1\<rparr> else s3, m2)))"

end
