(* ===== verification/Hdpro_Delivers.thy ===== *)
theory Hdpro_Delivers
  imports Hdpro Atad_Delivers Device_Hdd
begin

text \<open>
  The HD Pro driver against a kit that keeps its protocol. \<open>kit_disk\<close> states the protocol as
  laws on the sequences of the port: whether the port is open, how many more polls may find the
  disk busy, and what the registers and the data of the disk show. The theorem: an access of any
  number of sectors comes back with success and the sectors are in memory. So the kit is a disk
  access for the hard disk driver as atad.c is.
\<close>

section \<open>The protocol of the kit\<close>

text \<open>
  \<open>kit_port\<close>: whether the port is open, or amid a sequence. \<open>kit_free\<close>: the last poll did not find the disk busy. \<open>kit_lag\<close> bounds the polls that find it
  busy. The task file, the sectors still to come and their numbers are those of \<open>ata_drive\<close>.
\<close>

datatype port_state = Closed | Opened | Amid

record kit =
  kit_port :: port_state
  kit_free :: bool
  kit_lag :: nat
  kit_task :: drive

definition calmer :: "kit \<Rightarrow> kit \<Rightarrow> bool" where
  "calmer v v' \<longleftrightarrow> (\<exists>k\<le>kit_lag v. v' = v\<lparr>kit_lag := k\<rparr>)"

text \<open>The checksum of the kit: every word and its index, added and put together.\<close>

definition kit_checksum :: "u16 list \<Rightarrow> u16" where
  "kit_checksum ws = fold (\<lambda>(i, w) c. c XOR (w + of_nat i)) (enumerate 0 ws) 0"

primrec words_in :: "'h port \<Rightarrow> nat \<Rightarrow> 'h \<Rightarrow> u16 list \<times> 'h" where
  "words_in port 0 h = ([], h)"
| "words_in port (Suc n) h =
     (let (w, h1) = in16 port h; (ws, h2) = words_in port n h1 in (w # ws, h2))"

text \<open>A block with the checksum read after it.\<close>

definition wire_block :: "'h port \<Rightarrow> 'h \<Rightarrow> u16 list \<times> u16 \<times> 'h" where
  "wire_block port h =
     (let (ws, h1) = words_in port 256 (strobe port (out8 port 0x53 h));
          (c, h2) = wire_read port ATAreg_DATA_RD (strobe port (out8 port 0x51 h1))
      in (ws, c, h2))"

definition kit_opens :: "'h port \<Rightarrow> ('h \<Rightarrow> kit) \<Rightarrow> bool" where
  "kit_opens port view \<longleftrightarrow>
     (\<forall>h. kit_port (view h) = Closed \<longrightarrow>
        fst (wire_start port h) = 0xe7 \<and> view (snd (wire_start port h)) = (view h)\<lparr>kit_port := Opened\<rparr> \<and>
        fst (rd_io32 port h) = 0x401a7800 \<and> view (snd (rd_io32 port h)) = view h) \<and>
     (\<forall>h. kit_port (view h) = Opened \<longrightarrow> view (out8 port 0xf3 h) = (view h)\<lparr>kit_port := Closed\<rparr>) \<and>
     (\<forall>h n. calmer (view h) (view (hp_delay port n h)))"

text \<open>A poll sees the disk free, or one poll fewer is left.\<close>

definition kit_polls :: "'h port \<Rightarrow> ('h \<Rightarrow> kit) \<Rightarrow> bool" where
  "kit_polls port view \<longleftrightarrow>
     (\<forall>h. kit_lag (view h) < 80) \<and>
     (\<forall>h v h'. kit_port (view h) = Opened \<and> wire_read port ATAreg_CONTROL_RD h = (v, h') \<longrightarrow>
        v \<noteq> 0xffff \<and>
        (if v AND 0x80 = 0
         then view h' = (view h)\<lparr>kit_free := True\<rparr> \<and> v AND 0x40 \<noteq> 0 \<and>
              (v AND 8 = 0 \<longleftrightarrow> todo (kit_task (view h)) = None)
         else \<not> kit_free (view h) \<and> kit_lag (view h') < kit_lag (view h) \<and>
              view h' = (view h)\<lparr>kit_lag := kit_lag (view h')\<rparr>))"

definition kit_ready :: "kit \<Rightarrow> bool" where
  "kit_ready v \<longleftrightarrow> kit_port v = Opened \<and> kit_free v"

definition kit_shows :: "'h port \<Rightarrow> ('h \<Rightarrow> kit) \<Rightarrow> bool" where
  "kit_shows port view \<longleftrightarrow>
     (\<forall>h. kit_ready (view h) \<longrightarrow>
        fst (wire_read port ATAreg_STATUS_RD h) AND 0x81 = 0 \<and>
        (fst (wire_read port ATAreg_STATUS_RD h) AND 8 = 0 \<longleftrightarrow> todo (kit_task (view h)) = None) \<and>
        view (snd (wire_read port ATAreg_STATUS_RD h)) = view h \<and>
        drop_bit 4 (fst (wire_read port ATAreg_SELECT_RD h)) AND 1 = drop_bit 4 (now (kit_task (view h)) r_select) AND 1 \<and>
        view (snd (wire_read port ATAreg_SELECT_RD h)) = view h \<and>
        view (snd (wire_ack port h)) = view h)"

definition kit_reg :: "u8 \<Rightarrow> ioreg option" where
  "kit_reg = map_of [(ATAreg_FEATURE_WR, r_feature), (ATAreg_NSECTOR_WR, r_nsector), (ATAreg_SECTOR_WR, r_sector),
     (ATAreg_LCYL_WR, r_lcyl), (ATAreg_HCYL_WR, r_hcyl), (ATAreg_SELECT_WR, r_select)]"

definition kit_issued :: "kit \<Rightarrow> u32 \<times> nat \<Rightarrow> kit \<Rightarrow> bool" where
  "kit_issued v t v' \<longleftrightarrow>
     (\<exists>k. v' = v\<lparr>kit_free := False, kit_lag := k, kit_task := (kit_task v)\<lparr>todo := Some t, intrq := False\<rparr>\<rparr>)"

definition kit_writes :: "'h port \<Rightarrow> ('h \<Rightarrow> kit) \<Rightarrow> bool" where
  "kit_writes port view \<longleftrightarrow>
     (\<forall>h rid r v. kit_ready (view h) \<and> kit_reg rid = Some r \<longrightarrow>
        view (wire_write port rid v h) = (view h)\<lparr>kit_task := put_reg r (v AND 0xff) (kit_task (view h))\<rparr>) \<and>
     (\<forall>h v. kit_ready (view h) \<longrightarrow> view (wire_write port ATAreg_CONTROL_WR v h) = view h) \<and>
     (\<forall>h. kit_ready (view h) \<and> todo (kit_task (view h)) = None \<longrightarrow>
        kit_issued (view h) (task28 (kit_task (view h))) (view (wire_write port ATAreg_COMMAND_WR 0x20 h))) \<and>
     (\<forall>h. kit_ready (view h) \<and> todo (kit_task (view h)) = None \<and> before (kit_task (view h)) r_lcyl = 0 \<and>
          before (kit_task (view h)) r_hcyl = 0 \<longrightarrow>
        kit_issued (view h) (task48 (kit_task (view h))) (view (wire_write port ATAreg_COMMAND_WR 0x24 h)))"

definition kit_blocks :: "'h port \<Rightarrow> ('h \<Rightarrow> kit) \<Rightarrow> (u32 \<Rightarrow> u8 list) \<Rightarrow> bool" where
  "kit_blocks port view store \<longleftrightarrow>
     (\<forall>h l n ws c h'. kit_ready (view h) \<and> todo (kit_task (view h)) = Some (l, n) \<and> wire_block port h = (ws, c, h') \<longrightarrow>
        concat (map bytes_u16 ws) = store l \<and> c = kit_checksum ws \<and>
        (\<exists>k. view h' = (view h)\<lparr>kit_free := False, kit_lag := k, kit_task := moved 1 (kit_task (view h))\<rparr>))"

definition kit_disk :: "'h port \<Rightarrow> ('h \<Rightarrow> kit) \<Rightarrow> (u32 \<Rightarrow> u8 list) \<Rightarrow> bool" where
  "kit_disk port view store \<longleftrightarrow> (\<forall>l. length (store l) = 512) \<and> kit_opens port view \<and> kit_polls port view \<and>
     kit_shows port view \<and> kit_writes port view \<and> kit_blocks port view store"

section \<open>Single accesses\<close>

definition kit_view :: "('h \<Rightarrow> kit) \<Rightarrow> 'h hdpro \<Rightarrow> kit" where
  "kit_view view s = view (hp_hw s)"

text \<open>Between accesses interrupts are on and the driver knows whether the port is open.\<close>

definition hp_settled :: "('h \<Rightarrow> kit) \<Rightarrow> 'h hdpro \<Rightarrow> bool" where
  "hp_settled view s \<longleftrightarrow> \<not> intr_suspended s \<and> kit_port (kit_view view s) = (if hdpro_io_active s then Opened else Closed)"

definition hp_ready :: "('h \<Rightarrow> kit) \<Rightarrow> 'h hdpro \<Rightarrow> bool" where
  "hp_ready view s \<longleftrightarrow> \<not> intr_suspended s \<and> hdpro_io_active s \<and> kit_ready (kit_view view s)"

lemma hp_ready_settled: "hp_ready view s \<Longrightarrow> hp_settled view s"
  by (simp add: hp_ready_def hp_settled_def kit_ready_def)

lemma hw_first: "s\<lparr>hdpro_io_active := b, hp_hw := h\<rparr> = s\<lparr>hp_hw := h, hdpro_io_active := b\<rparr>"
  by simp

lemma on_port_eq:
  assumes "\<not> intr_suspended s"
  shows "on_port f s = (fst (f (hp_hw s)), s\<lparr>hp_hw := snd (f (hp_hw s))\<rparr>)"
  using assms by (cases s) (simp add: on_port_def suspend_intr_def resume_intr_def split_def Let_def)

lemma io_read_eq:
  "\<not> intr_suspended s \<Longrightarrow> hdpro_io_read port cmd s
     = (fst (wire_read port cmd (hp_hw s)), s\<lparr>hp_hw := snd (wire_read port cmd (hp_hw s))\<rparr>)"
  by (simp add: hdpro_io_read_def on_port_eq)

lemma io_write_eq:
  "\<not> intr_suspended s \<Longrightarrow> hdpro_io_write port cmd v s = s\<lparr>hp_hw := wire_write port cmd v (hp_hw s)\<rparr>"
  by (simp add: hdpro_io_write_def on_port_eq)

lemma kit_opensD:
  assumes "kit_disk port view store"
  shows "kit_port (view h) = Closed \<Longrightarrow> fst (wire_start port h) = 0xe7"
    and "kit_port (view h) = Closed \<Longrightarrow> view (snd (wire_start port h)) = (view h)\<lparr>kit_port := Opened\<rparr>"
    and "kit_port (view h) = Closed \<Longrightarrow> fst (rd_io32 port h) = 0x401a7800"
    and "kit_port (view h) = Closed \<Longrightarrow> view (snd (rd_io32 port h)) = view h"
    and "kit_port (view h) = Opened \<Longrightarrow> view (out8 port 0xf3 h) = (view h)\<lparr>kit_port := Closed\<rparr>"
    and "\<exists>k\<le>kit_lag (view h). view (hp_delay port n h) = (view h)\<lparr>kit_lag := k\<rparr>"
  using assms by (auto simp: kit_disk_def kit_opens_def calmer_def)

lemma kit_shown:
  assumes "kit_disk port view store" and "kit_ready (view h)"
  shows "fst (wire_read port ATAreg_STATUS_RD h) AND 0x81 = 0"
    and "fst (wire_read port ATAreg_STATUS_RD h) AND 8 = 0 \<longleftrightarrow> todo (kit_task (view h)) = None"
    and "view (snd (wire_read port ATAreg_STATUS_RD h)) = view h"
    and "view (snd (wire_read port ATAreg_SELECT_RD h)) = view h"
    and "view (snd (wire_ack port h)) = view h"
    and "view (wire_write port ATAreg_CONTROL_WR v h) = view h"
  using assms by (simp_all add: kit_disk_def kit_shows_def kit_writes_def)

lemma kit_free_poll:
  assumes "kit_disk port view store" and "kit_ready (view h)"
  shows "fst (wire_read port ATAreg_CONTROL_RD h) AND 0x40 \<noteq> 0"
    and "view (snd (wire_read port ATAreg_CONTROL_RD h)) = view h"
proof -
  obtain v h' where r: "wire_read port ATAreg_CONTROL_RD h = (v, h')" by (cases "wire_read port ATAreg_CONTROL_RD h")
  have "kit_port (view h) = Opened" "kit_free (view h)" using assms(2) by (simp_all add: kit_ready_def)
  moreover have "if v AND 0x80 = 0 then view h' = (view h)\<lparr>kit_free := True\<rparr> \<and> v AND 0x40 \<noteq> 0 \<and>
      (v AND 8 = 0 \<longleftrightarrow> todo (kit_task (view h)) = None) else \<not> kit_free (view h)"
    using assms(1) r \<open>kit_port (view h) = Opened\<close> unfolding kit_disk_def kit_polls_def by (auto split: if_splits)
  ultimately have "view h' = (view h)\<lparr>kit_free := True\<rparr>" "v AND 0x40 \<noteq> 0" by (simp_all split: if_splits)
  then show "fst (wire_read port ATAreg_CONTROL_RD h) AND 0x40 \<noteq> 0"
    "view (snd (wire_read port ATAreg_CONTROL_RD h)) = view h"
    using r \<open>kit_free (view h)\<close> by simp_all
qed

lemma kit_written:
  assumes "kit_disk port view store" and "kit_ready (view h)" and "kit_reg rid = Some r"
  shows "view (wire_write port rid v h) = (view h)\<lparr>kit_task := put_reg r (v AND 0xff) (kit_task (view h))\<rparr>"
  using assms by (simp add: kit_disk_def kit_writes_def)

section \<open>Waiting\<close>

lemma io_start_opens:
  assumes D: "kit_disk port view store" and s: "hp_settled view s"
  shows "\<exists>h. snd (hdpro_io_start port s) = s\<lparr>hp_hw := h, hdpro_io_active := True\<rparr> \<and>
    view h = (kit_view view s)\<lparr>kit_port := Opened\<rparr>"
proof (cases "hdpro_io_active s")
  case True
  then have "s\<lparr>hp_hw := hp_hw s, hdpro_io_active := True\<rparr> = s" by simp
  moreover have "kit_view view s = (kit_view view s)\<lparr>kit_port := Opened\<rparr>"
    using True s by (simp add: hp_settled_def)
  ultimately show ?thesis
    using True by (intro exI [of _ "hp_hw s"]) (simp add: hdpro_io_start_def kit_view_def)
next
  case False
  then have "kit_port (view (hp_hw s)) = Closed" using s by (simp add: hp_settled_def kit_view_def)
  then show ?thesis
    using False s by (intro exI [of _ "snd (wire_start port (hp_hw s))"])
      (simp add: hdpro_io_start_def on_port_eq hp_settled_def split_def Let_def kit_opensD [OF D] kit_view_def)
qed

lemma io_start_answer:
  "\<not> hdpro_io_active s \<Longrightarrow>
     hdpro_io_start port s = (hdpro_io_active (snd (hdpro_io_start port s)), snd (hdpro_io_start port s))"
  by (simp add: hdpro_io_start_def split_def Let_def)

lemma io_finish_closes:
  assumes D: "kit_disk port view store" and s: "hp_settled view s" and "hdpro_io_active s"
  shows "\<exists>h k. hdpro_io_finish port s = (True, s\<lparr>hp_hw := h, hdpro_io_active := False\<rparr>) \<and> k \<le> kit_lag (kit_view view s) \<and>
    view h = (kit_view view s)\<lparr>kit_port := Closed, kit_lag := k\<rparr>"
proof -
  let ?h1 = "out8 port 0xf3 (hp_hw s)"
  have v1: "view ?h1 = (kit_view view s)\<lparr>kit_port := Closed\<rparr>"
    using kit_opensD(5) [OF D] s assms(3) by (simp add: hp_settled_def kit_view_def)
  obtain k where k: "k \<le> kit_lag (view ?h1)" "view (hp_delay port 200 ?h1) = (view ?h1)\<lparr>kit_lag := k\<rparr>"
    using kit_opensD(6) [OF D] by blast
  have c: "kit_port (view (hp_delay port 200 ?h1)) = Closed" using k(2) v1 by simp
  have "hdpro_io_finish port s = (True, s\<lparr>hp_hw := snd (rd_io32 port (hp_delay port 200 ?h1)), hdpro_io_active := False\<rparr>)"
    using assms(3) s kit_opensD(3) [OF D c]
    by (simp add: hdpro_io_finish_def on_port_eq hp_settled_def DelayThread_hp_def split_def Let_def)
  then show ?thesis using kit_opensD(4) [OF D c] k v1 by auto
qed

text \<open>A poll that finds the disk busy uses up one of those that may.\<close>

lemma poll_result:
  assumes "kit_disk port view store" and "kit_port (view h) = Opened"
  obtains v h' where "wire_read port ATAreg_CONTROL_RD h = (v, h')" and "v \<noteq> 0xffff"
    and "v AND 0x80 = 0" "v AND 8 = 0 \<longleftrightarrow> todo (kit_task (view h)) = None" "view h' = (view h)\<lparr>kit_free := True\<rparr>"
  | v h' k where "wire_read port ATAreg_CONTROL_RD h = (v, h')" and "v \<noteq> 0xffff"
    and "v AND 0x80 \<noteq> 0" "k < kit_lag (view h)" "view h' = (view h)\<lparr>kit_lag := k\<rparr>"
proof -
  obtain v h' where r: "wire_read port ATAreg_CONTROL_RD h = (v, h')" by (cases "wire_read port ATAreg_CONTROL_RD h")
  have law: "v \<noteq> 0xffff" "if v AND 0x80 = 0
         then view h' = (view h)\<lparr>kit_free := True\<rparr> \<and> v AND 0x40 \<noteq> 0 \<and>
              (v AND 8 = 0 \<longleftrightarrow> todo (kit_task (view h)) = None)
         else \<not> kit_free (view h) \<and> kit_lag (view h') < kit_lag (view h) \<and>
              view h' = (view h)\<lparr>kit_lag := kit_lag (view h')\<rparr>"
    using assms r unfolding kit_disk_def kit_polls_def by blast+
  show ?thesis
  proof (cases "v AND 0x80 = 0")
    case True
    with law that(1) [OF r] show ?thesis by simp
  next
    case False
    with law(2) have "kit_lag (view h') < kit_lag (view h)" "view h' = (view h)\<lparr>kit_lag := kit_lag (view h')\<rparr>"
      by (simp_all only: if_False)
    with law(1) False show ?thesis by (intro that(2) [OF r])
  qed
qed

text \<open>Between two polls the port is closed; after the last one it is opened again.\<close>

lemma finish_and_start:
  assumes D: "kit_disk port view store" and s: "hp_settled view (s\<lparr>hp_hw := h2, hdpro_io_active := True\<rparr>)"
  obtains h3 h4 k where "hdpro_io_finish port (s\<lparr>hp_hw := h2, hdpro_io_active := True\<rparr>)
      = (True, s\<lparr>hp_hw := h3, hdpro_io_active := False\<rparr>)"
    and "snd (hdpro_io_start port (s\<lparr>hp_hw := h3, hdpro_io_active := False\<rparr>)) = s\<lparr>hp_hw := h4, hdpro_io_active := True\<rparr>"
    and "view h4 = (view h2)\<lparr>kit_port := Opened, kit_lag := k\<rparr>"
proof -
  obtain h3 k where h3: "hdpro_io_finish port (s\<lparr>hp_hw := h2, hdpro_io_active := True\<rparr>)
      = (True, s\<lparr>hp_hw := h3, hdpro_io_active := False\<rparr>)" "view h3 = (view h2)\<lparr>kit_port := Closed, kit_lag := k\<rparr>"
    using io_finish_closes [OF D s] by (auto simp: kit_view_def)
  let ?s3 = "s\<lparr>hp_hw := h3, hdpro_io_active := False\<rparr>"
  have "hp_settled view ?s3" using s h3(2) by (simp add: hp_settled_def kit_view_def)
  then obtain h4 where "snd (hdpro_io_start port ?s3) = ?s3\<lparr>hp_hw := h4, hdpro_io_active := True\<rparr>"
    "view h4 = (view h3)\<lparr>kit_port := Opened\<rparr>"
    using io_start_opens [OF D, of ?s3] by (auto simp: kit_view_def)
  with h3 show thesis by (intro that [of h3 h4 k]) simp_all
qed

lemma wait_busy_free:
  assumes D: "kit_disk port view store"
    and bits: "bits = 0x80 \<or> bits = 0x88 \<and> todo (kit_task (kit_view view s)) = None"
    and "hp_settled view s" and "kit_lag (kit_view view s) < length ds"
  shows "\<exists>h k. wait_busy_hp port bits ds s = (0, s\<lparr>hp_hw := h, hdpro_io_active := True\<rparr>) \<and>
    view h = (kit_view view s)\<lparr>kit_port := Opened, kit_free := True, kit_lag := k\<rparr>"
  using bits assms(3-)
proof (induction ds arbitrary: s)
  case (Cons d ds)
  obtain h1 where h1: "snd (hdpro_io_start port s) = s\<lparr>hp_hw := h1, hdpro_io_active := True\<rparr>"
    "view h1 = (kit_view view s)\<lparr>kit_port := Opened\<rparr>"
    using io_start_opens [OF D Cons.prems(2)] by blast
  have on: "\<not> intr_suspended s" using Cons.prems(2) by (simp add: hp_settled_def)
  have read: "hdpro_io_read port ATAreg_CONTROL_RD (snd (hdpro_io_start port s))
      = (fst (wire_read port ATAreg_CONTROL_RD h1), s\<lparr>hp_hw := snd (wire_read port ATAreg_CONTROL_RD h1), hdpro_io_active := True\<rparr>)"
    using on by (simp add: h1(1) io_read_eq)
  have "kit_port (view h1) = Opened" using h1(2) by simp
  from D this show ?case
  proof (cases rule: poll_result)
    case (1 v h2)
    let ?s2 = "s\<lparr>hp_hw := h2, hdpro_io_active := True\<rparr>"
    have "hp_settled view ?s2" using on 1(5) h1(2) by (simp add: hp_settled_def kit_view_def)
    then obtain h3 h4 k where h3: "hdpro_io_finish port ?s2 = (True, s\<lparr>hp_hw := h3, hdpro_io_active := False\<rparr>)"
      "snd (hdpro_io_start port (s\<lparr>hp_hw := h3, hdpro_io_active := False\<rparr>)) = s\<lparr>hp_hw := h4, hdpro_io_active := True\<rparr>"
      "view h4 = (view h2)\<lparr>kit_port := Opened, kit_lag := k\<rparr>"
      by (rule finish_and_start [OF D])
    have "v AND bits = 0"
    proof -
      have "v AND 0x88 = (v AND 0x80) OR (v AND 8)" by (simp flip: bit.conj_disj_distrib)
      then show ?thesis using Cons.prems(1) 1(3,4) h1(2) by auto
    qed
    then have "wait_busy_hp port bits (d # ds) s = (0, s\<lparr>hp_hw := h4, hdpro_io_active := True\<rparr>)"
      using 1(1,2) h3(1,2) by (simp add: read)
    moreover have "view h4 = (kit_view view s)\<lparr>kit_port := Opened, kit_free := True, kit_lag := k\<rparr>"
      using h3(3) 1(5) h1(2) by simp
    ultimately show ?thesis by blast
  next
    case (2 v h2 k)
    let ?s2 = "s\<lparr>hp_hw := h2, hdpro_io_active := True\<rparr>"
    have "hp_settled view ?s2" using on 2(5) h1(2) by (simp add: hp_settled_def kit_view_def)
    then obtain h3 k3 where h3: "hdpro_io_finish port ?s2 = (True, ?s2\<lparr>hp_hw := h3, hdpro_io_active := False\<rparr>)"
      "k3 \<le> kit_lag (view h2)" "view h3 = (view h2)\<lparr>kit_port := Closed, kit_lag := k3\<rparr>"
      using io_finish_closes [OF D, of ?s2] by (auto simp: kit_view_def)
    define h4 where "h4 = (if d = 0 then h3 else hp_delay port d h3)"
    obtain k4 where k4: "k4 \<le> kit_lag (view h3)" "view h4 = (view h3)\<lparr>kit_lag := k4\<rparr>"
      using kit_opensD(6) [OF D, of h3 d] by (cases "d = 0") (auto simp: h4_def intro: that [of "kit_lag (view h3)"])
    let ?s4 = "s\<lparr>hp_hw := h4, hdpro_io_active := False\<rparr>"
    have busy: "v AND bits \<noteq> 0"
    proof
      assume "v AND bits = 0"
      moreover have "v AND 0x80 = (v AND 0x88) AND 0x80" by (simp add: and.assoc)
      ultimately show False using Cons.prems(1) 2(3) by auto
    qed
    have step: "wait_busy_hp port bits (d # ds) s = wait_busy_hp port bits ds ?s4"
      using 2(1,2) h3(1) busy by (simp add: read h4_def DelayThread_hp_def hw_first)
    have view4: "view h4 = (kit_view view s)\<lparr>kit_port := Closed, kit_lag := k4\<rparr>"
      using k4(2) h3(3) 2(5) h1(2) by simp
    have "k4 < length ds" using k4(1) h3(2,3) 2(4,5) h1(2) Cons.prems(3) by simp
    then obtain h k where h: "wait_busy_hp port bits ds ?s4 = (0, ?s4\<lparr>hp_hw := h, hdpro_io_active := True\<rparr>)"
      "view h = (kit_view view ?s4)\<lparr>kit_port := Opened, kit_free := True, kit_lag := k\<rparr>"
      using Cons.IH [of ?s4] Cons.prems(1) on view4 by (auto simp: hp_settled_def kit_view_def)
    have "view h = (kit_view view s)\<lparr>kit_port := Opened, kit_free := True, kit_lag := k\<rparr>"
      using h(2) view4 by (simp add: kit_view_def)
    moreover from h(1) have "wait_busy_hp port bits (d # ds) s = (0, s\<lparr>hp_hw := h, hdpro_io_active := True\<rparr>)"
      unfolding step by simp
    ultimately show ?thesis by blast
  qed
qed simp

lemma busy_delays_length: "length busy_delays = 80"
  by (simp add: busy_delays_def)

lemma wait_ready:
  assumes D: "kit_disk port view store"
    and bits: "bits = 0x80 \<or> bits = 0x88 \<and> todo (kit_task (kit_view view s)) = None"
    and "hp_settled view s" and "hdpro_io_active s"
  shows "\<exists>h. gen_ata_wait_busy_hp port bits s = (0, s\<lparr>hp_hw := h\<rparr>) \<and> kit_ready (view h) \<and>
    kit_task (view h) = kit_task (kit_view view s)"
proof -
  have "kit_lag (kit_view view s) < length busy_delays"
    using D by (simp add: busy_delays_length kit_disk_def kit_polls_def kit_view_def)
  then obtain h k where h: "wait_busy_hp port bits busy_delays s = (0, s\<lparr>hp_hw := h, hdpro_io_active := True\<rparr>)"
    "view h = (kit_view view s)\<lparr>kit_port := Opened, kit_free := True, kit_lag := k\<rparr>"
    using wait_busy_free [OF D bits assms(3)] by blast
  have "s\<lparr>hp_hw := h, hdpro_io_active := True\<rparr> = s\<lparr>hp_hw := h\<rparr>"
    using assms(4) by (cases s) simp
  then show ?thesis using h by (intro exI [of _ h]) (simp add: gen_ata_wait_busy_hp_def kit_ready_def)
qed

section \<open>Issuing a command\<close>

lemma select_ready:
  assumes D: "kit_disk port view store" and s: "hp_settled view s" "hdpro_io_active s"
    and idle: "todo (kit_task (kit_view view s)) = None"
  shows "\<exists>h. ata_device_select_hp port 0 s = (0, s\<lparr>hp_hw := h\<rparr>) \<and> kit_ready (view h) \<and> todo (kit_task (view h)) = None"
proof -
  obtain h1 where h1: "gen_ata_wait_busy_hp port 0x88 s = (0, s\<lparr>hp_hw := h1\<rparr>)" "kit_ready (view h1)"
    "kit_task (view h1) = kit_task (kit_view view s)"
    using wait_ready [OF D _ s, where bits = "0x88"] idle by blast
  have on: "\<not> intr_suspended s" using s(1) by (simp add: hp_settled_def)
  let ?h2 = "snd (wire_read port ATAreg_SELECT_RD h1)"
  let ?h3 = "snd (wire_read port ATAreg_CONTROL_RD (wire_write port ATAreg_SELECT_WR 0 ?h2))"
  have v2: "view ?h2 = view h1" by (rule kit_shown(4) [OF D h1(2)])
  have v2': "view (wire_write port ATAreg_SELECT_WR 0 ?h2) = (view h1)\<lparr>kit_task := put_reg r_select 0 (kit_task (view h1))\<rparr>"
  proof -
    have "kit_reg ATAreg_SELECT_WR = Some r_select" by code_simp
    then show ?thesis
      using kit_written [OF D, where h = ?h2 and rid = ATAreg_SELECT_WR and r = r_select and v = 0] h1(2) v2 by simp
  qed
  have v3: "view ?h3 = view (wire_write port ATAreg_SELECT_WR 0 ?h2)"
    by (rule kit_free_poll(2) [OF D]) (use v2' h1(2) in \<open>simp add: kit_ready_def\<close>)
  have "hp_settled view (s\<lparr>hp_hw := ?h3\<rparr>)" "todo (kit_task (kit_view view (s\<lparr>hp_hw := ?h3\<rparr>))) = None"
    using on s(2) h1(2,3) idle v2' v3 by (simp_all add: hp_settled_def kit_view_def kit_ready_def put_reg_def)
  then obtain h4 where h4: "gen_ata_wait_busy_hp port 0x88 (s\<lparr>hp_hw := ?h3\<rparr>) = (0, s\<lparr>hp_hw := h4\<rparr>)" "kit_ready (view h4)"
    "todo (kit_task (view h4)) = None"
    using wait_ready [OF D, where bits = "0x88" and s = "s\<lparr>hp_hw := ?h3\<rparr>"] s(2) by auto
  have "ata_device_select_hp port 0 s
      = (0, s\<lparr>hp_hw := if drop_bit 4 (fst (wire_read port ATAreg_SELECT_RD h1)) AND 1 = 0 then ?h2 else h4\<rparr>)"
    using on h4(1) by (simp add: ata_device_select_hp_def h1(1) io_read_eq io_write_eq split_def Let_def)
  then show ?thesis using h1(2,3) h4(2,3) v2 idle by auto
qed

lemma kit_ready_task [simp]: "kit_ready (v\<lparr>kit_task := d\<rparr>) = kit_ready v"
  by (simp add: kit_ready_def)

lemma kit_regs:
  "kit_reg ATAreg_FEATURE_WR = Some r_feature" "kit_reg ATAreg_NSECTOR_WR = Some r_nsector"
  "kit_reg ATAreg_SECTOR_WR = Some r_sector" "kit_reg ATAreg_LCYL_WR = Some r_lcyl"
  "kit_reg ATAreg_HCYL_WR = Some r_hcyl" "kit_reg ATAreg_SELECT_WR = Some r_select"
  by code_simp+

lemma put_task_command: "put_task ext (io_task_hp vmc l i lba len dir) = put_task ext (io_task vmc l i lba len dir)"
  by (simp add: put_task_def io_task_hp_def io_task_def fun_eq_iff)

text \<open>The state after writes to the task file only.\<close>

definition wrote :: "('h \<Rightarrow> kit) \<Rightarrow> 'h hdpro \<Rightarrow> drive \<Rightarrow> 'h hdpro \<Rightarrow> bool" where
  "wrote view s d u \<longleftrightarrow> u = s\<lparr>hp_hw := hp_hw u\<rparr> \<and> view (hp_hw u) = (kit_view view s)\<lparr>kit_task := d\<rparr>"

lemma wrote_refl: "wrote view s (kit_task (kit_view view s)) s"
  by (simp add: wrote_def kit_view_def)

lemma wrote_step:
  assumes D: "kit_disk port view store" and on: "\<not> intr_suspended s" and r: "kit_ready (kit_view view s)"
    and u: "wrote view s d u" and "kit_reg rid = Some reg"
  shows "wrote view s (put_reg reg (v AND 0xff) d) (hdpro_io_write port rid v u)"
proof -
  have w: "u = s\<lparr>hp_hw := hp_hw u\<rparr>" "view (hp_hw u) = (kit_view view s)\<lparr>kit_task := d\<rparr>" using u by (simp_all add: wrote_def)
  have "\<not> intr_suspended u" by (subst w(1)) (simp add: on)
  moreover have "view (wire_write port rid v (hp_hw u)) = (kit_view view s)\<lparr>kit_task := put_reg reg (v AND 0xff) d\<rparr>"
    using kit_written [OF D _ assms(5), of "hp_hw u"] w(2) r by simp
  moreover have "u\<lparr>hp_hw := h\<rparr> = s\<lparr>hp_hw := h\<rparr>" for h by (subst w(1)) simp
  ultimately show ?thesis by (simp add: wrote_def io_write_eq)
qed

lemma write_task_regs_hp:
  assumes D: "kit_disk port view store" and on: "\<not> intr_suspended s" and r: "kit_ready (kit_view view s)"
  shows "\<exists>u. write_task_hp port ext t s = hdpro_io_write port ATAreg_COMMAND_WR (t_command t AND 0xff) u \<and>
    wrote view s (put_task ext t (kit_task (kit_view view s))) u"
proof -
  have cong: "wrote view s d u \<Longrightarrow> d = d' \<Longrightarrow> wrote view s d' u" for d d' u by simp
  note step = wrote_step [OF D on r]
  show ?thesis
  proof (cases ext)
    case True
    show ?thesis
      unfolding write_task_hp_def Let_def if_P [OF True]
      by (intro exI conjI, rule refl, rule cong, (rule step kit_regs wrote_refl)+) (use True in \<open>simp add: put_task_def Let_def\<close>)
  next
    case False
    show ?thesis
      unfolding write_task_hp_def Let_def if_not_P [OF False]
      by (intro exI conjI, rule refl, rule cong, (rule step kit_regs wrote_refl)+) (use False in \<open>simp add: put_task_def Let_def\<close>)
  qed
qed

lemma kit_command:
  assumes D: "kit_disk port view store" and "kit_ready (view h)" and "todo (kit_task (view h)) = None"
    and "kit_task (view h) = put_task l (io_task vmc l 0 lba len 0) d" and n: "nameable l lba len"
  shows "\<exists>k. view (wire_write port ATAreg_COMMAND_WR (if l then 0x24 else 0x20) h)
    = (view h)\<lparr>kit_free := False, kit_lag := k, kit_task := (kit_task (view h))\<lparr>todo := Some (lba, unat len), intrq := False\<rparr>\<rparr>"
proof (cases l)
  case True
  then have "task48 (kit_task (view h)) = (lba, unat len)" "before (kit_task (view h)) r_lcyl = 0"
    "before (kit_task (view h)) r_hcyl = 0"
    using assms(4) n by (simp_all add: put_task_48)
  moreover from this have "kit_issued (view h) (task48 (kit_task (view h))) (view (wire_write port ATAreg_COMMAND_WR 0x24 h))"
    using assms(2,3) D unfolding kit_disk_def kit_writes_def by blast
  ultimately show ?thesis using True by (simp add: kit_issued_def)
next
  case False
  then have "task28 (kit_task (view h)) = (lba, unat len)" using assms(4) n by (simp add: put_task_28)
  moreover have "kit_issued (view h) (task28 (kit_task (view h))) (view (wire_write port ATAreg_COMMAND_WR 0x20 h))"
    using assms(2,3) D unfolding kit_disk_def kit_writes_def by blast
  ultimately show ?thesis using False by (simp add: kit_issued_def)
qed

lemma io_task_hp_facts:
  "drop_bit 4 (t_select (io_task_hp vmc l 0 lba len dir)) AND 1 = 0"
  "cmd_type_of (io_task_hp vmc l 0 lba len 0) = (if l then 0x82 else 2)"
  "t_command (io_task_hp vmc l 0 lba len 0) = (if l then 0x24 else 0x20)"
proof -
  have "t_select (io_task_hp vmc l 0 lba len dir) = t_select (io_task vmc l 0 lba len dir)"
    by (simp add: io_task_hp_def io_task_def)
  then show "drop_bit 4 (t_select (io_task_hp vmc l 0 lba len dir)) AND 1 = 0" by (simp only: io_task_select)
  show "cmd_type_of (io_task_hp vmc l 0 lba len 0) = (if l then 0x82 else 2)"
    by (simp add: cmd_type_of_def io_task_hp_def ata_cmd_table_hp_def Let_def)
  show "t_command (io_task_hp vmc l 0 lba len 0) = (if l then 0x24 else 0x20)"
    by (simp add: io_task_hp_def)
qed

text \<open>What an access leaves alone.\<close>

definition hp_keeps :: "'h hdpro \<Rightarrow> 'h hdpro \<Rightarrow> bool" where
  "hp_keeps s s' \<longleftrightarrow> s' = s\<lparr>hp_hw := hp_hw s', hp_evflg := hp_evflg s', hp_alarm := hp_alarm s', hp_cmd := hp_cmd s'\<rparr>"

lemma hp_keeps_refl [simp]: "hp_keeps s s"
  by (simp add: hp_keeps_def)

lemma hp_keeps_trans [trans]: "hp_keeps a b \<Longrightarrow> hp_keeps b c \<Longrightarrow> hp_keeps a c"
  by (cases a; cases b; cases c) (simp add: hp_keeps_def)

lemma hp_keeps_fields:
  assumes "hp_keeps s s'"
  shows "intr_suspended s' = intr_suspended s" and "hdpro_io_active s' = hdpro_io_active s"
    and "hp_io_sema s' = hp_io_sema s"
  using assms by (cases s; cases s'; simp add: hp_keeps_def)+

lemma hp_keeps_upd [simp]:
  "hp_keeps s (t\<lparr>hp_hw := h\<rparr>) = hp_keeps s t" "hp_keeps s (t\<lparr>hp_cmd := c\<rparr>) = hp_keeps s t"
  "hp_keeps s (t\<lparr>hp_evflg := e\<rparr>) = hp_keeps s t" "hp_keeps s (t\<lparr>hp_alarm := b\<rparr>) = hp_keeps s t"
  by (cases s; cases t; simp add: hp_keeps_def)+

lemma io_start_issues_hp:
  assumes D: "kit_disk port view store" and s: "hp_settled view s" "hdpro_io_active s"
    and idle: "todo (kit_task (kit_view view s)) = None" and n: "nameable l lba len"
  shows "\<exists>s'. ata_io_start_hp port buf len (io_task_hp vmc l 0 lba len 0) s = (0, s') \<and> hp_keeps s s' \<and>
    kit_port (kit_view view s') = Opened \<and> todo (kit_task (kit_view view s')) = Some (lba, unat len) \<and>
    hp_cmd s' = \<lparr>cmd_type_hp = 2, cmd_buf = buf, cmd_blkcount = len\<rparr>"
proof -
  let ?t = "io_task_hp vmc l 0 lba len 0" and ?s0 = "s\<lparr>hp_evflg := 0\<rparr>"
  define c where "c = \<lparr>cmd_type_hp = 2, cmd_buf = buf, cmd_blkcount = len\<rparr>"
  have on: "\<not> intr_suspended s" using s(1) by (simp add: hp_settled_def)
  have "hp_settled view ?s0" "hdpro_io_active ?s0" "todo (kit_task (kit_view view ?s0)) = None"
    using s idle by (simp_all add: hp_settled_def kit_view_def)
  then obtain h1 where h1: "ata_device_select_hp port 0 ?s0 = (0, ?s0\<lparr>hp_hw := h1\<rparr>)" "kit_ready (view h1)"
    "todo (kit_task (view h1)) = None"
    using select_ready [OF D] by blast
  let ?h2 = "snd (wire_read port ATAreg_CONTROL_RD h1)"
  let ?h4 = "wire_write port ATAreg_CONTROL_WR 2 (snd (wire_ack port ?h2))"
  have v2: "view ?h2 = view h1" by (rule kit_free_poll(2) [OF D h1(2)])
  then have r2: "kit_ready (view ?h2)" using h1(2) by simp
  have v4: "view ?h4 = view h1" using kit_shown(5,6) [OF D] r2 v2 by simp
  let ?s4 = "s\<lparr>hp_evflg := 0, hp_cmd := c, hp_hw := ?h4\<rparr>"
  have "\<not> intr_suspended ?s4" "kit_ready (kit_view view ?s4)" using on v4 h1(2) by (simp_all add: kit_view_def)
  then obtain u where u: "write_task_hp port l ?t ?s4 = hdpro_io_write port ATAreg_COMMAND_WR (t_command ?t AND 0xff) u"
    "wrote view ?s4 (put_task l ?t (kit_task (kit_view view ?s4))) u"
    using write_task_regs_hp [OF D] by blast
  have hu: "u = ?s4\<lparr>hp_hw := hp_hw u\<rparr>" "view (hp_hw u) = (view h1)\<lparr>kit_task := put_task l ?t (kit_task (view h1))\<rparr>"
    using u(2) v4 by (simp_all add: wrote_def kit_view_def)
  obtain k where k: "view (wire_write port ATAreg_COMMAND_WR (if l then 0x24 else 0x20) (hp_hw u))
    = (view (hp_hw u))\<lparr>kit_free := False, kit_lag := k, kit_task := (kit_task (view (hp_hw u)))\<lparr>todo := Some (lba, unat len), intrq := False\<rparr>\<rparr>"
    using kit_command [OF D, where h = "hp_hw u" and l = l and vmc = vmc and d = "kit_task (view h1)", OF _ _ _ n]
      hu(2) h1(2,3) by (auto simp: put_task_command)
  have cmd: "t_command ?t AND 0xff = (if l then 0x24 else 0x20)" by (simp add: io_task_hp_facts)
  have onu: "\<not> intr_suspended u" by (subst hu(1)) (simp add: on)
  have start: "ata_io_start_hp port buf len ?t s = (0, write_task_hp port l ?t ?s4)"
  proof -
    have type: "cmd_type_of ?t AND 0x7F = 2" "(cmd_type_of ?t AND 0x80 \<noteq> 0) = l"
      by (simp_all add: io_task_hp_facts)
    have c: "(hp_cmd s)\<lparr>cmd_type_hp := 2, cmd_buf := buf, cmd_blkcount := len\<rparr> = c" by (simp add: c_def)
    show ?thesis
      unfolding ata_io_start_hp_def io_task_hp_facts(1) h1(1) Let_def prod.case type
      using kit_free_poll(1) [OF D h1(2)] on c by (simp add: io_read_eq io_write_eq on_port_eq split_def)
  qed
  let ?s' = "u\<lparr>hp_hw := wire_write port ATAreg_COMMAND_WR (if l then 0x24 else 0x20) (hp_hw u)\<rparr>"
  have res: "ata_io_start_hp port buf len ?t s = (0, ?s')"
    unfolding start u(1) cmd using onu by (simp add: io_write_eq)
  have "hp_keeps s u" "hp_cmd u = c" by (subst hu(1); simp)+
  then show ?thesis
    using res k hu(2) h1(2) by (intro exI [of _ ?s']) (simp add: kit_view_def kit_ready_def c_def)
qed

section \<open>Transferring blocks\<close>

lemma ucast_add: "(ucast (a + b :: u32) :: u16) = ucast a + ucast b"
proof -
  have u: "(ucast x :: u16) = of_nat (unat x)" for x :: u32 by simp
  have "unat (a + b) = (unat a + unat b) mod 2 ^ 32" by (simp add: unat_word_ariths)
  then have "take_bit 16 (unat (a + b)) = take_bit 16 (unat a + unat b)"
    by (simp add: take_bit_eq_mod mod_mod_cancel)
  then have "(of_nat (unat (a + b)) :: u16) = of_nat (unat a + unat b)"
    unfolding word_of_nat_eq_iff by simp
  then show ?thesis unfolding u by (simp only: of_nat_add)
qed

lemma ucast_ucast16: "(ucast (ucast w :: u32) :: u16) = w"
  by (auto simp: bit_simps intro!: bit_word_eqI dest: bit_imp_le_length)

lemma ucast_ofnat16: "(ucast (of_nat j :: u32) :: u16) = of_nat j"
proof -
  have "(ucast (of_nat j :: u32) :: u16) = of_nat (unat (of_nat j :: u32))" by simp
  also have "\<dots> = of_nat j" unfolding word_of_nat_eq_iff unat_of_nat by (simp add: take_bit_eq_mod mod_mod_cancel)
  finally show ?thesis .
qed

lemma ucast_step: "ucast (c XOR (ucast w + of_nat j)) = (ucast (c :: u32) :: u16) XOR (w + of_nat j)"
proof -
  have "ucast (c XOR x) = (ucast c :: u16) XOR ucast x" for x :: u32
    by (auto simp: bit_simps intro!: bit_word_eqI)
  then show ?thesis by (simp only: ucast_add ucast_ucast16 ucast_ofnat16)
qed

lemma pio_in_words:
  assumes "words_in port n h = (ws, h')" and "n * 2 \<le> 2 ^ 32"
  shows "\<exists>c. pio_in port n (of_nat k) chk buf (h, m)
      = (c, buf + of_nat (2 * n), h', write_bytes buf (concat (map bytes_u16 ws)) m) \<and>
    ucast c = fold (\<lambda>(j, w) c. c XOR (w + of_nat j)) (enumerate k ws) (ucast chk :: u16)"
  using assms
proof (induction n arbitrary: k chk buf h m ws)
  case (Suc n)
  obtain w h1 where w: "in16 port h = (w, h1)" by (cases "in16 port h")
  obtain ws1 h2 where w1: "words_in port n h1 = (ws1, h2)" by (cases "words_in port n h1")
  then have ws: "words_in port n h1 = (ws1, h')" "ws = w # ws1"
    using Suc.prems(1) w by simp_all
  have len: "length (concat (map bytes_u16 vs)) = 2 * length vs" for vs
    by (induction vs) (simp_all add: bytes_u16_def)
  have nws: "length ws1 = n"
  proof -
    have "length (fst (words_in port n x)) = n" for x
      by (induction n arbitrary: x) (simp_all add: split_def Let_def)
    from this [of h1] show ?thesis by (simp add: ws(1))
  qed
  let ?m1 = "write_bytes buf (bytes_u16 w) m" and ?chk = "chk XOR (ucast w + of_nat k)"
  obtain c where c: "pio_in port n (of_nat (Suc k)) ?chk (buf + 2) (h1, ?m1)
      = (c, buf + 2 + of_nat (2 * n), h', write_bytes (buf + 2) (concat (map bytes_u16 ws1)) ?m1)"
    "ucast c = fold (\<lambda>(j, w) c. c XOR (w + of_nat j)) (enumerate (Suc k) ws1) (ucast ?chk :: u16)"
    using Suc.IH [OF ws(1), of "Suc k" ?chk "buf + 2" ?m1] Suc.prems(2) by auto
  have "write_bytes (buf + 2) (concat (map bytes_u16 ws1)) ?m1 = write_bytes buf (concat (map bytes_u16 ws)) m"
  proof -
    have "length (bytes_u16 w) = 2" by (simp add: bytes_u16_def)
    then show ?thesis
      using Suc.prems(2) nws by (subst write_bytes_append) (simp_all add: len ws(2))
  qed
  moreover have "pio_in port (Suc n) (of_nat k) chk buf (h, m) = pio_in port n (of_nat (Suc k)) ?chk (buf + 2) (h1, ?m1)"
    using w by (simp add: add.commute)
  moreover have "ucast c = fold (\<lambda>(j, w) c. c XOR (w + of_nat j)) (enumerate k ws) (ucast chk :: u16)"
    unfolding c(2) ucast_step ws(2) by simp
  moreover have "buf + 2 + of_nat (2 * n) = buf + of_nat (2 * Suc n)" by simp
  ultimately show ?case using c(1) by (intro exI [of _ c]) (simp only: simp_thms)
qed simp

lemma transfer_block:
  assumes D: "kit_disk port view store" and s: "hp_ready view s" and t: "todo (kit_task (kit_view view s)) = Some (l, n)"
    and ty: "cmd_type_hp (hp_cmd s) = 2"
  shows "\<exists>s'. ata_pio_transfer_hp port (s, m) = (0, s', write_bytes (cmd_buf (hp_cmd s)) (store l) m) \<and>
    hp_keeps s s' \<and> kit_port (kit_view view s') = Opened \<and> kit_task (kit_view view s') = moved 1 (kit_task (kit_view view s)) \<and>
    hp_cmd s' = (hp_cmd s)\<lparr>cmd_buf := cmd_buf (hp_cmd s) + 512\<rparr>"
proof -
  have on: "\<not> intr_suspended s" and r: "kit_ready (view (hp_hw s))"
    using s by (simp_all add: hp_ready_def kit_view_def)
  let ?h1 = "snd (wire_read port ATAreg_STATUS_RD (hp_hw s))" and ?st = "fst (wire_read port ATAreg_STATUS_RD (hp_hw s))"
  have v1: "view ?h1 = view (hp_hw s)" by (rule kit_shown(3) [OF D r])
  have "?st AND 1 = (?st AND 0x81) AND 1" by (simp add: and.assoc)
  then have st: "?st AND 1 = 0" "?st AND 8 \<noteq> 0"
    using kit_shown(1,2) [OF D r] t by (simp_all add: kit_view_def)
  obtain ws h2 where ws: "words_in port 256 (strobe port (out8 port 0x53 ?h1)) = (ws, h2)"
    by (cases "words_in port 256 (strobe port (out8 port 0x53 ?h1))")
  obtain x h3 where x: "wire_read port ATAreg_DATA_RD (strobe port (out8 port 0x51 h2)) = (x, h3)"
    by (cases "wire_read port ATAreg_DATA_RD (strobe port (out8 port 0x51 h2))")
  have block: "wire_block port ?h1 = (ws, x, h3)" by (simp add: wire_block_def ws x)
  have law: "concat (map bytes_u16 ws) = store l" "x = kit_checksum ws"
    "\<exists>k. view h3 = (view ?h1)\<lparr>kit_free := False, kit_lag := k, kit_task := moved 1 (kit_task (view ?h1))\<rparr>"
  proof -
    have "kit_ready (view ?h1)" "todo (kit_task (view ?h1)) = Some (l, n)"
      using r t v1 by (simp_all add: kit_view_def)
    then show "concat (map bytes_u16 ws) = store l" "x = kit_checksum ws"
      "\<exists>k. view h3 = (view ?h1)\<lparr>kit_free := False, kit_lag := k, kit_task := moved 1 (kit_task (view ?h1))\<rparr>"
      using D block unfolding kit_disk_def kit_blocks_def by blast+
  qed
  let ?b = "cmd_buf (hp_cmd s)"
  obtain c where c: "pio_in port 256 0 0 ?b (strobe port (out8 port 0x53 ?h1), m)
      = (c, ?b + 512, h2, write_bytes ?b (store l) m)" "ucast c = x"
    using pio_in_words [OF ws, of 0 0 ?b m] law(1,2) by (auto simp: kit_checksum_def)
  let ?s' = "s\<lparr>hp_hw := h3, hp_cmd := (hp_cmd s)\<lparr>cmd_buf := ?b + 512\<rparr>\<rparr>"
  have "ata_pio_transfer_hp port (s, m) = pio_block_in port (s\<lparr>hp_hw := ?h1\<rparr>, m)"
    using on st ty by (simp add: ata_pio_transfer_hp_def io_read_eq split_def Let_def)
  also have "\<dots> = (0, ?s', write_bytes ?b (store l) m)"
    using on c x by (cases s) (simp add: pio_block_in_def suspend_intr_def resume_intr_def set_cmd_buf_def io_read_eq Let_def)
  finally show ?thesis
    using law(3) v1 r by (intro exI [of _ ?s']) (auto simp: kit_view_def kit_ready_def)
qed

lemma blocks_deliver:
  assumes D: "kit_disk port view store"
  shows "hp_ready view s \<Longrightarrow> todo (kit_task (kit_view view s)) = (if n = 0 then None else Some (l, n)) \<Longrightarrow>
    cmd_type_hp (hp_cmd s) = 2 \<Longrightarrow> cmd_buf (hp_cmd s) = buf \<Longrightarrow> n * 512 \<le> 2 ^ 32 \<Longrightarrow>
    \<exists>s'. pio_blocks port n (s, m) = (0, s', write_bytes buf (sector_run store l n) m) \<and> hp_keeps s s' \<and>
      hp_ready view s' \<and> todo (kit_task (kit_view view s')) = None"
proof (induction n arbitrary: s l buf m)
  case 0
  have "hp_ready view (set_blkcount c s)" "hp_keeps s (set_blkcount c s)"
    "kit_view view (set_blkcount c s) = kit_view view s" for c
    using 0 by (simp_all add: set_blkcount_def hp_ready_def kit_view_def)
  then show ?case using 0 by (intro exI [of _ "set_blkcount (- 1) s"]) simp
next
  case (Suc n)
  let ?s0 = "set_blkcount (of_nat n) s"
  have s0: "hp_ready view ?s0" "hp_keeps s ?s0" "kit_view view ?s0 = kit_view view s"
    "cmd_type_hp (hp_cmd ?s0) = 2" "cmd_buf (hp_cmd ?s0) = buf"
    using Suc.prems by (simp_all add: set_blkcount_def hp_ready_def kit_view_def)
  have t: "todo (kit_task (kit_view view ?s0)) = Some (l, Suc n)" using Suc.prems(2) s0(3) by simp
  let ?m1 = "write_bytes buf (store l) m"
  obtain s1 where s1: "ata_pio_transfer_hp port (?s0, m) = (0, s1, ?m1)" "hp_keeps ?s0 s1"
    "kit_port (kit_view view s1) = Opened" "kit_task (kit_view view s1) = moved 1 (kit_task (kit_view view ?s0))"
    "hp_cmd s1 = (hp_cmd ?s0)\<lparr>cmd_buf := buf + 512\<rparr>"
    using transfer_block [OF D s0(1) t s0(4), of m] s0(5) by auto
  have act: "hp_settled view s1" "hdpro_io_active s1"
    using s1(2,3) s0(1) by (simp_all add: hp_settled_def hp_ready_def hp_keeps_fields)
  obtain h where h: "gen_ata_wait_busy_hp port 0x80 s1 = (0, s1\<lparr>hp_hw := h\<rparr>)" "kit_ready (view h)"
    "kit_task (view h) = kit_task (kit_view view s1)"
    using wait_ready [OF D _ act, where bits = "0x80"] by blast
  let ?s2 = "s1\<lparr>hp_hw := h\<rparr>"
  have k2: "hp_keeps s ?s2" using hp_keeps_trans [OF s0(2) s1(2)] by simp
  have s2: "hp_ready view ?s2" "cmd_type_hp (hp_cmd ?s2) = 2" "cmd_buf (hp_cmd ?s2) = buf + 512"
    using act h(2) s1(5) s0(4) by (simp_all add: hp_ready_def hp_settled_def kit_view_def)
  have "todo (kit_task (kit_view view ?s2)) = (if n = 0 then None else Some (l + 1, n))"
    using h(3) s1(4) t by (simp add: kit_view_def moved_def)
  then obtain s' where s': "pio_blocks port n (?s2, ?m1) = (0, s', write_bytes (buf + 512) (sector_run store (l + 1) n) ?m1)"
    "hp_keeps ?s2 s'" "hp_ready view s'" "todo (kit_task (kit_view view s')) = None"
    using Suc.IH [OF s2(1) _ s2(2,3)] Suc.prems(5) by auto
  have len: "length (store x) = 512" for x using D by (simp add: kit_disk_def)
  have "write_bytes (buf + 512) (sector_run store (l + 1) n) ?m1 = write_bytes buf (sector_run store l (1 + n)) m"
    using Suc.prems(5) unfolding sector_run_add
    by (subst write_bytes_append) (simp_all add: len length_sector_run)
  moreover have "pio_blocks port (Suc n) (s, m) = pio_blocks port n (?s2, ?m1)"
    using s1(1) h(1) by simp
  ultimately show ?case using s' hp_keeps_trans [OF k2 s'(2)] by (intro exI [of _ s']) simp
qed

section \<open>Whole commands\<close>

lemma check_status_ready:
  assumes D: "kit_disk port view store" and s: "hp_ready view s"
  shows "\<exists>h. check_status_hp port s = (0, s\<lparr>hp_hw := h\<rparr>) \<and> view h = kit_view view s"
proof -
  have on: "\<not> intr_suspended s" and r: "kit_ready (view (hp_hw s))" using s by (simp_all add: hp_ready_def kit_view_def)
  have split: "v AND 0x80 = 0" "v AND 1 = 0" if "v AND 0x81 = (0 :: u16)" for v
    using and_sub [OF that, of "0x80"] and_sub [OF that, of 1] by simp_all
  let ?h1 = "snd (wire_read port ATAreg_STATUS_RD (hp_hw s))"
  let ?h2 = "snd (wire_read port ATAreg_STATUS_RD ?h1)"
  have v1: "view ?h1 = view (hp_hw s)" by (rule kit_shown(3) [OF D r])
  then have r1: "kit_ready (view ?h1)" using r by simp
  have "check_status_hp port s = (0, s\<lparr>hp_hw := ?h2\<rparr>)"
    using on split [OF kit_shown(1) [OF D r]] split [OF kit_shown(1) [OF D r1]]
    by (simp add: check_status_hp_def io_read_eq split_def Let_def)
  then show ?thesis using v1 kit_shown(3) [OF D r1] by (auto simp: kit_view_def)
qed

lemma io_finish_delivers:
  assumes D: "kit_disk port view store" and s: "hp_settled view s" "hdpro_io_active s"
    and t: "todo (kit_task (kit_view view s)) = Some (l, unat len)" and len: "len \<noteq> 0" "unat len * 512 \<le> 2 ^ 32"
    and c: "hp_cmd s = \<lparr>cmd_type_hp = 2, cmd_buf = buf, cmd_blkcount = len\<rparr>"
  shows "\<exists>s'. ata_io_finish_hp port (s, m) = Some (0, s', write_bytes buf (sector_run store l (unat len)) m) \<and>
    hp_keeps s s' \<and> hp_ready view s' \<and> todo (kit_task (kit_view view s')) = None"
proof -
  have on: "\<not> intr_suspended s" and op: "kit_port (view (hp_hw s)) = Opened" using s by (simp_all add: hp_settled_def kit_view_def)
  let ?h0 = "snd (wire_read port ATAreg_CONTROL_RD (hp_hw s))"
  from D op have v0: "kit_port (view ?h0) = Opened \<and> kit_task (view ?h0) = kit_task (view (hp_hw s))"
    by (cases rule: poll_result) (simp_all add: op)
  let ?s0 = "s\<lparr>hp_hw := ?h0\<rparr>"
  have s0: "hp_settled view ?s0" "hdpro_io_active ?s0" using on s(2) v0 by (simp_all add: hp_settled_def kit_view_def)
  obtain h1 where h1: "gen_ata_wait_busy_hp port 0x80 ?s0 = (0, s\<lparr>hp_hw := h1\<rparr>)" "kit_ready (view h1)"
    "kit_task (view h1) = kit_task (view (hp_hw s))"
    using wait_ready [OF D _ s0, where bits = "0x80"] v0 by (auto simp: kit_view_def)
  let ?s1 = "s\<lparr>hp_hw := h1\<rparr>"
  have s1: "hp_ready view ?s1" "todo (kit_task (kit_view view ?s1)) = Some (l, unat len)"
    using on s(2) h1(2,3) t by (simp_all add: hp_ready_def kit_view_def)
  have "unat len \<noteq> 0" using len(1) by (simp add: unat_eq_zero)
  then obtain s2 where s2: "pio_blocks port (unat len) (?s1, m) = (0, s2, write_bytes buf (sector_run store l (unat len)) m)"
    "hp_keeps ?s1 s2" "hp_ready view s2" "todo (kit_task (kit_view view s2)) = None"
    using blocks_deliver [OF D s1(1), of "unat len" l buf m] s1(2) c len(2) by auto
  obtain h3 where h3: "check_status_hp port s2 = (0, s2\<lparr>hp_hw := h3\<rparr>)" "view h3 = kit_view view s2"
    using check_status_ready [OF D s2(3)] by blast
  let ?s' = "s2\<lparr>hp_hw := h3, hp_alarm := False\<rparr>"
  have "ata_io_finish_hp port (s, m) = Some (0, ?s', write_bytes buf (sector_run store l (unat len)) m)"
    using on h1(1) s2(1) h3(1) c by (simp add: ata_io_finish_hp_def io_read_eq split_def Let_def)
  moreover have "hp_keeps s s2" using hp_keeps_trans [of s ?s1 s2] s2(2) by simp
  ultimately show ?thesis
    using s2(3,4) h3(2) by (intro exI [of _ ?s']) (simp add: hp_ready_def kit_view_def)
qed

text \<open>The state between accesses: the port closed, no sectors to come.\<close>

definition hp_idle :: "bool \<Rightarrow> ('h \<Rightarrow> kit) \<Rightarrow> 'h hdpro \<Rightarrow> bool" where
  "hp_idle vmc view s \<longleftrightarrow> \<not> intr_suspended s \<and> \<not> hdpro_io_active s \<and> kit_port (kit_view view s) = Closed \<and>
     todo (kit_task (kit_view view s)) = None \<and> (vmc \<longrightarrow> hp_io_sema s = 1)"

lemma loop_delivers_hp:
  assumes D: "kit_disk port view store" and "hp_settled view s" and "hdpro_io_active s"
    and "todo (kit_task (kit_view view s)) = None"
    and "unat lba + unat n \<le> lba_limit l" and "unat n * 512 \<le> 2 ^ 32"
  shows "\<exists>s'. sector_loop_hp vmc l port 0 buf lba n 0 (s, m) = Some (s', write_bytes buf (sector_run store lba (unat n)) m) \<and>
    hp_keeps s s' \<and> hp_settled view s' \<and> todo (kit_task (kit_view view s')) = None"
  using assms(2-)
proof (induction "unat n" arbitrary: n lba buf s m rule: less_induct)
  case less
  show ?case
  proof (cases "n = 0")
    case True
    then show ?thesis using less.prems by (simp add: sector_loop_hp.simps)
  next
    case False
    define len where "len = io_len False n"
    have len_eq: "run_len n = len" by (simp add: len_def io_len_def run_len_def)
    note b = io_len_bounds [OF False, of False, folded len_def]
    note rest = io_len_rest [OF False, of False, folded len_def]
    let ?m = "write_bytes buf (sector_run store lba (unat len)) m"
    have name: "nameable l lba len" using b less.prems(4) by (auto simp: nameable_def lba_limit_def)
    obtain s1 where s1: "ata_io_start_hp port buf len (io_task_hp vmc l 0 lba len 0) s = (0, s1)" "hp_keeps s s1"
      "kit_port (kit_view view s1) = Opened" "todo (kit_task (kit_view view s1)) = Some (lba, unat len)"
      "hp_cmd s1 = \<lparr>cmd_type_hp = 2, cmd_buf = buf, cmd_blkcount = len\<rparr>"
      using io_start_issues_hp [OF D less.prems(1-3) name, of buf vmc] by blast
    have act1: "hp_settled view s1" "hdpro_io_active s1"
      using less.prems(1,2) s1(2,3) by (simp_all add: hp_settled_def hp_keeps_fields)
    have "len \<noteq> 0" "unat len * 512 \<le> 2 ^ 32" using b(1,3) by (auto simp: unat_gt_0)
    then obtain s2 where s2: "ata_io_finish_hp port (s1, m) = Some (0, s2, ?m)" "hp_keeps s1 s2" "hp_ready view s2"
      "todo (kit_task (kit_view view s2)) = None"
      using io_finish_delivers [OF D act1 s1(4) _ _ s1(5)] by blast
    have step: "sector_loop_hp vmc l port 0 buf lba n 0 (s, m)
        = sector_loop_hp vmc l port 0 (buf + len * 512) (lba + len) (n - len) 0 (s2, ?m)"
      using False s1(1) s2(1) by (subst sector_loop_hp.simps) (simp add: sector_run_hp_def len_eq)
    have no_wrap: "unat (lba + len) + unat (n - len) \<le> lba_limit l"
      using unat_add_bound [of lba len] rest(1) b(2) less.prems(4) by simp
    have "hp_settled view s2" "hdpro_io_active s2" using s2(3) by (simp_all add: hp_ready_settled) (simp add: hp_ready_def)
    then have "\<exists>s'. sector_loop_hp vmc l port 0 (buf + len * 512) (lba + len) (n - len) 0 (s2, ?m)
        = Some (s', write_bytes (buf + len * 512) (sector_run store (lba + len) (unat (n - len))) ?m) \<and>
      hp_keeps s2 s' \<and> hp_settled view s' \<and> todo (kit_task (kit_view view s')) = None"
      using rest less.prems(5) no_wrap s2(4) by (intro less.hyps) simp_all
    moreover have "write_bytes (buf + len * 512) (sector_run store (lba + len) (unat (n - len))) ?m
        = write_bytes buf (sector_run store lba (unat len) @ sector_run store (lba + of_nat (unat len)) (unat (n - len))) m"
      using D less.prems(5) rest b
      by (subst write_bytes_append) (simp_all add: length_sector_run kit_disk_def)
    moreover have "\<dots> = write_bytes buf (sector_run store lba (unat n)) m"
      unfolding sector_run_add [symmetric] rest using b(2) by simp
    ultimately show ?thesis
      using hp_keeps_trans [OF hp_keeps_trans [OF s1(2) s2(2)]] unfolding step by auto
  qed
qed

lemma sector_io_delivers_hp:
  assumes D: "kit_disk port view store" and idle: "hp_idle vmc view s"
    and "unat lba + unat n \<le> lba_limit l" and "unat n * 512 \<le> 2 ^ 32"
  shows "\<exists>s'. ata_device_sector_io_hp vmc l port 0 buf lba n 0 (s, m)
      = Some (0, s', write_bytes buf (sector_run store lba (unat n)) m) \<and> hp_idle vmc view s'"
proof -
  let ?s = "if vmc then s\<lparr>hp_io_sema := hp_io_sema s - 1\<rparr> else s"
  have s: "hp_settled view ?s" "\<not> hdpro_io_active ?s" "kit_view view ?s = kit_view view s"
    using idle by (simp_all add: hp_idle_def hp_settled_def kit_view_def)
  obtain h where h: "snd (hdpro_io_start port ?s) = ?s\<lparr>hp_hw := h, hdpro_io_active := True\<rparr>"
    "view h = (kit_view view ?s)\<lparr>kit_port := Opened\<rparr>"
    using io_start_opens [OF D s(1)] by blast
  let ?s1 = "?s\<lparr>hp_hw := h, hdpro_io_active := True\<rparr>"
  have start: "hdpro_io_start port ?s = (True, ?s1)"
    using io_start_answer [OF s(2), of port] unfolding h(1) by simp
  have "hp_settled view ?s1" "hdpro_io_active ?s1" "todo (kit_task (kit_view view ?s1)) = None"
    using s h(2) idle by (simp_all add: hp_settled_def kit_view_def hp_idle_def)
  then obtain s2 where s2: "sector_loop_hp vmc l port 0 buf lba n 0 (?s1, m)
      = Some (s2, write_bytes buf (sector_run store lba (unat n)) m)" "hp_keeps ?s1 s2" "hp_settled view s2"
    "todo (kit_task (kit_view view s2)) = None"
    using loop_delivers_hp [OF D _ _ _ assms(3,4)] by blast
  have "hdpro_io_active s2" using s2(2) by (simp add: hp_keeps_fields)
  then obtain h3 k where h3: "hdpro_io_finish port s2 = (True, s2\<lparr>hp_hw := h3, hdpro_io_active := False\<rparr>)"
    "view h3 = (kit_view view s2)\<lparr>kit_port := Closed, kit_lag := k\<rparr>"
    using io_finish_closes [OF D s2(3)] by blast
  let ?s3 = "s2\<lparr>hp_hw := h3, hdpro_io_active := False\<rparr>"
  let ?s' = "if vmc then ?s3\<lparr>hp_io_sema := 1\<rparr> else ?s3"
  have "ata_device_sector_io_hp vmc l port 0 buf lba n 0 (s, m)
      = Some (0, ?s', write_bytes buf (sector_run store lba (unat n)) m)"
    using idle s2(1) h3(1) by (simp add: ata_device_sector_io_hp_def hp_idle_def start Let_def del: if_split)
  moreover have "hp_idle vmc view ?s'"
    using s2(3,4) h3(2) by (simp add: hp_idle_def hp_settled_def kit_view_def)
  ultimately show ?thesis by blast
qed

text \<open>So the kit is a disk access for device-hdd.c.\<close>

definition hdpro_rd :: "bool \<Rightarrow> bool \<Rightarrow> 'h port \<Rightarrow> ('h hdpro) ata_rd" where
  "hdpro_rd vmc l port p lba n s m = ata_device_sector_io_hp vmc l port 0 p lba n 0 (s, m)"

lemma hdpro_reads:
  assumes "kit_disk port view store"
  shows "ata_reads (hdpro_rd vmc l port) store (hp_idle vmc view) (lba_limit l)"
  unfolding ata_reads_def
proof (intro conjI allI impI)
  fix p lba n a m
  assume "hp_idle vmc view a \<and> unat (lba :: u32) + unat (n :: u32) \<le> lba_limit l \<and> unat n * 512 \<le> 2 ^ 32"
  then show "\<exists>a'. hdpro_rd vmc l port p lba n a m = Some (0, a', write_bytes p (sector_run store lba (unat n)) m) \<and>
      hp_idle vmc view a'"
    using sector_io_delivers_hp [OF assms] unfolding hdpro_rd_def by blast
qed (use assms in \<open>simp add: kit_disk_def\<close>)

end
