(* ===== verification/Hdpro_Laws.thy ===== *)
theory Hdpro_Laws
  imports Hdpro_Delivers Hdd_Atad
begin

text \<open>
  A concrete HD Pro kit, the laws of the driver that hold whatever the hardware does, and the
  properties of the disk access through the kit.
\<close>

section \<open>A concrete kit\<close>

text \<open>\<open>inq\<close> holds the bytes of the sequence under way, \<open>outq\<close> those to be read, \<open>chk\<close> the
  checksum of the last block. After a command and after a block one poll finds the disk busy.\<close>

record kit_hw =
  kh_port :: port_state
  kh_free :: bool
  kh_slow :: bool
  kh_task :: drive
  inq :: "u8 list"
  outq :: "u8 list"
  kh_chk :: u16

definition kh_view :: "kit_hw \<Rightarrow> kit" where
  "kh_view h = \<lparr>kit_port = (if inq h = [] \<and> outq h = [] then kh_port h else Amid), kit_free = kh_free h,
     kit_lag = (if kh_slow h then 1 else 0), kit_task = kh_task h\<rparr>"

fun words_of :: "u8 list \<Rightarrow> u16 list" where
  "words_of (a # b # bs) = (ucast a OR push_bit 8 (ucast b)) # words_of bs"
| "words_of bs = []"

text \<open>Reading a register: the answer and what it does to the kit.\<close>

definition kh_get :: "u8 \<Rightarrow> kit_hw \<Rightarrow> u16 \<times> kit_hw" where
  "kh_get c h =
     (let data = (if todo (kh_task h) = None then 0x40 else 0x48)
      in if c = ATAreg_CONTROL_RD
         then if \<not> kh_free h \<and> kh_slow h then (0xC0, h\<lparr>kh_slow := False\<rparr>) else (data, h\<lparr>kh_free := True\<rparr>)
         else if c = ATAreg_STATUS_RD then (data, h)
         else if c = ATAreg_SELECT_RD then (now (kh_task h) r_select, h)
         else if c = ATAreg_DATA_RD then (kh_chk h, h)
         else (0, h))"

definition kh_issue :: "u32 \<times> nat \<Rightarrow> kit_hw \<Rightarrow> kit_hw" where
  "kh_issue t h = h\<lparr>kh_free := False, kh_slow := True, kh_task := (kh_task h)\<lparr>todo := Some t, intrq := False\<rparr>\<rparr>"

definition kh_put :: "u8 \<Rightarrow> u16 \<Rightarrow> kit_hw \<Rightarrow> kit_hw" where
  "kh_put c v h = (case kit_reg c of
     Some r \<Rightarrow> h\<lparr>kh_task := put_reg r (v AND 0xff) (kh_task h)\<rparr>
   | None \<Rightarrow> if c = ATAreg_COMMAND_WR \<and> v = 0x20 then kh_issue (task28 (kh_task h)) h
       else if c = ATAreg_COMMAND_WR \<and> v = 0x24 then kh_issue (task48 (kh_task h)) h else h)"

definition kh_block :: "(u32 \<Rightarrow> u8 list) \<Rightarrow> kit_hw \<Rightarrow> kit_hw" where
  "kh_block store h = (case todo (kh_task h) of
     None \<Rightarrow> h
   | Some (l, n) \<Rightarrow> h\<lparr>outq := store l, kh_chk := kit_checksum (words_of (store l)), kh_free := False, kh_slow := True,
       kh_task := moved 1 (kh_task h)\<rparr>)"

definition kh_byte :: "(u32 \<Rightarrow> u8 list) \<Rightarrow> u8 list \<Rightarrow> kit_hw \<Rightarrow> kit_hw" where
  "kh_byte store q h = (case q of
     [c] \<Rightarrow>
       if c = 0xf3 then h\<lparr>kh_port := Closed, inq := []\<rparr>
       else if c = 0x21 then h\<lparr>inq := [], outq := [1]\<rparr>
       else if c = 0x53 then kh_block store (h\<lparr>inq := []\<rparr>)
       else if c = 0x51 then h\<lparr>inq := []\<rparr>
       else if c \<in> {ATAreg_CONTROL_RD, ATAreg_STATUS_RD, ATAreg_SELECT_RD, ATAreg_DATA_RD, ATAreg_ERROR_RD}
       then let (v, h1) = kh_get c h in h1\<lparr>inq := [], outq := bytes_u16 v\<rparr>
       else h\<lparr>inq := q\<rparr>
   | [c, a] \<Rightarrow> h\<lparr>inq := q\<rparr>
   | [c, a, b] \<Rightarrow> kh_put c (ucast a OR push_bit 8 (ucast b)) (h\<lparr>inq := []\<rparr>)
   | _ \<Rightarrow> h)"

definition kh_wr :: "(u32 \<Rightarrow> u8 list) \<Rightarrow> u8 \<Rightarrow> kit_hw \<Rightarrow> kit_hw" where
  "kh_wr store v h =
     (let q = inq h @ [v]
      in if kh_port h = Closed
         then if q = [0x72, 0x34, 0x61] then h\<lparr>kh_port := Opened, inq := [], outq := [0xe7]\<rparr> else h\<lparr>inq := q\<rparr>
         else kh_byte store q h)"

definition kh_rd :: "kit_hw \<Rightarrow> u8 \<times> kit_hw" where
  "kh_rd h = (case outq h of [] \<Rightarrow> (0, h) | v # vs \<Rightarrow> (v, h\<lparr>outq := vs\<rparr>))"

definition kit_port_of :: "(u32 \<Rightarrow> u8 list) \<Rightarrow> kit_hw port" where
  "kit_port_of store = \<lparr>wr_io8 = kh_wr store, rd_io8 = kh_rd, rd_io32 = (\<lambda>h. (0x401a7800, h)), strobe = (\<lambda>h. h),
     hp_delay = (\<lambda>_ h. h), SetAlarm_result = (\<lambda>_. 0), alarm_due = (\<lambda>_. True)\<rparr>"

lemma kh_out8: "out8 (kit_port_of store) v h = kh_wr store v h"
  by (simp add: out8_def kit_port_of_def)

lemma kh_in8: "in8 (kit_port_of store) h = kh_rd h"
  by (simp add: in8_def kit_port_of_def split_def)

lemma kh_at_rest:
  "kit_port (kh_view h) = Opened \<longleftrightarrow> kh_port h = Opened \<and> inq h = [] \<and> outq h = []"
  "kit_port (kh_view h) = Closed \<longleftrightarrow> kh_port h = Closed \<and> inq h = [] \<and> outq h = []"
  by (auto simp: kh_view_def)

lemma kh_read:
  assumes "kit_port (kh_view h) = Opened"
    and "c \<in> {ATAreg_CONTROL_RD, ATAreg_STATUS_RD, ATAreg_SELECT_RD, ATAreg_DATA_RD, ATAreg_ERROR_RD}"
  shows "wire_read (kit_port_of store) c h = (fst (kh_get c h), (snd (kh_get c h))\<lparr>inq := [], outq := []\<rparr>)"
proof -
  have "c \<noteq> 0xf3 \<and> c \<noteq> 0x21 \<and> c \<noteq> 0x53 \<and> c \<noteq> 0x51"
    using assms(2) by (auto simp: ATAreg_CONTROL_RD_def ATAreg_STATUS_RD_def ATAreg_SELECT_RD_def ATAreg_DATA_RD_def ATAreg_ERROR_RD_def)
  then have "kh_wr store c h = (snd (kh_get c h))\<lparr>inq := [], outq := bytes_u16 (fst (kh_get c h))\<rparr>"
    using assms by (simp add: kh_at_rest kh_wr_def kh_byte_def split_def Let_def)
  then show ?thesis
    by (simp add: wire_read_def in16_def kh_out8 kh_in8 kh_rd_def bytes_u16_def join_bytes)
qed

lemma kh_write:
  assumes "kit_port (kh_view h) = Opened"
    and "c \<notin> {0xf3, 0x21, 0x53, 0x51, ATAreg_CONTROL_RD, ATAreg_STATUS_RD, ATAreg_SELECT_RD, ATAreg_DATA_RD, ATAreg_ERROR_RD}"
  shows "wire_write (kit_port_of store) c v h = kh_put c v h"
proof -
  have r: "kh_port h = Opened" "inq h = []" "outq h = []" using assms(1) by (simp_all add: kh_at_rest)
  have e: "h\<lparr>inq := []\<rparr> = h" using r(2) by (cases h) simp
  show ?thesis
    using assms(2) r by (simp add: wire_write_def kh_out8 kh_wr_def kh_byte_def join_bytes e)
qed

lemma kh_words:
  assumes "length bs = 2 * n"
  shows "words_in (kit_port_of store) n (h\<lparr>outq := bs\<rparr>) = (words_of bs, h\<lparr>outq := []\<rparr>)"
  using assms
proof (induction n arbitrary: bs)
  case (Suc n)
  then obtain a b cs where bs: "bs = a # b # cs" "length cs = 2 * n"
    by (cases bs; cases "tl bs") auto
  then show ?case
    using Suc.IH [OF bs(2)] by (simp add: in16_def kh_in8 kh_rd_def Let_def)
qed simp

lemma words_of_bytes: "length bs = 2 * n \<Longrightarrow> concat (map bytes_u16 (words_of bs)) = bs"
proof (induction bs arbitrary: n rule: words_of.induct)
  case (1 a b bs)
  have "bytes_u16 (ucast a OR push_bit 8 (ucast b)) = [a, b]"
  proof -
    have "\<not> bit a (8 + k)" for k using bit_imp_le_length [of a "8 + k"] by auto
    then have "ucast (ucast a OR push_bit 8 (ucast b) :: u16) = a"
      "ucast (drop_bit 8 (ucast a OR push_bit 8 (ucast b) :: u16)) = b"
      by (auto simp: bit_simps intro!: bit_word_eqI dest: bit_imp_le_length)
    then show ?thesis by (simp add: bytes_u16_def)
  qed
  with 1 show ?case by (cases n) simp_all
qed auto

lemma kh_wire_block:
  assumes len: "\<And>l. length (store l) = 512" and h: "kit_ready (kh_view h)"
    and t: "todo (kit_task (kh_view h)) = Some (l, n)"
  shows "wire_block (kit_port_of store) h = (words_of (store l), kit_checksum (words_of (store l)),
    h\<lparr>kh_free := False, kh_slow := True, kh_task := moved 1 (kh_task h), kh_chk := kit_checksum (words_of (store l))\<rparr>)"
proof -
  have op: "kit_port (kh_view h) = Opened" using h by (simp add: kit_ready_def)
  then have r: "kh_port h = Opened" "inq h = []" "outq h = []" by (simp_all add: kh_at_rest)
  have e: "h\<lparr>inq := []\<rparr> = h" "h\<lparr>outq := []\<rparr> = h" using r by (cases h; simp)+
  let ?h1 = "h\<lparr>kh_chk := kit_checksum (words_of (store l)), kh_free := False, kh_slow := True, kh_task := moved 1 (kh_task h)\<rparr>"
  have s: "strobe (kit_port_of store) = (\<lambda>h. h)" by (simp add: kit_port_of_def)
  have "kh_wr store 0x53 h = ?h1\<lparr>outq := store l\<rparr>"
    using r t by (simp add: kh_wr_def kh_byte_def kh_block_def kh_view_def e)
  moreover have "words_in (kit_port_of store) 256 (?h1\<lparr>outq := store l\<rparr>) = (words_of (store l), ?h1\<lparr>outq := []\<rparr>)"
    by (rule kh_words) (simp add: len)
  moreover have "?h1\<lparr>outq := []\<rparr> = ?h1" "?h1\<lparr>inq := []\<rparr> = ?h1" using r by (cases h; simp)+
  moreover from this have "kh_wr store 0x51 ?h1 = ?h1" using r by (simp add: kh_wr_def kh_byte_def)
  moreover have "wire_read (kit_port_of store) ATAreg_DATA_RD ?h1 = (kit_checksum (words_of (store l)), ?h1)"
  proof -
    have "kit_port (kh_view ?h1) = Opened" using r by (simp add: kh_at_rest)
    then have "wire_read (kit_port_of store) ATAreg_DATA_RD ?h1
        = (fst (kh_get ATAreg_DATA_RD ?h1), (snd (kh_get ATAreg_DATA_RD ?h1))\<lparr>inq := [], outq := []\<rparr>)"
      by (rule kh_read) simp
    moreover have "kh_get ATAreg_DATA_RD ?h1 = (kit_checksum (words_of (store l)), ?h1)"
      by (simp add: kh_get_def ATAreg_CONTROL_RD_def ATAreg_STATUS_RD_def ATAreg_SELECT_RD_def ATAreg_DATA_RD_def)
    moreover have "?h1\<lparr>inq := [], outq := []\<rparr> = ?h1" using r by (cases h) simp
    ultimately show ?thesis by simp
  qed
  ultimately show ?thesis by (simp add: wire_block_def kh_out8 s)
qed

text \<open>The five groups of laws.\<close>

lemma ids_distinct:
  "ATAreg_COMMAND_WR \<notin> {0xf3, 0x21, 0x53, 0x51, ATAreg_CONTROL_RD, ATAreg_STATUS_RD, ATAreg_SELECT_RD, ATAreg_DATA_RD, ATAreg_ERROR_RD}"
  "ATAreg_CONTROL_WR \<notin> {0xf3, 0x21, 0x53, 0x51, ATAreg_CONTROL_RD, ATAreg_STATUS_RD, ATAreg_SELECT_RD, ATAreg_DATA_RD, ATAreg_ERROR_RD}"
  "kit_reg ATAreg_COMMAND_WR = None" "kit_reg ATAreg_CONTROL_WR = None" "ATAreg_CONTROL_WR \<noteq> ATAreg_COMMAND_WR"
  by code_simp+

lemma kit_reg_ids:
  "kit_reg c = Some r \<Longrightarrow>
     c \<notin> {0xf3, 0x21, 0x53, 0x51, ATAreg_CONTROL_RD, ATAreg_STATUS_RD, ATAreg_SELECT_RD, ATAreg_DATA_RD, ATAreg_ERROR_RD}"
proof -
  assume "kit_reg c = Some r"
  then have "(c, r) \<in> set [(ATAreg_FEATURE_WR, r_feature), (ATAreg_NSECTOR_WR, r_nsector), (ATAreg_SECTOR_WR, r_sector),
     (ATAreg_LCYL_WR, r_lcyl), (ATAreg_HCYL_WR, r_hcyl), (ATAreg_SELECT_WR, r_select)]"
    unfolding kit_reg_def by (rule map_of_SomeD)
  then have "c \<in> {ATAreg_FEATURE_WR, ATAreg_NSECTOR_WR, ATAreg_SECTOR_WR, ATAreg_LCYL_WR, ATAreg_HCYL_WR, ATAreg_SELECT_WR}"
    by (simp only: set_simps insert_iff empty_iff prod.inject) blast
  moreover have "list_all (\<lambda>c. c \<notin> {0xf3, 0x21, 0x53, 0x51, ATAreg_CONTROL_RD, ATAreg_STATUS_RD, ATAreg_SELECT_RD,
      ATAreg_DATA_RD, ATAreg_ERROR_RD})
    [ATAreg_FEATURE_WR, ATAreg_NSECTOR_WR, ATAreg_SECTOR_WR, ATAreg_LCYL_WR, ATAreg_HCYL_WR, ATAreg_SELECT_WR]"
    by code_simp
  ultimately show ?thesis unfolding list_all_iff set_simps by blast
qed

lemma kh_opens: "kit_opens (kit_port_of store) kh_view"
  unfolding kit_opens_def
proof (intro conjI allI impI)
  fix h :: kit_hw
  assume c: "kit_port (kh_view h) = Closed"
  then have r: "kh_port h = Closed" "inq h = []" "outq h = []" by (simp_all add: kh_at_rest)
  then have "wire_start (kit_port_of store) h = (0xe7, h\<lparr>kh_port := Opened, inq := [], outq := []\<rparr>)"
    by (simp add: wire_start_def kh_out8 kh_in8 kh_wr_def kh_rd_def)
  then show "fst (wire_start (kit_port_of store) h) = 0xe7"
    "kh_view (snd (wire_start (kit_port_of store) h)) = (kh_view h)\<lparr>kit_port := Opened\<rparr>"
    using r by (simp_all add: kh_view_def)
  show "fst (rd_io32 (kit_port_of store) h) = 0x401a7800" "kh_view (snd (rd_io32 (kit_port_of store) h)) = kh_view h"
    by (simp_all add: kit_port_of_def)
next
  fix h :: kit_hw
  assume "kit_port (kh_view h) = Opened"
  then have r: "kh_port h = Opened" "inq h = []" "outq h = []" by (simp_all add: kh_at_rest)
  then have "out8 (kit_port_of store) 0xf3 h = h\<lparr>kh_port := Closed, inq := []\<rparr>"
    by (simp add: kh_out8 kh_wr_def kh_byte_def)
  then show "kh_view (out8 (kit_port_of store) 0xf3 h) = (kh_view h)\<lparr>kit_port := Closed\<rparr>"
    using r by (simp add: kh_view_def)
next
  fix h :: kit_hw and n
  show "calmer (kh_view h) (kh_view (hp_delay (kit_port_of store) n h))"
    by (auto simp: calmer_def kit_port_of_def intro!: exI [of _ "kit_lag (kh_view h)"])
qed

lemma kh_polls: "kit_polls (kit_port_of store) kh_view"
  unfolding kit_polls_def
proof (intro conjI allI impI)
  show "kit_lag (kh_view h) < 80" for h by (simp add: kh_view_def)
next
  fix h :: kit_hw and v h'
  assume a: "kit_port (kh_view h) = Opened \<and> wire_read (kit_port_of store) ATAreg_CONTROL_RD h = (v, h')"
  have r: "kh_port h = Opened" "inq h = []" "outq h = []" using a by (simp_all add: kh_at_rest)
  have w: "v = fst (kh_get ATAreg_CONTROL_RD h)" "h' = (snd (kh_get ATAreg_CONTROL_RD h))\<lparr>inq := [], outq := []\<rparr>"
    using a kh_read [of h ATAreg_CONTROL_RD store] by simp_all
  then show "v \<noteq> 0xffff" by (simp add: kh_get_def Let_def)
  show "if v AND 0x80 = 0
         then kh_view h' = (kh_view h)\<lparr>kit_free := True\<rparr> \<and> v AND 0x40 \<noteq> 0 \<and>
              (v AND 8 = 0 \<longleftrightarrow> todo (kit_task (kh_view h)) = None)
         else \<not> kit_free (kh_view h) \<and> kit_lag (kh_view h') < kit_lag (kh_view h) \<and>
              kh_view h' = (kh_view h)\<lparr>kit_lag := kit_lag (kh_view h')\<rparr>"
  proof (cases "\<not> kh_free h \<and> kh_slow h")
    case True
    with w r show ?thesis by (simp add: kh_get_def kh_view_def)
  next
    case False
    then have "kh_get ATAreg_CONTROL_RD h = (if todo (kh_task h) = None then 0x40 else 0x48, h\<lparr>kh_free := True\<rparr>)"
      by (simp add: kh_get_def Let_def)
    with w r show ?thesis by (simp add: kh_view_def)
  qed
qed

lemma kh_shows: "kit_shows (kit_port_of store) kh_view"
  unfolding kit_shows_def
proof (intro allI impI)
  fix h :: kit_hw
  assume "kit_ready (kh_view h)"
  then have op: "kit_port (kh_view h) = Opened" by (simp add: kit_ready_def)
  then have r: "kh_port h = Opened" "inq h = []" "outq h = []" by (simp_all add: kh_at_rest)
  have e: "h\<lparr>inq := [], outq := []\<rparr> = h" using r by (cases h) simp
  let ?data = "if todo (kh_task h) = None then 0x40 else 0x48 :: u16"
  have "kh_get ATAreg_STATUS_RD h = (?data, h)" "kh_get ATAreg_SELECT_RD h = (now (kh_task h) r_select, h)"
    by (simp_all add: kh_get_def ATAreg_CONTROL_RD_def ATAreg_STATUS_RD_def ATAreg_SELECT_RD_def)
  then have rd: "wire_read (kit_port_of store) ATAreg_STATUS_RD h = (?data, h)"
    "wire_read (kit_port_of store) ATAreg_SELECT_RD h = (now (kh_task h) r_select, h)"
    using kh_read [OF op, of ATAreg_STATUS_RD store] kh_read [OF op, of ATAreg_SELECT_RD store] e by simp_all
  have "kh_view (snd (wire_ack (kit_port_of store) h)) = kh_view h"
    using r by (simp add: wire_ack_def kh_out8 kh_in8 kh_wr_def kh_byte_def kh_rd_def kh_view_def)
  then show "fst (wire_read (kit_port_of store) ATAreg_STATUS_RD h) AND 0x81 = 0 \<and>
        (fst (wire_read (kit_port_of store) ATAreg_STATUS_RD h) AND 8 = 0 \<longleftrightarrow> todo (kit_task (kh_view h)) = None) \<and>
        kh_view (snd (wire_read (kit_port_of store) ATAreg_STATUS_RD h)) = kh_view h \<and>
        drop_bit 4 (fst (wire_read (kit_port_of store) ATAreg_SELECT_RD h)) AND 1
          = drop_bit 4 (now (kit_task (kh_view h)) r_select) AND 1 \<and>
        kh_view (snd (wire_read (kit_port_of store) ATAreg_SELECT_RD h)) = kh_view h \<and>
        kh_view (snd (wire_ack (kit_port_of store) h)) = kh_view h"
    unfolding rd by (simp add: kh_view_def)
qed

lemma kh_writes: "kit_writes (kit_port_of store) kh_view"
  unfolding kit_writes_def
proof (intro conjI allI impI)
  have op: "kit_port (kh_view h) = Opened" if "kit_ready (kh_view h)" for h using that by (simp add: kit_ready_def)
  note put = kh_write [OF op] and ids = ids_distinct
  show "kh_view (wire_write (kit_port_of store) rid v h) = (kh_view h)\<lparr>kit_task := put_reg r (v AND 0xff) (kit_task (kh_view h))\<rparr>"
    if "kit_ready (kh_view h) \<and> kit_reg rid = Some r" for h rid r v
    using that kit_reg_ids [of rid r] by (simp add: put kh_put_def kh_view_def)
  show "kh_view (wire_write (kit_port_of store) ATAreg_CONTROL_WR v h) = kh_view h" if "kit_ready (kh_view h)" for v h
    using that put [OF _ ids(2)] ids(4,5) by (simp add: kh_put_def)
  show "kit_issued (kh_view h) (task28 (kit_task (kh_view h))) (kh_view (wire_write (kit_port_of store) ATAreg_COMMAND_WR 0x20 h))"
    if "kit_ready (kh_view h) \<and> todo (kit_task (kh_view h)) = None" for h
    using that put [OF _ ids(1)] ids(3) by (auto simp: kh_put_def kit_issued_def kh_issue_def kh_view_def)
  show "kit_issued (kh_view h) (task48 (kit_task (kh_view h))) (kh_view (wire_write (kit_port_of store) ATAreg_COMMAND_WR 0x24 h))"
    if "kit_ready (kh_view h) \<and> todo (kit_task (kh_view h)) = None \<and> before (kit_task (kh_view h)) r_lcyl = 0 \<and>
      before (kit_task (kh_view h)) r_hcyl = 0" for h
    using that put [OF _ ids(1)] ids(3) by (auto simp: kh_put_def kit_issued_def kh_issue_def kh_view_def)
qed

lemma kit_port_disk:
  assumes len: "\<And>l. length (store l) = 512"
  shows "kit_disk (kit_port_of store) kh_view store"
proof -
  have "kit_blocks (kit_port_of store) kh_view store"
    unfolding kit_blocks_def
  proof (intro allI impI)
    fix h l n ws c h'
    assume a: "kit_ready (kh_view h) \<and> todo (kit_task (kh_view h)) = Some (l, n) \<and> wire_block (kit_port_of store) h = (ws, c, h')"
    then have "(ws, c, h') = (words_of (store l), kit_checksum (words_of (store l)),
        h\<lparr>kh_free := False, kh_slow := True, kh_task := moved 1 (kh_task h), kh_chk := kit_checksum (words_of (store l))\<rparr>)"
      using kh_wire_block [where store = store and h = h and l = l and n = n] len by simp
    moreover have "concat (map bytes_u16 (words_of (store l))) = store l"
      by (rule words_of_bytes [where n = 256]) (simp add: len)
    ultimately show "concat (map bytes_u16 ws) = store l \<and> c = kit_checksum ws \<and>
        (\<exists>k. kh_view h' = (kh_view h)\<lparr>kit_free := False, kit_lag := k, kit_task := moved 1 (kit_task (kh_view h))\<rparr>)"
      by (auto simp: kh_view_def)
  qed
  then show ?thesis using len kh_opens kh_polls kh_shows kh_writes by (simp add: kit_disk_def)
qed

section \<open>Whatever the hardware does\<close>

text \<open>No operation leaves the interrupts off.\<close>

lemma on_port_on [simp]: "\<not> intr_suspended (snd (on_port f s))"
  by (simp add: on_port_def resume_intr_def split_def Let_def)

lemma io_rw_on [simp]:
  "\<not> intr_suspended (hdpro_io_write port c v s)" "\<not> intr_suspended (snd (hdpro_io_read port c s))"
  by (simp_all add: hdpro_io_write_def hdpro_io_read_def)

lemma io_start_finish_on:
  assumes "\<not> intr_suspended s"
  shows "\<not> intr_suspended (snd (hdpro_io_start port s))" and "\<not> intr_suspended (snd (hdpro_io_finish port s))"
  using assms by (simp_all add: hdpro_io_start_def hdpro_io_finish_def DelayThread_hp_def split_def Let_def)

lemma wait_busy_on: "\<not> intr_suspended s \<Longrightarrow> \<not> intr_suspended (snd (wait_busy_hp port bits ds s))"
  by (induction ds arbitrary: s) (simp_all add: io_start_finish_on split_def Let_def DelayThread_hp_def)

lemma gen_wait_on: "\<not> intr_suspended s \<Longrightarrow> \<not> intr_suspended (snd (gen_ata_wait_busy_hp port bits s))"
  by (simp add: gen_ata_wait_busy_hp_def wait_busy_on)

lemma select_on: "\<not> intr_suspended s \<Longrightarrow> \<not> intr_suspended (snd (ata_device_select_hp port d s))"
  by (simp add: ata_device_select_hp_def gen_wait_on split_def Let_def)

lemma io_start_on: "\<not> intr_suspended s \<Longrightarrow> \<not> intr_suspended (snd (ata_io_start_hp port buf n t s))"
  by (simp add: ata_io_start_hp_def write_task_hp_def select_on split_def Let_def)

lemma pio_out_on: "\<not> intr_suspended s \<Longrightarrow> \<not> intr_suspended (snd (snd (pio_out port n i c b m s)))"
  by (induction n arbitrary: i c b s) (simp_all add: Let_def)

lemma pio_tail_on: "\<not> intr_suspended s \<Longrightarrow> \<not> intr_suspended (snd (pio_tail port n b m s))"
  by (induction n arbitrary: b s) simp_all

lemma transfer_on: "\<not> intr_suspended (fst (snd (ata_pio_transfer_hp port q)))"
  by (simp add: ata_pio_transfer_hp_def pio_block_in_def pio_block_out_def set_cmd_buf_def pio_tail_on split_def Let_def)

lemma blocks_on: "\<not> intr_suspended (fst q) \<Longrightarrow> \<not> intr_suspended (fst (snd (pio_blocks port n q)))"
  by (induction n arbitrary: q) (simp_all add: set_blkcount_def transfer_on gen_wait_on split_def Let_def)

lemma check_status_on: "\<not> intr_suspended s \<Longrightarrow> \<not> intr_suspended (snd (check_status_hp port s))"
  by (simp add: check_status_hp_def split_def Let_def)

lemma poll_event_on: "\<not> intr_suspended s \<Longrightarrow> \<not> intr_suspended (snd (PollEventFlag_hp port s))"
  by (simp add: PollEventFlag_hp_def ata_alarm_cb_hp_def Let_def)

lemma poll_nondata_on: "poll_nondata port s = Some y \<Longrightarrow> \<not> intr_suspended (snd y)"
  by (rule poll_nondata.raw_induct [where P = "\<lambda>port s y. \<not> intr_suspended (snd y)", rotated])
    (auto simp: split_def Let_def poll_event_on split: if_splits)

lemma io_finish_on:
  assumes "ata_io_finish_hp port q = Some (r, q')" and "\<not> intr_suspended (fst q)"
  shows "\<not> intr_suspended (fst q')"
  using assms poll_nondata_on
  by (force simp: ata_io_finish_hp_def check_status_on gen_wait_on blocks_on split_def Let_def split: if_splits)

lemma run_on:
  assumes "sector_run_hp vmc l port d buf lba n dir q = Some (r, q')" and "\<not> intr_suspended (fst q)"
  shows "\<not> intr_suspended (fst q')"
  using assms io_finish_on [of port "(snd (ata_io_start_hp port buf n (io_task_hp vmc l d lba n dir) (fst q)), snd q)" r q']
  by (auto simp: sector_run_hp_def split_def Let_def io_start_on split: if_splits)

lemma loop_on:
  assumes "sector_loop_hp vmc l port d buf lba n dir q = Some q'"
  shows "\<not> intr_suspended (fst q) \<longrightarrow> \<not> intr_suspended (fst q')"
  using assms
  by (rule sector_loop_hp.raw_induct
    [where P = "\<lambda>vmc l port d buf lba n dir q q'. \<not> intr_suspended (fst q) \<longrightarrow> \<not> intr_suspended (fst q')", rotated])
    (auto simp: bind_eq_Some_conv dest: run_on split: if_splits)


text \<open>A kit at rest with a disk of which sector \<open>l\<close> is \<open>store l\<close>.\<close>

definition demo_kit :: "kit_hw hdpro" where
  "demo_kit = \<lparr>hp_hw = \<lparr>kh_port = Closed, kh_free = False, kh_slow = True, kh_task = disk_at_rest, inq = [], outq = [],
       kh_chk = 0\<rparr>,
     hdpro_io_active = False, intr_suspended = False, hp_evflg = 0, hp_alarm = False,
     hp_cmd = \<lparr>cmd_type_hp = 0, cmd_buf = 0, cmd_blkcount = 0\<rparr>, hp_io_sema = 1\<rparr>"

lemma demo_kit_idle: "hp_idle vmc kh_view demo_kit"
  by (simp add: hp_idle_def demo_kit_def kit_view_def kh_view_def disk_at_rest_def)


text \<open>
  A kit that does not answer its opening sequence makes the access end with -1 before any
  register is touched; with \<open>VMC_DRIVER\<close> the semaphore is not given back, so that every later
  access blocks for ever.
\<close>

theorem lost_kit_locks:
  assumes "fst (wire_start port (hp_hw s)) \<noteq> 0xe7" and "\<not> hdpro_io_active s" and "hp_io_sema s = 1"
  shows "\<exists>s'. ata_device_sector_io_hp True l port d buf lba n dir (s, m) = Some (- 1, s', m) \<and>
    ata_device_sector_io_hp True l' port' d' buf' lba' n' dir' (s', m'') = None"
proof -
  let ?s = "s\<lparr>hp_io_sema := 0\<rparr>"
  have "fst (on_port (wire_start port) ?s) \<noteq> 0xe7"
    using assms(1) by (simp add: on_port_def suspend_intr_def split_def Let_def)
  then have "\<not> fst (hdpro_io_start port ?s)" using assms(2) by (simp add: hdpro_io_start_def split_def Let_def)
  moreover have "hp_io_sema (snd (hdpro_io_start port ?s)) = 0"
    by (simp add: hdpro_io_start_def on_port_def suspend_intr_def resume_intr_def split_def Let_def)
  ultimately show ?thesis
    using assms(3) by (intro exI [of _ "snd (hdpro_io_start port ?s)"])
      (simp add: ata_device_sector_io_hp_def split_def Let_def)
qed

text \<open>A port on which nothing answers.\<close>

definition dead_port :: "unit port" where
  "dead_port = \<lparr>wr_io8 = (\<lambda>_ h. h), rd_io8 = (\<lambda>h. (0xff, h)), rd_io32 = (\<lambda>h. (0x401a7800, h)), strobe = (\<lambda>h. h),
     hp_delay = (\<lambda>_ h. h), SetAlarm_result = (\<lambda>_. 0), alarm_due = (\<lambda>_. True)\<rparr>"

definition dead_kit :: "unit hdpro" where
  "dead_kit = \<lparr>hp_hw = (), hdpro_io_active = False, intr_suspended = False, hp_evflg = 0, hp_alarm = False,
     hp_cmd = \<lparr>cmd_type_hp = 0, cmd_buf = 0, cmd_blkcount = 0\<rparr>, hp_io_sema = 1\<rparr>"

theorem lost_kit_locks_witness:
  "\<exists>s'. ata_device_sector_io_hp True True dead_port 0 0x1000 5 1 0 (dead_kit, \<lambda>_. 0) = Some (- 1, s', \<lambda>_. 0) \<and>
    ata_device_sector_io_hp True True dead_port 0 0x1000 5 1 0 (s', \<lambda>_. 0) = None"
  by (rule lost_kit_locks)
    (simp_all add: dead_port_def dead_kit_def wire_start_def in8_def out8_def Let_def)

lemma all_ones_read:
  assumes "\<forall>h. fst (wire_read port ATAreg_CONTROL_RD h) = 0xffff"
  shows "fst (hdpro_io_read port ATAreg_CONTROL_RD s) = 0xffff"
  using assms by (simp add: hdpro_io_read_def on_port_def split_def Let_def)

lemma all_ones_start:
  assumes "\<forall>h. fst (wire_read port ATAreg_CONTROL_RD h) = 0xffff"
  shows "fst (ata_io_start_hp port buf n t s) = ATA_RES_ERR_TIMEOUT"
proof -
  obtain ds where ds: "busy_delays = 0 # ds" using busy_delays_first by blast
  have "fst (gen_ata_wait_busy_hp port bits u) = ATA_RES_ERR_TIMEOUT" for bits u
    by (simp add: gen_ata_wait_busy_hp_def ds all_ones_read [OF assms] split_def Let_def)
  then have "fst (ata_device_select_hp port d u) = ATA_RES_ERR_TIMEOUT" for d u
    by (simp add: ata_device_select_hp_def split_def Let_def)
  then show ?thesis by (simp add: ata_io_start_hp_def split_def Let_def)
qed

text \<open>
  C35. A kit without a disk, which reads as all ones, is never given up on: the driver tries the
  same run again and again, so an access of any sectors does not come back (atad.c would report
  an error).
\<close>

theorem no_disk_no_return:
  assumes "\<forall>h. fst (wire_read port ATAreg_CONTROL_RD h) = 0xffff" and "fst (wire_start port (hp_hw s)) = 0xe7"
    and "\<not> hdpro_io_active s" and "n \<noteq> 0"
  shows "ata_device_sector_io_hp False l port d buf lba n dir (s, m) = None"
proof -
  have "p = port \<longrightarrow> k = 0" if "sector_loop_hp v l p d buf lba k dir q = Some q'" for v l p d buf lba k dir q q'
    using that
    by (rule sector_loop_hp.raw_induct [where P = "\<lambda>v l p d buf lba k dir q q'. p = port \<longrightarrow> k = 0", rotated])
      (auto simp: sector_run_hp_def split_def Let_def all_ones_start [OF assms(1)] split: if_splits)
  then have "sector_loop_hp False l port d buf lba n dir q = None" for q
    using assms(4) by (metis not_Some_eq)
  moreover have "fst (hdpro_io_start port s)"
    using assms(2,3) by (simp add: hdpro_io_start_def on_port_def suspend_intr_def split_def Let_def)
  ultimately show ?thesis by (simp add: ata_device_sector_io_hp_def split_def Let_def)
qed

text \<open>A kit that opens, with nothing behind it: after the opening sequence every byte reads as ones.\<close>

definition bare_port :: "bool port" where
  "bare_port = \<lparr>wr_io8 = (\<lambda>v h. v = 0x61 \<and> \<not> h), rd_io8 = (\<lambda>h. (if h then 0xe7 else 0xff, h)), rd_io32 = (\<lambda>h. (0x401a7800, h)),
     strobe = (\<lambda>h. h), hp_delay = (\<lambda>_ h. h), SetAlarm_result = (\<lambda>_. 0), alarm_due = (\<lambda>_. True)\<rparr>"

theorem no_disk_no_return_witness:
  "ata_device_sector_io_hp False True bare_port 0 0x1000 5 1 0
     (\<lparr>hp_hw = False, hdpro_io_active = False, intr_suspended = False, hp_evflg = 0, hp_alarm = False,
       hp_cmd = \<lparr>cmd_type_hp = 0, cmd_buf = 0, cmd_blkcount = 0\<rparr>, hp_io_sema = 1\<rparr>, \<lambda>_. 0) = None"
proof -
  have ones: "\<forall>h. fst (wire_read bare_port ATAreg_CONTROL_RD h) = 0xffff"
  proof
    fix h
    have "wr_io8 bare_port ATAreg_CONTROL_RD h = False" by (simp add: bare_port_def ATAreg_CONTROL_RD_def)
    then have "wire_read bare_port ATAreg_CONTROL_RD h = (ucast (0xff :: u8) OR push_bit 8 (ucast (0xff :: u8)), False)"
      by (simp add: wire_read_def in16_def in8_def out8_def) (simp add: bare_port_def)
    also have "ucast (0xff :: u8) OR push_bit 8 (ucast (0xff :: u8)) = (0xffff :: u16)" by code_simp
    finally show "fst (wire_read bare_port ATAreg_CONTROL_RD h) = 0xffff" by simp
  qed
  have start: "fst (wire_start bare_port h) = 0xe7" for h
    by (simp add: wire_start_def in8_def out8_def) (simp add: bare_port_def)
  show ?thesis by (rule no_disk_no_return [OF ones]) (simp_all add: start)
qed

end
