(* ===== verification/Demo_Drivers.thy ===== *)
theory Demo_Drivers
  imports Demo_Drive Device_Usb Hdd_Atad Hdpro_Laws Smb_Laws Modload
begin

text \<open>
  Concrete devices behind the other drivers, and the theorems of those drivers at concrete
  inputs: a USB stack that serves a store of 512-byte sectors as the bulk-only transport
  specifies, a hard disk with two parts, and a module loader with one caller.
\<close>

section \<open>A USB stack\<close>

text \<open>The stack's state is what a READ(10) left to be transferred, if one is pending.\<close>

definition demo_run :: "packet \<Rightarrow> u8 list option \<Rightarrow> u32 \<times> u8 list \<times> u8 list option" where
  "demo_run p u =
     (case p of
        OUT ep bs \<Rightarrow>
          (0, [], case u of
             None \<Rightarrow> Some (sector_run demo_store (rw10_lba (drop 15 bs)) (unat (rw10_count (drop 15 bs))))
           | Some bs' \<Rightarrow> Some bs')
      | IN ep n \<Rightarrow>
          (case u of
             None \<Rightarrow> (0, replicate n 0, None)
           | Some bs \<Rightarrow> if bs = [] then (0, replicate n 0, None) else (0, take n bs, Some (drop n bs)))
      | CONTROL r \<Rightarrow> (0, [0], u))"

definition demo_usb :: "(u8 list option) usb_stack" where
  "demo_usb = \<lparr>ub_submit = (\<lambda>t u. (0, u)), ub_early = (\<lambda>t u. 0), ub_run = demo_run\<rparr>"

lemma demo_bot_disc: "bot_disc demo_usb 2 1 512 demo_store id"
  unfolding bot_disc_def
proof (intro conjI allI impI)
  show "length (demo_store l) = 512" for l by (simp add: demo_store_def)
  show "\<exists>u'. ub_run demo_usb (OUT 2 (cbw_bytes tag (512 * unat n) (rw10_bytes False lba n))) u
      = (USB_RC_OK, [], u') \<and> id u' = Some (sector_run demo_store lba (unat n))"
    if "id u = None" for u tag lba n
    using that by (simp add: demo_usb_def demo_run_def rw10_in_cbw)
  show "\<exists>u'. ub_run demo_usb (IN 1 n) u = (USB_RC_OK, take n bs, u') \<and> id u' = Some (drop n bs)"
    if "id u = Some bs \<and> 0 < n \<and> n \<le> length bs" for u bs n
    using that by (auto simp: demo_usb_def demo_run_def)
  show "\<exists>csw u'. ub_run demo_usb (IN 1 13) u = (USB_RC_OK, csw, u') \<and> id u' = None"
    if "id u = Some []" for u
    using that by (simp add: demo_usb_def demo_run_def)
qed (simp_all add: demo_usb_def)

definition demo_bulk :: "(u8 list option) bulk" where
  "demo_bulk = \<lparr>g_mass_device = \<lparr>controlEp = 3, bulkEpI = 1, bulkEpO = 2, packetSzI = 512, packetSzO = 512,
       devId = 7, configId = 1, mstatus = 7, interfaceNumber = 0, interfaceAlt = 0, sectorSize = 512,
       maxLBA = 0xFFFFFF\<rparr>,
     cmd_count = 0, returnCode = 0, cmd_async = False, cb_data = 0, in_flight = [], ioSema = 0, io_sem = 0,
     cmd_tag = 0, ra_buffer = replicate 32768 0, locals = replicate 64 0, stack = None, ram = (\<lambda>_. 0)\<rparr>"

definition demo_mass :: "(u8 list option) mass" where
  "demo_mass = \<lparr>bulk = demo_bulk, vmc = True, io_sema = 1, last_sector = 0xFFFFFFFF, last_count = 0,
     ra_buffer_pointer = 0, ra_sector = 0xFFFFFFFF, ra_count = 0, ra_active = 0, gSectorBuffer = 0x60000,
     mass_LBAs = [64]\<rparr>"

lemma demo_settled: "mass_settled demo_usb 2 1 demo_store id demo_mass"
  by (simp add: mass_settled_def mass_device_def demo_bot_disc demo_mass_def demo_bulk_def ra_holds_def)

lemma demo_mass_inv: "mass_inv demo_usb 2 1 demo_store id demo_mass"
  by (simp add: mass_inv_def mass_coherent_def demo_settled) (simp add: demo_mass_def)

text \<open>Three reads in sequence, the last one answered from the read-ahead.\<close>

theorem read_ahead_transparent_witness:
  "\<exists>s'. mass_reads demo_usb [(64, 4, 0x1000), (68, 4, 0x1800), (72, 4, 0x2000)] demo_mass = Some s' \<and>
    ram (bulk s') = disc_reads demo_store [(64, 4, 0x1000), (68, 4, 0x1800), (72, 4, 0x2000)] (\<lambda>_. 0)"
  using read_ahead_transparent [OF demo_mass_inv, of "[(64, 4, 0x1000), (68, 4, 0x1800), (72, 4, 0x2000)]"]
  by (auto simp: demo_mass_def demo_bulk_def)

text \<open>A device of 4096-byte sectors: of three disc sectors, one device sector is read.\<close>

definition demo_mass_4k :: "(u8 list option) mass" where
  "demo_mass_4k = demo_mass\<lparr>bulk := demo_bulk\<lparr>g_mass_device := (g_mass_device demo_bulk)\<lparr>sectorSize := 4096\<rparr>\<rparr>\<rparr>"

theorem ReadCD_4k_witness:
  "mass_stor_ReadCD demo_usb 0 3 0x1000 0 demo_mass_4k
     = map_option (Pair 1) (mass_stor_readSector demo_usb 64 1 0x1000 demo_mass_4k)"
  using ReadCD_4k [of demo_mass_4k 0 3 demo_usb "0x1000" 0]
  by (simp add: demo_mass_4k_def demo_mass_def)

text \<open>A stack that refuses every transfer.\<close>

definition demo_dead_usb :: "(u8 list option) usb_stack" where
  "demo_dead_usb = demo_usb\<lparr>ub_submit := (\<lambda>t u. (1, u))\<rparr>"

lemma demo_dead_command: "\<exists>b'. mass_scsi_cmd demo_dead_usb cmd p n w a b = Some (- EIO, b')"
  by (simp add: mass_scsi_cmd_def submit_def demo_dead_usb_def Let_def del: EIO_def)

theorem failed_read_locks_witness:
  "\<exists>s2. mass_stor_readSector demo_dead_usb 64 4 0x1000 demo_mass = Some s2 \<and>
     mass_stor_readSector demo_dead_usb 80 1 0x1000 s2 = None"
proof -
  let ?s0 = "demo_mass\<lparr>io_sema := 0\<rparr>"
  obtain b' where "cbw_scsi_sector_io demo_dead_usb False 64 (Ram 0x1000) 4 False (bulk ?s0) = Some (- EIO, b')"
    using demo_dead_command unfolding cbw_scsi_sector_io_def by blast
  moreover have "- EIO <s 0" "\<not> (ra_sector ?s0 = 64 \<and> 4 \<le> ra_count ?s0)"
    by (simp_all add: word_sless_alt demo_mass_def)
  ultimately have s2: "ra_fetch demo_dead_usb 64 4 (Ram 0x1000) ?s0 = Some (False, ?s0\<lparr>bulk := b'\<rparr>)"
    unfolding ra_fetch_def by (simp only: if_False option.map prod.case not_True_eq_False)
  have "vmc demo_mass" "WAITIOSEMA demo_mass = Some ?s0" "io_sema demo_mass = 1"
    "ra_wait demo_dead_usb ?s0 = Some ?s0"
    by (simp_all add: WAITIOSEMA_def ra_wait_def demo_mass_def)
  from failed_read_locks [OF this s2, of 80 1 "0x1000"] show ?thesis
    by (intro exI [of _ "?s0\<lparr>bulk := b'\<rparr>"])
qed

text \<open>A stack that runs the command wrapper before the next transfer is queued.\<close>

definition demo_eager_usb :: "(u8 list option) usb_stack" where
  "demo_eager_usb = demo_usb\<lparr>ub_early := (\<lambda>t u. case t of Cbw _ _ \<Rightarrow> 1 | _ \<Rightarrow> 0)\<rparr>"

theorem early_completion_witness:
  "\<exists>b'. mass_scsi_cmd demo_eager_usb (rw10_bytes False 64 1) (Ram 0x1000) 512 False False demo_bulk
      = Some (0, b') \<and> ram b' = (\<lambda>_. 0) \<and> in_flight b' = [Data_in 1 (Ram 0x1000) 512, Csw_in 1]"
proof -
  let ?cbw = "cbw_bytes (cmd_tag demo_bulk + 1) 512 (rw10_bytes False 64 1)"
  have "data_chunks False 1 (Ram 0x1000) 512 = [Data_in 1 (Ram 0x1000) 512]"
    by (subst data_chunks.simps) (simp add: data_chunks.simps)
  moreover have "\<exists>b'. mass_scsi_cmd demo_eager_usb (rw10_bytes False 64 1) (Ram 0x1000) 512 False False demo_bulk
      = Some (0, b') \<and> ram b' = ram demo_bulk \<and> in_flight b'
      = data_chunks False (bulkEpI (g_mass_device demo_bulk)) (Ram 0x1000) 512
        @ [Csw_in (bulkEpI (g_mass_device demo_bulk))]"
  proof (rule early_completion [OF refl])
    show "ub_submit demo_eager_usb (Cbw (bulkEpO (g_mass_device demo_bulk)) ?cbw) (stack demo_bulk)
        = (USB_RC_OK, None)"
      "ub_early demo_eager_usb (Cbw (bulkEpO (g_mass_device demo_bulk)) ?cbw) None = 1"
      by (simp_all add: demo_eager_usb_def demo_usb_def demo_bulk_def)
    show "ub_run demo_eager_usb (OUT (bulkEpO (g_mass_device demo_bulk)) ?cbw) None
        = (USB_RC_OK, [], Some (sector_run demo_store 64 1))"
      by (simp add: demo_eager_usb_def demo_usb_def demo_run_def rw10_in_cbw)
    show "\<forall>t u. (\<forall>ep c. t \<noteq> Cbw ep c) \<longrightarrow> fst (ub_submit demo_eager_usb t u) = USB_RC_OK \<and>
        ub_early demo_eager_usb t (snd (ub_submit demo_eager_usb t u)) = 0"
      by (auto simp: demo_eager_usb_def demo_usb_def split: transfer.splits)
  qed (simp_all add: demo_bulk_def)
  ultimately show ?thesis by (simp add: demo_bulk_def)
qed

section \<open>Parts\<close>

text \<open>A part reader that keeps a log of what it is asked for.\<close>

definition demo_part_rd :: "((u32 \<times> u32 \<times> nat) list) part_rd" where
  "demo_part_rd lsn n p i s m = Some (s @ [(lsn, n, i)], m)"

text \<open>Two sectors at the boundary: the second part is asked for its sector \<open>-1\<close>.\<close>

theorem parts_boundary_witness:
  "DeviceReadSectors_parts 2 demo_part_rd 0x7FFFF 0x1000 2 [] (\<lambda>_. 0)
     = Some (0, [(0x7FFFF, 1, 0), (0xFFFFFFFF, 1, 1)], \<lambda>_. 0)"
  by (rule parts_boundary) (simp_all add: demo_part_rd_def)

section \<open>A device is exchanged\<close>

text \<open>The state after a read-ahead of one sector has arrived, and another device of the same kind.\<close>

definition demo_ahead :: "(u8 list option) mass" where
  "demo_ahead = demo_mass\<lparr>ra_sector := 100, ra_count := 1,
     bulk := demo_bulk\<lparr>ra_buffer := demo_store 100 @ replicate 32256 0\<rparr>\<rparr>"

definition demo_ports :: "(u8 list option) usb_ports" where
  "demo_ports = \<lparr>ub_open = (\<lambda>d e u. (case e of None \<Rightarrow> 3 | Some e \<Rightarrow> ucast (bEndpointAddress e AND 0x7F), u)),
     ub_close = (\<lambda>ep u. u)\<rparr>"

definition demo_descriptors :: usb_descriptors where
  "demo_descriptors = \<lparr>bNumConfigurations = Some 1,
     config_descr = Some \<lparr>wTotalLength = 32, bNumInterfaces = 1, bConfigurationValue = 1,
       first_interface = \<lparr>bInterfaceNumber = 0, bAlternateSetting = 0, bNumEndpoints = 2,
         bInterfaceClass = 8, bInterfaceSubClass = 6, bInterfaceProtocol = 0x50\<rparr>\<rparr>,
     endpoint_descr = Some (\<lambda>i. \<lparr>bEndpointAddress = (if i = 0 then 0x02 else 0x81), bmAttributes = 2,
       wMaxPacketSizeLB = 0, wMaxPacketSizeHB = 2\<rparr>)\<rparr>"

lemma demo_ahead_settled: "mass_settled demo_usb 2 1 demo_store id demo_ahead"
  by (simp add: mass_settled_def mass_device_def demo_bot_disc demo_ahead_def demo_mass_def demo_bulk_def
      ra_holds_def demo_store_def)

definition demo_exchanged :: "(u8 list option) mass" where
  "demo_exchanged = snd (mass_stor_disconnect demo_ports 7 demo_ahead)"

lemma demo_reconnects:
  "\<exists>s2. mass_stor_connect demo_ports 1 9 demo_descriptors demo_exchanged = Some (0, s2)"
  by (simp add: mass_stor_connect_def demo_exchanged_def mass_stor_disconnect_def mass_stor_release_def
      demo_ahead_def demo_mass_def demo_bulk_def demo_ports_def demo_descriptors_def has_status_def
      usb_bulk_probeEndpoint_def word_sless_alt Let_def upt_rec)

text \<open>Sector 100 of the device that is gone, whatever the new one holds there.\<close>

theorem stale_read_ahead_witness:
  "\<exists>s2 s3 s4. mass_stor_connect demo_ports 1 9 demo_descriptors demo_exchanged = Some (0, s2) \<and>
     s3 = s2\<lparr>bulk := (bulk s2)\<lparr>g_mass_device := (g_mass_device (bulk s2))\<lparr>sectorSize := 512\<rparr>\<rparr>\<rparr> \<and>
     ra_fetch demo_dead_usb 100 1 (Ram 0x1000) s3 = Some (True, s4) \<and>
     ram (bulk s4) = write_bytes 0x1000 (demo_store 100) (ram (bulk s3))"
proof -
  obtain s2 where s2: "mass_stor_connect demo_ports 1 9 demo_descriptors demo_exchanged = Some (0, s2)"
    using demo_reconnects by blast
  let ?s3 = "s2\<lparr>bulk := (bulk s2)\<lparr>g_mass_device := (g_mass_device (bulk s2))\<lparr>sectorSize := 512\<rparr>\<rparr>\<rparr>"
  have ahead: "ra_sector demo_ahead = 100" "1 \<le> ra_count demo_ahead" by (simp_all add: demo_ahead_def)
  have "sectorSize (g_mass_device (bulk ?s3)) = 512" "ahead_of ?s3 = ahead_of s2"
    by (simp_all add: ahead_of_def)
  from stale_read_ahead [OF demo_ahead_settled ahead(2) demo_exchanged_def s2 this, of demo_dead_usb "0x1000"]
  obtain s4 where "ra_fetch demo_dead_usb 100 1 (Ram 0x1000) ?s3 = Some (True, s4)"
    "ram (bulk s4) = write_bytes 0x1000 (sector_run demo_store 100 1) (ram (bulk ?s3))"
    by (auto simp: ahead(1))
  with s2 show ?thesis by (intro exI [of _ s2] exI [of _ ?s3] exI [of _ s4]) simp
qed

section \<open>A hard disk with two parts\<close>

definition demo_table :: "hdl_partspecs_t list" where
  "demo_table = [\<lparr>part_offset = 0, data_start = 0x2000, part_size = 0x80000\<rparr>,
     \<lparr>part_offset = 0x100, data_start = 0x9000, part_size = 0x80000\<rparr>]"

text \<open>The disk of \<open>Hdd_Atad\<close> with the demonstration contents, its driver started.\<close>

definition demo_ata :: "(drive dev9) ata_rd" where
  "demo_ata = atad_rd False True (disk_bus demo_store)"

definition demo_hdd :: "(drive dev9) hdd" where
  "demo_hdd = \<lparr>cdvdman_partspecs = demo_table, CurrentPart = 0, hdd_NumParts = 2, lba_48bit = 1,
     lba_start = 0, ata = snd (atad_start demo_bay)\<rparr>"

lemma demo_disk: "ata_drive (disk_bus demo_store) (\<lambda>h. h) demo_store"
  by (rule disk_bus_drive) (simp add: demo_store_def)

lemma demo_table_parts:
  "in_part \<lparr>part_offset = 0, data_start = 0x2000, part_size = 0x80000\<rparr> l \<longleftrightarrow> l < 0x100"
  "in_part \<lparr>part_offset = 0x100, data_start = 0x9000, part_size = 0x80000\<rparr> l \<longleftrightarrow> 0x100 \<le> l \<and> l < 0x200"
  by (simp_all add: in_part_def part_end_def)

lemma demo_table_ok: "disjoint_parts demo_table" "parts_fit (lba_limit True) demo_table"
  by (auto simp: disjoint_parts_def demo_table_def demo_table_parts)
    (simp add: parts_fit_def lba_limit_def part_end_def)

lemma demo_hdd_state: "hdd_state (ata_idle False (\<lambda>h. h)) (lba_limit True) demo_table demo_hdd"
  using demo_table_ok by (simp add: hdd_state_def demo_hdd_def demo_bay_started) (simp add: demo_table_def)

text \<open>The same disk behind the kit of \<open>Hdpro_Laws\<close>.\<close>

definition demo_hdd_kit :: "(kit_hw hdpro) hdd" where
  "demo_hdd_kit = \<lparr>cdvdman_partspecs = demo_table, CurrentPart = 0, hdd_NumParts = 2, lba_48bit = 1,
     lba_start = 0, ata = demo_kit\<rparr>"

lemma demo_hdd_kit_state: "hdd_state (hp_idle True kh_view) (lba_limit True) demo_table demo_hdd_kit"
  using demo_table_ok by (simp add: hdd_state_def demo_hdd_kit_def demo_kit_idle) (simp add: demo_table_def)

theorem hdd_outside_witness:
  "DeviceReadSectors_hdd demo_ata 0x300 0x1000 1 demo_hdd (\<lambda>_. 0) = Some (- ENXIO, demo_hdd, \<lambda>_. 0)"
  by (rule hdd_outside)
    (simp_all add: demo_hdd_def hdd_current_def demo_table_def demo_table_parts less_2_cases_iff)

section \<open>A module loader\<close>

text \<open>Entries of the export table at 0x1000, 0x1004, ...; one caller imports entries 7 and 6.\<close>

definition demo_lib :: modload_lib where
  "demo_lib = \<lparr>ml_version = 0x101, ml_exports = map (\<lambda>i. 0x1000 + of_nat (4 * i)) [0..<24],
     ml_caller = [[\<lparr>jump = 0x08000400, fno = 7\<rparr>, \<lparr>jump = 0x08000401, fno = 6\<rparr>, \<lparr>jump = 0, fno = 0\<rparr>]]\<rparr>"

definition demo_hooks :: "nat \<Rightarrow> u32" where
  "demo_hooks i = 0x20000 + of_nat (16 * i)"

theorem hook_redirects_witness:
  "jump_target (jump (ml_caller (snd (hookMODLOAD demo_hooks demo_lib)) ! 0 ! 0)) = demo_hooks 7 \<and>
   fst (hookMODLOAD demo_hooks demo_lib) 7 = Some (ml_exports demo_lib ! 7)"
proof -
  have "jump_target (jump (ml_caller (snd (hookMODLOAD demo_hooks demo_lib)) ! 0 ! 0)) = demo_hooks 7 \<and>
    (7 \<in> set (hooked_entries (ml_version demo_lib)) \<longrightarrow>
      fst (hookMODLOAD demo_hooks demo_lib) 7 = Some (ml_exports demo_lib ! 7))"
  proof (rule hook_redirects)
    show "(fst (hookMODLOAD demo_hooks demo_lib), snd (hookMODLOAD demo_hooks demo_lib))
        = hookMODLOAD demo_hooks demo_lib" by simp
  qed (simp_all add: demo_lib_def demo_hooks_def hooked_entries_def)
  then show ?thesis by (simp add: demo_lib_def hooked_entries_def)
qed

theorem flag_leaks_witness:
  "Hook_LoadStartModule USB_DRIVER (\<lambda>path l. (1, Suc l)) ''GAME.IRX''
     (snd (Hook_LoadModuleBuffer USB_DRIVER (\<lambda>name l. (1, Suc l)) ''USB_driver'' \<lparr>fakemod_flag = False, loader = 0\<rparr>))
   = (FAKEMOD_ID, \<lparr>fakemod_flag = False, loader = 0\<rparr>)"
  using flag_leaks [of "''USB_driver''" USB_DRIVER "\<lambda>path l. (1, Suc l)" "''GAME.IRX''"
      "\<lambda>name l. (1, Suc l)" "\<lparr>fakemod_flag = False, loader = 0\<rparr>"] by simp


end
