(* ===== verification/Fsv.thy ===== *)
theory Fsv
  imports Devctl
begin

text \<open>
  The server for the main processor (cdvdfsv/cdvdfsv.c): requests come as remote procedure
  calls with a packet in a buffer of the server, data goes to the main processor's (EE) memory
  by DMA, and the answer is the packet's first word. The calls into CDVDMAN are those modelled
  in the other theories. A DMA transfer is queued and waited for; the library completes it, so a
  transfer is one copy.
\<close>

section \<open>State\<close>

text \<open>
  CDVDMAN, the mechacon's registers, the EE's memory, and the priorities of the three server
  threads. \<open>cdvdfsv_buf\<close> is CDVDMAN's file-system buffer (\<open>sceGetFsvRbuf\<close>), 17 sectors long.
\<close>

record ('d, 'h) fsv =
  cd :: "'d cdvdman"
  mecha :: 'h
  ee :: mem
  rpc0_prio :: int
  rpc1_prio :: int
  rpc2_prio :: int

definition CDVDFSV_BUF_SECTORS :: u32 where [simp]: "CDVDFSV_BUF_SECTORS = 16"

definition arg :: "u32 \<Rightarrow> ('d, 'h) fsv \<Rightarrow> u32" where
  "arg a f = get_u32 (memory (cd f)) a"

definition reply_bytes :: "u32 \<Rightarrow> u8 list \<Rightarrow> ('d, 'h) fsv \<Rightarrow> ('d, 'h) fsv" where
  "reply_bytes a bs f = f\<lparr>cd := (cd f)\<lparr>memory := write_bytes a bs (memory (cd f))\<rparr>\<rparr>"

definition reply :: "u32 \<Rightarrow> u32 \<Rightarrow> ('d, 'h) fsv \<Rightarrow> ('d, 'h) fsv" where
  "reply a w = reply_bytes a (bytes_u32 w)"

text \<open>\<open>sysmemSendEE\<close> from memory, and from a variable on the stack.\<close>

definition send_local :: "u8 list \<Rightarrow> u32 \<Rightarrow> ('d, 'h) fsv \<Rightarrow> ('d, 'h) fsv" where
  "send_local bs EE_addr f = f\<lparr>ee := write_bytes EE_addr bs (ee f)\<rparr>"

definition sysmemSendEE :: "u32 \<Rightarrow> u32 \<Rightarrow> nat \<Rightarrow> ('d, 'h) fsv \<Rightarrow> ('d, 'h) fsv" where
  "sysmemSendEE buf EE_addr n f = send_local (read_bytes (memory (cd f)) buf n) EE_addr f"

text \<open>A call into CDVDMAN whose result is the answer.\<close>

definition answer :: "u32 \<Rightarrow> u32 \<times> 'd cdvdman \<Rightarrow> ('d, 'h) fsv \<Rightarrow> ('d, 'h) fsv" where
  "answer buf = (\<lambda>(r, s) f. reply buf r (f\<lparr>cd := s\<rparr>))"

definition answer_opt ::
  "u32 \<Rightarrow> (u32 \<times> 'd cdvdman) option \<Rightarrow> ('d, 'h) fsv \<Rightarrow> ('d, 'h) fsv option" where
  "answer_opt buf x f = map_option (\<lambda>q. answer buf q f) x"

text \<open>A refused read: the error is set unless there is one.\<close>

definition read_refused :: "u32 \<Rightarrow> ('d, 'h) fsv \<Rightarrow> ('d, 'h) fsv" where
  "read_refused e f =
     (if sceCdGetError (cd f) = CDVD_ERR_NO then f\<lparr>cd := (cd f)\<lparr>err := e\<rparr>\<rparr> else f)"

section \<open>Threads\<close>

definition sceCdChangeThreadPriority :: "int \<Rightarrow> ('d, 'h) fsv \<Rightarrow> int \<times> ('d, 'h) fsv" where
  "sceCdChangeThreadPriority priority f =
     (if (word_of_int (priority - 9) :: u32) < 0x73
      then let p = (if priority = 9 then 10 else priority)
           in (0, f\<lparr>rpc0_prio := p, rpc2_prio := p, rpc1_prio := p\<rparr>)
      else (-403, f))"

definition cdvdfsv_startrpcthreads :: "('d, 'h) fsv \<Rightarrow> ('d, 'h) fsv" where
  "cdvdfsv_startrpcthreads f = f\<lparr>rpc1_prio := 0x51, rpc2_prio := 0x51, rpc0_prio := 0x51\<rparr>"

section \<open>Initialisation and disk ready\<close>

definition cbrpc_cdinit ::
  "'d devread \<Rightarrow> ('d \<Rightarrow> 'd option) \<Rightarrow> u32 \<Rightarrow> ('d, 'h) fsv \<Rightarrow> ('d, 'h) fsv option" where
  "cbrpc_cdinit rd DeviceFSInit buf f =
     map_option (reply (buf + 8) 0x223 \<circ> reply (buf + 4) 0x223)
       (answer_opt buf (sceCdInit rd DeviceFSInit (arg buf f) (cd f)) f)"

definition cbrpc_cddiskready ::
  "'d devread \<Rightarrow> u32 \<Rightarrow> ('d, 'h) fsv \<Rightarrow> ('d, 'h) fsv option" where
  "cbrpc_cddiskready rd buf f =
     answer_opt buf (sceCdDiskReady rd (if arg buf f = 0 then 0 else 1) (cd f)) f"

definition cbrpc_cddiskready2 ::
  "'d devread \<Rightarrow> u32 \<Rightarrow> ('d, 'h) fsv \<Rightarrow> ('d, 'h) fsv option" where
  "cbrpc_cddiskready2 rd buf f = answer_opt buf (sceCdDiskReady rd 0 (cd f)) f"

text \<open>
  Waiting for event bit 4, which the power-off interrupt sets: \<open>ints\<close> lists what the interrupts
  that come while the thread sleeps do. With no more of them the call never returns.
\<close>

fun wait_flag4 :: "('d cdvdman \<Rightarrow> 'd cdvdman) list \<Rightarrow> 'd cdvdman \<Rightarrow> 'd cdvdman option" where
  "wait_flag4 ints s =
     (if intr_ef s AND 4 = 4 then Some s
      else case ints of [] \<Rightarrow> None | i # is \<Rightarrow> wait_flag4 is (i s))"

declare wait_flag4.simps [simp del]

definition cbrpc_S596 ::
  "('d cdvdman \<Rightarrow> 'd cdvdman) list \<Rightarrow> u32 \<Rightarrow> u32 \<Rightarrow> ('d, 'h) fsv \<Rightarrow> ('d, 'h) fsv option" where
  "cbrpc_S596 ints fno buf f =
     (if fno = 1
      then map_option (\<lambda>s. reply buf 1 (f\<lparr>cd := s\<rparr>)) (wait_flag4 ints (ClearEventFlag (NOT 4) (cd f)))
      else Some (reply buf 1 f))"

section \<open>S commands\<close>

datatype CDVDFSV_SCMD = SCMD_READCLOCK | SCMD_DISKTYPE | SCMD_GETERROR | SCMD_TRAYREQ | SCMD_APPLYSCMD
  | SCMD_STATUS | SCMD_BREAK | SCMD_CANCELPOFF | SCMD_POWEROFF | SCMD_MMODE | SCMD_THREADPRIO
  | SCMD_READGUID | SCMD_SETTIMEOUT | SCMD_READMODELID | SCMD_READDUALINFO

definition SCMD_table :: "(u32 \<times> CDVDFSV_SCMD) list" where
  "SCMD_table = [(0x01, SCMD_READCLOCK), (0x03, SCMD_DISKTYPE), (0x04, SCMD_GETERROR),
     (0x05, SCMD_TRAYREQ), (0x0B, SCMD_APPLYSCMD), (0x0C, SCMD_STATUS), (0x16, SCMD_BREAK),
     (0x1F, SCMD_CANCELPOFF), (0x21, SCMD_POWEROFF), (0x22, SCMD_MMODE), (0x23, SCMD_THREADPRIO),
     (0x24, SCMD_READGUID), (0x25, SCMD_SETTIMEOUT), (0x26, SCMD_READMODELID),
     (0x27, SCMD_READDUALINFO)]"

text \<open>A command to the mechacon: the bytes it leaves at an address, then the answer.\<close>

definition scmd_answer ::
  "u32 \<Rightarrow> (u8 list \<times> u32) \<times> 'd cdvdman \<times> 'h \<Rightarrow> u32 \<Rightarrow> ('d, 'h) fsv \<Rightarrow> ('d, 'h) fsv" where
  "scmd_answer buf = (\<lambda>((out, r), s, h) a f.
     reply buf r (reply_bytes a out (f\<lparr>cd := s, mecha := h\<rparr>)))"

definition rpcSCmd_cdreadclock ::
  "'h scmd_regs \<Rightarrow> u32 \<Rightarrow> ('d, 'h) fsv \<Rightarrow> ('d, 'h) fsv option" where
  "rpcSCmd_cdreadclock hw buf f =
     map_option (\<lambda>(r, c, s, h). scmd_answer buf ((clock_bytes c, r), s, h) (buf + 4) f)
       (sceCdReadClock hw (bytes_clock (read_bytes (memory (cd f)) (buf + 4) 8)) (cd f, mecha f))"

definition rpcSCmd_cdtrayreq :: "u32 \<Rightarrow> ('d, 'h) fsv \<Rightarrow> ('d, 'h) fsv" where
  "rpcSCmd_cdtrayreq buf f =
     (let (r, cnt, s) = sceCdTrayReq (arg buf f) (cd f); f1 = f\<lparr>cd := s\<rparr>
      in reply buf r (case cnt of Some w \<Rightarrow> reply (buf + 4) w f1 | None \<Rightarrow> f1))"

text \<open>The packet is \<open>u16 cmd, u16 in_size, void *in\<close>; the result is not stored.\<close>

definition rpcSCmd_cdapplySCmd ::
  "'h scmd_regs \<Rightarrow> u32 \<Rightarrow> ('d, 'h) fsv \<Rightarrow> ('d, 'h) fsv option" where
  "rpcSCmd_cdapplySCmd hw buf f =
     (let m = memory (cd f)
      in map_option (\<lambda>(r, out, s, h). reply_bytes buf out (f\<lparr>cd := s, mecha := h\<rparr>))
           (sceCdApplySCmd hw (ucast (get_u16 m buf))
              (read_bytes m (get_u32 m (buf + 4)) (unat (get_u16 m (buf + 2)))) (cd f, mecha f)))"

definition scmd_id ::
  "('d cdvdman \<times> 'h \<Rightarrow> (u32 \<times> u8 list option \<times> 'd cdvdman \<times> 'h) option) \<Rightarrow> u32 \<Rightarrow>
   ('d, 'h) fsv \<Rightarrow> ('d, 'h) fsv option" where
  "scmd_id call buf f =
     map_option (\<lambda>(r, out, s, h).
         scmd_answer buf ((case out of Some b \<Rightarrow> b | None \<Rightarrow> [], r), s, h) (buf + 4) f)
       (call (cd f, mecha f))"

definition rpcSCmd_cdreadGUID ::
  "'h scmd_regs \<Rightarrow> u8 list \<Rightarrow> u32 \<Rightarrow> ('d, 'h) fsv \<Rightarrow> ('d, 'h) fsv option" where
  "rpcSCmd_cdreadGUID hw stk = scmd_id (sceCdReadGUID hw stk)"

definition rpcSCmd_cdreadModelID ::
  "'h scmd_regs \<Rightarrow> u8 list \<Rightarrow> u32 \<Rightarrow> ('d, 'h) fsv \<Rightarrow> ('d, 'h) fsv option" where
  "rpcSCmd_cdreadModelID hw stk = scmd_id (sceCdReadModelID hw stk)"

text \<open>Entries 75 and 81 of CDVDMAN's export table, \<open>sceCdMmode\<close> and \<open>sceCdSetTimeout\<close>, are
  \<open>_dummy\<close>, which returns 1.\<close>

definition rpcSCmd_cdsettimeout :: "u32 \<Rightarrow> ('d, 'h) fsv \<Rightarrow> ('d, 'h) fsv" where
  "rpcSCmd_cdsettimeout buf = reply buf 1"

definition rpcSCmd_cdreaddvddualinfo :: "u32 \<Rightarrow> ('d, 'h) fsv \<Rightarrow> ('d, 'h) fsv" where
  "rpcSCmd_cdreaddvddualinfo buf f =
     (let (on_dual, layer1) = sceCdReadDvdDualInfo (cd f)
      in reply buf 1 (reply (buf + 8) layer1 (reply (buf + 4) on_dual f)))"

definition cbrpc_cdvdScmds ::
  "'h scmd_regs \<Rightarrow> u8 list \<Rightarrow> u32 \<Rightarrow> u32 \<Rightarrow> ('d, 'h) fsv \<Rightarrow> ('d, 'h) fsv option" where
  "cbrpc_cdvdScmds hw stk fno buf f =
     (case map_of SCMD_table fno of
        None \<Rightarrow> Some (reply buf 0 f)
      | Some SCMD_READCLOCK \<Rightarrow> rpcSCmd_cdreadclock hw buf f
      | Some SCMD_DISKTYPE \<Rightarrow> Some (reply buf (sceCdGetDiskType (cd f)) f)
      | Some SCMD_GETERROR \<Rightarrow> Some (reply buf (sceCdGetError (cd f)) f)
      | Some SCMD_TRAYREQ \<Rightarrow> Some (rpcSCmd_cdtrayreq buf f)
      | Some SCMD_APPLYSCMD \<Rightarrow> rpcSCmd_cdapplySCmd hw buf f
      | Some SCMD_STATUS \<Rightarrow> Some (reply buf (sceCdStatus (cd f)) f)
      | Some SCMD_BREAK \<Rightarrow> Some (answer buf (sceCdBreak (cd f)) f)
      | Some SCMD_CANCELPOFF \<Rightarrow> Some (reply buf 1 f)
      | Some SCMD_POWEROFF \<Rightarrow>
          map_option (\<lambda>(r, out, s, h). scmd_answer buf ((out, r), s, h) buf f)
            (sceCdPowerOff hw (cd f, mecha f))
      | Some SCMD_MMODE \<Rightarrow> Some (reply buf 1 f)
      | Some SCMD_THREADPRIO \<Rightarrow>
          (let (r, f') = sceCdChangeThreadPriority (sint (arg buf f)) f
           in Some (reply buf (word_of_int r) f'))
      | Some SCMD_READGUID \<Rightarrow> rpcSCmd_cdreadGUID hw stk buf f
      | Some SCMD_SETTIMEOUT \<Rightarrow> Some (rpcSCmd_cdsettimeout buf f)
      | Some SCMD_READMODELID \<Rightarrow> rpcSCmd_cdreadModelID hw stk buf f
      | Some SCMD_READDUALINFO \<Rightarrow> Some (rpcSCmd_cdreaddvddualinfo buf f))"

section \<open>Searching a file\<close>

text \<open>A string of at most 256 bytes at an address; None when no 0 ends it.\<close>

definition c_string :: "mem \<Rightarrow> u32 \<Rightarrow> cstring option" where
  "c_string m a =
     (let bs = read_bytes m a 256 in if 0 \<in> set bs then Some (takeWhile (\<lambda>c. c \<noteq> 0) bs) else None)"

text \<open>What \<open>cdvdman_findfile\<close> stores in a \<open>cd_file_t\<close>: sector, size, and the name with its 0.\<close>

definition store_cdfile :: "u32 \<Rightarrow> cd_file_t option \<Rightarrow> ('d, 'h) fsv \<Rightarrow> ('d, 'h) fsv" where
  "store_cdfile a c f =
     (case c of None \<Rightarrow> f
      | Some c \<Rightarrow> reply_bytes (a + 8) (cdf_name c @ [0]) (reply (a + 4) (cdf_size c) (reply a (cdf_lsn c) f)))"

text \<open>
  The size of the packet tells the version of the library that sent it: 0x128 bytes (single
  layer), more (with the layer at 0x128), or less (the old one, without \<open>flag\<close>).
\<close>

definition cbrpc_cdsearchfile ::
  "'d devread \<Rightarrow> ('d \<Rightarrow> 'd option) \<Rightarrow> u32 \<Rightarrow> int \<Rightarrow> ('d, 'h) fsv \<Rightarrow> ('d, 'h) fsv option" where
  "cbrpc_cdsearchfile rd DeviceFSInit buf n f = do {
     let newer = (n \<ge> 0x128);
     let ee_addr = arg (buf + (if newer then 0x124 else 0x120)) f;
     p \<leftarrow> c_string (memory (cd f)) (buf + (if newer then 0x24 else 0x20));
     (r, c, s) \<leftarrow> (if n > 0x128
       then sceCdLayerSearchFile rd DeviceFSInit p (arg (buf + 0x128) f) (cd f)
       else sceCdSearchFile rd DeviceFSInit p (cd f));
     let f1 = store_cdfile buf c (f\<lparr>cd := s\<rparr>);
     let f2 = (if newer then reply (buf + 32) 0 f1 else f1);
     Some (reply buf r (sysmemSendEE buf ee_addr (if newer then 36 else 32) f2)) }"

section \<open>Streams\<close>

text \<open>
  The loop of \<open>cdvdSt_read\<close>. \<open>e\<close> is the variable \<open>err\<close>, not initialised before the first read
  that stores it.
\<close>

partial_function (option) St_read_loop ::
  "'d devread \<Rightarrow> u32 \<Rightarrow> int \<Rightarrow> u32 \<Rightarrow> u32 \<Rightarrow> 'd cdvdman \<times> mem \<Rightarrow> (u32 \<times> u32 \<times> 'd cdvdman \<times> mem) option" where
  "St_read_loop rd ee_addr remaining rpos e q =
     (if \<not> 0 < remaining then Some (rpos, e, q)
      else Option.bind (sceCdStRead rd (word_of_int remaining) (ee_addr OR 0x80000000) 0 q)
        (\<lambda>(r, e', s', ee'). let e2 = (case e' of Some x \<Rightarrow> x | None \<Rightarrow> e)
           in if sint r < 1 then Some (rpos, e2, s', ee')
              else St_read_loop rd (ee_addr + push_bit 11 r) (remaining - sint r) (rpos + r) e2 (s', ee')))"

definition cdvdSt_read ::
  "'d devread \<Rightarrow> u32 \<Rightarrow> u32 \<Rightarrow> ('d, 'h) fsv \<Rightarrow> ('d, 'h) fsv option" where
  "cdvdSt_read rd stk_err buf f =
     map_option (\<lambda>(rpos, e, s, ee'). reply buf ((rpos AND 0xFFFF) OR push_bit 16 e) (f\<lparr>cd := s, ee := ee'\<rparr>))
       (St_read_loop rd (arg (buf + 8) f) (sint (arg (buf + 4) f)) 0 stk_err (cd f, ee f))"

datatype CDVDFSV_ST_CMD = ST_START | ST_READ | ST_STOP | ST_SEEK | ST_INIT | ST_STAT | ST_PAUSE
  | ST_RESUME | ST_SEEKF

definition ST_table :: "(u32 \<times> CDVDFSV_ST_CMD) list" where
  "ST_table = zip (map of_nat [1..<10])
     [ST_START, ST_READ, ST_STOP, ST_SEEK, ST_INIT, ST_STAT, ST_PAUSE, ST_RESUME, ST_SEEKF]"

text \<open>\<open>sceCdStSeekF\<close> is entry 77 of the export table, which is \<open>sceCdStSeek\<close>.\<close>

definition cdvd_Stsubcmdcall ::
  "'d devread \<Rightarrow> u32 \<Rightarrow> u32 \<Rightarrow> ('d, 'h) fsv \<Rightarrow> ('d, 'h) fsv option" where
  "cdvd_Stsubcmdcall rd stk_err buf f =
     (case map_of ST_table (arg (buf + 12) f) of
        None \<Rightarrow> Some (reply buf 0 f)
      | Some ST_START \<Rightarrow> answer_opt buf (sceCdStStart rd (arg buf f) (cd f)) f
      | Some ST_READ \<Rightarrow> cdvdSt_read rd stk_err buf f
      | Some ST_STOP \<Rightarrow> answer_opt buf (sceCdStStop rd (cd f)) f
      | Some ST_SEEK \<Rightarrow> answer_opt buf (sceCdStSeek rd (arg buf f) (cd f)) f
      | Some ST_INIT \<Rightarrow>
          answer_opt buf (sceCdStInit (arg buf f) (arg (buf + 4) f) (arg (buf + 8) f) (cd f)) f
      | Some ST_STAT \<Rightarrow> Some (answer buf (sceCdStStat (cd f)) f)
      | Some ST_PAUSE \<Rightarrow> answer_opt buf (sceCdStPause rd (cd f)) f
      | Some ST_RESUME \<Rightarrow> Some (answer buf (sceCdStResume (cd f)) f)
      | Some ST_SEEKF \<Rightarrow> answer_opt buf (sceCdStSeek rd (arg buf f) (cd f)) f)"

end
