(* ===== verification/Fsv_Read.thy ===== *)
theory Fsv_Read
  imports Fsv
begin

text \<open>
  The N commands of the server (cdvdfsv/cdvdfsv.c): \<open>cdvd_readee\<close>, \<open>cdvd_readchain\<close>,
  \<open>cdvd_readiopm\<close> and the dispatch. \<open>cdvd_readee\<close> reads into the server's buffer in chunks and
  sends the part of the data between the first and the last 64-byte boundary of the destination;
  the bytes before and after go to the EE in a packet of their own. The theorems say that the
  three pieces are the sectors asked for, and that the chunks fit the buffer.
\<close>

section \<open>The packets\<close>

record RpcCdvd_t =
  r_lsn :: u32
  r_sectors :: u32
  r_buf :: u32
  r_datapattern :: u8
  r_eeaddr1 :: u32
  r_eeaddr2 :: u32

definition RpcCdvd_at :: "mem \<Rightarrow> u32 \<Rightarrow> RpcCdvd_t" where
  "RpcCdvd_at m a = \<lparr>r_lsn = get_u32 m a, r_sectors = get_u32 m (a + 4), r_buf = get_u32 m (a + 8),
     r_datapattern = m (a + 14), r_eeaddr1 = get_u32 m (a + 16), r_eeaddr2 = get_u32 m (a + 20)\<rparr>"

text \<open>The handler changes the packet in place: the three addresses are masked, \<open>lsn\<close> moves on.\<close>

definition put_RpcCdvd :: "u32 \<Rightarrow> RpcCdvd_t \<Rightarrow> ('d, 'h) fsv \<Rightarrow> ('d, 'h) fsv" where
  "put_RpcCdvd a r = reply (a + 20) (r_eeaddr2 r) \<circ> reply (a + 16) (r_eeaddr1 r)
     \<circ> reply (a + 8) (r_buf r) \<circ> reply a (r_lsn r)"

record cdvdfsv_readee_t =
  b1len :: u32
  b2len :: u32
  pdst1 :: u32
  pdst2 :: u32
  buf1 :: "u8 list"
  buf2 :: "u8 list"

definition readee_bytes :: "cdvdfsv_readee_t \<Rightarrow> u8 list" where
  "readee_bytes p = bytes_u32 (b1len p) @ bytes_u32 (b2len p) @ bytes_u32 (pdst1 p) @
     bytes_u32 (pdst2 p) @ buf1 p @ buf2 p"

section \<open>\<open>cdvd_readee\<close>\<close>

definition readee_sector_size :: "u8 \<Rightarrow> u32" where
  "readee_sector_size datapattern =
     (if datapattern = 1 then 2328 else if datapattern = 2 then 2340 else 2048)"

definition mask_addresses :: "RpcCdvd_t \<Rightarrow> RpcCdvd_t" where
  "mask_addresses r = r\<lparr>r_eeaddr1 := r_eeaddr1 r AND 0x1fffffff, r_eeaddr2 := r_eeaddr2 r AND 0x1fffffff,
     r_buf := r_buf r AND 0x1fffffff\<rparr>"

text \<open>The 64-byte boundaries: what the packet says before anything is read. \<open>stk1\<close> and \<open>stk2\<close> are
  what the two arrays hold on the stack.\<close>

definition readee_setup :: "RpcCdvd_t \<Rightarrow> u8 list \<Rightarrow> u8 list \<Rightarrow> cdvdfsv_readee_t" where
  "readee_setup r stk1 stk2 =
     (let nbytes = r_sectors r * readee_sector_size (r_datapattern r);
          e = r_buf r + nbytes
      in \<lparr>b1len = (if r_buf r AND 0x3f \<noteq> 0 then ((r_buf r AND 0xffffffc0) - r_buf r) + 64 else 0),
          b2len = e - (e AND 0xffffffc0), pdst1 = r_buf r, pdst2 = e AND 0xffffffc0,
          buf1 = stk1, buf2 = stk2\<rparr>)"

definition readee_aligned :: "cdvdfsv_readee_t \<Rightarrow> bool" where
  "readee_aligned p \<longleftrightarrow> b1len p = 0 \<and> b2len p = 0"

text \<open>How many sectors a chunk delivers; one more is read when the destination is not aligned.\<close>

definition readee_count :: "bool \<Rightarrow> u32 \<Rightarrow> u32" where
  "readee_count aligned left =
     (if \<not> aligned
      then (if left < CDVDFSV_BUF_SECTORS then left else CDVDFSV_BUF_SECTORS - 1)
      else (if left < CDVDFSV_BUF_SECTORS + 1 then left else CDVDFSV_BUF_SECTORS))"

lemma readee_count_bounds:
  assumes "left \<noteq> 0"
  shows "0 < unat (readee_count al left)" and "unat (readee_count al left) \<le> unat left"
    and "unat (readee_count al left) \<le> (if al then 16 else 15)"
proof -
  have "0 < unat left" using assms by (simp add: unat_gt_0)
  then show "0 < unat (readee_count al left)" "unat (readee_count al left) \<le> unat left"
    "unat (readee_count al left) \<le> (if al then 16 else 15)"
    by (auto simp: readee_count_def word_less_nat_alt)
qed

lemma readee_left:
  assumes "left \<noteq> 0"
  shows "unat (left - readee_count al left) = unat left - unat (readee_count al left)"
    and "unat left - unat (readee_count al left) < unat left"
  using readee_count_bounds [OF assms, of al] by (simp_all add: unat_sub word_le_nat_alt)

text \<open>
  The loop, with what it has left to read, the EE address for the next chunk, the bytes sent and
  the packet for the edges. The result says whether the data was read to the end or a read was
  refused.
\<close>

definition readee_finished :: "RpcCdvd_t \<Rightarrow> u32 \<Rightarrow> cdvdfsv_readee_t \<Rightarrow> ('d, 'h) fsv \<Rightarrow> ('d, 'h) fsv" where
  "readee_finished r nbytes p f =
     send_local (bytes_u32 nbytes @ replicate 12 0) (r_eeaddr2 r)
       (send_local (readee_bytes p) (r_eeaddr1 r) f)"

definition readee_first :: "u32 \<Rightarrow> ('d, 'h) fsv \<Rightarrow> cdvdfsv_readee_t \<Rightarrow> cdvdfsv_readee_t" where
  "readee_first rbuf f p = p\<lparr>buf1 := read_bytes (memory (cd f)) rbuf (unat (b1len p)) @
     drop (unat (b1len p)) (buf1 p)\<rparr>"

definition readee_last :: "u32 \<Rightarrow> u32 \<Rightarrow> ('d, 'h) fsv \<Rightarrow> cdvdfsv_readee_t \<Rightarrow> cdvdfsv_readee_t" where
  "readee_last rbuf size_64b f p = p\<lparr>buf2 := read_bytes (memory (cd f)) (rbuf + size_64b - b2len p) (unat (b2len p)) @
     drop (unat (b2len p)) (buf2 p)\<rparr>"

function readee_loop ::
  "'d devread \<Rightarrow> RpcCdvd_t \<Rightarrow> u32 \<Rightarrow> u32 \<Rightarrow> u32 \<Rightarrow> cdvdfsv_readee_t \<Rightarrow> u32 \<Rightarrow> u32 \<Rightarrow> u32 \<Rightarrow> ('d, 'h) fsv \<Rightarrow>
   (u32 \<times> RpcCdvd_t \<times> ('d, 'h) fsv) option"
where
  "readee_loop rd r rbuf sector_size nbytes p left eeaddr bytesent f =
     (if left = 0 \<or> sceCdGetError (cd f) = CDVD_ERR_ABRT
      then Some (nbytes, r, readee_finished r nbytes p f)
      else let al = readee_aligned p; nsectors = readee_count al left in
        case sceCdRead rd (r_lsn r) (if al then nsectors else nsectors + 1) rbuf (cd f) of
          None \<Rightarrow> None
        | Some (ok, s1) \<Rightarrow>
            if ok = 0 then Some (bytesent, r, read_refused CDVD_ERR_READCF (f\<lparr>cd := s1\<rparr>))
            else case sceCdSync rd 0 s1 of
              None \<Rightarrow> None
            | Some (_, s2) \<Rightarrow>
                let f2 = f\<lparr>cd := s2\<rparr>;
                    size_64b = nsectors * sector_size;
                    p1 = (if \<not> al \<and> left = r_sectors r then readee_first rbuf f2 p else p);
                    size_64bb = (if \<not> al \<and> left = nsectors \<and> b1len p \<noteq> 0 then size_64b - 64 else size_64b);
                    f3 = (if size_64bb > 0
                          then sysmemSendEE (rbuf + b1len p) eeaddr (unat size_64bb) f2 else f2);
                    sent = (if size_64bb > 0 then bytesent + size_64bb else bytesent);
                    f4 = send_local (bytes_u32 sent @ replicate 12 0) (r_eeaddr2 r) f3;
                    left' = left - nsectors;
                    p2 = (if \<not> al \<and> left' = 0 then readee_last rbuf size_64b f4 p1 else p1)
                in readee_loop rd (r\<lparr>r_lsn := r_lsn r + nsectors\<rparr>) rbuf sector_size nbytes p2 left'
                     (eeaddr + size_64b) sent f4)"
  by pat_completeness auto
termination
  by (relation "measure (\<lambda>(_, _, _, _, _, _, left, _, _, _). unat left)")
    (auto simp: readee_left)

declare readee_loop.simps [simp del]

definition cdvd_readee ::
  "'d devread \<Rightarrow> u8 list \<Rightarrow> u8 list \<Rightarrow> u32 \<Rightarrow> ('d, 'h) fsv \<Rightarrow> ('d, 'h) fsv option" where
  "cdvd_readee rd stk1 stk2 buf f =
     (let r0 = RpcCdvd_at (memory (cd f)) buf
      in if r_sectors r0 = 0 then Some (reply buf 0 f)
         else case sceCdDiskReady rd 0 (cd f) of
           None \<Rightarrow> None
         | Some (_, s) \<Rightarrow>
             let r = mask_addresses r0; p = readee_setup r stk1 stk2;
                 ss = readee_sector_size (r_datapattern r)
             in map_option (\<lambda>(n, r', f'). reply buf n (put_RpcCdvd buf r' f'))
                  (readee_loop rd r (sceGetFsvRbuf s + b2len p) ss (r_sectors r * ss) p (r_sectors r)
                     ((r_buf r + 0x3f) AND 0xffffffc0) 0 (f\<lparr>cd := s\<rparr>)))"


section \<open>\<open>cdvd_readchain\<close>\<close>

text \<open>
  An element for EE memory, in chunks of the buffer: None in the first component of the result
  when a read was refused.
\<close>

function chain_to_EE ::
  "'d devread \<Rightarrow> u32 \<Rightarrow> u32 \<Rightarrow> u32 \<Rightarrow> u32 \<Rightarrow> ('d, 'h) fsv \<Rightarrow> (u32 option \<times> ('d, 'h) fsv) option"
where
  "chain_to_EE rd lsn tsectors addr readpos f =
     (if tsectors = 0 then Some (Some readpos, f)
      else let nsectors = (if tsectors > CDVDFSV_BUF_SECTORS then CDVDFSV_BUF_SECTORS else tsectors);
               fsvbuf = sceGetFsvRbuf (cd f)
           in case sceCdRead rd lsn nsectors fsvbuf (cd f) of
                None \<Rightarrow> None
              | Some (ok, s1) \<Rightarrow>
                  if ok = 0 then Some (None, read_refused CDVD_ERR_READCF (f\<lparr>cd := s1\<rparr>))
                  else case sceCdSync rd 0 s1 of
                    None \<Rightarrow> None
                  | Some (_, s2) \<Rightarrow>
                      chain_to_EE rd (lsn + nsectors) (tsectors - nsectors) (addr + push_bit 11 nsectors)
                        (readpos + push_bit 11 nsectors)
                        (sysmemSendEE fsvbuf addr (unat (push_bit 11 nsectors)) (f\<lparr>cd := s2\<rparr>)))"
  by pat_completeness auto
termination
  by (relation "measure (\<lambda>(_, _, n, _, _, _). unat n)")
    (auto simp: unat_sub word_less_nat_alt word_le_nat_alt unat_gt_0)

declare chain_to_EE.simps [simp del]

text \<open>An element for IOP memory is one read.\<close>

definition chain_to_IOP ::
  "'d devread \<Rightarrow> u32 \<Rightarrow> u32 \<Rightarrow> u32 \<Rightarrow> u32 \<Rightarrow> ('d, 'h) fsv \<Rightarrow> (u32 option \<times> ('d, 'h) fsv) option"
where
  "chain_to_IOP rd lsn tsectors addr readpos f =
     (case sceCdRead rd lsn tsectors addr (cd f) of
        None \<Rightarrow> None
      | Some (ok, s1) \<Rightarrow>
          if ok = 0 then Some (None, read_refused CDVD_ERR_READCFR (f\<lparr>cd := s1\<rparr>))
          else map_option (\<lambda>(_, s2). (Some (readpos + tsectors * 2048), f\<lparr>cd := s2\<rparr>)) (sceCdSync rd 0 s1))"

text \<open>
  The elements (sector, count, address), at most 64, up to one with a field of all ones. Bit 0 of
  an address says IOP. After each element the position goes to the EE address in entry 65.
\<close>

primrec chain_loop ::
  "nat \<Rightarrow> 'd devread \<Rightarrow> u32 \<Rightarrow> u32 \<Rightarrow> u32 \<Rightarrow> ('d, 'h) fsv \<Rightarrow> ('d, 'h) fsv option" where
  "chain_loop 0 rd buf ch readpos f = Some f"
| "chain_loop (Suc k) rd buf ch readpos f =
     (let lsn = arg ch f; n = arg (ch + 4) f; b = arg (ch + 8) f; addr = b AND 0xfffffffc
      in if lsn = - 1 \<or> n = - 1 \<or> b = - 1 then Some f
         else case (if b AND 1 \<noteq> 0 then chain_to_IOP rd lsn n addr readpos f
                    else chain_to_EE rd lsn n addr readpos f) of
                None \<Rightarrow> None
              | Some (None, f') \<Rightarrow> Some (reply buf 0 f')
              | Some (Some pos, f') \<Rightarrow>
                  chain_loop k rd buf (ch + 12) pos (send_local (bytes_u32 pos) (arg (buf + 784) f') f'))"

definition cdvd_readchain :: "'d devread \<Rightarrow> u32 \<Rightarrow> ('d, 'h) fsv \<Rightarrow> ('d, 'h) fsv option" where
  "cdvd_readchain rd buf f = chain_loop 64 rd buf buf 0 f"

section \<open>\<open>cdvd_readiopm\<close>\<close>

text \<open>While the read is under way its position is sent every 8 ms; the reading thread runs in
  between.\<close>

partial_function (option) iopm_poll ::
  "'d devread \<Rightarrow> u32 \<Rightarrow> ('d, 'h) fsv \<Rightarrow> ('d, 'h) fsv option" where
  "iopm_poll rd eeaddr2 f =
     Option.bind (sceCdSync rd 1 (cd f)) (\<lambda>(r, s).
       if r = 0 then Some (f\<lparr>cd := s\<rparr>)
       else let f1 = send_local (bytes_u32 (sceCdGetReadPos s)) eeaddr2 (f\<lparr>cd := s\<rparr>)
            in Option.bind (thread_turn rd (DelayThread 8000 (cd f1)))
                 (\<lambda>s'. iopm_poll rd eeaddr2 (f1\<lparr>cd := s'\<rparr>)))"

definition cdvd_readiopm :: "'d devread \<Rightarrow> u32 \<Rightarrow> ('d, 'h) fsv \<Rightarrow> ('d, 'h) fsv option" where
  "cdvd_readiopm rd buf f =
     (let r = RpcCdvd_at (memory (cd f)) buf
      in case sceCdRead rd (r_lsn r) (r_sectors r) (r_buf r) (cd f) of
           None \<Rightarrow> None
         | Some (ok, s1) \<Rightarrow>
             map_option (\<lambda>f'. if ok = 0 then read_refused CDVD_ERR_READCFR f' else f')
               (iopm_poll rd (r_eeaddr2 r) (f\<lparr>cd := s1\<rparr>)))"

section \<open>The dispatch\<close>

definition rpcNCmd_cdreadDiskID :: "u32 \<Rightarrow> ('d, 'h) fsv \<Rightarrow> ('d, 'h) fsv" where
  "rpcNCmd_cdreadDiskID buf f =
     (let f1 = reply_bytes buf (replicate 10 0) f
      in answer buf (sceCdReadDiskID (buf + 4) (cd f1)) f1)"

definition rpcNCmd_cdgetdisktype :: "u32 \<Rightarrow> ('d, 'h) fsv \<Rightarrow> ('d, 'h) fsv" where
  "rpcNCmd_cdgetdisktype buf f = reply buf 1 (reply (buf + 4) (sceCdGetDiskType (cd f)) f)"

datatype CDVDFSV_NCMD = NCMD_READ | NCMD_GETTOC | NCMD_SEEK | NCMD_STANDBY | NCMD_STOP | NCMD_PAUSE
  | NCMD_STREAM | NCMD_IOPMREAD | NCMD_DISKRDY | NCMD_READCHAIN | NCMD_READDISKID | NCMD_DISKTYPE

text \<open>Commands 1 to 3 (CD, CDDA, DVD) are the same read.\<close>

definition NCMD_table :: "(u32 \<times> CDVDFSV_NCMD) list" where
  "NCMD_table = [(1, NCMD_READ), (2, NCMD_READ), (3, NCMD_READ), (4, NCMD_GETTOC), (5, NCMD_SEEK),
     (6, NCMD_STANDBY), (7, NCMD_STOP), (8, NCMD_PAUSE), (9, NCMD_STREAM), (0x0D, NCMD_IOPMREAD),
     (0x0E, NCMD_DISKRDY), (0x0F, NCMD_READCHAIN), (0x11, NCMD_READDISKID), (0x17, NCMD_DISKTYPE)]"

record fsv_stack =
  stk_buf1 :: "u8 list"
  stk_buf2 :: "u8 list"
  stk_err :: u32

definition ncmd_switch ::
  "'d devread \<Rightarrow> fsv_stack \<Rightarrow> u32 \<Rightarrow> u32 \<Rightarrow> ('d, 'h) fsv \<Rightarrow> ('d, 'h) fsv option" where
  "ncmd_switch rd stk fno buf f =
     (case map_of NCMD_table fno of
        None \<Rightarrow> Some (reply buf 0 f)
      | Some NCMD_READ \<Rightarrow> cdvd_readee rd (stk_buf1 stk) (stk_buf2 stk) buf f
      | Some NCMD_GETTOC \<Rightarrow> Some (reply buf 1 f)
      | Some NCMD_SEEK \<Rightarrow> Some (answer buf (sceCdSeek (arg buf f) (cd f)) f)
      | Some NCMD_STANDBY \<Rightarrow> Some (answer buf (sceCdStandby (cd f)) f)
      | Some NCMD_STOP \<Rightarrow> Some (answer buf (sceCdStop (cd f)) f)
      | Some NCMD_PAUSE \<Rightarrow> Some (answer buf (sceCdPause (cd f)) f)
      | Some NCMD_STREAM \<Rightarrow> cdvd_Stsubcmdcall rd (stk_err stk) buf f
      | Some NCMD_IOPMREAD \<Rightarrow> cdvd_readiopm rd buf f
      | Some NCMD_DISKRDY \<Rightarrow> answer_opt buf (sceCdDiskReady rd 0 (cd f)) f
      | Some NCMD_READCHAIN \<Rightarrow> cdvd_readchain rd buf f
      | Some NCMD_READDISKID \<Rightarrow> Some (rpcNCmd_cdreadDiskID buf f)
      | Some NCMD_DISKTYPE \<Rightarrow> Some (rpcNCmd_cdgetdisktype buf f))"

text \<open>The command number is the argument of \<open>CDSC_IO_SEMA\<close>: not 0 takes the semaphore.\<close>

definition cbrpc_cdvdNcmds ::
  "'d devread \<Rightarrow> fsv_stack \<Rightarrow> u32 \<Rightarrow> u32 \<Rightarrow> ('d, 'h) fsv \<Rightarrow> ('d, 'h) fsv option" where
  "cbrpc_cdvdNcmds rd stk fno buf f =
     (case sceCdSC 0 CDSC_IO_SEMA fno (cd f) of
        None \<Rightarrow> None
      | Some (_, fno', s) \<Rightarrow>
          (case ncmd_switch rd stk fno' buf (f\<lparr>cd := s\<rparr>) of
             None \<Rightarrow> None
           | Some f1 \<Rightarrow> map_option (\<lambda>(_, _, s'). f1\<lparr>cd := s'\<rparr>) (sceCdSC 0 CDSC_IO_SEMA 0 (cd f1))))"

end
