(* ===== verification/Fsv_Delivers.thy ===== *)
theory Fsv_Delivers
  imports Fsv_Read Device_Bdm
begin

text \<open>
  What the server's reads deliver: the pieces that \<open>cdvd_readee\<close> sends are the sectors asked
  for, cut at the 64-byte boundaries of the destination, and a chain element for the EE arrives
  whole. The lemmas are proved of any driver that keeps the laws of \<open>disc_device\<close>.
\<close>

section \<open>The 64-byte boundaries\<close>

lemma and_3f: "(x :: u32) AND 0x3f = x mod 64"
proof -
  have "x AND 0x3f = take_bit 6 x" by (simp add: take_bit_eq_mask mask_eq_exp_minus_1)
  then show ?thesis by (simp add: take_bit_eq_mod)
qed

lemma unat_and_3f: "unat ((x :: u32) AND 0x3f) = unat x mod 64"
  by (simp only: and_3f unat_mod unat_numeral) simp

lemma nat_round_up_64: "(n + 63) - (n + 63) mod 64 = n + (64 - n mod 64) mod (64 :: nat)"
proof -
  define q r where "q = n div 64" and "r = n mod 64"
  then have n: "n = r + 64 * q" and r: "r < 64" by simp_all
  show ?thesis
  proof (cases r)
    case 0
    have "(63 + 64 * q) mod 64 = 63" by (subst mod_mult_self2) simp
    then show ?thesis by (simp add: n 0 add.commute)
  next
    case (Suc k)
    have e: "n + 63 = k + 64 * (q + 1)" by (simp add: n Suc)
    have "(n + 63) mod 64 = k" unfolding e mod_mult_self2 using r Suc by simp
    moreover have "n mod 64 = Suc k" using r_def Suc by simp
    ultimately show ?thesis using r Suc by (simp add: e)
  qed
qed

lemma and_c0: "(x :: u32) AND 0xffffffc0 = x - x mod 64"
proof -
  have n: "(0xffffffc0 :: u32) = NOT 0x3f" by simp
  have "x = (x AND NOT 0x3f) + (x AND 0x3f)"
    by (subst disjunctive_add) (auto simp: bit_simps intro: bit_word_eqI)
  then show ?thesis unfolding n and_3f [symmetric] by (metis add_diff_cancel_right')
qed

lemma unat_and_c0: "unat ((x :: u32) AND 0xffffffc0) = unat x - unat x mod 64"
  unfolding and_c0 by (simp add: unat_sub unat_mod word_le_nat_alt)

lemma readee_setup_bounds:
  assumes "readee_sector_size (r_datapattern r) = 2048" and "unat (r_buf r) + unat (r_sectors r) * 2048 < 2 ^ 32"
  shows "unat (b1len (readee_setup r k1 k2)) = (64 - unat (r_buf r) mod 64) mod 64"
    and "unat (b2len (readee_setup r k1 k2)) = unat (r_buf r) mod 64"
    and "unat (pdst2 (readee_setup r k1 k2))
      = unat (r_buf r) + unat (r_sectors r) * 2048 - unat (r_buf r) mod 64"
    and "pdst1 (readee_setup r k1 k2) = r_buf r"
    and "buf1 (readee_setup r k1 k2) = k1" and "buf2 (readee_setup r k1 k2) = k2"
proof -
  let ?b = "r_buf r" and ?e = "r_buf r + r_sectors r * 2048"
  have "unat (r_sectors r * 2048) = unat (r_sectors r) * 2048"
    using assms(2) by (simp add: unat_word_ariths)
  then have e: "unat ?e = unat ?b + unat (r_sectors r) * 2048"
    using assms(2) unat_add_le [of ?b "r_sectors r * 2048"] by simp
  then have em: "unat ?e mod 64 = unat ?b mod 64"
    using mod_mult_self1 [of "unat ?b" "unat (r_sectors r) * 32" 64] by (simp add: mult.assoc)
  have "unat (b1len (readee_setup r k1 k2)) = (if unat ?b mod 64 = 0 then 0 else 64 - unat ?b mod 64)"
  proof (cases "unat ?b mod 64 = 0")
    case True
    then have "?b AND 0x3f = 0" using unat_and_3f [of ?b] by (metis unat_eq_zero)
    then show ?thesis using True by (simp add: readee_setup_def Let_def)
  next
    case False
    then have "?b AND 0x3f \<noteq> 0" using unat_and_3f [of ?b] by (metis unat_0)
    moreover have "(?b AND 0xffffffc0) - ?b + 64 = 64 - ?b mod 64" by (simp add: and_c0)
    moreover have "unat (64 - ?b mod 64) = 64 - unat ?b mod 64"
      by (simp add: unat_sub unat_mod word_le_nat_alt)
    ultimately show ?thesis using False by (simp add: readee_setup_def Let_def)
  qed
  then show "unat (b1len (readee_setup r k1 k2)) = (64 - unat ?b mod 64) mod 64" by simp
  show "unat (b2len (readee_setup r k1 k2)) = unat ?b mod 64"
    using em by (simp add: readee_setup_def Let_def assms(1) and_c0 unat_mod)
  show "unat (pdst2 (readee_setup r k1 k2)) = unat ?b + unat (r_sectors r) * 2048 - unat ?b mod 64"
    using e em by (simp add: readee_setup_def Let_def assms(1) unat_and_c0)
qed (simp_all add: readee_setup_def Let_def)

lemma round_up_64:
  assumes "unat (b :: u32) < 2 ^ 32 - 64"
  shows "(b + 0x3f) AND 0xffffffc0 = b + of_nat ((64 - unat b mod 64) mod 64)"
proof -
  have s: "unat (b + 0x3f) = unat b + 63" using assms unat_add_le [of b "0x3f"] by simp
  have "unat (b + of_nat ((64 - unat b mod 64) mod 64)) = unat b + (64 - unat b mod 64) mod 64"
  proof -
    have "(64 - unat b mod 64) mod 64 < 64" by simp
    then show ?thesis
      using assms unat_add_le [of b "of_nat ((64 - unat b mod 64) mod 64)"] by (simp add: unat_of_nat_u32)
  qed
  then show ?thesis unfolding word_unat_eq_iff unat_and_c0 s nat_round_up_64 by (simp only:)
qed

section \<open>Bytes of a run of sectors\<close>

lemma file_bytes_shift: "file_bytes disc (lsn + of_nat d) p n = file_bytes disc lsn (d * 2048 + p) n"
proof -
  have "disc (lsn + of_nat d + of_nat ((p + i) div 2048)) ! ((p + i) mod 2048)
      = disc (lsn + of_nat ((d * 2048 + p + i) div 2048)) ! ((d * 2048 + p + i) mod 2048)" for i
    by (simp add: add.assoc)
  then show ?thesis by (simp add: file_bytes_def)
qed

lemma nth_file_bytes: "i < n \<Longrightarrow> file_bytes disc lsn p n ! i = file_bytes disc lsn (p + i) 1 ! 0"
  by (simp add: file_bytes_def)

lemma write_bytes_at: "m x = m' x \<Longrightarrow> write_bytes a bs m x = write_bytes a bs m' x"
  by (simp add: write_bytes_def)

section \<open>One chunk\<close>

text \<open>The bounce buffer of an unaligned read lies outside the server's buffer.\<close>

definition fsv_room :: "'d cdvdman \<Rightarrow> u32 \<Rightarrow> bool" where
  "fsv_room s rbuf \<longleftrightarrow>
     (rbuf AND 3 \<noteq> 0 \<longrightarrow> disjoint_runs (cdvdman_buf s) 4096 rbuf (16 * 2048) \<and>
        semas s cdvdman_searchfilesema = 1)"

lemma fsv_room_frame: "read_frame s s' \<Longrightarrow> fsv_room s' rbuf = fsv_room s rbuf"
  by (simp add: fsv_room_def read_frame_fields)

context disc_device
begin

lemma chunk_read:
  assumes "inv (dev s)" and idle: "drive_idle s" and "readable lsn (unat n)" and room: "fsv_room s rbuf"
    and n: "n \<noteq> 0" "unat n \<le> 16" and lsn: "13 \<le> lsn" "unat lsn + unat n < 2 ^ 32"
  shows "\<exists>s1 r s2. sceCdRead rd lsn n rbuf s = Some (1, s1) \<and> sceCdSync rd 0 s1 = Some (r, s2) \<and>
    read_frame s s2 \<and> inv (dev s2) \<and> err s2 = CDVD_ERR_NO \<and>
    (\<forall>i m. i + m \<le> unat n * 2048 \<longrightarrow> read_bytes (memory s2) (rbuf + of_nat i) m = file_bytes disc lsn i m)"
proof -
  have dj: "disjoint_runs (cdvdman_buf s) 4096 rbuf (unat n * 2048)" if "rbuf AND 3 \<noteq> 0"
  proof -
    have "disjoint_runs (cdvdman_buf s) 4096 rbuf (16 * 2048)" using room that by (simp add: fsv_room_def)
    then show ?thesis by (rule disjoint_runs_mono) (use n(2) in simp_all)
  qed
  have ready: "read_ready s lsn n rbuf"
    unfolding read_ready_def
  proof (intro conjI impI)
    show "unat n * 2048 \<le> 2 ^ 32" using n(2) by simp
    show "semas s cdvdman_searchfilesema = 1" if "rbuf AND 3 \<noteq> 0"
      using room that by (simp add: fsv_room_def)
  qed (use n lsn dj in blast)+
  obtain s2 where s2: "read_and_sync rd lsn n rbuf s = Some (1, s2)" "read_frame s s2" "inv (dev s2)"
    "err s2 = CDVD_ERR_NO" "\<forall>x. \<not> scratch s rbuf x \<longrightarrow>
        memory s2 x = write_bytes rbuf (sector_run disc lsn (unat n)) (memory s) x"
    using read_and_sync_delivers [OF assms(1,3) ready idle] by blast
  obtain s1 r where s1: "sceCdRead rd lsn n rbuf s = Some (1, s1)" "sceCdSync rd 0 s1 = Some (r, s2)"
    using s2(1) by (auto simp: read_and_sync_def bind_eq_Some_conv)
  have run: "sector_run disc lsn (unat n) = file_bytes disc lsn 0 (unat n * 2048)"
    using file_bytes_sectors [of disc lsn 0 "unat n"] disc_sector by simp
  have data: "read_bytes (memory s2) (rbuf + of_nat i) m = file_bytes disc lsn i m"
    if im: "i + m \<le> unat n * 2048" for i m
  proof (rule nth_equalityI)
    fix j assume "j < length (read_bytes (memory s2) (rbuf + of_nat i) m)"
    then have j: "j < m" by simp
    let ?x = "rbuf + of_nat (i + j)"
    have lt: "i + j < unat n * 2048" "unat n * 2048 \<le> 2 ^ 32" using im j n(2) by simp_all
    have "in_run rbuf (unat n * 2048) ?x" by (rule in_run_nth [OF lt])
    then have "\<not> scratch s rbuf ?x" using dj by (auto simp: scratch_def disjoint_runs_def)
    with s2(5) have "memory s2 ?x = write_bytes rbuf (sector_run disc lsn (unat n)) (memory s) ?x" by blast
    also have "\<dots> = file_bytes disc lsn 0 (unat n * 2048) ! (i + j)"
      unfolding run using lt by (intro write_bytes_inside) simp_all
    finally show "read_bytes (memory s2) (rbuf + of_nat i) m ! j = file_bytes disc lsn i m ! j"
      using j lt by (simp add: file_bytes_def add.assoc)
  qed simp
  show ?thesis using s1 s2 data by blast
qed

end

section \<open>The loop\<close>

text \<open>
  The edges: either the destination is aligned, or \<open>b1\<close> bytes come before the first boundary
  and \<open>64 - b1\<close> after the last.
\<close>

definition edges :: "cdvdfsv_readee_t \<Rightarrow> bool" where
  "edges p \<longleftrightarrow> (b1len p = 0 \<and> b2len p = 0 \<or>
     0 < unat (b1len p) \<and> unat (b1len p) < 64 \<and> unat (b2len p) = 64 - unat (b1len p)) \<and>
     length (buf1 p) = 64 \<and> length (buf2 p) = 64"

lemma readee_last_take: "take (unat (b2len p)) (buf2 (readee_last rbuf n f p))
    = read_bytes (memory (cd f)) (rbuf + n - b2len p) (unat (b2len p))"
  by (simp add: readee_last_def)

text \<open>What a chunk leaves in the packet, and how many bytes it sends.\<close>

definition chunk_packet ::
  "(u32 \<Rightarrow> u8 list) \<Rightarrow> u32 \<Rightarrow> nat \<Rightarrow> u32 \<Rightarrow> cdvdfsv_readee_t \<Rightarrow> cdvdfsv_readee_t \<Rightarrow> bool" where
  "chunk_packet disc lsn d left p p' \<longleftrightarrow>
     p' = p\<lparr>buf1 := buf1 p', buf2 := buf2 p'\<rparr> \<and> length (buf1 p') = 64 \<and> length (buf2 p') = 64 \<and>
     take (unat (b1len p)) (buf1 p')
       = (if d = 0 \<and> left \<noteq> 0 then file_bytes disc lsn 0 (unat (b1len p))
          else take (unat (b1len p)) (buf1 p))"

definition middle_len :: "cdvdfsv_readee_t \<Rightarrow> u32 \<Rightarrow> nat" where
  "middle_len p left = unat left * 2048 - (if b1len p \<noteq> 0 \<and> left \<noteq> 0 then 64 else 0)"

lemma chunk_packet_trans:
  assumes "chunk_packet disc lsn d left p q" and "edges p" and "left \<noteq> 0" and "d' \<noteq> 0"
    and "chunk_packet disc lsn d' l q p'"
  shows "chunk_packet disc lsn d left p p'"
proof -
  have "q = p\<lparr>buf1 := buf1 q, buf2 := buf2 q\<rparr>" "p' = q\<lparr>buf1 := buf1 p', buf2 := buf2 p'\<rparr>"
    using assms(1,5) by (simp_all add: chunk_packet_def)
  then have "b1len q = b1len p" "p' = p\<lparr>buf1 := buf1 p', buf2 := buf2 p'\<rparr>"
    by (cases p; cases q; cases p'; simp)+
  then show ?thesis using assms by (simp add: chunk_packet_def)
qed

lemma chunk_packet_fields:
  assumes "chunk_packet disc lsn d left p p'" and "edges p"
  shows "b1len p' = b1len p" and "b2len p' = b2len p" and "edges p'"
    and "pdst1 p' = pdst1 p" and "pdst2 p' = pdst2 p"
proof -
  have "p' = p\<lparr>buf1 := buf1 p', buf2 := buf2 p'\<rparr>" using assms(1) by (simp add: chunk_packet_def)
  then show f: "b1len p' = b1len p" "b2len p' = b2len p" "pdst1 p' = pdst1 p" "pdst2 p' = pdst2 p" by (cases p; cases p'; simp)+
  show "edges p'" using assms f by (simp add: edges_def chunk_packet_def)
qed

definition readee_env :: "'d cdvdman \<Rightarrow> u32 \<Rightarrow> bool" where
  "readee_env s rbuf \<longleftrightarrow> drive_idle s \<and> err s \<noteq> CDVD_ERR_ABRT \<and> fsv_room s rbuf"

lemma readee_env_frame:
  "readee_env s rbuf \<Longrightarrow> read_frame s s' \<Longrightarrow> err s' = CDVD_ERR_NO \<Longrightarrow> readee_env s' rbuf"
  by (simp add: readee_env_def drive_idle_def read_frame_fields fsv_room_frame)

context disc_device
begin

text \<open>One chunk: how many sectors it reads and how many bytes it sends.\<close>

lemma readee_chunk_sectors:
  assumes "left \<noteq> 0" and "k = readee_count al left" and "n = (if al then k else k + 1)"
  shows "n \<noteq> 0" and "unat n = (if al then unat k else unat k + 1)" and "unat n \<le> 16"
proof -
  note kb = readee_count_bounds [OF assms(1), of al, folded assms(2)]
  have "unat (k + 1) = unat k + 1" if "\<not> al"
    using kb(3) that unat_add_le [of k 1] by simp
  then show n: "unat n = (if al then unat k else unat k + 1)" by (simp add: assms(3))
  then show "unat n \<le> 16" "n \<noteq> 0" using kb by (auto split: if_splits)
qed

lemma readee_sent_size:
  assumes "edges p" and "left \<noteq> 0" and k: "k = readee_count (readee_aligned p) left"
    and sz: "sz = (if \<not> readee_aligned p \<and> left = k \<and> b1len p \<noteq> 0 then k * 2048 - 64 else k * 2048)"
  shows "unat sz = (if left = k then middle_len p left else unat k * 2048)" and "sz > 0"
    and "unat (k * 2048) = unat k * 2048"
proof -
  note kb = readee_count_bounds [OF assms(2), of "readee_aligned p", folded k]
  have al: "readee_aligned p \<longleftrightarrow> b1len p = 0" using assms(1) by (auto simp: edges_def readee_aligned_def)
  have "unat k * 2048 < 2 ^ 32" using kb(3) by (simp split: if_splits)
  then show size: "unat (k * 2048) = unat k * 2048" by (simp add: unat_word_ariths)
  have "unat (k * 2048 - 64) = unat k * 2048 - 64"
    using size kb(1) unat_sub [of 64 "k * 2048"] by (simp add: word_le_nat_alt)
  then show a: "unat sz = (if left = k then middle_len p left else unat k * 2048)"
    using size al assms(2) unfolding sz by (auto simp: middle_len_def)
  have "0 < unat sz" unfolding a using kb(1) by (auto simp: middle_len_def)
  then show "sz > 0" by (simp only: unat_gt_0 word_gt_0)
qed

lemma readee_chunk:
  assumes "inv (dev s)" and env: "readee_env s rbuf" and R: "\<forall>l j. j \<le> 16 \<longrightarrow> readable l j"
    and left: "left \<noteq> 0" and lsn: "13 \<le> lsn" "unat lsn + d + unat left + 1 < 2 ^ 32"
    and k: "k = readee_count al left" and n: "n = (if al then k else k + 1)"
  obtains s1 q s2 where "sceCdRead rd (lsn + of_nat d) n rbuf s = Some (1, s1)"
    and "sceCdSync rd 0 s1 = Some (q, s2)" and "read_frame s s2" and "inv (dev s2)" and "err s2 = CDVD_ERR_NO"
    and "\<And>i m. i + m \<le> unat n * 2048 \<Longrightarrow>
      read_bytes (memory s2) (rbuf + of_nat i) m = file_bytes disc lsn (d * 2048 + i) m"
proof -
  note nb = readee_chunk_sectors [OF left k n]
  have d: "unat (lsn + of_nat d) = unat lsn + d"
    using lsn(2) unat_add_le [of lsn "of_nat d"] by (simp add: unat_of_nat_u32)
  have "13 \<le> lsn + of_nat d" using d lsn(1) by (simp add: word_le_nat_alt)
  moreover have "unat (lsn + of_nat d) + unat n < 2 ^ 32"
    unfolding d nb(2) using readee_count_bounds(2) [OF left, of al, folded k] lsn(2) by auto
  moreover have "readable (lsn + of_nat d) (unat n)" using R nb(3) by blast
  ultimately show ?thesis
    using chunk_read [OF assms(1) _ _ _ nb(1,3), where lsn = "lsn + of_nat d" and rbuf = rbuf] env that
    by (fastforce simp: readee_env_def file_bytes_shift)
qed

text \<open>What a chunk makes of the packet: the first one stores the first edge, the last one the last.\<close>

lemma readee_packet:
  assumes p: "edges p" and left: "left \<noteq> 0" and k: "k = readee_count (readee_aligned p) left"
    and n: "n = (if readee_aligned p then k else k + 1)" and first: "d = 0 \<longleftrightarrow> left = sectors"
    and data: "\<And>i m. i + m \<le> unat n * 2048 \<Longrightarrow>
      read_bytes (memory (cd f2)) (rbuf + of_nat i) m = file_bytes disc lsn (d * 2048 + i) m"
    and same: "cd f4 = cd f2"
    and p1: "p1 = (if \<not> readee_aligned p \<and> left = sectors then readee_first rbuf f2 p else p)"
    and p2: "p2 = (if \<not> readee_aligned p \<and> left - k = 0 then readee_last rbuf (k * 2048) f4 p1 else p1)"
  shows "chunk_packet disc lsn d left p p2"
    and "left = k \<longrightarrow> take (unat (b2len p)) (buf2 p2)
      = file_bytes disc lsn ((d + unat left) * 2048 - unat (b2len p)) (unat (b2len p))"
proof -
  let ?B1 = "unat (b1len p)" and ?B2 = "unat (b2len p)"
  note kb = readee_count_bounds [OF left, of "readee_aligned p", folded k] and nb = readee_chunk_sectors [OF left k n]
  have P1: "p1 = p\<lparr>buf1 := buf1 p1\<rparr>" "length (buf1 p1) = 64"
    "take ?B1 (buf1 p1) = (if d = 0 then file_bytes disc lsn 0 ?B1 else take ?B1 (buf1 p))"
    unfolding p1 using p nb(2) kb(1) data [of 0 ?B1] first
    by (auto simp: edges_def readee_first_def readee_aligned_def)
  have b2: "?B2 \<le> unat k * 2048" "?B2 \<le> 64" using p kb(1) by (auto simp: edges_def)
  have kn: "unat k * 2048 \<le> unat n * 2048" unfolding nb(2) by simp
  show "left = k \<longrightarrow> take ?B2 (buf2 p2) = file_bytes disc lsn ((d + unat left) * 2048 - ?B2) ?B2"
  proof (cases "readee_aligned p")
    case True
    then have "?B2 = 0" by (simp add: readee_aligned_def)
    then show ?thesis by simp
  next
    case False
    show ?thesis
    proof
      assume lk: "left = k"
      have "rbuf + k * 2048 - b2len p = rbuf + of_nat (unat k * 2048 - ?B2)"
        using b2(1) readee_sent_size(3) [OF p left k refl] by (simp add: of_nat_diff)
      then have "read_bytes (memory (cd f2)) (rbuf + k * 2048 - b2len p) ?B2
          = file_bytes disc lsn (d * 2048 + (unat k * 2048 - ?B2)) ?B2"
        by (simp only:) (intro data, use b2(1) kn in linarith)
      moreover have "d * 2048 + (unat k * 2048 - ?B2) = (d + unat left) * 2048 - ?B2"
        using b2(1) lk by (simp add: add_mult_distrib)
      moreover have "p2 = readee_last rbuf (k * 2048) f4 p1" using False lk by (simp add: p2)
      moreover have "b2len p1 = b2len p" by (simp add: p1 readee_first_def)
      ultimately show "take ?B2 (buf2 p2) = file_bytes disc lsn ((d + unat left) * 2048 - ?B2) ?B2"
        using readee_last_take [of p1 rbuf "k * 2048" f4] same by (simp only:)
    qed
  qed
  have "p2 = p\<lparr>buf1 := buf1 p1, buf2 := buf2 p2\<rparr>" "buf1 p2 = buf1 p1" "length (buf2 p2) = 64"
    using P1(1) p b2(2) by (auto simp: p1 p2 readee_last_def readee_first_def edges_def)
  then show "chunk_packet disc lsn d left p p2" using P1(2,3) left by (simp add: chunk_packet_def)
qed

lemma readee_step:
  assumes "inv (dev (cd f))" and env: "readee_env (cd f) rbuf" and R: "\<forall>l j. j \<le> 16 \<longrightarrow> readable l j"
    and r: "r_lsn r = lsn + of_nat d" "unat (r_sectors r) = d + unat left" and left: "left \<noteq> 0"
    and lsn: "13 \<le> lsn" "unat lsn + d + unat left + 1 < 2 ^ 32" "(d + unat left) * 2048 < 2 ^ 32"
    and p: "edges p" and k: "k = readee_count (readee_aligned p) left"
  shows "\<exists>p2 sent' f4. readee_loop rd r rbuf 2048 nbytes p left eeaddr sent f
      = readee_loop rd (r\<lparr>r_lsn := r_lsn r + k\<rparr>) rbuf 2048 nbytes p2 (left - k) (eeaddr + k * 2048) sent' f4 \<and>
    read_frame (cd f) (cd f4) \<and> inv (dev (cd f4)) \<and> err (cd f4) = CDVD_ERR_NO \<and>
    chunk_packet disc lsn d left p p2 \<and>
    (left = k \<longrightarrow> take (unat (b2len p)) (buf2 p2)
       = file_bytes disc lsn ((d + unat left) * 2048 - unat (b2len p)) (unat (b2len p))) \<and>
    (\<forall>x. \<not> in_run (r_eeaddr2 r) 16 x \<longrightarrow> ee f4 x = write_bytes eeaddr
       (file_bytes disc lsn (d * 2048 + unat (b1len p))
         (if left = k then middle_len p left else unat k * 2048)) (ee f) x)"
proof -
  let ?al = "readee_aligned p" and ?B1 = "unat (b1len p)"
  let ?n = "if ?al then k else k + 1"
  note kb = readee_count_bounds [OF left, of ?al, folded k] and n = readee_chunk_sectors [OF left k refl]
  obtain s1 q s2 where s: "sceCdRead rd (lsn + of_nat d) ?n rbuf (cd f) = Some (1, s1)"
    "sceCdSync rd 0 s1 = Some (q, s2)" "read_frame (cd f) s2" "inv (dev s2)" "err s2 = CDVD_ERR_NO"
    and data: "\<And>i m. i + m \<le> unat ?n * 2048 \<Longrightarrow>
      read_bytes (memory s2) (rbuf + of_nat i) m = file_bytes disc lsn (d * 2048 + i) m"
    using readee_chunk [OF assms(1) env R left lsn(1,2) k refl] by metis
  let ?f2 = "f\<lparr>cd := s2\<rparr>"
  let ?p1 = "if \<not> ?al \<and> left = r_sectors r then readee_first rbuf ?f2 p else p"
  let ?sz = "if \<not> ?al \<and> left = k \<and> b1len p \<noteq> 0 then k * 2048 - 64 else k * 2048"
  note sz = readee_sent_size [OF p left k refl]
  let ?f3 = "sysmemSendEE (rbuf + b1len p) eeaddr (unat ?sz) ?f2"
  let ?sent = "sent + ?sz"
  let ?f4 = "send_local (bytes_u32 ?sent @ replicate 12 0) (r_eeaddr2 r) ?f3"
  let ?p2 = "if \<not> ?al \<and> left - k = 0 then readee_last rbuf (k * 2048) ?f4 ?p1 else ?p1"
  have loop: "readee_loop rd r rbuf 2048 nbytes p left eeaddr sent f
      = readee_loop rd (r\<lparr>r_lsn := r_lsn r + k\<rparr>) rbuf 2048 nbytes ?p2 (left - k) (eeaddr + k * 2048) ?sent ?f4"
  proof -
    have go: "(left = 0 \<or> sceCdGetError (cd f) = CDVD_ERR_ABRT) = False"
      using left env by (simp add: readee_env_def sceCdGetError_def)
    have one: "((1 :: u32) = 0) = False" by simp
    have pos: "(0 < ?sz) = True" using sz(2) by blast
    show ?thesis
      by (subst readee_loop.simps)
        (simp only: go Let_def k [symmetric] r(1) s(1,2) option.case prod.case one pos if_True if_False
          fsv.simps)
  qed
  have first: "d = 0 \<longleftrightarrow> left = r_sectors r" using r(2) by (auto simp: word_unat_eq_iff)
  have cd4: "cd ?f4 = s2" by (simp add: send_local_def sysmemSendEE_def)
  have data2: "read_bytes (memory (cd ?f2)) (rbuf + of_nat i) m = file_bytes disc lsn (d * 2048 + i) m"
    if "i + m \<le> unat ?n * 2048" for i m
    using data [OF that] by simp
  have same: "cd ?f4 = cd ?f2" using cd4 by simp
  note packet = readee_packet [OF p left k refl first data2 same refl refl]
  have "?B1 + unat ?sz \<le> unat ?n * 2048"
    unfolding n(2) sz(1) using p kb(1) by (auto simp: edges_def readee_aligned_def middle_len_def)
  then have "read_bytes (memory s2) (rbuf + b1len p) (unat ?sz) = file_bytes disc lsn (d * 2048 + ?B1) (unat ?sz)"
    using data [of ?B1] by simp
  then have E: "ee ?f4 x = write_bytes eeaddr (file_bytes disc lsn (d * 2048 + ?B1) (unat ?sz)) (ee f) x"
    if "\<not> in_run (r_eeaddr2 r) 16 x" for x
    using that by (simp add: send_local_def sysmemSendEE_def write_bytes_outside length_bytes_u32 del: of_nat_unat)
  show ?thesis
    by (intro exI [of _ ?p2] exI [of _ ?sent] exI [of _ ?f4] conjI loop packet allI impI)
      (use s(3-5) cd4 E sz(1) in \<open>simp_all only:\<close>)
qed

text \<open>What a chunk has sent and what the rest sends make one run in the EE's memory.\<close>

lemma readee_ee_join:
  fixes p :: cdvdfsv_readee_t
  assumes left: "left \<noteq> 0" and n: "unat left = unat k + unat (left - k)" and sz: "unat left * 2048 < 2 ^ 32"
    and chunk: "chunk x = write_bytes a (file_bytes disc lsn (d * 2048 + unat (b1len p))
      (if left = k then middle_len p left else unat k * 2048)) m x"
    and whole: "whole x = write_bytes (a + k * 2048)
      (file_bytes disc lsn ((d + unat k) * 2048 + unat (b1len p)) (middle_len p (left - k))) chunk x"
  shows "whole x = write_bytes a (file_bytes disc lsn (d * 2048 + unat (b1len p)) (middle_len p left)) m x"
proof (cases "left = k")
  case True
  then have "middle_len p (left - k) = 0" by (simp add: middle_len_def)
  then show ?thesis using whole True chunk by simp
next
  case neq: False
  let ?B1 = "unat (b1len p)"
  have "left - k \<noteq> 0" using neq by simp
  then have "0 < unat (left - k)" by (simp only: unat_gt_0 not_False_eq_True)
  with n have len: "unat k * 2048 + middle_len p (left - k) = middle_len p left"
    using left neq by (auto simp: middle_len_def)
  have lt: "middle_len p left < 2 ^ 32" using sz by (simp add: middle_len_def)
  have at: "a + k * 2048 = a + of_nat (length (file_bytes disc lsn (d * 2048 + ?B1) (unat k * 2048)))"
    by simp
  have "chunk x = write_bytes a (file_bytes disc lsn (d * 2048 + ?B1) (unat k * 2048)) m x"
    using chunk neq by simp
  then have "whole x = write_bytes (a + k * 2048)
      (file_bytes disc lsn ((d + unat k) * 2048 + ?B1) (middle_len p (left - k)))
      (write_bytes a (file_bytes disc lsn (d * 2048 + ?B1) (unat k * 2048)) m) x"
    unfolding whole by (rule write_bytes_at)
  also have "\<dots> = write_bytes a (file_bytes disc lsn (d * 2048 + ?B1) (unat k * 2048) @
      file_bytes disc lsn ((d + unat k) * 2048 + ?B1) (middle_len p (left - k))) m x"
    by (subst write_bytes_append [OF _ at]) (use len lt in simp_all)
  finally show ?thesis
    unfolding len [symmetric] file_bytes_add by (simp add: add_mult_distrib add.commute add.left_commute)
qed

text \<open>The whole loop. \<open>d\<close> sectors are done, \<open>left\<close> are to be read.\<close>

lemma readee_loop_delivers:
  assumes "inv (dev (cd f))" and "readee_env (cd f) rbuf" and R: "\<forall>l j. j \<le> 16 \<longrightarrow> readable l j"
    and "r_lsn r = lsn + of_nat d" "unat (r_sectors r) = d + unat left"
    and lsn: "13 \<le> lsn" "unat lsn + d + unat left + 1 < 2 ^ 32" "(d + unat left) * 2048 < 2 ^ 32"
    and "edges p"
  shows "\<exists>r' p' f'. readee_loop rd r rbuf 2048 nbytes p left eeaddr sent f
      = Some (nbytes, r', readee_finished r' nbytes p' f') \<and>
    r_eeaddr1 r' = r_eeaddr1 r \<and> r_eeaddr2 r' = r_eeaddr2 r \<and>
    read_frame (cd f) (cd f') \<and> inv (dev (cd f')) \<and> chunk_packet disc lsn d left p p' \<and>
    (left = 0 \<longrightarrow> p' = p) \<and>
    (left \<noteq> 0 \<longrightarrow> take (unat (b2len p)) (buf2 p')
       = file_bytes disc lsn ((d + unat left) * 2048 - unat (b2len p)) (unat (b2len p))) \<and>
    (\<forall>x. \<not> in_run (r_eeaddr2 r) 16 x \<longrightarrow> ee f' x = write_bytes eeaddr
       (file_bytes disc lsn (d * 2048 + unat (b1len p)) (middle_len p left)) (ee f) x)"
  using assms
proof (induction "unat left" arbitrary: left d r p eeaddr sent f rule: less_induct)
  case less
  show ?case
  proof (cases "left = 0")
    case True
    have "readee_loop rd r rbuf 2048 nbytes p left eeaddr sent f
        = Some (nbytes, r, readee_finished r nbytes p f)"
      using True by (subst readee_loop.simps) simp
    moreover have "chunk_packet disc lsn d left p p"
      using less.prems(9) True by (auto simp: chunk_packet_def edges_def)
    ultimately show ?thesis
      using True less.prems(1) by (intro exI conjI) (auto simp: middle_len_def)
  next
    case False
    define k where "k = readee_count (readee_aligned p) left"
    note kb = readee_count_bounds [OF False, of "readee_aligned p", folded k_def]
    note kl = readee_left [OF False, of "readee_aligned p", folded k_def]
    let ?B1 = "unat (b1len p)" and ?l = "left - k" and ?r = "r\<lparr>r_lsn := r_lsn r + k\<rparr>"
    obtain p2 sent' f4 where step: "readee_loop rd r rbuf 2048 nbytes p left eeaddr sent f
        = readee_loop rd ?r rbuf 2048 nbytes p2 ?l (eeaddr + k * 2048) sent' f4"
      "read_frame (cd f) (cd f4)" "inv (dev (cd f4))" "err (cd f4) = CDVD_ERR_NO"
      and pk: "chunk_packet disc lsn d left p p2"
      and tail: "left = k \<longrightarrow> take (unat (b2len p)) (buf2 p2)
        = file_bytes disc lsn ((d + unat left) * 2048 - unat (b2len p)) (unat (b2len p))"
      and ee4: "\<forall>x. \<not> in_run (r_eeaddr2 r) 16 x \<longrightarrow> ee f4 x = write_bytes eeaddr
        (file_bytes disc lsn (d * 2048 + ?B1) (if left = k then middle_len p left else unat k * 2048)) (ee f) x"
      using readee_step [OF less.prems(1-5) False less.prems(6-9) k_def, of nbytes eeaddr sent] by blast
    note pf = chunk_packet_fields [OF pk less.prems(9)]
    have dk: "d + unat k + unat ?l = d + unat left" using kl(1) kb(2) by simp
    have env: "readee_env (cd f4) rbuf" by (rule readee_env_frame [OF less.prems(2) step(2,4)])
    have lsn': "r_lsn ?r = lsn + of_nat (d + unat k)" using less.prems(4) by simp
    have sec: "unat (r_sectors ?r) = d + unat k + unat ?l" using less.prems(5) dk by simp
    have room: "unat lsn + (d + unat k) + unat ?l + 1 < 2 ^ 32" "(d + unat k + unat ?l) * 2048 < 2 ^ 32"
      using less.prems(7,8) dk by simp_all
    obtain r' p' f' where IH: "readee_loop rd ?r rbuf 2048 nbytes p2 ?l (eeaddr + k * 2048) sent' f4
        = Some (nbytes, r', readee_finished r' nbytes p' f')"
      "r_eeaddr1 r' = r_eeaddr1 ?r" "r_eeaddr2 r' = r_eeaddr2 ?r"
      "read_frame (cd f4) (cd f')" "inv (dev (cd f'))" "chunk_packet disc lsn (d + unat k) ?l p2 p'"
      "?l = 0 \<longrightarrow> p' = p2"
      "?l \<noteq> 0 \<longrightarrow> take (unat (b2len p2)) (buf2 p')
         = file_bytes disc lsn ((d + unat k + unat ?l) * 2048 - unat (b2len p2)) (unat (b2len p2))"
      "\<forall>x. \<not> in_run (r_eeaddr2 ?r) 16 x \<longrightarrow> ee f' x = write_bytes (eeaddr + k * 2048)
         (file_bytes disc lsn ((d + unat k) * 2048 + unat (b1len p2)) (middle_len p2 ?l)) (ee f4) x"
      using less.hyps [OF kl(2) [folded kl(1)] step(3) env R lsn' sec less.prems(6) room pf(3)] by blast
    have eq: "left = k \<longleftrightarrow> ?l = 0" by simp
    have buf2: "take (unat (b2len p)) (buf2 p')
        = file_bytes disc lsn ((d + unat left) * 2048 - unat (b2len p)) (unat (b2len p))"
    proof (cases "?l = 0")
      case True
      with IH(7) tail eq show ?thesis by (simp only: simp_thms)
    next
      case False
      with IH(8) show ?thesis unfolding pf(2) dk by (rule mp)
    qed
    have data: "ee f' x = write_bytes eeaddr (file_bytes disc lsn (d * 2048 + ?B1) (middle_len p left)) (ee f) x"
      if x: "\<not> in_run (r_eeaddr2 r) 16 x" for x
    proof (rule readee_ee_join [OF False, where k = k and chunk = "ee f4"])
      show "unat left = unat k + unat ?l" "unat left * 2048 < 2 ^ 32" using dk less.prems(8) by simp_all
      show "ee f4 x = write_bytes eeaddr (file_bytes disc lsn (d * 2048 + ?B1)
          (if left = k then middle_len p left else unat k * 2048)) (ee f) x"
        using ee4 x by blast
      show "ee f' x = write_bytes (eeaddr + k * 2048)
          (file_bytes disc lsn ((d + unat k) * 2048 + ?B1) (middle_len p ?l)) (ee f4) x"
        using IH(9) x pf(1) by (simp add: middle_len_def)
    qed
    show ?thesis
      using IH(1-5) step(1,2) buf2 data chunk_packet_trans [OF pk less.prems(9) False _ IH(6)] kb(1)
        read_frame_trans [OF step(2) IH(4)] False
      by (intro exI [of _ r'] exI [of _ p'] exI [of _ f']) simp
  qed
qed

end

section \<open>\<open>cdvd_readee\<close>\<close>

text \<open>The receiver copies the bytes of the two edges to where the packet says they belong.\<close>

definition edges_copied :: "cdvdfsv_readee_t \<Rightarrow> mem \<Rightarrow> mem" where
  "edges_copied p m = write_bytes (pdst2 p) (take (unat (b2len p)) (buf2 p))
     (write_bytes (pdst1 p) (take (unat (b1len p)) (buf1 p)) m)"

text \<open>
  A request for whole 2048-byte sectors whose packet and position words do not lie in its
  destination.
\<close>

definition readee_ready :: "RpcCdvd_t \<Rightarrow> u8 list \<Rightarrow> u8 list \<Rightarrow> 'd cdvdman \<Rightarrow> bool" where
  "readee_ready r k1 k2 s \<longleftrightarrow> r_sectors r \<noteq> 0 \<and> readee_sector_size (r_datapattern r) = 2048 \<and>
     13 \<le> r_lsn r \<and> unat (r_lsn r) + unat (r_sectors r) + 1 < 2 ^ 32 \<and>
     unat (r_buf r) + unat (r_sectors r) * 2048 < 2 ^ 32 \<and> length k1 = 64 \<and> length k2 = 64 \<and>
     drive_idle s \<and> fsv_room s (sceGetFsvRbuf s + b2len (readee_setup r k1 k2)) \<and>
     disjoint_runs (r_eeaddr2 r) 16 (r_eeaddr1 r) 144 \<and>
     disjoint_runs (r_eeaddr1 r) 144 (r_buf r) (unat (r_sectors r) * 2048) \<and>
     disjoint_runs (r_eeaddr2 r) 16 (r_buf r) (unat (r_sectors r) * 2048)"

lemma readee_setup_edges:
  assumes sec: "readee_sector_size (r_datapattern r) = 2048" "unat (r_buf r) + unat (r_sectors r) * 2048 < 2 ^ 32"
    and n: "r_sectors r \<noteq> 0" and len: "length k1 = 64" "length k2 = 64"
  defines "p \<equiv> readee_setup r k1 k2"
  shows "edges p"
    and "unat (b1len p) + middle_len p (r_sectors r) + unat (b2len p) = unat (r_sectors r) * 2048"
    and "pdst2 p = r_buf r + of_nat (unat (b1len p) + middle_len p (r_sectors r))"
proof -
  let ?t = "unat (r_sectors r) * 2048"
  note b = readee_setup_bounds [OF sec, of k1 k2, folded p_def]
  show e: "edges p"
  proof (cases "unat (r_buf r) mod 64 = 0")
    case True
    then have "unat (b1len p) = 0" "unat (b2len p) = 0" unfolding b(1,2) by simp_all
    then show ?thesis using len b(5,6) by (simp add: edges_def unat_eq_zero)
  next
    case False
    then have "0 < unat (r_buf r) mod 64" "unat (r_buf r) mod 64 < 64" by simp_all
    then show ?thesis using len b(5,6) unfolding edges_def b(1,2) by simp
  qed
  have "0 < unat (r_sectors r)" using n by (simp add: unat_gt_0)
  then show sum: "unat (b1len p) + middle_len p (r_sectors r) + unat (b2len p) = ?t"
    using e n by (auto simp: edges_def middle_len_def)
  have m: "unat (b1len p) + middle_len p (r_sectors r) = ?t - unat (b2len p)" using sum by linarith
  have "unat (r_buf r + of_nat (?t - unat (b2len p))) = unat (r_buf r) + (?t - unat (b2len p))"
    using sec(2) unat_add_le [of "r_buf r" "of_nat (?t - unat (b2len p))"] by (simp add: unat_of_nat_u32)
  also have "\<dots> = unat (pdst2 p)" unfolding b(3) b(2) [symmetric] using sum by simp
  finally show "pdst2 p = r_buf r + of_nat (unat (b1len p) + middle_len p (r_sectors r))"
    unfolding m by (simp only: word_unat_eq_iff)
qed

text \<open>What the last two transfers leave in the EE's memory.\<close>

lemma readee_finished_ee:
  assumes "edges p" and "disjoint_runs (r_eeaddr2 r) 16 (r_eeaddr1 r) 144"
  shows "\<not> in_run (r_eeaddr2 r) 16 x \<Longrightarrow> \<not> in_run (r_eeaddr1 r) 144 x \<Longrightarrow> ee (readee_finished r n p f) x = ee f x"
    and "read_bytes (ee (readee_finished r n p f)) (r_eeaddr1 r) 144 = readee_bytes p"
proof -
  have e: "ee (readee_finished r n p f) = write_bytes (r_eeaddr2 r) (bytes_u32 n @ replicate 12 0)
      (write_bytes (r_eeaddr1 r) (readee_bytes p) (ee f))"
    by (simp add: readee_finished_def send_local_def)
  have len: "length (readee_bytes p) = 144" using assms(1) by (simp add: readee_bytes_def edges_def)
  show "\<not> in_run (r_eeaddr2 r) 16 x \<Longrightarrow> \<not> in_run (r_eeaddr1 r) 144 x \<Longrightarrow> ee (readee_finished r n p f) x = ee f x"
    unfolding e using len by (simp add: write_bytes_outside)
  show "read_bytes (ee (readee_finished r n p f)) (r_eeaddr1 r) 144 = readee_bytes p"
    unfolding e using assms(2) len by (simp add: read_write_disjoint read_write_sameI)
qed

text \<open>Three adjacent runs: the middle one is written before the edges.\<close>

lemma edges_around_middle:
  assumes "unat (b1len p) + n + unat (b2len p) = t" and "t \<le> 2 ^ 32"
    and "length (buf1 p) = 64" "unat (b1len p) \<le> 64" "length (buf2 p) = 64" "unat (b2len p) \<le> 64"
    and dst: "pdst2 p = pdst1 p + of_nat (unat (b1len p) + n)"
  shows "read_bytes (edges_copied p m) (pdst1 p) t = take (unat (b1len p)) (buf1 p) @
    read_bytes m (pdst1 p + of_nat (unat (b1len p))) n @ take (unat (b2len p)) (buf2 p)"
proof -
  let ?a = "unat (b1len p)" and ?b = "unat (b2len p)" and ?m = "edges_copied p m"
  have len: "length (take ?a (buf1 p)) = ?a" "length (take ?b (buf2 p)) = ?b" using assms(3-6) by simp_all
  have dj: "disjoint_runs (pdst2 p) ?b (pdst1 p) ?a"
    "disjoint_runs (pdst2 p) ?b (pdst1 p + of_nat ?a) n" "disjoint_runs (pdst1 p) ?a (pdst1 p + of_nat ?a) n"
    unfolding dst
    using disjoint_runs_apart [of "?a + n" ?b 0 ?a "pdst1 p"]
      disjoint_runs_apart [of "?a + n" ?b ?a n "pdst1 p"]
      disjoint_runs_apart [of 0 ?a ?a n "pdst1 p"] assms(1,2) by simp_all
  have "read_bytes ?m (pdst1 p) ?a = take ?a (buf1 p)"
    using read_write_disjoint [of "pdst2 p" "take ?b (buf2 p)" "pdst1 p" ?a] dj(1) len assms(1,2)
    by (simp add: edges_copied_def read_write_sameI)
  moreover have "read_bytes ?m (pdst1 p + of_nat ?a) n = read_bytes m (pdst1 p + of_nat ?a) n"
    using read_write_disjoint [of "pdst2 p" "take ?b (buf2 p)" "pdst1 p + of_nat ?a" n]
      read_write_disjoint [of "pdst1 p" "take ?a (buf1 p)" "pdst1 p + of_nat ?a" n] dj(2,3) len assms(1,2)
    by (simp add: edges_copied_def)
  moreover have "read_bytes ?m (pdst1 p + of_nat (?a + n)) ?b = take ?b (buf2 p)"
    unfolding dst [symmetric] edges_copied_def
    by (rule read_write_sameI) (use len assms(1,2) in simp_all)
  ultimately show ?thesis
    using read_bytes_add [of ?m "pdst1 p" "?a + n" ?b] read_bytes_add [of ?m "pdst1 p" ?a n] assms(1)
    by simp
qed

lemma answer_fields:
  "get_u32 (memory (cd (reply buf n f))) buf = n" "ee (put_RpcCdvd buf r f) = ee f"
  "ee (reply buf n f) = ee f"
  by (simp_all add: reply_def reply_bytes_def put_RpcCdvd_def put_u32_def [symmetric] get_put_u32)

text \<open>The run sent to the EE is not touched by the two transfers that end the command.\<close>

lemma readee_middle_kept:
  assumes "edges p" and apart: "disjoint_runs (r_eeaddr2 r) 16 (r_eeaddr1 r) 144"
    and run: "i + length bs \<le> t" "t \<le> 2 ^ 32"
    and out: "disjoint_runs (r_eeaddr1 r) 144 D t" "disjoint_runs (r_eeaddr2 r) 16 D t"
    and mid: "\<And>x. \<not> in_run (r_eeaddr2 r) 16 x \<Longrightarrow> ee f x = write_bytes (D + of_nat i) bs m x"
  shows "read_bytes (ee (readee_finished r n p f)) (D + of_nat i) (length bs) = bs"
proof -
  have "read_bytes (ee (readee_finished r n p f)) (D + of_nat i) (length bs)
      = read_bytes (write_bytes (D + of_nat i) bs m) (D + of_nat i) (length bs)"
  proof (rule read_bytes_cong)
    fix x assume "in_run (D + of_nat i) (length bs) x"
    then have "in_run D (i + length bs) x" using run by (intro in_run_offset) simp_all
    then have "in_run D t x" using run(1) by (simp add: in_run_def)
    then have x: "\<not> in_run (r_eeaddr2 r) 16 x" "\<not> in_run (r_eeaddr1 r) 144 x"
      using out by (auto simp: disjoint_runs_def)
    then show "ee (readee_finished r n p f) x = write_bytes (D + of_nat i) bs m x"
      using readee_finished_ee(1) [OF assms(1) apart x, of n f] mid [OF x(1)] by simp
  qed (use run in simp)
  also have "\<dots> = bs" using run by (intro read_write_sameI) simp_all
  finally show ?thesis .
qed

context disc_device
begin

text \<open>What \<open>cdvd_readee\<close> does around the loop, and the three pieces of the data.\<close>

lemma readee_runs:
  fixes f :: "('d, 'h) fsv"
  assumes r: "r = mask_addresses (RpcCdvd_at (memory (cd f)) buf)" and n: "r_sectors r \<noteq> 0"
    and idle: "drive_idle (cd f)" and sec: "readee_sector_size (r_datapattern r) = 2048"
    and loop: "readee_loop rd r (sceGetFsvRbuf (cd f) + b2len (readee_setup r k1 k2)) 2048 (r_sectors r * 2048)
        (readee_setup r k1 k2) (r_sectors r) ((r_buf r + 0x3f) AND 0xffffffc0) 0 (f\<lparr>cd := (cd f)\<lparr>err := CDVD_ERR_NO\<rparr>\<rparr>)
      = Some (r_sectors r * 2048, r', f')"
  shows "cdvd_readee rd k1 k2 buf f = Some (reply buf (r_sectors r * 2048) (put_RpcCdvd buf r' f'))"
proof -
  obtain q where q: "sceCdDiskReady rd 0 (cd f) = Some (q, (cd f)\<lparr>err := CDVD_ERR_NO\<rparr>)"
    using DiskReady_idle [of "cd f"] idle by (auto simp: drive_idle_def)
  have "r_sectors (RpcCdvd_at (memory (cd f)) buf) \<noteq> 0" using n by (simp add: r mask_addresses_def)
  then show ?thesis
    unfolding cdvd_readee_def Let_def r [symmetric] using q loop sec by (simp add: sceGetFsvRbuf_def)
qed

lemma three_pieces:
  assumes lens: "b1 + m + b2 = n * 2048"
  shows "file_bytes disc lsn 0 b1 @ file_bytes disc lsn b1 m @ file_bytes disc lsn (n * 2048 - b2) b2 = sector_run disc lsn n"
proof -
  have "n * 2048 - b2 = b1 + m" using lens by linarith
  then have "file_bytes disc lsn 0 b1 @ file_bytes disc lsn b1 m @ file_bytes disc lsn (n * 2048 - b2) b2
      = file_bytes disc lsn 0 (n * 2048)"
    unfolding lens [symmetric] file_bytes_add by simp
  also have "\<dots> = sector_run disc lsn n" using file_bytes_sectors [of disc lsn 0 n] disc_sector by simp
  finally show ?thesis .
qed

lemma cdvd_readee_delivers:
  fixes f :: "('d, 'h) fsv"
  assumes r: "r = mask_addresses (RpcCdvd_at (memory (cd f)) buf)"
    and inv: "inv (dev (cd f))" and R: "\<forall>l j. j \<le> 16 \<longrightarrow> readable l j" and ready: "readee_ready r k1 k2 (cd f)"
  shows "\<exists>f' p. cdvd_readee rd k1 k2 buf f = Some f' \<and> inv (dev (cd f')) \<and>
    semas (cd f') = semas (cd f) \<and> get_u32 (memory (cd f')) buf = r_sectors r * 2048 \<and>
    read_bytes (ee f') (r_eeaddr1 r) 144 = readee_bytes p \<and>
    read_bytes (edges_copied p (ee f')) (r_buf r) (unat (r_sectors r) * 2048)
      = sector_run disc (r_lsn r) (unat (r_sectors r))"
proof -
  let ?n = "r_sectors r" and ?D = "r_buf r" and ?p = "readee_setup r k1 k2" and ?s = "(cd f)\<lparr>err := CDVD_ERR_NO\<rparr>"
  let ?rbuf = "sceGetFsvRbuf (cd f) + b2len ?p" and ?up = "(?D + 0x3f) AND 0xffffffc0"
  note rd' = ready [unfolded readee_ready_def]
  have n: "?n \<noteq> 0" "0 < unat ?n" using rd' by (simp_all add: unat_gt_0)
  have sec: "readee_sector_size (r_datapattern r) = 2048" "unat ?D + unat ?n * 2048 < 2 ^ 32"
    using rd' by simp_all
  note b = readee_setup_bounds [OF sec, of k1 k2]
  have D: "unat ?D < 2 ^ 32 - 64" using sec(2) n(2) by linarith
  have up: "?up = ?D + of_nat (unat (b1len ?p))" unfolding b(1) by (rule round_up_64 [OF D])
  have lens0: "length k1 = 64" "length k2 = 64" using rd' by simp_all
  note st = readee_setup_edges [OF sec n(1) lens0]
  note edges = st(1)
  let ?b1 = "unat (b1len ?p)" and ?b2 = "unat (b2len ?p)" and ?t = "unat ?n * 2048"
  have env: "readee_env ?s ?rbuf"
    using rd' by (simp add: readee_env_def drive_idle_def fsv_room_def)
  have dev: "inv (dev ?s)" using inv by simp
  obtain r' p' f' where loop: "readee_loop rd r ?rbuf 2048 (?n * 2048) ?p ?n ?up 0 (f\<lparr>cd := ?s\<rparr>)
      = Some (?n * 2048, r', readee_finished r' (?n * 2048) p' f')"
    "r_eeaddr1 r' = r_eeaddr1 r" "r_eeaddr2 r' = r_eeaddr2 r" "inv (dev (cd f'))" "read_frame ?s (cd f')"
    and pk: "chunk_packet disc (r_lsn r) 0 ?n ?p p'"
    and tail: "take ?b2 (buf2 p') = file_bytes disc (r_lsn r) (?t - ?b2) ?b2"
    and mid: "\<And>x. \<not> in_run (r_eeaddr2 r) 16 x \<Longrightarrow>
      ee f' x = write_bytes ?up (file_bytes disc (r_lsn r) ?b1 (middle_len ?p ?n)) (ee f) x"
    using readee_loop_delivers [where f = "f\<lparr>cd := ?s\<rparr>" and d = 0 and lsn = "r_lsn r" and left = ?n
        and r = r and p = ?p and rbuf = ?rbuf and nbytes = "?n * 2048" and eeaddr = ?up and sent = 0]
      dev env R rd' edges by auto
  note pf = chunk_packet_fields [OF pk edges]
  have lens: "?b1 + middle_len ?p ?n + ?b2 = ?t" "?t \<le> 2 ^ 32" "?b1 \<le> 64" "?b2 \<le> 64"
    using st(2) edges sec(2) by (auto simp: edges_def)
  let ?F = "readee_finished r' (?n * 2048) p' f'"
  let ?f2 = "reply buf (?n * 2048) (put_RpcCdvd buf r' ?F)"
  have "drive_idle (cd f)" using rd' by simp
  note run = readee_runs [OF r n(1) this sec(1) loop(1)]
  have inv': "inv (dev (cd ?f2))" "semas (cd ?f2) = semas (cd f)"
    using loop(4) read_frame_fields(4) [OF loop(5)] by (simp_all add: reply_def reply_bytes_def put_RpcCdvd_def readee_finished_def send_local_def)
  have apart: "disjoint_runs (r_eeaddr2 r) 16 (r_eeaddr1 r) 144" using rd' by simp
  note fin = readee_finished_ee [OF pf(3), where r = r' and n = "?n * 2048" and f = f',
    unfolded loop(2,3), OF apart]
  have dst: "pdst1 p' = ?D" "pdst2 p' = ?D + of_nat (?b1 + middle_len ?p ?n)"
    unfolding pf(4,5) b(4) st(3) by simp_all
  have "read_bytes (ee ?F) (?D + of_nat ?b1) (middle_len ?p ?n)
      = file_bytes disc (r_lsn r) ?b1 (middle_len ?p ?n)"
    using readee_middle_kept [where p = p' and r = r' and D = ?D and i = ?b1 and t = ?t and f = f' and m = "ee f"
        and n = "?n * 2048" and bs = "file_bytes disc (r_lsn r) ?b1 (middle_len ?p ?n)"]
      pf(3) rd' lens mid unfolding up loop(2,3) by simp
  then have "read_bytes (edges_copied p' (ee ?F)) ?D ?t = file_bytes disc (r_lsn r) 0 ?b1 @
      file_bytes disc (r_lsn r) ?b1 (middle_len ?p ?n) @ file_bytes disc (r_lsn r) (?t - ?b2) ?b2"
    using edges_around_middle [of p' "middle_len ?p ?n" ?t "ee ?F"] lens dst pf(1-3) tail pk n(1)
    by (simp add: chunk_packet_def edges_def)
  also have "\<dots> = sector_run disc (r_lsn r) (unat ?n)" by (rule three_pieces [OF lens(1)])
  finally show ?thesis
    using run inv' fin(2) by (intro exI [of _ ?f2] exI [of _ p']) (simp add: answer_fields)
qed

text \<open>The N command as the EE sends it: the semaphore is taken and given back.\<close>

lemma ncmd_read_delivers:
  fixes f :: "('d, 'h) fsv"
  assumes r: "r = mask_addresses (RpcCdvd_at (memory (cd f)) buf)" and fno: "fno \<in> {1, 2, 3}"
    and inv: "inv (dev (cd f))" and R: "\<forall>l j. j \<le> 16 \<longrightarrow> readable l j" and io: "semas (cd f) cdrom_io_sema = 1"
    and ready: "readee_ready r (stk_buf1 stk) (stk_buf2 stk) (cd f)"
  shows "\<exists>f' p. cbrpc_cdvdNcmds rd stk fno buf f = Some f' \<and> inv (dev (cd f')) \<and>
    semas (cd f') = semas (cd f) \<and> get_u32 (memory (cd f')) buf = r_sectors r * 2048 \<and>
    read_bytes (ee f') (r_eeaddr1 r) 144 = readee_bytes p \<and>
    read_bytes (edges_copied p (ee f')) (r_buf r) (unat (r_sectors r) * 2048)
      = sector_run disc (r_lsn r) (unat (r_sectors r))"
proof -
  let ?s = "(cd f)\<lparr>semas := (semas (cd f))(cdrom_io_sema := 0)\<rparr>"
  have fno': "fno \<noteq> 0" "map_of NCMD_table fno = Some NCMD_READ" using fno by (auto simp: NCMD_table_def)
  have SC: "sceCdSC 0 CDSC_IO_SEMA fno (cd f) = Some (fno, fno, ?s)"
    using fno'(1) io by (simp add: sceCdSC_def WaitSema_def)
  have "readee_ready r (stk_buf1 stk) (stk_buf2 stk) ?s"
    using ready by (simp add: readee_ready_def drive_idle_def fsv_room_def sceGetFsvRbuf_def)
  then obtain f1 p where f1: "cdvd_readee rd (stk_buf1 stk) (stk_buf2 stk) buf (f\<lparr>cd := ?s\<rparr>) = Some f1"
    "inv (dev (cd f1))" "semas (cd f1) = semas ?s" "get_u32 (memory (cd f1)) buf = r_sectors r * 2048"
    "read_bytes (ee f1) (r_eeaddr1 r) 144 = readee_bytes p"
    "read_bytes (edges_copied p (ee f1)) (r_buf r) (unat (r_sectors r) * 2048)
      = sector_run disc (r_lsn r) (unat (r_sectors r))"
    using cdvd_readee_delivers [of r "f\<lparr>cd := ?s\<rparr>" buf "stk_buf1 stk" "stk_buf2 stk"] inv R
    by (fastforce simp: r)
  have sem: "(semas ?s)(cdrom_io_sema := 1) = semas (cd f)" using io by auto
  show ?thesis
    unfolding cbrpc_cdvdNcmds_def
    using SC fno' f1 sem
    by (intro exI [of _ "f1\<lparr>cd := SignalSema cdrom_io_sema (cd f1)\<rparr>"] exI [of _ p])
      (simp add: ncmd_switch_def sceCdSC_def SignalSema_def)
qed

text \<open>An element of a chain that goes to the EE.\<close>

text \<open>One turn: at most 16 sectors, read into the module's buffer and sent.\<close>

lemma chain_turn:
  assumes s: "inv (dev (cd f))" "drive_idle (cd f)" "fsv_room (cd f) (sceGetFsvRbuf (cd f))"
    and R: "\<forall>l j. j \<le> 16 \<longrightarrow> readable l j" and some: "tsectors \<noteq> 0" and lsn: "13 \<le> lsn" "unat lsn + unat tsectors < 2 ^ 32"
  obtains n f1 where "0 < unat n" and "unat n \<le> 16" and "unat n \<le> unat tsectors"
    and "chain_to_EE rd lsn tsectors addr readpos f
      = chain_to_EE rd (lsn + n) (tsectors - n) (addr + n * 2048) (readpos + n * 2048) f1"
    and "read_frame (cd f) (cd f1)" and "inv (dev (cd f1))"
    and "ee f1 = write_bytes addr (sector_run disc lsn (unat n)) (ee f)"
proof -
  define n where "n = (if tsectors > CDVDFSV_BUF_SECTORS then CDVDFSV_BUF_SECTORS else tsectors)"
  have n: "n \<noteq> 0" "unat n \<le> 16" "unat n \<le> unat tsectors" "0 < unat n"
    using some by (auto simp: n_def word_less_nat_alt unat_gt_0)
  have size: "unat (push_bit 11 n) = unat n * 2048" "push_bit 11 n = n * 2048" "unat (n * 2048) = unat n * 2048"
    using n(2) by (simp_all add: push_bit_eq_mult unat_word_ariths)
  have "13 \<le> lsn" "unat lsn + unat n < 2 ^ 32" "readable lsn (unat n)" using lsn n(2,3) R by auto
  then obtain s1 q s2 where s2: "sceCdRead rd lsn n (sceGetFsvRbuf (cd f)) (cd f) = Some (1, s1)"
    "sceCdSync rd 0 s1 = Some (q, s2)" "read_frame (cd f) s2" "inv (dev s2)"
    and data: "\<And>i m. i + m \<le> unat n * 2048 \<Longrightarrow>
      read_bytes (memory s2) (sceGetFsvRbuf (cd f) + of_nat i) m = file_bytes disc lsn i m"
    using chunk_read [OF s(1,2) _ s(3) n(1,2)] by fastforce
  let ?f1 = "sysmemSendEE (sceGetFsvRbuf (cd f)) addr (unat (push_bit 11 n)) (f\<lparr>cd := s2\<rparr>)"
  have step: "chain_to_EE rd lsn tsectors addr readpos f
      = chain_to_EE rd (lsn + n) (tsectors - n) (addr + n * 2048) (readpos + n * 2048) ?f1"
    using some s2(1,2)
    by (subst chain_to_EE.simps) (simp add: Let_def n_def [symmetric] size(2) [symmetric] del: CDVDFSV_BUF_SECTORS_def)
  have "sector_run disc lsn (unat n) = file_bytes disc lsn 0 (unat n * 2048)"
    using file_bytes_sectors [of disc lsn 0 "unat n"] disc_sector by simp
  then have "ee ?f1 = write_bytes addr (sector_run disc lsn (unat n)) (ee f)" "cd ?f1 = s2"
    using data [of 0 "unat n * 2048"] by (simp_all add: sysmemSendEE_def send_local_def size)
  with s2(3,4) n(2-4) step show thesis by (intro that [of n ?f1]) simp_all
qed

lemma chain_to_EE_delivers:
  assumes "inv (dev (cd f))" and "drive_idle (cd f)" and "fsv_room (cd f) (sceGetFsvRbuf (cd f))"
    and R: "\<forall>l j. j \<le> 16 \<longrightarrow> readable l j"
    and "tsectors \<noteq> 0 \<Longrightarrow> 13 \<le> lsn" "unat lsn + unat tsectors < 2 ^ 32" "unat tsectors * 2048 < 2 ^ 32"
  shows "\<exists>f'. chain_to_EE rd lsn tsectors addr readpos f = Some (Some (readpos + tsectors * 2048), f') \<and>
    read_frame (cd f) (cd f') \<and> inv (dev (cd f')) \<and>
    ee f' = write_bytes addr (sector_run disc lsn (unat tsectors)) (ee f)"
  using assms(1-3,5-7)
proof (induction "unat tsectors" arbitrary: tsectors lsn addr readpos f rule: less_induct)
  case less
  show ?case
  proof (cases "tsectors = 0")
    case True
    then show ?thesis using less.prems by (simp add: chain_to_EE.simps)
  next
    case False
    obtain n f1 where n: "0 < unat n" "unat n \<le> 16" "unat n \<le> unat tsectors"
      and step: "chain_to_EE rd lsn tsectors addr readpos f
        = chain_to_EE rd (lsn + n) (tsectors - n) (addr + n * 2048) (readpos + n * 2048) f1"
      and s: "read_frame (cd f) (cd f1)" "inv (dev (cd f1))"
      and e1: "ee f1 = write_bytes addr (sector_run disc lsn (unat n)) (ee f)"
      using chain_turn [OF less.prems(1-3) R False less.prems(4) [OF False] less.prems(5), of addr readpos] by metis
    have rest: "unat (tsectors - n) = unat tsectors - unat n" "unat (lsn + n) = unat lsn + unat n"
      using n less.prems(5) unat_add_le [of lsn n] by (simp_all add: unat_sub word_le_nat_alt)
    have "\<exists>f'. chain_to_EE rd (lsn + n) (tsectors - n) (addr + n * 2048) (readpos + n * 2048) f1
        = Some (Some (readpos + n * 2048 + (tsectors - n) * 2048), f') \<and>
      read_frame (cd f1) (cd f') \<and> inv (dev (cd f')) \<and> ee f' = write_bytes (addr + n * 2048)
        (sector_run disc (lsn + n) (unat (tsectors - n))) (ee f1)"
    proof (rule less.hyps)
      show "unat (tsectors - n) < unat tsectors" using rest(1) n by simp
      show "inv (dev (cd f1))" "drive_idle (cd f1)" "fsv_room (cd f1) (sceGetFsvRbuf (cd f1))"
        using s less.prems(2,3) by (simp_all add: drive_idle_def read_frame_fields fsv_room_frame sceGetFsvRbuf_def)
      show "13 \<le> lsn + n" using less.prems(4) False rest(2) by (simp add: word_le_nat_alt)
      show "unat (lsn + n) + unat (tsectors - n) < 2 ^ 32" "unat (tsectors - n) * 2048 < 2 ^ 32"
        using less.prems(5,6) rest n(3) by simp_all
    qed
    then obtain f' where f': "chain_to_EE rd lsn tsectors addr readpos f
        = Some (Some (readpos + n * 2048 + (tsectors - n) * 2048), f')"
      "read_frame (cd f1) (cd f')" "inv (dev (cd f'))" "ee f' = write_bytes (addr + n * 2048)
        (sector_run disc (lsn + n) (unat (tsectors - n))) (ee f1)"
      unfolding step by blast
    have pos: "readpos + n * 2048 + (tsectors - n) * 2048 = readpos + tsectors * 2048" by (simp add: algebra_simps)
    have "ee f' = write_bytes addr (sector_run disc lsn (unat n) @
        sector_run disc (lsn + of_nat (unat n)) (unat (tsectors - n))) (ee f)"
      unfolding f'(4) e1 using less.prems(6) n(3) disc_sector
      by (subst write_bytes_append) (simp_all add: rest(1) length_sector_run)
    also have "\<dots> = write_bytes addr (sector_run disc lsn (unat tsectors)) (ee f)"
      unfolding sector_run_add [symmetric] rest(1) using n(3) by simp
    finally show ?thesis
      using f'(1,3) read_frame_trans [OF s(1) f'(2)] unfolding pos by blast
  qed
qed

end

end
