(* ===== verification/Server_Bdm.thy ===== *)
theory Server_Bdm
  imports Fsv_Delivers Demo_Drive
begin

text \<open>
  The server over the block-device driver: an N command that reads, and an element of a chain,
  with concrete requests. The destination of the demonstration request lies 32 bytes past a
  64-byte boundary, so that both edges go by way of the packet.
\<close>

section \<open>Reads for the EE\<close>

lemma chunks_readable: "16 * k < 2 ^ 16 \<Longrightarrow> \<forall>l j. j \<le> 16 \<longrightarrow> bdm_readable k l j"
  unfolding bdm_readable_def by (intro allI impI) (rule le_less_trans [OF mult_le_mono1])

text \<open>
  C12. A read command of the EE (N commands 1 to 3) for 2048-byte sectors always returns on an
  idle drive; the answer is the number of bytes, the I/O semaphore is given back, the packet with
  the edges is at its address, and once the receiver has copied the edges the destination holds
  the sectors asked for, whatever its alignment and however many chunks the read took.
\<close>

theorem server_read_delivers:
  fixes f :: "(bdm_state, 'h) fsv"
  assumes "r = mask_addresses (RpcCdvd_at (memory (cd f)) buf)" and "fno \<in> {1, 2, 3}"
    and "bdm_inv store lba k (dev (cd f))" and "16 * k < 2 ^ 16" and "semas (cd f) cdrom_io_sema = 1"
    and "readee_ready r (stk_buf1 stk) (stk_buf2 stk) (cd f)"
  shows "\<exists>f' p. cbrpc_cdvdNcmds DeviceReadSectors_bdm stk fno buf f = Some f' \<and>
    bdm_inv store lba k (dev (cd f')) \<and>
    semas (cd f') = semas (cd f) \<and> get_u32 (memory (cd f')) buf = r_sectors r * 2048 \<and>
    read_bytes (ee f') (r_eeaddr1 r) 144 = readee_bytes p \<and>
    read_bytes (edges_copied p (ee f')) (r_buf r) (unat (r_sectors r) * 2048)
      = sector_run (bdm_disc store lba k) (r_lsn r) (unat (r_sectors r))"
  using bdm.ncmd_read_delivers [OF assms(1-3) chunks_readable [OF assms(4)] assms(5,6)] by blast

definition demo_request :: mem where
  "demo_request = (\<lambda>_. 0)(0x30000 := 16, 0x30004 := 1, 0x30008 := 0x20, 0x3000A := 0x10,
     0x30012 := 0x20, 0x30015 := 1, 0x30016 := 0x20)"

definition demo_server :: "(bdm_state, unit) fsv" where
  "demo_server = \<lparr>cd = (demo_state demo_dev)\<lparr>memory := demo_request\<rparr>, mecha = (), ee = (\<lambda>_. 0),
     rpc0_prio = 0x51, rpc1_prio = 0x51, rpc2_prio = 0x51\<rparr>"

definition demo_stack :: fsv_stack where
  "demo_stack = \<lparr>stk_buf1 = replicate 64 0xAA, stk_buf2 = replicate 64 0xBB, stk_err = 0\<rparr>"

lemma demo_request_at: "mask_addresses (RpcCdvd_at demo_request 0x30000) = \<lparr>r_lsn = 16, r_sectors = 1,
    r_buf = 0x100020, r_datapattern = 0, r_eeaddr1 = 0x200000, r_eeaddr2 = 0x200100\<rparr>"
  by (simp add: mask_addresses_def RpcCdvd_at_def get_u32_def demo_request_def)

theorem server_read_delivers_witness:
  "\<exists>f' p. cbrpc_cdvdNcmds DeviceReadSectors_bdm demo_stack 1 0x30000 demo_server = Some f' \<and>
     get_u32 (memory (cd f')) 0x30000 = 2048 \<and>
     read_bytes (edges_copied p (ee f')) 0x100020 2048 = sector_run (bdm_disc demo_store 390359 4) 16 1"
proof -
  let ?r = "mask_addresses (RpcCdvd_at demo_request 0x30000)"
  have "readee_ready ?r (stk_buf1 demo_stack) (stk_buf2 demo_stack) (cd demo_server)"
    by (simp add: demo_request_at readee_ready_def readee_sector_size_def demo_stack_def demo_server_def
        drive_idle_def demo_state_def fsv_room_def sceGetFsvRbuf_def readee_setup_def disjoint_runsI)
  then show ?thesis
    using server_read_delivers [where f = demo_server and r = ?r and buf = "0x30000" and fno = 1 and
        store = demo_store and lba = 390359 and k = 4 and stk = demo_stack] demo_bdm_inv
    by (auto simp: demo_request_at demo_server_def demo_state_def)
qed

text \<open>
  C19. An element of a chained read whose address lies in EE memory arrives whole: the sectors go
  through the server's buffer in chunks of at most 16, the EE's memory ends up with all of them
  and nothing else changed in it, and the position counts every byte.
\<close>

theorem chain_element_delivers:
  fixes f :: "(bdm_state, 'h) fsv"
  assumes "bdm_inv store lba k (dev (cd f))" and "drive_idle (cd f)" and "fsv_room (cd f) (sceGetFsvRbuf (cd f))"
    and "16 * k < 2 ^ 16" and "13 \<le> lsn" and "unat lsn + unat n < 2 ^ 32" and "unat n * 2048 < 2 ^ 32"
  shows "\<exists>f'. chain_to_EE DeviceReadSectors_bdm lsn n addr readpos f = Some (Some (readpos + n * 2048), f') \<and>
    drive_idle (cd f') \<and> ee f' = write_bytes addr (sector_run (bdm_disc store lba k) lsn (unat n)) (ee f)"
  using bdm.chain_to_EE_delivers [OF assms(1-3) chunks_readable [OF assms(4)] assms(5-7), where readpos = readpos and addr = addr] assms(2)
  by (auto simp: read_frame_idle)

theorem chain_element_delivers_witness:
  "\<exists>f'. chain_to_EE DeviceReadSectors_bdm 16 40 0x100020 0 demo_server = Some (Some 81920, f') \<and>
     ee f' = write_bytes 0x100020 (sector_run (bdm_disc demo_store 390359 4) 16 40) (\<lambda>_. 0)"
  using chain_element_delivers [where f = demo_server and store = demo_store and lba = 390359 and k = 4 and
      lsn = 16 and n = 40 and addr = "0x100020" and readpos = 0] demo_bdm_inv
  by (auto simp: demo_server_def demo_state_def drive_idle_def fsv_room_def sceGetFsvRbuf_def)

section \<open>Priorities\<close>

text \<open>
  The three server threads always get the same priority, one the kernel accepts for a
  user thread (10 to 123); a request out of 9 to 123 is refused and changes nothing.
\<close>

theorem priorities_in_range:
  assumes "- (2 ^ 31) \<le> n" and "n < 2 ^ 31"
  shows "sceCdChangeThreadPriority n f =
     (if 9 \<le> n \<and> n \<le> 123 then (0, f\<lparr>rpc0_prio := max n 10, rpc1_prio := max n 10, rpc2_prio := max n 10\<rparr>)
      else (-403, f))"
proof -
  have "(word_of_int (n - 9) :: u32) < 0x73 \<longleftrightarrow> (n - 9) mod 2 ^ 32 < 115"
    by (simp only: word_less_def uint_word_of_int) simp
  also have "\<dots> \<longleftrightarrow> 9 \<le> n \<and> n \<le> 123"
  proof (cases "9 \<le> n")
    case True
    then show ?thesis using assms(2) by (auto simp: mod_pos_pos_trivial)
  next
    case False
    then have "(n - 9) mod 2 ^ 32 = n - 9 + 2 ^ 32"
      using assms(1) mod_add_self2 [of "n - 9" "2 ^ 32"] mod_pos_pos_trivial [of "n - 9 + 2 ^ 32" "2 ^ 32"]
      by simp
    then show ?thesis using False assms(1) by simp
  qed
  finally show ?thesis by (auto simp: sceCdChangeThreadPriority_def max_def)
qed

theorem priorities_in_range_witness:
  "fst (sceCdChangeThreadPriority 124 demo_server) = - 403 \<and>
   rpc1_prio (snd (sceCdChangeThreadPriority 9 demo_server)) = 10"
  using priorities_in_range [of 124 demo_server] priorities_in_range [of 9 demo_server] by simp

end
