(* ===== verification/Dev9_Laws.thy ===== *)
theory Dev9_Laws
  imports Atad
begin

text \<open>
  Two facts about the bay: reading the EEPROM is a round trip through its serial protocol, and a
  disk that stays busy is given up on without a command.
\<close>

section \<open>The EEPROM\<close>

text \<open>
  The chip as the driver sees it: chip select (bit 7 of the port), the level of the clock (bit 6)
  and the bits it was sent (bit 5 at each rising edge of the clock since it was selected).
\<close>

record eeprom =
  selected :: bool
  clock :: bool
  sent :: "bool list"

definition port_written :: "u16 \<Rightarrow> eeprom \<Rightarrow> eeprom" where
  "port_written v e =
     (if \<not> bit v 7 then \<lparr>selected = False, clock = bit v 6, sent = []\<rparr>
      else \<lparr>selected = True, clock = bit v 6,
        sent = if bit v 6 \<and> \<not> clock e then sent e @ [bit v 5] else sent e\<rparr>)"

text \<open>
  After the nine bits of \<open>READ 0\<close> the data line (bit 4) gives a 0, then at each further edge the
  next bit, the words from their top bit down.
\<close>

definition read_command :: "bool list" where
  "read_command = [True, True, False, False, False, False, False, False, False]"

definition data_line :: "u16 list \<Rightarrow> nat \<Rightarrow> bool" where
  "data_line ws k = (k \<noteq> 0 \<and> bit (ws ! ((k - 1) div 16)) (15 - (k - 1) mod 16))"

definition eeprom_bus :: "'h bus \<Rightarrow> ('h \<Rightarrow> eeprom) \<Rightarrow> u16 list \<Rightarrow> bool" where
  "eeprom_bus bus chip ws \<longleftrightarrow>
     (\<forall>h v. chip (wr_reg bus SPD_R_PIO_DATA v h) = port_written v (chip h)) \<and>
     (\<forall>h v. chip (wr_reg bus SPD_R_PIO_DIR v h) = chip h) \<and> (\<forall>h n. chip (pass_time bus n h) = chip h) \<and>
     (\<forall>h. chip (snd (rd_reg bus SPD_R_PIO_DATA h)) = chip h) \<and>
     (\<forall>h. take 9 (sent (chip h)) = read_command \<and> length (sent (chip h)) - 9 \<le> 64 \<longrightarrow>
        (fst (rd_reg bus SPD_R_PIO_DATA h) AND 0x10 \<noteq> 0) = data_line ws (length (sent (chip h)) - 9))"

lemma pio_chip:
  assumes "eeprom_bus bus chip ws"
  shows "chip (hw (pio bus v s)) = port_written v (chip (hw s))" and "eeprom_data (pio bus v s) = eeprom_data s"
  using assms by (simp_all add: eeprom_bus_def pio_def DelayThread_dev9_def reg_wr_def)

lemma bit_ports:
  "bit (0x80 :: u16) 7" "\<not> bit (0x80 :: u16) 6" "bit (0xc0 :: u16) 7" "bit (0xc0 :: u16) 6" "\<not> bit (0xc0 :: u16) 5"
  "bit (0xa0 :: u16) 7" "\<not> bit (0xa0 :: u16) 6" "bit (0xe0 :: u16) 7" "bit (0xe0 :: u16) 6" "bit (0xe0 :: u16) 5"
  "\<not> bit (0 :: u16) 7"
  by code_simp+

text \<open>The command leaves the chip with its nine bits and the clock high.\<close>

lemma command_sent:
  assumes "eeprom_bus bus chip ws" and "sent (chip (hw s)) = []" and "\<not> clock (chip (hw s))"
  shows "chip (hw (eeprom_command bus s)) = \<lparr>selected = True, clock = True, sent = read_command\<rparr>"
    and "eeprom_data (eeprom_command bus s) = eeprom_data s"
proof -
  let ?vs = "[0x80, 0xa0, 0xe0, 0xa0, 0xe0, 0x80, 0xc0, 0x80, 0xc0, 0x80, 0xc0, 0x80, 0xc0, 0x80, 0xc0,
      0x80, 0xc0, 0x80, 0xc0, 0xc0] :: u16 list"
  have vs: "[0x80] @ concat (replicate 2 [0xa0, 0xe0]) @ concat (replicate 7 [0x80, 0xc0]) @ [0xc0] = ?vs"
    by (simp add: eval_nat_numeral)
  let ?s0 = "DelayThread_dev9 bus 1 (reg_wr bus SPD_R_PIO_DIR 0xe1 s)"
  have s0: "chip (hw ?s0) = chip (hw s)" "eeprom_data ?s0 = eeprom_data s"
    using assms(1) by (simp_all add: eeprom_bus_def DelayThread_dev9_def reg_wr_def)
  have run: "chip (hw (fold (pio bus) vs t)) = fold port_written vs (chip (hw t)) \<and>
      eeprom_data (fold (pio bus) vs t) = eeprom_data t" for vs t
    by (induction vs arbitrary: t) (simp_all add: pio_chip [OF assms(1)])
  have "fold port_written ?vs (chip (hw s)) = \<lparr>selected = True, clock = True, sent = read_command\<rparr>"
    using assms(2,3) by (simp add: port_written_def bit_ports read_command_def)
  then show "chip (hw (eeprom_command bus s)) = \<lparr>selected = True, clock = True, sent = read_command\<rparr>"
    "eeprom_data (eeprom_command bus s) = eeprom_data s"
    using run s0 by (simp_all only: eeprom_command_def vs)
qed

text \<open>The chip after \<open>k\<close> further edges.\<close>

definition at_bit :: "nat \<Rightarrow> eeprom \<Rightarrow> bool" where
  "at_bit k e \<longleftrightarrow> \<not> clock e \<and> take 9 (sent e) = read_command \<and> length (sent e) = 9 + k"

lemma bit_read:
  assumes B: "eeprom_bus bus chip ws" and "at_bit k (chip (hw s))" and "k < 64"
  shows "\<exists>s'. eeprom_bit bus (w, s) j = ((if data_line ws (Suc k) then w OR push_bit j 1 else w), s') \<and>
    at_bit (Suc k) (chip (hw s')) \<and> eeprom_data s' = eeprom_data s"
proof -
  let ?s1 = "pio bus 0xc0 s" let ?r = "reg_rd bus SPD_R_PIO_DATA ?s1"
  have s1: "chip (hw ?s1) = \<lparr>selected = True, clock = True, sent = sent (chip (hw s)) @ [False]\<rparr>"
    using assms(2) by (simp add: pio_chip [OF B] port_written_def bit_ports at_bit_def)
  have v: "(fst ?r AND 0x10 \<noteq> 0) = data_line ws (Suc k)"
    using B assms(2,3) s1 by (simp add: reg_rd_def split_def Let_def eeprom_bus_def at_bit_def)
  have s2: "chip (hw (snd ?r)) = chip (hw ?s1)" "eeprom_data (snd ?r) = eeprom_data ?s1"
    using B by (simp_all add: reg_rd_def split_def Let_def eeprom_bus_def)
  show ?thesis
    using v s1 assms(2) s2
    by (simp add: eeprom_bit_def split_def Let_def pio_chip [OF B] port_written_def bit_ports at_bit_def)
qed

lemma bits_read:
  assumes B: "eeprom_bus bus chip ws" and k: "at_bit (16 * i) (chip (hw s))" and i: "i < 4" and n: "n \<le> 16"
  shows "\<exists>w s'. foldl (eeprom_bit bus) (0, s) (map (\<lambda>t. 15 - t) [0..<n]) = (w, s') \<and>
    (\<forall>b. bit w b \<longleftrightarrow> b < 16 \<and> 16 - n \<le> b \<and> bit (ws ! i) b) \<and>
    at_bit (16 * i + n) (chip (hw s')) \<and> eeprom_data s' = eeprom_data s"
  using n
proof (induction n)
  case 0
  then show ?case using k by auto
next
  case (Suc n)
  then obtain w s1 where w: "foldl (eeprom_bit bus) (0, s) (map (\<lambda>t. 15 - t) [0..<n]) = (w, s1)"
    "\<forall>b. bit w b \<longleftrightarrow> b < 16 \<and> 16 - n \<le> b \<and> bit (ws ! i) b" "at_bit (16 * i + n) (chip (hw s1))"
    "eeprom_data s1 = eeprom_data s"
    by auto
  have n: "n < 16" using Suc.prems by simp
  have line: "data_line ws (Suc (16 * i + n)) = bit (ws ! i) (15 - n)"
    using n by (simp add: data_line_def)
  obtain s2 where s2: "eeprom_bit bus (w, s1) (15 - n)
      = ((if bit (ws ! i) (15 - n) then w OR push_bit (15 - n) 1 else w), s2)"
    "at_bit (Suc (16 * i + n)) (chip (hw s2))" "eeprom_data s2 = eeprom_data s1"
    using bit_read [OF B w(3), of w "15 - n"] i n unfolding line by auto
  let ?w = "if bit (ws ! i) (15 - n) then w OR push_bit (15 - n) 1 else w"
  have "bit ?w b \<longleftrightarrow> b < 16 \<and> 16 - Suc n \<le> b \<and> bit (ws ! i) b" for b
  proof (cases "b = 15 - n")
    case True
    then show ?thesis using w(2) n by (auto simp: bit_simps)
  next
    case False
    have "bit (push_bit (15 - n) (1 :: u16)) b \<longleftrightarrow> b < 16 \<and> b = 15 - n" by (auto simp: bit_simps)
    then have "bit ?w b \<longleftrightarrow> bit w b" using False by (simp add: bit_or_iff)
    moreover have "16 - n \<le> b \<longleftrightarrow> 16 - Suc n \<le> b" using n False by linarith
    ultimately show ?thesis using w(2) by blast
  qed
  moreover have "foldl (eeprom_bit bus) (0, s) (map (\<lambda>t. 15 - t) [0..<Suc n]) = (?w, s2)"
    using w(1) s2(1) by simp
  moreover have "16 * i + Suc n = Suc (16 * i + n)" by simp
  ultimately show ?case using w(4) s2(2,3) by (intro exI [of _ ?w] exI [of _ s2]) (simp only: simp_thms)
qed

lemma word_read:
  assumes "eeprom_bus bus chip ws" and "at_bit (16 * i) (chip (hw s))" and "i < 4"
  shows "\<exists>s'. eeprom_word bus s = (ws ! i, s') \<and> at_bit (16 * Suc i) (chip (hw s')) \<and> eeprom_data s' = eeprom_data s"
proof -
  have js: "rev [0..<16] = map (\<lambda>t. 15 - t) [0..<16]" by code_simp
  obtain w s' where w: "eeprom_word bus s = (w, s')" "\<forall>b. bit w b \<longleftrightarrow> b < 16 \<and> 16 - 16 \<le> b \<and> bit (ws ! i) b"
    "at_bit (16 * i + 16) (chip (hw s'))" "eeprom_data s' = eeprom_data s"
    using bits_read [OF assms, of 16] unfolding eeprom_word_def js by auto
  have "w = ws ! i" using w(2) by (intro bit_word_eqI) simp
  then show ?thesis using w(1,3,4) by (simp add: add.commute)
qed

lemma words_read:
  assumes B: "eeprom_bus bus chip ws" and k: "at_bit 0 (chip (hw s))" and len: "length (eeprom_data s) = 5" and n: "n \<le> 4"
  shows "at_bit (16 * n) (chip (hw (fold (eeprom_slot bus) [0..<n] s))) \<and>
    length (eeprom_data (fold (eeprom_slot bus) [0..<n] s)) = 5 \<and>
    (\<forall>i<n. eeprom_data (fold (eeprom_slot bus) [0..<n] s) ! Suc i = ws ! i)"
  using n
proof (induction n)
  case 0
  then show ?case using k len by simp
next
  case (Suc n)
  let ?s1 = "fold (eeprom_slot bus) [0..<n] s"
  have s1: "at_bit (16 * n) (chip (hw ?s1))" "length (eeprom_data ?s1) = 5" "\<forall>i<n. eeprom_data ?s1 ! Suc i = ws ! i"
    using Suc by simp_all
  obtain s2 where s2: "eeprom_word bus ?s1 = (ws ! n, s2)" "at_bit (16 * Suc n) (chip (hw s2))"
    "eeprom_data s2 = eeprom_data ?s1"
    using word_read [OF B s1(1)] Suc.prems by auto
  have "fold (eeprom_slot bus) [0..<Suc n] s = s2\<lparr>eeprom_data := (eeprom_data ?s1)[Suc n := ws ! n]\<rparr>"
    using s2(1,3) by (simp add: eeprom_slot_def)
  moreover have "\<forall>i<Suc n. (eeprom_data ?s1)[Suc n := ws ! n] ! Suc i = ws ! i"
    using s1(2,3) Suc.prems by (auto simp: nth_list_update less_Suc_eq)
  ultimately show ?case using s2(2) s1(2) by simp
qed

text \<open>
  C20. Reading the EEPROM is a round trip: from a chip that speaks the serial protocol the driver
  gets the four words as they are stored, and \<open>dev9GetEEPROM\<close> gives them to its caller.
\<close>

theorem eeprom_round_trip:
  assumes "eeprom_bus bus chip ws" and "length ws = 4" and "sent (chip (hw s)) = []" and "\<not> clock (chip (hw s))"
    and "length (eeprom_data s) = 5" and "\<not> eeprom_data s ! 0 <s 0"
  shows "\<exists>s'. read_eeprom_data bus s = (0, s') \<and> dev9GetEEPROM s' = (0, ws)"
proof -
  let ?s1 = "eeprom_command bus s" let ?r = "reg_rd bus SPD_R_PIO_DATA ?s1"
  note s1 = command_sent [OF assms(1,3,4)]
  have v: "(fst ?r AND 0x10 \<noteq> 0) = data_line ws 0"
    using assms(1) s1(1) by (simp add: reg_rd_def split_def Let_def eeprom_bus_def read_command_def)
  have r: "chip (hw (snd ?r)) = chip (hw ?s1)" "eeprom_data (snd ?r) = eeprom_data s"
    using assms(1) s1(2) by (simp_all add: reg_rd_def split_def Let_def eeprom_bus_def)
  let ?s3 = "pio bus 0x80 (DelayThread_dev9 bus 1 (snd ?r))"
  have "chip (hw (DelayThread_dev9 bus 1 (snd ?r))) = chip (hw ?s1)"
    using r(1) assms(1) by (simp add: DelayThread_dev9_def eeprom_bus_def)
  then have s3: "at_bit 0 (chip (hw ?s3))" "eeprom_data ?s3 = eeprom_data s"
    using s1(1) r(2) by (simp_all add: pio_chip [OF assms(1)] port_written_def bit_ports at_bit_def read_command_def
        DelayThread_dev9_def)
  let ?s4 = "eeprom_words bus ?s3"
  have s4: "length (eeprom_data ?s4) = 5" "\<forall>i<4. eeprom_data ?s4 ! Suc i = ws ! i"
    using words_read [OF assms(1) s3(1), of 4] s3(2) assms(5) unfolding eeprom_words_def by simp_all
  let ?s5 = "pio bus 0 ?s4"
  let ?s6 = "reg_wr bus SPD_R_PIO_DIR 1 (?s5\<lparr>eeprom_data := (eeprom_data ?s5)[0 := 1]\<rparr>)"
  have "read_eeprom_data bus s = (0, ?s6)"
    using assms(6) v by (simp add: read_eeprom_data_def split_def Let_def data_line_def)
  moreover have "dev9GetEEPROM ?s6 = (0, ws)"
  proof -
    have "eeprom_data ?s6 = (eeprom_data ?s4)[0 := 1]" by (simp add: reg_wr_def pio_chip [OF assms(1)])
    moreover have "map (\<lambda>i. (eeprom_data ?s4)[0 := 1] ! Suc i) [0..<4] = ws"
      using s4 assms(2) by (intro nth_equalityI) simp_all
    ultimately show ?thesis using s4(1) by (simp add: dev9GetEEPROM_def word_sless_alt)
  qed
  ultimately show ?thesis by blast
qed

text \<open>A chip that is its own view.\<close>

definition chip_bus :: "u16 list \<Rightarrow> eeprom bus" where
  "chip_bus ws = \<lparr>
     rd_reg = (\<lambda>r e. (if r = SPD_R_PIO_DATA \<and> data_line ws (length (sent e) - 9) then 0x10 else 0, e)),
     wr_reg = (\<lambda>r v e. if r = SPD_R_PIO_DATA then port_written v e else e), wr_ssbus = (\<lambda>_ _ e. e),
     run_dma = (\<lambda>_ _ _ _ _. None), pass_time = (\<lambda>_ e. e), woken = (\<lambda>_. None), AIF_INTR_PCMCIA = 1,
     QueryBootMode6 = None, foreign_intr = (\<lambda>_ _ e. e), foreign_dma = (\<lambda>_ _ _ e. e),
     foreign_shutdown = (\<lambda>_ e. e)\<rparr>"

definition chip_bay :: "eeprom dev9" where
  "chip_bay = \<lparr>hw = \<lparr>selected = False, clock = False, sent = []\<rparr>, dev9type = 1, using_aif = False,
     intr_installed = True, dma_lock_sem = 1, eeprom_data = replicate 5 0, dev9_intr_cbs = (\<lambda>_. None),
     dev9_shutdown_cbs = (\<lambda>_. None), dev9_predma_cbs = (\<lambda>_. None), dev9_postdma_cbs = (\<lambda>_. None),
     atad_inited = False, ata_evflg = 0, ata_alarm = False,
     atad_cmd_state = \<lparr>ata_type = 0, ata_buf = 0, blkcount = 0, ata_dir = 0\<rparr>, ata_io_sema = 1\<rparr>"

theorem eeprom_round_trip_witness:
  "\<exists>s'. read_eeprom_data (chip_bus [0x0400, 0xABCD, 0x1234, 0xB301]) chip_bay = (0, s') \<and>
     dev9GetEEPROM s' = (0, [0x0400, 0xABCD, 0x1234, 0xB301])"
proof (rule eeprom_round_trip)
  show "eeprom_bus (chip_bus [0x0400, 0xABCD, 0x1234, 0xB301]) (\<lambda>e. e) [0x0400, 0xABCD, 0x1234, 0xB301]"
    by (simp add: eeprom_bus_def chip_bus_def)
qed (simp_all add: chip_bay_def word_sless_alt)

section \<open>A busy disk\<close>

text \<open>The polls of a busy disk take 31.111 seconds in all.\<close>

lemma busy_time: "length busy_delays = 80 \<and> sum_list busy_delays = 31111000"
  by (simp add: busy_delays_def sum_list_replicate)

definition stays_busy :: "'h bus \<Rightarrow> bool" where
  "stays_busy bus \<longleftrightarrow> (\<forall>h. fst (rd_reg bus r_control h) AND 0x88 \<noteq> 0)"

text \<open>What polling does to the hardware: reads of one register and waits.\<close>

definition polled :: "'h bus \<Rightarrow> nat list \<Rightarrow> 'h \<Rightarrow> 'h" where
  "polled bus ds h = fold (\<lambda>d h. let h1 = snd (rd_reg bus r_control h) in if d = 0 then h1 else pass_time bus d h1) ds h"

lemma wait_busy_polls:
  assumes "stays_busy bus"
  shows "wait_busy bus 0x88 ds s = (ATA_RES_ERR_TIMEOUT, s\<lparr>hw := polled bus ds (hw s)\<rparr>)"
proof (induction ds arbitrary: s)
  case Nil
  then show ?case by (simp add: polled_def)
next
  case (Cons d ds)
  have "fst (reg_rd bus r_control s) AND 0x88 \<noteq> 0" using assms by (simp add: stays_busy_def reg_rd_def split_def Let_def)
  then show ?case
    using Cons by (simp add: split_def Let_def polled_def reg_rd_def DelayThread_dev9_def)
qed

text \<open>
  C25. A disk that stays busy is given up on: every access returns \<open>-502\<close>, after 80 polls that
  take 31.111 seconds, no register has been written, so no command was issued, and memory is as it was.
\<close>

theorem busy_disk_refused:
  assumes "stays_busy bus" and "n \<noteq> 0" and "vmc \<longrightarrow> ata_io_sema s = 1"
  shows "\<exists>s'. ata_device_sector_io vmc l bus device buf lba n dir (s, m) = Some (ATA_RES_ERR_TIMEOUT, s', m) \<and>
    hw s' = polled bus busy_delays (hw s) \<and> (vmc \<longrightarrow> ata_io_sema s' = 1) \<and> sum_list busy_delays = 31111000"
proof -
  have start: "ata_io_start bus buf len t u = (ATA_RES_ERR_TIMEOUT,
      u\<lparr>ata_evflg := 0, hw := polled bus busy_delays (hw u)\<rparr>)" for len t u
    by (simp add: ata_io_start_def ata_device_select_def gen_ata_wait_busy_def wait_busy_polls [OF assms(1)] Let_def
        del: ATA_RES_ERR_TIMEOUT_def) (simp add: ATA_RES_ERR_TIMEOUT_def)
  have tries: "io_tries 3 bus buf len t dir 0 (u, m) = Some (ATA_RES_ERR_TIMEOUT,
      u\<lparr>ata_evflg := 0, hw := polled bus busy_delays (hw u)\<rparr>, m)" for len t u
    using start by (simp add: numeral_3_eq_3)
  have "sector_loop vmc l bus device buf lba n dir (u, m) = Some (ATA_RES_ERR_TIMEOUT,
      u\<lparr>ata_evflg := 0, hw := polled bus busy_delays (hw u)\<rparr>, m)" for u
    using assms(2) by (subst sector_loop.simps) (simp add: Let_def tries)
  then show ?thesis
    using assms(3) busy_time by (cases vmc) (simp_all add: ata_device_sector_io_def)
qed

definition busy_bus :: "unit bus" where
  "busy_bus = \<lparr>rd_reg = (\<lambda>_ h. (0x80, h)), wr_reg = (\<lambda>_ _ h. h), wr_ssbus = (\<lambda>_ _ h. h),
     run_dma = (\<lambda>_ _ _ _ _. None), pass_time = (\<lambda>_ h. h), woken = (\<lambda>_. None), AIF_INTR_PCMCIA = 1,
     QueryBootMode6 = None, foreign_intr = (\<lambda>_ _ h. h), foreign_dma = (\<lambda>_ _ _ h. h),
     foreign_shutdown = (\<lambda>_ h. h)\<rparr>"

definition busy_bay :: "unit dev9" where
  "busy_bay = \<lparr>hw = (), dev9type = 1, using_aif = False, intr_installed = True, dma_lock_sem = 1,
     eeprom_data = replicate 5 0, dev9_intr_cbs = (\<lambda>_. None), dev9_shutdown_cbs = (\<lambda>_. None),
     dev9_predma_cbs = (\<lambda>_. None), dev9_postdma_cbs = (\<lambda>_. None), atad_inited = False, ata_evflg = 0,
     ata_alarm = False, atad_cmd_state = \<lparr>ata_type = 0, ata_buf = 0, blkcount = 0, ata_dir = 0\<rparr>, ata_io_sema = 1\<rparr>"

theorem busy_disk_refused_witness:
  "\<exists>s'. ata_device_sector_io True True busy_bus 0 0x1000 100 8 0 (busy_bay, \<lambda>_. 0) = Some (- 502, s', \<lambda>_. 0)"
  using busy_disk_refused [of busy_bus 8 True busy_bay True 0 "0x1000" 100 0 "\<lambda>_. 0"]
  by (auto simp: stays_busy_def busy_bus_def busy_bay_def)

end
