(* ===== verification/Speed_Test.thy ===== *)
theory Speed_Test
  imports Prelude "HOL-Library.Signed_Division"
begin

text \<open>
  The two programs that measure (iop/main.c, a module for the I/O processor, and ee/main.c, which
  loads the modules and can measure from the main processor). Their work is calls of libraries:
  these are the functions of a record, on a world \<open>'w\<close> that only the libraries look into. The
  switches of ee/config.h are a record, since the code is compiled for each of their settings.
\<close>

section \<open>The libraries\<close>

text \<open>A line on the screen. The numbers of a measurement are KiB, milliseconds, block size, rate.\<close>

datatype message =
  Could_not_find string
| Failed_to_read
| Measured int u32 u32 int
| Could_not_load
| Start_device string u32 u32
| Start_file string
| Ip_config "u8 list" "u8 list" "u8 list"
| Print_LBA int
| Could_not_mount string
| Line string

record 'w machine =
  m_open :: "string \<Rightarrow> 'w \<Rightarrow> int \<times> 'w"
  m_read :: "int \<Rightarrow> u32 \<Rightarrow> u32 \<Rightarrow> 'w \<Rightarrow> u32 \<times> 'w"
  m_close :: "int \<Rightarrow> 'w \<Rightarrow> 'w"
  m_alloc :: "u32 \<Rightarrow> 'w \<Rightarrow> u32 \<times> 'w"
  m_free :: "u32 \<Rightarrow> 'w \<Rightarrow> 'w"
  m_print :: "message \<Rightarrow> 'w \<Rightarrow> 'w"

text \<open>What is used of a block device (bdm.h); the time is in seconds and microseconds.\<close>

record 'w block_dev =
  bdev_name :: string
  bdev_devNr :: u32
  bdev_parNr :: u32
  bdev_sectorSize :: u32
  bdev_read :: "u32 \<Rightarrow> u32 \<Rightarrow> u16 \<Rightarrow> 'w \<Rightarrow> u32 \<times> 'w"

record 'w iop_sys = "'w machine" +
  system_time :: "'w \<Rightarrow> (u32 \<times> u32) \<times> 'w"
  bdm_get_bd :: "nat \<Rightarrow> 'w \<Rightarrow> 'w block_dev option list \<times> 'w"

section \<open>Reading a file\<close>

definition READ_SIZE :: u32 where "READ_SIZE = 1024 * 1024"
definition BLOCK_SIZE_MIN :: u32 where "BLOCK_SIZE_MIN = 512"
definition BLOCK_SIZE_MAX :: u32 where "BLOCK_SIZE_MAX = 32 * 1024"

text \<open>The size left is signed where it is tested and unsigned where it is compared.\<close>

definition read_size :: "u32 \<Rightarrow> u32 \<Rightarrow> u32" where
  "read_size size_left buf_size = (if size_left > buf_size then buf_size else size_left)"

partial_function (option) file_loop ::
  "('w, 'z) machine_scheme \<Rightarrow> int \<Rightarrow> u32 \<Rightarrow> u32 \<Rightarrow> u32 \<Rightarrow> 'w \<Rightarrow> (bool \<times> 'w) option"
where
  "file_loop sys fd buffer buf_size size_left w =
     (if 0 <s size_left
      then let n = read_size size_left buf_size; (got, w1) = m_read sys fd buffer n w
           in if got \<noteq> n then Some (False, w1) else file_loop sys fd buffer buf_size (size_left - n) w1
      else Some (True, w))"

definition elapsed_msec :: "u32 \<times> u32 \<Rightarrow> u32 \<times> u32 \<Rightarrow> u32" where
  "elapsed_msec start stop =
     (let msec = (fst stop - fst start) * 1000
      in if snd stop < snd start then msec - (snd start - snd stop) div 1000
         else msec + (snd stop - snd start) div 1000)"

text \<open>Dividing by a time of no millisecond traps. A failed read leaves the file and the buffer.\<close>

definition read_test :: "'w iop_sys \<Rightarrow> string \<Rightarrow> u32 \<Rightarrow> u32 \<Rightarrow> 'w \<Rightarrow> 'w option" where
  "read_test sys filename buf_size max_size w =
     (let (fd, w1) = m_open sys filename w
      in if fd \<le> 0 then Some (m_print sys (Could_not_find filename) w1)
         else let (buffer, w2) = m_alloc sys buf_size w1; (start, w3) = system_time sys w2
           in Option.bind (file_loop sys fd buffer buf_size max_size w3) (\<lambda>(ok, w4).
                if \<not> ok then Some (m_print sys Failed_to_read w4)
                else let (stop, w5) = system_time sys w4; msec = elapsed_msec start stop
                  in if msec = 0 then None
                     else Some (m_close sys fd (m_free sys buffer (m_print sys
                       (Measured (sint max_size sdiv 1024) msec buf_size (sint (max_size div msec))) w5)))))"

section \<open>Reading a block device\<close>

partial_function (option) bd_loop ::
  "'w block_dev \<Rightarrow> u32 \<Rightarrow> u32 \<Rightarrow> u32 \<Rightarrow> u32 \<Rightarrow> u32 \<Rightarrow> 'w \<Rightarrow> (u32 \<times> 'w) option"
where
  "bd_loop bd buffer sector_count sz sector fd_size w =
     (if bdev_sectorSize bd = 0 then None
      else if sector < sz div bdev_sectorSize bd
      then let (r, w1) = bdev_read bd sector buffer (ucast sector_count) w
           in bd_loop bd buffer sector_count sz (sector + sector_count) (fd_size + r * bdev_sectorSize bd) w1
      else Some (fd_size, w))"

definition read_test_bd :: "'w iop_sys \<Rightarrow> 'w block_dev \<Rightarrow> u32 \<Rightarrow> u32 \<Rightarrow> 'w \<Rightarrow> 'w option" where
  "read_test_bd sys bd sector_count sz w =
     (let (buffer, w1) = m_alloc sys (bdev_sectorSize bd * sector_count) w; (start, w2) = system_time sys w1
      in Option.bind (bd_loop bd buffer sector_count sz 0 0 w2) (\<lambda>(fd_size, w3).
           let (stop, w4) = system_time sys w3; msec = elapsed_msec start stop
           in if msec = 0 then None
              else Some (m_free sys buffer (m_print sys (Measured (sint fd_size sdiv 1024) msec
                (bdev_sectorSize bd * sector_count) (sint (fd_size div msec))) w4))))"

section \<open>The module\<close>

record config =
  LOAD_BDM :: bool
  LOAD_BDM_CDVD :: bool
  LOAD_BD_USB :: bool
  LOAD_BD_MC2SD :: bool
  LOAD_BD_IEEE :: bool
  LOAD_BD_SMB :: bool
  LOAD_FS_VFAT :: bool
  LOAD_FS_EXT2 :: bool
  LOAD_PFS :: bool
  LOAD_HOST :: bool
  TEST_ON_EE :: bool
  TEST_ON_IOP :: bool

definition MASS_FILE_NAME :: string where "MASS_FILE_NAME = ''mass:DVD/SLES_549.45.DragonBall Z Budokai Tenkaichi 3.iso''"
definition SMB_FILE_NAME :: string where "SMB_FILE_NAME = ''smb0:DVD/SLES_549.45.DragonBall Z Budokai Tenkaichi 3.iso''"
definition CDVD_FILE_NAME :: string where "CDVD_FILE_NAME = ''cdrom:DATA/PZS3EU1.AFS''"
definition HOST_FILE_NAME :: string where "HOST_FILE_NAME = ''host:zero.bin''"
definition PFS_FILE_NAME :: string where "PFS_FILE_NAME = ''pfs0:zero.bin''"

text \<open>The switches as ee/config.h sets them.\<close>

definition shipped_config :: config where
  "shipped_config = \<lparr>LOAD_BDM = True, LOAD_BDM_CDVD = False, LOAD_BD_USB = False, LOAD_BD_MC2SD = False,
     LOAD_BD_IEEE = False, LOAD_BD_SMB = False, LOAD_FS_VFAT = False, LOAD_FS_EXT2 = False, LOAD_PFS = False,
     LOAD_HOST = False, TEST_ON_EE = False, TEST_ON_IOP = True\<rparr>"

text \<open>A loop whose counter doubles, up to a bound.\<close>

partial_function (option) doubling :: "(u32 \<Rightarrow> 'w \<Rightarrow> 'w option) \<Rightarrow> u32 \<Rightarrow> u32 \<Rightarrow> 'w \<Rightarrow> 'w option" where
  "doubling f limit b w = (if b \<le> limit then Option.bind (f b w) (doubling f limit (b * 2)) else Some w)"

text \<open>The tests of the files a configuration has; \<open>test\<close> measures one file with one block size.\<close>

definition test_file :: "('w, 'z) machine_scheme \<Rightarrow> (string \<Rightarrow> u32 \<Rightarrow> u32 \<Rightarrow> 'w \<Rightarrow> 'w option) \<Rightarrow> u32 \<Rightarrow> string \<Rightarrow> 'w \<Rightarrow> 'w option"
where
  "test_file sys test first name w =
     doubling (\<lambda>buf_size. test name buf_size READ_SIZE) BLOCK_SIZE_MAX first (m_print sys (Start_file name) w)"

definition files_of :: "config \<Rightarrow> (string \<times> u32) list" where
  "files_of cfg =
     (if LOAD_BDM cfg then [(MASS_FILE_NAME, BLOCK_SIZE_MIN)] else []) @
     (if LOAD_BDM_CDVD cfg then [(CDVD_FILE_NAME, BLOCK_SIZE_MIN)] else []) @
     (if LOAD_BD_SMB cfg then [(SMB_FILE_NAME, BLOCK_SIZE_MIN)] else []) @
     (if LOAD_PFS cfg then [(PFS_FILE_NAME, BLOCK_SIZE_MIN)] else []) @
     (if LOAD_HOST cfg then [(HOST_FILE_NAME, if BLOCK_SIZE_MIN > 2048 then BLOCK_SIZE_MIN else 2048)] else [])"

primrec test_files ::
  "('w, 'z) machine_scheme \<Rightarrow> (string \<Rightarrow> u32 \<Rightarrow> u32 \<Rightarrow> 'w \<Rightarrow> 'w option) \<Rightarrow> (string \<times> u32) list \<Rightarrow> 'w \<Rightarrow> 'w option"
where
  "test_files sys test [] w = Some w"
| "test_files sys test (f # fs) w = Option.bind (test_file sys test (snd f) (fst f) w) (test_files sys test fs)"

definition test_device :: "'w iop_sys \<Rightarrow> 'w block_dev option \<Rightarrow> 'w \<Rightarrow> 'w option" where
  "test_device sys d w = (case d of
     None \<Rightarrow> Some w
   | Some bd \<Rightarrow>
       if bdev_parNr bd \<noteq> 0 then Some w
       else doubling (\<lambda>n. read_test_bd sys bd n READ_SIZE) (BLOCK_SIZE_MAX div 512) (BLOCK_SIZE_MIN div 512)
              (m_print sys (Start_device (bdev_name bd) (bdev_devNr bd) (bdev_parNr bd)) w))"

primrec test_devices :: "'w iop_sys \<Rightarrow> 'w block_dev option list \<Rightarrow> 'w \<Rightarrow> 'w option" where
  "test_devices sys [] w = Some w"
| "test_devices sys (d # ds) w = Option.bind (test_device sys d w) (test_devices sys ds)"

definition rw_speed_start :: "config \<Rightarrow> 'w iop_sys \<Rightarrow> 'w \<Rightarrow> (int \<times> 'w) option" where
  "rw_speed_start cfg sys w =
     (let w1 = m_print sys (Line ''-------------------------'') (m_print sys (Line ''IOP Read/Write speed test'') w)
      in Option.bind (if LOAD_BDM cfg then let (ds, w2) = bdm_get_bd sys 10 w1 in test_devices sys (take 10 ds) w2 else Some w1)
           (\<lambda>w3. map_option (\<lambda>w4. (1, w4)) (test_files sys (read_test sys) (files_of cfg) w3)))"

section \<open>The main program\<close>

text \<open>Calls of the main processor's libraries. \<open>IRX\<close> loads a module that is part of the program.\<close>

datatype ee_call =
  Init_scr | SifInitRpc | SifIopReset | SifIopSync | SifLoadFileInit | SifInitIopHeap | Sbv_patch_enable_lmb | SifExitRpc
| IRX string
| Ps2ip_init
| Ps2ip_setconfig string "u8 list" "u8 list" "u8 list"
| Delay nat
| Smb_logon string u16 string
| Smb_echo string
| Smb_openshare string
| FileXioInit
| FileXioMount string string
| FileXioOpen string
| Ioctl_get_LBA int string
| FileXioClose int
| CdInit
| CdReadDVDV u32 u32 u32
| CdSync int

record 'w ee_sys = "'w machine" +
  ee_answer :: "ee_call \<Rightarrow> 'w \<Rightarrow> int \<times> 'w"
  ps2ip_getconfig :: "string \<Rightarrow> 'w \<Rightarrow> (u32 \<times> u32 \<times> u32) option \<times> 'w"
  ee_clock :: "'w \<Rightarrow> int \<times> 'w"

definition ee_do :: "'w ee_sys \<Rightarrow> ee_call \<Rightarrow> 'w \<Rightarrow> 'w" where
  "ee_do sys c w = snd (ee_answer sys c w)"

definition CLOCKS_PER_MSEC :: int where "CLOCKS_PER_MSEC = 147456 div 256"

text \<open>\<open>read_test\<close> of the main processor: files are streams, time is in ticks of its clock, taken not to
  wrap within a test, and the speed is computed with signed numbers.\<close>

definition read_test_ee :: "'w ee_sys \<Rightarrow> string \<Rightarrow> u32 \<Rightarrow> u32 \<Rightarrow> 'w \<Rightarrow> 'w option" where
  "read_test_ee sys filename buf_size max_size w =
     (let (fp, w1) = m_open sys filename w
      in if fp = 0 then Some (m_print sys (Could_not_find filename) w1)
         else let (buffer, w2) = m_alloc sys buf_size w1; (start, w3) = ee_clock sys w2
           in Option.bind (file_loop sys fp buffer buf_size max_size w3) (\<lambda>(ok, w4).
                if \<not> ok then Some (m_print sys Failed_to_read w4)
                else let (stop, w5) = ee_clock sys w4; msec = word_of_int ((stop - start) sdiv CLOCKS_PER_MSEC) :: u32
                  in if msec = 0 then None
                     else Some (m_close sys fp (m_free sys buffer (m_print sys
                       (Measured (sint max_size sdiv 1024) msec buf_size (sint max_size sdiv sint msec)) w5)))))"

definition IRX_LOAD :: "'w ee_sys \<Rightarrow> string \<Rightarrow> 'w \<Rightarrow> 'w" where
  "IRX_LOAD sys module w = (let (r, w1) = ee_answer sys (IRX module) w in if r < 0 then m_print sys Could_not_load w1 else w1)"

definition load_all :: "'w ee_sys \<Rightarrow> string list \<Rightarrow> 'w \<Rightarrow> 'w" where
  "load_all sys modules w = fold (IRX_LOAD sys) modules w"

definition ethPrintIPConfig :: "'w ee_sys \<Rightarrow> 'w \<Rightarrow> 'w" where
  "ethPrintIPConfig sys w = (case ps2ip_getconfig sys ''sm0'' w of
     (Some (ipaddr, netmask, gw), w1) \<Rightarrow> m_print sys (Ip_config (bytes_u32 ipaddr) (bytes_u32 netmask) (bytes_u32 gw)) w1
   | (None, w1) \<Rightarrow> m_print sys (Line ''Unable to read IP address.'') w1)"

text \<open>Waiting for the other processor: a call repeated until it answers something else than 0.\<close>

partial_function (option) call_until :: "'w ee_sys \<Rightarrow> ee_call \<Rightarrow> 'w \<Rightarrow> 'w option" where
  "call_until sys c w = (let (r, w1) = ee_answer sys c w in if r \<noteq> 0 then Some w1 else call_until sys c w1)"

definition smb_login :: "'w ee_sys \<Rightarrow> 'w \<Rightarrow> 'w" where
  "smb_login sys w =
     (let say = (\<lambda>str. m_print sys (Line str)); (result, w1) = ee_answer sys (Smb_logon ''192.168.1.198'' 445 ''guest'') w
      in if result < 0 then say ''SMB login failed'' w1
         else let (r, w2) = ee_answer sys (Smb_echo ''ALIVE ECHO TEST'') (say ''SMB login OK!'' w1)
           in if r < 0 then say ''SMB echo failed'' w2
              else let (r', w3) = ee_answer sys (Smb_openshare ''PS2SMB'') (say ''SMB echo OK!'' w2)
                in if r' \<ge> 0 then say ''SMB share connected!'' w3 else w3)"

text \<open>A direct disc read, which the program does not call.\<close>

definition test_cdvd :: "'w ee_sys \<Rightarrow> 'w \<Rightarrow> 'w" where
  "test_cdvd sys w =
     (let check = (\<lambda>ok str (r, w). if r = ok then w else m_print sys (Line str) w);
          w1 = check 1 ''ERROR: sceCdInit(SCECdINIT)'' (ee_answer sys CdInit (m_print sys (Line ''Start reading CDVD'') w));
          (buffer, w2) = m_alloc sys (512 * 1024) w1;
          w3 = check 1 ''ERROR: sceCdReadDVDV'' (ee_answer sys (CdReadDVDV 0 1 buffer) w2);
          w4 = check 0 ''ERROR: sceCdSync'' (ee_answer sys (CdSync 0) w3)
      in m_free sys buffer w4)"

text \<open>The modules of a configuration, between the calls that need the earlier ones.\<close>

definition net_modules :: "string list" where
  "net_modules = [''ps2dev9'', ''netman'', ''bdm'', ''smap'', ''ps2ip_nm'', ''ps2ips'']"

definition driver_modules :: "config \<Rightarrow> string list" where
  "driver_modules cfg =
     (if LOAD_BDM_CDVD cfg then [''cdvdman'', ''cdvdfsv''] else []) @
     (if LOAD_BD_USB cfg then [''usbd'', ''usbmass_bd''] else []) @
     (if LOAD_BD_MC2SD cfg then [''sio2sd_bd''] else []) @
     (if LOAD_BD_IEEE cfg then [''iLinkman'', ''IEEE1394_bd''] else []) @
     (if LOAD_FS_VFAT cfg then [''bdmfs_vfat''] else []) @
     (if LOAD_FS_EXT2 cfg then [''bdmfs_ext2''] else [])"

definition hdd_modules :: "string list" where
  "hdd_modules = [''ps2atad'', ''ps2hdd'', ''ps2fs'']"

definition ENOENT :: int where "ENOENT = 2"

definition mount_pfs :: "'w ee_sys \<Rightarrow> 'w \<Rightarrow> 'w" where
  "mount_pfs sys w =
     (let (r, w1) = ee_answer sys (FileXioMount ''pfs0:'' ''hdd0:__system'') (ee_do sys FileXioInit (load_all sys hdd_modules w))
      in if r = - ENOENT then m_print sys (Could_not_mount ''hdd0:__system'') w1 else w1)"

definition print_LBA :: "'w ee_sys \<Rightarrow> 'w \<Rightarrow> 'w" where
  "print_LBA sys w =
     (let (fd, w1) = ee_answer sys (FileXioOpen MASS_FILE_NAME) w; (LBA, w2) = ee_answer sys (Ioctl_get_LBA fd MASS_FILE_NAME) w1
      in ee_do sys (FileXioClose fd) (m_print sys (Print_LBA LBA) w2))"

definition reboot_iop :: "'w ee_sys \<Rightarrow> 'w \<Rightarrow> 'w option" where
  "reboot_iop sys w =
     Option.bind (call_until sys SifIopReset
         (ee_do sys SifInitRpc (m_print sys (Line ''Reloading all IOP modules...'') (ee_do sys Init_scr w))))
       (\<lambda>w1. map_option (\<lambda>w2. fold (ee_do sys) [SifInitRpc, SifLoadFileInit, SifInitIopHeap, Sbv_patch_enable_lmb] w2)
         (call_until sys SifIopSync w1))"

definition load_modules :: "config \<Rightarrow> 'w ee_sys \<Rightarrow> 'w \<Rightarrow> 'w" where
  "load_modules cfg sys w =
     (let w1 = fold (ee_do sys) [Ps2ip_init, Ps2ip_setconfig ''sm0'' [192, 168, 1, 10] [255, 255, 255, 0] [192, 168, 1, 254]]
            (load_all sys net_modules w);
          w2 = ethPrintIPConfig sys (m_print sys (Line ''IOP ready!'') (IRX_LOAD sys ''udptty'' w1));
          w3 = load_all sys [''iomanX'', ''fileXio''] (ee_do sys (Delay 25) w2);
          w4 = (if LOAD_BD_SMB cfg then smb_login sys (IRX_LOAD sys ''smbman'' w3) else w3);
          w5 = ee_do sys (Delay 5) (load_all sys (driver_modules cfg) w4)
      in if LOAD_PFS cfg then mount_pfs sys w5 else w5)"

definition ee_tests :: "config \<Rightarrow> 'w ee_sys \<Rightarrow> 'w \<Rightarrow> 'w option" where
  "ee_tests cfg sys w =
     (if \<not> TEST_ON_EE cfg then Some w
      else let w1 = m_print sys (Line ''------------------------'') (m_print sys (Line ''EE Read/Write speed test'') w)
        in test_files sys (read_test_ee sys) (files_of cfg) (if LOAD_BDM cfg then print_LBA sys w1 else w1))"

definition ee_main :: "config \<Rightarrow> 'w ee_sys \<Rightarrow> 'w \<Rightarrow> (int \<times> 'w) option" where
  "ee_main cfg sys w =
     Option.bind (reboot_iop sys w) (\<lambda>w1. map_option (\<lambda>w2.
         let w3 = (if TEST_ON_IOP cfg then IRX_LOAD sys ''rw_speed'' w2 else w2)
         in (0, ee_do sys SifExitRpc (ee_do sys (Delay 5) (m_print sys (Line ''Done, exit in 5'') w3))))
       (ee_tests cfg sys (load_modules cfg sys w1)))"

section \<open>What the measurements do\<close>

text \<open>The block sizes of a test are powers of two; the loop ends because the last is below the bound.\<close>

primrec run_sizes :: "(u32 \<Rightarrow> 'w \<Rightarrow> 'w option) \<Rightarrow> u32 list \<Rightarrow> 'w \<Rightarrow> 'w option" where
  "run_sizes f [] w = Some w"
| "run_sizes f (b # bs) w = Option.bind (f b w) (run_sizes f bs)"

lemma bind_more: "(\<And>x. m = Some x \<Longrightarrow> f x = g x) \<Longrightarrow> Option.bind m f = Option.bind m g"
  by (cases m) simp_all

lemma file_sizes:
  "test_file sys test BLOCK_SIZE_MIN name w =
     run_sizes (\<lambda>b. test name b READ_SIZE) [512, 1024, 2048, 4096, 8192, 16384, 32768] (m_print sys (Start_file name) w)"
  by (simp add: test_file_def BLOCK_SIZE_MIN_def BLOCK_SIZE_MAX_def doubling.simps fun_eq_iff cong: bind_more)

text \<open>The reads of a file of \<open>n\<close> bytes in blocks of \<open>b\<close>: whole blocks and the rest.\<close>

definition blocks :: "nat \<Rightarrow> nat \<Rightarrow> nat list" where
  "blocks b n = replicate (n div b) b @ (if n mod b = 0 then [] else [n mod b])"

primrec read_all :: "('w, 'z) machine_scheme \<Rightarrow> int \<Rightarrow> u32 \<Rightarrow> nat list \<Rightarrow> 'w \<Rightarrow> bool \<times> 'w" where
  "read_all sys fd buffer [] w = (True, w)"
| "read_all sys fd buffer (c # cs) w =
     (let (got, w1) = m_read sys fd buffer (of_nat c) w
      in if got \<noteq> of_nat c then (False, w1) else read_all sys fd buffer cs w1)"

lemma blocks_step: "0 < b \<Longrightarrow> b \<le> n \<Longrightarrow> blocks b n = b # blocks b (n - b)"
  by (simp add: blocks_def le_div_geq le_mod_geq)

lemma blocks_last: "0 < n \<Longrightarrow> n < b \<Longrightarrow> blocks b n = [n]"
  by (simp add: blocks_def)

lemma blocks_0 [simp]: "blocks b 0 = []"
  by (simp add: blocks_def)

lemma sum_blocks: "sum_list (blocks b n) = n"
  using div_mult_mod_eq [of n b] by (auto simp: blocks_def sum_list_replicate)

lemma blocks_bound: "0 < b \<Longrightarrow> c \<in> set (blocks b n) \<Longrightarrow> 0 < c \<and> c \<le> b"
  by (auto simp: blocks_def less_imp_le split: if_splits)

lemma file_loop_blocks:
  assumes "0 < buf_size"
  shows "unat sz < 2 ^ 31 \<Longrightarrow>
    file_loop sys fd buffer buf_size sz w = Some (read_all sys fd buffer (blocks (unat buf_size) (unat sz)) w)"
proof (induction "unat sz" arbitrary: sz w rule: less_induct)
  case less
  have b: "0 < unat buf_size" using assms by (simp add: word_less_nat_alt)
  show ?case
  proof (cases "sz = 0")
    case True
    then show ?thesis by (subst file_loop.simps) simp
  next
    case False
    then have pos: "0 < unat sz" by (simp add: unat_gt_0)
    then have more: "0 <s sz" using sless_small [of 0 sz] less.prems by simp
    let ?n = "read_size sz buf_size"
    have n: "unat ?n = min (unat sz) (unat buf_size)" by (simp add: read_size_def word_less_nat_alt)
    have rest: "unat (sz - ?n) = unat sz - unat ?n" by (rule unat_sub_le) (simp add: word_le_nat_alt n)
    have ih: "file_loop sys fd buffer buf_size (sz - ?n) w1
        = Some (read_all sys fd buffer (blocks (unat buf_size) (unat sz - unat ?n)) w1)" for w1
      using less.hyps [of "sz - ?n" w1] rest n b pos less.prems by simp
    have "blocks (unat buf_size) (unat sz) = unat ?n # blocks (unat buf_size) (unat sz - unat ?n)"
      using b pos n by (cases "unat buf_size \<le> unat sz") (simp_all add: blocks_step blocks_last)
    moreover obtain got w1 where r: "m_read sys fd buffer ?n w = (got, w1)" by fastforce
    have "file_loop sys fd buffer buf_size sz w
        = (if got \<noteq> ?n then Some (False, w1) else file_loop sys fd buffer buf_size (sz - ?n) w1)"
      using more r by (subst file_loop.simps) (simp add: Let_def)
    ultimately show ?thesis unfolding ih by (simp add: r)
  qed
qed

text \<open>
  C30. Reading a file for a measurement ends for every size below 2 GiB, and the library is asked
  for exactly that many bytes: for whole blocks and one shorter read at the end, none of them
  longer than the buffer, until one is not answered in full.
\<close>

theorem reads_whole_file:
  assumes "0 < buf_size" and "unat sz < 2 ^ 31"
  shows "\<exists>cs. file_loop sys fd buffer buf_size sz w = Some (read_all sys fd buffer cs w) \<and> sum_list cs = unat sz \<and>
    (\<forall>c \<in> set cs. 0 < c \<and> c \<le> unat buf_size)"
proof -
  have "0 < unat buf_size" using assms(1) by (simp add: word_less_nat_alt)
  then show ?thesis
    using file_loop_blocks [OF assms, of sys fd buffer w] blocks_bound [of "unat buf_size" _ "unat sz"]
    by (intro exI [of _ "blocks (unat buf_size) (unat sz)"] conjI ballI) (simp_all add: sum_blocks)
qed

text \<open>A file of 1300 bytes, read by a library that counts.\<close>

definition demo_machine :: "nat list machine" where
  "demo_machine = \<lparr>m_open = (\<lambda>name w. (3, w)), m_read = (\<lambda>fd buffer n w. (n, w @ [unat n])), m_close = (\<lambda>fd w. w),
     m_alloc = (\<lambda>n w. (0x8000, w)), m_free = (\<lambda>a w. w), m_print = (\<lambda>msg w. w)\<rparr>"

theorem reads_whole_file_witness:
  "\<exists>cs. file_loop demo_machine 3 0x8000 512 1300 [] = Some (read_all demo_machine 3 0x8000 cs []) \<and> sum_list cs = 1300"
  using reads_whole_file [of 512 1300 demo_machine 3 "0x8000" "[]"] by auto

lemma split_time:
  assumes "x + y = k * (1000 :: nat)"
  shows "k - x div 1000 - y div 1000 \<le> 1 \<and> y div 1000 \<le> k - x div 1000"
proof -
  have "x div 1000 + y div 1000 \<le> k" "k \<le> x div 1000 + y div 1000 + 1" using assms by linarith+
  then show ?thesis by linarith
qed

text \<open>
  C31. The time of a measurement is the elapsed time in whole milliseconds, or one more, as long as
  the test takes less than 49 days.
\<close>

theorem elapsed_close:
  assumes "unat u0 < 1000000" and "unat u1 < 1000000" and "unat s1 - unat s0 < 4294966"
    and "t0 = unat s0 * 1000000 + unat u0" and "t1 = unat s1 * 1000000 + unat u1" and "t0 \<le> t1"
  shows "unat (elapsed_msec (s0, u0) (s1, u1)) - (t1 - t0) div 1000 \<le> 1 \<and>
    (t1 - t0) div 1000 \<le> unat (elapsed_msec (s0, u0) (s1, u1))"
proof -
  have s: "unat s0 \<le> unat s1" using assms by linarith
  then have d: "unat (s1 - s0) = unat s1 - unat s0" by (intro unat_sub_le) (simp add: word_le_nat_alt)
  let ?d = "unat s1 - unat s0"
  have m: "unat ((s1 - s0) * 1000) = ?d * 1000" using d assms(3) by (subst unat_mult_le) simp_all
  show ?thesis
  proof (cases "u1 < u0")
    case True
    then have u: "unat u1 < unat u0" by (simp add: word_less_nat_alt)
    then have x: "unat ((u0 - u1) div 1000) = (unat u0 - unat u1) div 1000"
      by (simp add: unat_div unat_sub_le word_le_nat_alt)
    have pos: "0 < ?d" using assms(4-6) u s by (cases ?d) auto
    have small: "(unat u0 - unat u1) div 1000 \<le> ?d * 1000" using pos assms(1) by linarith
    have "unat (elapsed_msec (s0, u0) (s1, u1)) = ?d * 1000 - (unat u0 - unat u1) div 1000"
      using True m x small by (simp add: elapsed_msec_def Let_def unat_sub_le word_le_nat_alt)
    moreover have "(unat u0 - unat u1) + (t1 - t0) = ?d * 1000 * 1000"
      using assms(4-6) u s by (simp add: diff_mult_distrib)
    ultimately show ?thesis using split_time [of "unat u0 - unat u1" "t1 - t0" "?d * 1000"] by simp
  next
    case False
    then have u: "unat u0 \<le> unat u1" by (simp add: word_less_nat_alt)
    then have x: "unat ((u1 - u0) div 1000) = (unat u1 - unat u0) div 1000"
      by (simp add: unat_div unat_sub_le word_le_nat_alt)
    have "unat ((s1 - s0) * 1000 + (u1 - u0) div 1000) = ?d * 1000 + (unat u1 - unat u0) div 1000"
      using m x assms(2,3) by (subst unat_add_le) simp_all
    then have "unat (elapsed_msec (s0, u0) (s1, u1)) = ?d * 1000 + (unat u1 - unat u0) div 1000"
      using False by (simp add: elapsed_msec_def Let_def)
    moreover have "t1 - t0 = (unat u1 - unat u0) + ?d * 1000 * 1000" using assms(4,5) u s by (simp add: diff_mult_distrib)
    then have "(t1 - t0) div 1000 = ?d * 1000 + (unat u1 - unat u0) div 1000" by (simp only: div_mult_self1)
    ultimately show ?thesis by simp
  qed
qed

theorem elapsed_close_witness:
  "unat (elapsed_msec (10, 999999) (12, 1)) - 1000 \<le> 1 \<and> 1000 \<le> unat (elapsed_msec (10, 999999) (12, 1))"
  using elapsed_close [of 999999 1 12 10 10999999 12000001] by simp

end
