(* ===== verification/Spec2Isabelle.thy ===== *)
theory Spec2Isabelle
  imports Boot_Bdm Boot_Hdd Smb_Start Demo_Drivers Server_Bdm Dev9_Laws Hdpro_Laws Speed_Test
begin

text \<open>
  A model of the disc emulation of ps2-rw-speed: the modules that answer the disc calls of the
  console's I/O processor from an image on a block device, a USB disk, a hard disk or a server.

  The program. \<open>cdvdman\<close> is one module linked from common code (cdvdman.c, streaming.c,
  ioplib_util.c) and one driver (device-bdm.c; device-usb.c with mass_driver.c; device-hdd.c with
  dev9.c and atad.c or hdpro_atad.c; device-smb.c with smb.c). A driver offers \<open>DeviceReadSectors\<close>;
  the common code adds the drive's state, the reading thread, streaming, the file system and the
  control calls. \<open>cdvdfsv\<close> is the module that takes these calls from the main processor (EE).
  The program on the EE loads these modules and measures the speed of reads, there or in the
  module \<open>rw_speed\<close>.

  The theories, each over the ones named before it:
  \<^item> \<open>Prelude\<close>: words, memory as a function of addresses, runs of sectors (\<open>sector_run\<close>), copies.
  \<^item> \<open>Cdvd_State\<close>, \<open>Disc_Read\<close>, \<open>Read_Request\<close>: the state \<open>cdvdman\<close> (\<open>cdvdman_stat\<close> and the static
    variables of cdvdman.c), \<open>cdvdman_read_sectors\<close>, \<open>cdvdman_read\<close>, the lock \<open>sync_flag\<close> and
    \<open>cdvdman_AsyncRead\<close>. The locale \<open>disc_device\<close> states what a driver promises: an
    invariant under which a read stores the sectors of an image.
  \<^item> \<open>Stream_Ring\<close>, \<open>Stream_Queue\<close>, \<open>Read_Thread\<close>, \<open>Stream_Api\<close>: streaming.c. The ring of banks, its
    refinement to a queue (locale \<open>sector_queue\<close>, interpreted on the ring), the reading thread
    and \<open>sceCdSync\<close>, and the \<open>sceCdSt\<close> calls with the histories of their interleavings.
  \<^item> \<open>Scmd\<close>, \<open>Control\<close>, \<open>Devctl\<close>: S commands over the registers of the mechacon, the status calls,
    start-up, and the device's control operations.
  \<^item> \<open>Fs_Files\<close>, \<open>Fs_Search\<close>, \<open>Fs_Open\<close>: file handles and file reads, the ISO9660 directory search, and
    what it finds: \<open>resolves\<close> says where the components of a path lead in the directories of a
    disc (their chains of entries as the code can walk them, \<open>dir_at\<close>), \<open>locatefile_resolves\<close> and its
    successors that \<open>cdvdman_locatefile\<close>, \<open>cdvdman_findfile\<close> and \<open>cdrom_open\<close> find just that.
  \<^item> \<open>Fsv\<close>, \<open>Fsv_Read\<close>, \<open>Fsv_Delivers\<close>, \<open>Server_Bdm\<close>: cdvdfsv.c. The dispatchers and their commands,
    the reads for the EE with the packet for the unaligned edges, and what these reads deliver.
  \<^item> \<open>Dev9\<close>, \<open>Atad\<close>, \<open>Atad_Delivers\<close>, \<open>Dev9_Laws\<close>: the expansion bay (dev9.c) and the disk driver
    (atad.c), with the protocol of the task file (\<open>ata_drive\<close>) under which an access returns.
  \<^item> \<open>Hdpro\<close>, \<open>Hdpro_Delivers\<close>, \<open>Hdpro_Laws\<close>: the same interface over the HD Pro kit (hdpro_atad.c),
    whose registers are reached by byte sequences on one port; its protocol is \<open>kit_disk\<close>.
  \<^item> \<open>Smb\<close>, \<open>Smb_Files\<close>, \<open>Smb_Delivers\<close>, \<open>Smb_Laws\<close>, \<open>Smb_Start\<close>: smb.c and device-smb.c. Packets with
    their bytes, the session, files and sector reads; the server as it sees the requests
    (\<open>smb_server\<close>; \<open>smb_door\<close> for the login, the share and the files), and the start-up against it.
  \<^item> \<open>Device_Bdm\<close>; \<open>Usb_Bulk\<close>, \<open>Usb_Mass\<close>, \<open>Device_Usb\<close>; \<open>Device_Hdd\<close>, \<open>Hdd_Atad\<close>: the drivers. Each
    ends in an interpretation of \<open>disc_device\<close> on its own \<open>DeviceReadSectors\<close>, so that every theorem
    proved once about reads, files and streams holds of each driver. \<open>Device_Usb\<close> has a locale
    of its own, \<open>part_reader\<close>, for the loop over the parts of a split image, which the USB driver
    and the SMB client both interpret; \<open>disc_device\<close> is a sublocale. \<open>Device_Hdd\<close> takes any disk
    access that keeps the law \<open>ata_reads\<close>, which atad.c and hdpro_atad.c are shown to keep.
  \<^item> \<open>Modload\<close>: the hooks on the module loader (ioplib_util.c).
  \<^item> \<open>Boot\<close>, \<open>Boot_Bdm\<close>, \<open>Boot_Hdd\<close>: \<open>_start\<close> in its two builds, with and without \<open>SPEED_TESTING\<close>, what it
    leaves set up (\<open>started\<close>), and whole runs from there: over a block device that connects at
    some time, over a hard disk whose partition header names the parts.
  \<^item> \<open>Speed_Test\<close>: the programs that measure, iop/main.c and ee/main.c, for every setting of the
    switches in ee/config.h.
  \<^item> \<open>Instances\<close>, \<open>Demo_Drive\<close>, \<open>Demo_Drivers\<close>: concrete machines for the witnesses.

  Conventions. A C integer is a word of its width; where the code compares signed values the
  model uses \<open>sint\<close> or the signed order. A null pointer is 0. Memory is a total function of
  32-bit addresses. A call that blocks for ever, traps (division by zero), or runs out of the
  bounds of an array returns None, so that a theorem whose conclusion is \<open>Some\<close> says that the
  call returns. Loops are recursive functions with a measure; loops that may not end
  (\<open>sync_wait\<close>, \<open>wait_data\<close>, the register polls, the retries of the kit, the loops that wait for the
  network) are \<open>partial_function\<close>s, and the theorems prove that they return, or that they do not.
  Threads are explicit: a wait lets the reading thread take its turn.

  Parameters. Code of other modules and hardware is an argument: the block device (bd.h), the USB
  stack (usbd), the registers of the bay, the port of the kit, the TCP stack (ps2ip), the
  registers of the mechacon, the functions of the module loader and the libraries of the measuring
  programs. What the code relies on is a
  named predicate (\<open>bd_reads\<close>, \<open>bot_disc\<close>, \<open>ata_drive\<close>, \<open>kit_disk\<close>, \<open>smb_server\<close>, \<open>smb_door\<close>,
  \<open>mechacon\<close>, \<open>eeprom_bus\<close>), which a concrete instance satisfies in the witnesses.

  What the theorems show. From a start to the data: C1 (the module to the bytes of a file), C7
  (the module to the sectors of a hard disk), C10 (the login to the sectors of a server's files).
  Reads return and deliver the image: C2, C4 to C6, C8, C9, C11, C12, C19; one at a time: C18;
  errors: C37. Streaming: C3, C13, C14, C16, C32, C33. USB: C5, C22, C38, C39. Bay and kit: C20, C24, C25, C35.
  SMB: C21, C23, C34, C36. File system: C15, C28, C40. Control: C17, C29. Module loader: C26, C27.
  Measuring: C30, C31. Several of them describe what the code does where that is not what it means
  to do; each says so.

  Not modelled. The assembly of \<open>mips_memcpy\<close> and \<open>mips_memset\<close> (smsutils.s), of which
  the effect on memory is used; the tables of exports and imports and the Makefiles; the threads
  of cdvdfsv that register its handlers with the RPC library under their numbers and serve them.
\<close>

text \<open>
  C2. A synchronous read (\<open>sceCdRead\<close> followed by \<open>sceCdSync(0)\<close>) through the block-device
  driver: on an idle drive the call always comes back, reports success, and every byte
  outside the bounce buffer is as if the requested sectors of the image had been stored at the
  destination, aligned or not.
\<close>

theorem read_delivers_image:
  assumes "bdm_inv store lba k (dev s)" and "bdm_readable k lsn (unat n)"
    and "read_ready s lsn n buf" and "drive_idle s"
  shows "\<exists>s'. read_and_sync DeviceReadSectors_bdm lsn n buf s = Some (1, s') \<and> read_frame s s' \<and>
      err s' = CDVD_ERR_NO \<and> status s' = CDVD_STAT_PAUSE \<and> drive_idle s' \<and>
      bdm_inv store lba k (dev s') \<and>
      (\<forall>x. \<not> scratch s buf x \<longrightarrow>
        memory s' x = write_bytes buf (sector_run (bdm_disc store lba k) lsn (unat n)) (memory s) x)"
proof -
  obtain s' where "read_and_sync DeviceReadSectors_bdm lsn n buf s = Some (1, s')" "read_frame s s'"
    "bdm_inv store lba k (dev s')" "err s' = CDVD_ERR_NO" "status s' = CDVD_STAT_PAUSE"
    "\<forall>x. \<not> scratch s buf x \<longrightarrow>
        memory s' x = write_bytes buf (sector_run (bdm_disc store lba k) lsn (unat n)) (memory s) x"
    using bdm.read_and_sync_delivers [OF assms] by blast
  moreover from this(2) assms(4) have "drive_idle s'"
    by (simp add: drive_idle_def read_frame_fields)
  ultimately show ?thesis by blast
qed

theorem read_delivers_image_witness:
  "\<exists>s'. read_and_sync DeviceReadSectors_bdm 16 3 0x100001 (demo_state demo_dev) = Some (1, s') \<and>
     (\<forall>x. \<not> in_run 0x20000 4096 x \<longrightarrow> memory s' x
       = write_bytes 0x100001 (sector_run (bdm_disc demo_store 390359 4) 16 3) (\<lambda>_. 0) x)"
proof -
  let ?s = "demo_state demo_dev"
  have "read_ready ?s 16 3 0x100001"
    by (simp add: read_ready_def demo_state_def disjoint_runsI)
  then show ?thesis
    using read_delivers_image [where store = demo_store and lba = 390359 and k = 4 and s = ?s and
        lsn = 16 and n = 3 and buf = "0x100001"] demo_bdm_inv
      demo_idle [of demo_dev]
    by (auto simp: bdm_readable_def scratch_def demo_state_def)
qed

text \<open>
  C3. Streaming delivers the disc in order: after \<open>sceCdStStart\<close>, whatever the
  interleaving of turns of the reading thread and non-blocking reads, the sectors the readers
  got are exactly the sectors from the start position on, none lost, repeated or swapped.
\<close>

theorem stream_in_order:
  assumes "bdm_inv store lba k (dev s)" and "\<not> sync_flag s" and "semas s cdrom_rthread_sema = 0"
    and "ring_configured (SD s)" and "13 \<le> lsn" and "B_of (SD s) * k < 2 ^ 16"
    and "sceCdStStart DeviceReadSectors_bdm lsn s = Some (1, s0)"
    and "stream_hist DeviceReadSectors_bdm s0 out s'"
  shows "out = disc_sectors (bdm_disc store lba k) lsn (length out)"
proof -
  have "stream_inv (bdm_disc store lba k) lsn s0" "dev s0 = dev s" "B_of (SD s0) = B_of (SD s)"
    using StStart_inv [OF assms(2-5), of DeviceReadSectors_bdm "bdm_disc store lba k"] assms(7) by auto
  then show ?thesis
    using bdm.hist_inv [OF assms(8), where store = store and lba = lba and k = k and lsn = lsn] assms(1,6)
    by (simp add: bdm_readable_def)
qed

theorem stream_in_order_witness:
  "\<exists>s0 out s'. sceCdStStart DeviceReadSectors_bdm 16 demo_stream = Some (1, s0) \<and>
     stream_hist DeviceReadSectors_bdm s0 out s' \<and> length out = 1 \<and>
     out = disc_sectors (bdm_disc demo_store 390359 4) 16 1"
proof -
  let ?rd = DeviceReadSectors_bdm and ?disc = "bdm_disc demo_store 390359 4"
  obtain s0 where s0: "sceCdStStart ?rd 16 demo_stream = Some (1, s0)" "stream_inv ?disc 16 s0"
    "dev s0 = demo_dev" "B_of (SD s0) = 2"
    using StStart_inv [OF demo_stream_facts(1,2,4), of 16 ?rd ?disc] demo_stream_facts by auto
  obtain out s' where h: "stream_hist ?rd s0 out s'" "length out = 1"
    using demo_history [OF s0(1)] by blast
  have "out = disc_sectors ?disc 16 (length out)"
    by (rule stream_in_order [OF _ demo_stream_facts(1,2,4) _ _ s0(1) h(1)])
      (simp_all add: demo_bdm_inv demo_stream_facts)
  with s0(1) h show ?thesis by auto
qed

text \<open>
  C4. Reading a file: \<open>cdrom_read\<close> on a free device always returns the number of bytes between
  the position and the end of the file, cut to what was asked for; outside the module's own two
  buffers exactly those bytes of the file, whatever position and size, are at the destination;
  the position has moved by as much; and nothing else of the drive has changed.
\<close>

theorem file_read_slice:
  assumes "bdm_inv store lba k (dev s)" and "semas s cdrom_io_sema = 1"
    and "phase_env (f_privdata f) lsn p buf n s"
    and "n = clip_size (get_fh (f_privdata f) s) sz" and "unat n < 2 ^ 31"
    and "Suc (unat n div 2048) * k < 2 ^ 16"
  shows "\<exists>s'. cdrom_read DeviceReadSectors_bdm f buf sz s = Some (n, s') \<and> bdm_inv store lba k (dev s') \<and>
    file_part (f_privdata f) buf (file_bytes (bdm_disc store lba k) lsn p (unat n)) s s'"
proof (rule bdm.cdrom_read_delivers [OF assms(1-5)])
  show "\<forall>l j. j \<le> Suc (unat n div 2048) \<longrightarrow> bdm_readable k l j"
    using assms(6) mult_le_mono1 [of _ "Suc (unat n div 2048)" k]
    by (auto simp: bdm_readable_def intro: le_less_trans)
qed

text \<open>3000 bytes from byte 100 of a file, to an odd address.\<close>

theorem file_read_slice_witness:
  "\<exists>s'. cdrom_read DeviceReadSectors_bdm demo_f 0x100001 3000 demo_file = Some (3000, s') \<and>
     file_part 0 0x100001 (file_bytes (bdm_disc demo_store 390359 4) 100 100 3000) demo_file s'"
proof -
  have env: "phase_env (f_privdata demo_f) 100 100 0x100001 3000 demo_file"
    using demo_idle [of demo_dev]
    by (simp add: phase_env_def file_ready_def drive_idle_def demo_f_def)
      (simp add: demo_file_def demo_state_def disjoint_runsI get_fh_def)
  show ?thesis
    using file_read_slice [where store = demo_store and lba = 390359 and k = 4, OF _ _ env, of 3000]
      demo_bdm_inv by (auto simp: clip_size_def)
qed

text \<open>
  C6. The same through the USB driver, for an image split in parts: on a device that serves the
  bulk-only transport, with or without read-ahead under way, a read within a part that is waited
  for always comes back, reports success, and stores the sectors of the part.
\<close>

theorem usb_read_delivers:
  assumes "usb_inv usb epO epI store pend lbas (dev s)" and "parts_readable parts lsn (unat n)"
    and "read_ready s lsn n buf" and "drive_idle s"
  shows "\<exists>s'. read_and_sync (DeviceReadSectors_usb parts usb) lsn n buf s = Some (1, s') \<and> read_frame s s' \<and>
      usb_inv usb epO epI store pend lbas (dev s') \<and> err s' = CDVD_ERR_NO \<and>
      (\<forall>x. \<not> scratch s buf x \<longrightarrow>
        memory s' x = write_bytes buf (sector_run (parts_disc parts (usb_part store lbas)) lsn (unat n)) (memory s) x)"
  using usb.image.read_and_sync_delivers [unfolded parts_inside_all, OF assms] unfolding DeviceReadSectors_usb_def by blast

theorem usb_read_delivers_witness:
  "\<exists>s'. read_and_sync (DeviceReadSectors_usb 1 demo_usb) 16 3 0x100000 (demo_state demo_mass) = Some (1, s') \<and>
     memory s' = write_bytes 0x100000 (sector_run (parts_disc 1 (usb_part demo_store [64])) 16 3) (\<lambda>_. 0)"
proof -
  let ?s = "demo_state demo_mass"
  have "read_ready ?s 16 3 0x100000" by (simp add: read_ready_def demo_state_def)
  moreover have "usb_inv demo_usb 2 1 demo_store id [64] (dev ?s)"
    using demo_mass_inv by (simp add: usb_inv_def demo_state_def) (simp add: demo_mass_def)
  moreover have "parts_readable 1 16 (unat (3 :: u32))" by (simp add: parts_readable_def)
  ultimately show ?thesis
    using usb_read_delivers [where usb = demo_usb and epO = 2 and epI = 1 and store = demo_store and
        pend = id and lbas = "[64]" and parts = 1 and s = ?s and lsn = 16 and n = 3 and buf = "0x100000"]
      demo_idle [of demo_mass]
    by (auto simp: scratch_def demo_state_def)
qed



text \<open>
  C9. The same from a hard disk behind the HD Pro kit, whose one register is reached by sequences
  of port accesses: through the kit's driver and the partition table a read comes back and stores
  for each sector the four disk sectors that the table gives it.
\<close>

theorem hdpro_read_delivers:
  assumes "kit_disk port view store" and "hdd_state (hp_idle with_sema view) (lba_limit l) table (dev s)"
    and "hdd_readable table lsn (unat n)" and "read_ready s lsn n buf" and "drive_idle s"
  shows "\<exists>s'. read_and_sync (DeviceReadSectors_hdd (hdpro_rd with_sema l port)) lsn n buf s = Some (1, s') \<and>
      read_frame s s' \<and> hdd_state (hp_idle with_sema view) (lba_limit l) table (dev s') \<and> err s' = CDVD_ERR_NO \<and>
      (\<forall>x. \<not> scratch s buf x \<longrightarrow>
        memory s' x = write_bytes buf (sector_run (hdd_disc store table) lsn (unat n)) (memory s) x)"
  using hdd.read_and_sync_delivers [OF _ assms(3-5)] hdpro_reads [OF assms(1)] assms(2)
  unfolding hdd_inv_def by blast

theorem hdpro_read_delivers_witness:
  "\<exists>s'. read_and_sync (DeviceReadSectors_hdd (hdpro_rd True True (kit_port_of demo_store))) 0xFF 2 0x100000
      (demo_state demo_hdd_kit) = Some (1, s') \<and>
     memory s' = write_bytes 0x100000 (sector_run (hdd_disc demo_store demo_table) 0xFF 2) (\<lambda>_. 0)"
proof -
  let ?s = "demo_state demo_hdd_kit"
  have kit: "kit_disk (kit_port_of demo_store) kh_view demo_store" by (rule kit_port_disk) (simp add: demo_store_def)
  have "read_ready ?s 0xFF 2 0x100000" by (simp add: read_ready_def demo_state_def)
  moreover have "hdd_state (hp_idle True kh_view) (lba_limit True) demo_table (dev ?s)"
    using demo_hdd_kit_state by (simp add: demo_state_def)
  moreover have "hdd_readable demo_table 0xFF (unat (2 :: u32))"
    by (auto simp: hdd_readable_def demo_table_def demo_table_parts less_2_cases_iff)
  ultimately show ?thesis
    using hdpro_read_delivers [OF kit, where with_sema = True and l = True and table = demo_table and s = ?s and
        lsn = "0xFF" and n = 2 and buf = "0x100000"] demo_idle [of demo_hdd_kit]
    by (auto simp: scratch_def demo_state_def)
qed

text \<open>
  C11. The same from a file on an SMB server, or ten of them: while the server answers a read
  request inside a file with the bytes of the file, after any number of keep-alives and in any
  fragments, a read that stays within a part always comes back and stores the bytes of the files.
\<close>

theorem smb_read_delivers:
  assumes "smb_server ip sock serving tid uid file_size file_byte"
    and "smb_session with_sema sock serving tid uid fids (dev s)"
    and "parts_inside parts (smb_inside file_size fids) lsn (unat n)" and "read_ready s lsn n buf" and "drive_idle s"
  shows "\<exists>s'. read_and_sync (DeviceReadSectors_smb parts with_sema ip) lsn n buf s = Some (1, s') \<and> read_frame s s' \<and>
      smb_session with_sema sock serving tid uid fids (dev s') \<and> err s' = CDVD_ERR_NO \<and>
      (\<forall>x. \<not> scratch s buf x \<longrightarrow> memory s' x
        = write_bytes buf (sector_run (parts_disc parts (smb_part file_byte fids)) lsn (unat n)) (memory s) x)"
  using smb.image.read_and_sync_delivers [OF conjI [OF assms(1,2)] assms(3-5)]
  unfolding DeviceReadSectors_smb_def by blast

theorem smb_read_delivers_witness:
  "\<exists>s'. read_and_sync (DeviceReadSectors_smb 1 True demo_ip) 16 3 0x100000 (demo_state demo_smb) = Some (1, s') \<and>
     memory s' = write_bytes 0x100000 (sector_run (parts_disc 1 (smb_part demo_byte (FIDs demo_smb))) 16 3) (\<lambda>_. 0)"
proof -
  let ?s = "demo_state demo_smb"
  have "read_ready ?s 16 3 0x100000" by (simp add: read_ready_def demo_state_def)
  moreover have "smb_session True 3 (\<lambda>n. n = []) 5 6 (FIDs demo_smb) (dev ?s)"
    using demo_session by (simp add: demo_state_def)
  moreover have "parts_inside 1 (smb_inside (\<lambda>fid. 0x40000000) (FIDs demo_smb)) 16 (unat (3 :: u32))"
    by (simp add: parts_inside_def parts_readable_def smb_inside_def)
  ultimately show ?thesis
    using smb_read_delivers [OF demo_server, where with_sema = True and fids = "FIDs demo_smb" and parts = 1 and s = ?s and
        lsn = 16 and n = 3 and buf = "0x100000" and tid = 5 and uid = 6] demo_idle [of demo_smb]
    by (auto simp: scratch_def demo_state_def)
qed

text \<open>
  C32. Pausing a stream while a bank is under way ends it: the callback that would clear
  \<open>StIsReading\<close> is gone when the bank arrives, so that after \<open>sceCdStPause\<close> and
  \<open>sceCdStResume\<close>, both successful, the fill takes itself for running, no read is under way,
  and no alarm will start one.
\<close>

theorem pause_stalls_stream:
  assumes "stream_inv (bdm_disc store lba k) pos s" and "bdm_inv store lba k (dev s)"
    and "StIsReading (SD s) \<noteq> 0" and "intr_ef s AND 1 = 0" and "B_of (SD s) * k < 2 ^ 16"
    and "unat (Stlsn (SD s)) + B_of (SD s) < 2 ^ 32"
  shows "\<exists>s1 s2. sceCdStPause DeviceReadSectors_bdm s = Some (1, s1) \<and> sceCdStResume s1 = (1, s2) \<and>
    SD s2 = SD s \<and> \<not> sync_flag s2 \<and> semas s2 cdrom_rthread_sema = 0 \<and> stm_alarm s2 = None \<and>
    StFillStreamBuffer s2 = (0, s2)"
  using assms(5) by (intro bdm.Pause_Resume_stalls [OF assms(1-4) _ assms(6)]) (simp add: bdm_readable_def)

theorem pause_stalls_stream_witness:
  "\<exists>s1 s2. sceCdStPause DeviceReadSectors_bdm demo_busy = Some (1, s1) \<and> sceCdStResume s1 = (1, s2) \<and>
    StFillStreamBuffer s2 = (0, s2) \<and> \<not> sync_flag s2"
proof -
  have "\<exists>s1 s2. sceCdStPause DeviceReadSectors_bdm demo_busy = Some (1, s1) \<and> sceCdStResume s1 = (1, s2) \<and>
    SD s2 = SD demo_busy \<and> \<not> sync_flag s2 \<and> semas s2 cdrom_rthread_sema = 0 \<and> stm_alarm s2 = None \<and>
    StFillStreamBuffer s2 = (0, s2)"
    using demo_bdm_inv
    by (intro pause_stalls_stream [OF demo_busy_inv, where store = demo_store and lba = 390359 and k = 4])
      (simp_all add: demo_busy_def demo_dry_def demo_state_def demo_ring_def)
  then show ?thesis by blast
qed

text \<open>
  A directory whose length is at most one sector is searched in that one sector: the search
  reads it into the module's buffer and is decided by it. The length that \<open>fs_init\<close> keeps for
  the root directory is that of its directory record, always below one sector, so that of a root
  directory only the first sector is ever searched.
\<close>

theorem one_sector_searched:
  assumes "bdm_inv store lba k (dev s)" and "drive_idle s" and "13 \<le> l" and "unat l + 1 < 2 ^ 32"
    and "cdvdman_buf s AND 3 = 0" and "k < 2 ^ 16"
    and "0 < unat tocLength" and "unat tocLength \<le> 2048"
  shows "\<exists>s'. read_frame s s' \<and> bdm_inv store lba k (dev s') \<and>
    memory s' = write_bytes (cdvdman_buf s) (bdm_disc store lba k l) (memory s) \<and>
    scan_directory DeviceReadSectors_bdm nm slash l tocLength s
      = map_option (\<lambda>res. (res, s')) (scan_sector (memory s') (cdvdman_buf s) nm slash 0)"
  using assms(6) by (intro bdm.scan_directory_one [OF assms(1,2) _ assms(3-5,7,8)]) (simp add: bdm_readable_def)

theorem one_sector_searched_witness:
  "\<exists>s'. memory s' = write_bytes 0x20000 (bdm_disc demo_store 390359 4 261) (\<lambda>_. 0) \<and>
    scan_directory DeviceReadSectors_bdm [0x41] False 261 34 demo_file
      = map_option (\<lambda>res. (res, s')) (scan_sector (memory s') 0x20000 [0x41] False 0)"
proof -
  have f: "drive_idle demo_file" "cdvdman_buf demo_file = 0x20000" "memory demo_file = (\<lambda>_. 0)"
    by (simp_all add: demo_file_def demo_state_def drive_idle_def)
  show ?thesis
    using one_sector_searched [where store = demo_store and lba = 390359 and k = 4 and s = demo_file and
        l = 261 and tocLength = 34 and nm = "[0x41]" and slash = False] demo_bdm_inv
    by (auto simp: f)
qed

end
